(* ===== verification/Omni_Prelude.thy ===== *)
theory Omni_Prelude
  imports Main "HOL-Library.Word"
begin

text \<open>
  Shared vocabulary of the development.

  \<^item> Go's fixed-width integers: an \<open>int64\<close> is an \<open>int\<close> whose every arithmetic
    result is passed through \<open>i64\<close> (two's complement wrap-around written out), so an
    overflow of the Go code is an overflow of the model. Bit patterns are \<open>32 word\<close>.
  \<^item> Errors are values: \<open>go_error\<close> names the errors of
    \<^verbatim>\<open>omnilink-base/types/error.go\<close> the modelled code returns, and \<open>GoPanic\<close> is a
    Go panic. A fallible operation returns \<open>go_error + 'a\<close>.
  \<^item> Finite sums over the values of a map, the accounting device of the ledger proofs.
\<close>

named_theorems go_int \<open>facts that discharge the wrap-around of 64-bit arithmetic\<close>

section \<open>Machine integers\<close>

type_synonym bytes = "8 word list"

definition i64 :: "int \<Rightarrow> int" where
  "i64 x = (x + 2 ^ 63) mod 2 ^ 64 - 2 ^ 63"

definition in_i64 :: "int \<Rightarrow> bool" where
  "in_i64 x \<longleftrightarrow> - (2 ^ 63) \<le> x \<and> x < 2 ^ 63"

definition i32 :: "int \<Rightarrow> int" where
  "i32 x = (x + 2 ^ 31) mod 2 ^ 32 - 2 ^ 31"

text \<open>Go's integer division truncates.\<close>

definition go_div :: "int \<Rightarrow> int \<Rightarrow> int" where
  "go_div a b = sgn a * sgn b * (\<bar>a\<bar> div \<bar>b\<bar>)"

definition go_mod :: "int \<Rightarrow> int \<Rightarrow> int" where
  "go_mod a b = a - b * go_div a b"

lemma i32_id [go_int]: "0 \<le> x \<Longrightarrow> x < 2 ^ 31 \<Longrightarrow> i32 x = x"
  by (simp add: i32_def)

lemma i64_id [go_int]: "in_i64 x \<Longrightarrow> i64 x = x"
  by (simp add: i64_def in_i64_def)

lemma i64_range [simp]: "in_i64 (i64 x)"
  by (simp add: i64_def in_i64_def)

lemma i64_idem [simp]: "i64 (i64 x) = i64 x"
  by (rule i64_id) simp

lemma i64_add_left [simp]: "i64 (i64 x + y) = i64 (x + y)"
proof -
  have "((x + 2 ^ 63) mod 2 ^ 64 - 2 ^ 63 + y + 2 ^ 63) mod 2 ^ 64 = ((x + 2 ^ 63) + y) mod (2 ^ 64 :: int)"
    by (simp add: mod_simps)
  then show ?thesis by (simp add: i64_def algebra_simps)
qed

lemma i64_add_right: "i64 (x + i64 y) = i64 (x + y)"
  using i64_add_left [of y x] by (simp add: add.commute)

lemma i64_nonneg_range [go_int]: "0 \<le> x \<Longrightarrow> x < 2 ^ 63 \<Longrightarrow> in_i64 x"
  by (simp add: in_i64_def)

lemma i64_diff_nonneg [go_int]:
  "0 \<le> x \<Longrightarrow> x < 2 ^ 63 \<Longrightarrow> 0 \<le> y \<Longrightarrow> y < 2 ^ 63 \<Longrightarrow> i64 (x - y) = x - y"
  by (rule i64_id) (simp add: in_i64_def)

lemma le_div_int:
  fixes a n d :: int assumes "0 < d" "a * d \<le> n" shows "a \<le> n div d"
  using zdiv_mono1 [OF assms(2,1)] assms(1) by simp

lemma div_less_int:
  fixes b n d :: int assumes "0 < d" "n < b * d" shows "n div d < b"
proof (rule ccontr)
  assume "\<not> n div d < b"
  then have "b * d \<le> n div d * d" using assms(1) by simp
  also have "\<dots> \<le> n" using assms(1) by (simp add: minus_mod_eq_div_mult [symmetric])
  finally show False using assms(2) by simp
qed

section \<open>Errors\<close>

datatype go_error =
    ErrAmount | ErrNoBalance | ErrSendSameToRecv | ErrNotAllowDeposit
  | ErrExecNameNotAllow | ErrSymbolNameNotAllow | ErrNotFound
  | ErrInvalidParam | ErrEmptyTx | ErrBlockHeaderDifficulty | ErrDisableRead | ErrDisableWrite
  | ErrIsClosed | ErrBlockHashNoMatch | ErrBlockExist | ErrNotSupport | ErrParentBlockNoExist
  | ErrBlockHeightNoMatch | ErrParentTdNoExist | ErrHashNotExist | ErrHeightNotExist | ErrFutureBlock
  | ErrTxGroupCountLessThanTwo | ErrTxGroupEmpty | ErrTxGroupParaCount | ErrTxGroupParaMainMixed
  | ErrTxGroupFeeNotZero | ErrTxFeeTooLow | ErrTxFeeTooHigh | ErrTxGroupHeader
  | ErrTxGroupCountBigThanMaxSize | ErrTxGroupCount | ErrTxGroupNext | ErrNomalTx | ErrDecode
  | ErrTxMsgSizeTooBig | ErrTxChainID | ErrIndex
  | ErrTxExist | ErrManyTx | ErrMemFull | ErrNilTransaction | ErrCacheOverFlow | ErrDupTx | ErrTxExpire
  | ErrNodeNotExist | ErrHashNotFound | ErrDataBaseDamage | ErrActionNotSupport | ErrTypeAsset | ErrSize | ErrHeaderNotSet | ErrInvalidAddress | ErrLowNonce | ErrDisableAcceleration | ErrNotSync | ErrSign | ErrOther string
  | GoPanic

text \<open>A Go loop that returns the first error it meets; \<open>None\<close> is the nil error.\<close>

fun first_error :: "('a \<Rightarrow> go_error option) \<Rightarrow> 'a list \<Rightarrow> go_error option" where
  "first_error f [] = None"
| "first_error f (x # xs) = (case f x of Some e \<Rightarrow> Some e | None \<Rightarrow> first_error f xs)"

lemma first_error_None [simp]: "first_error f xs = None \<longleftrightarrow> (\<forall>x\<in>set xs. f x = None)"
  by (induction xs) (auto split: option.splits)

section \<open>Sums over the values of a map\<close>

definition kv_sum :: "('k \<Rightarrow> 'v \<Rightarrow> int) \<Rightarrow> ('k \<rightharpoonup> 'v) \<Rightarrow> int" where
  "kv_sum f m = (\<Sum>k\<in>dom m. f k (the (m k)))"

definition kv_at :: "('k \<Rightarrow> 'v \<Rightarrow> int) \<Rightarrow> ('k \<rightharpoonup> 'v) \<Rightarrow> 'k \<Rightarrow> int" where
  "kv_at f m k = (case m k of None \<Rightarrow> 0 | Some v \<Rightarrow> f k v)"

lemma kv_sum_empty [simp]: "kv_sum f Map.empty = 0"
  by (simp add: kv_sum_def)

lemma kv_sum_upd:
  assumes "finite (dom m)"
  shows "kv_sum f (m(k \<mapsto> v)) = kv_sum f m - kv_at f m k + f k v"
proof -
  have other: "(\<Sum>j\<in>dom m - {k}. f j (the ((m(k \<mapsto> v)) j))) = (\<Sum>j\<in>dom m - {k}. f j (the (m j)))"
    by (rule sum.cong) auto
  have "kv_sum f (m(k \<mapsto> v)) = f k v + (\<Sum>j\<in>dom m - {k}. f j (the (m j)))"
    using assms other by (simp add: kv_sum_def sum.insert_remove)
  moreover have "kv_sum f m = kv_at f m k + (\<Sum>j\<in>dom m - {k}. f j (the (m j)))"
  proof (cases "m k")
    case None
    then have "dom m - {k} = dom m" by auto
    with None show ?thesis by (simp add: kv_sum_def kv_at_def)
  next
    case (Some w)
    then have "k \<in> dom m" by auto
    with Some assms show ?thesis by (simp add: kv_sum_def kv_at_def sum.remove)
  qed
  ultimately show ?thesis by simp
qed

lemma kv_sum_upd_irrelevant:
  assumes "finite (dom m)" "f k v = 0" "kv_at f m k = 0"
  shows "kv_sum f (m(k \<mapsto> v)) = kv_sum f m"
  using assms by (simp add: kv_sum_upd)

lemma kv_sum_ge_at:
  assumes "finite (dom m)" "\<And>j w. m j = Some w \<Longrightarrow> 0 \<le> f j w"
  shows "0 \<le> kv_sum f m" and "kv_at f m k \<le> kv_sum f m"
proof -
  show pos: "0 \<le> kv_sum f m"
    unfolding kv_sum_def using assms(2) by (intro sum_nonneg) force
  show "kv_at f m k \<le> kv_sum f m"
  proof (cases "m k")
    case (Some w)
    have "f k (the (m k)) \<le> (\<Sum>j\<in>dom m. f j (the (m j)))"
      using assms Some by (intro member_le_sum) force+
    with Some show ?thesis by (simp add: kv_sum_def kv_at_def)
  qed (simp add: kv_at_def pos)
qed

end
