(* ===== verification/Difficulty.thy ===== *)
theory Difficulty
  imports Omni_Prelude
begin

unbundle bit_operations_syntax

text \<open>
  Package \<^verbatim>\<open>omnilink-base/common/difficulty\<close>: the compact 32-bit form of a
  proof-of-work target, its expansion to an unbounded integer, and the work value a
  target stands for. A \<^verbatim>\<open>big.Int\<close> is an \<open>int\<close>.
\<close>

section \<open>Definitions\<close>

text \<open>\<open>set_bytes\<close> is \<^verbatim>\<open>big.Int.SetBytes\<close>: the big-endian value of a byte slice.\<close>

definition set_bytes :: "bytes \<Rightarrow> int" where
  "set_bytes bs = foldl (\<lambda>acc b. 256 * acc + uint b) 0 bs"

text \<open>The byte swapping loop of \<^verbatim>\<open>HashToBig\<close>, in place.\<close>

function reverse_loop :: "nat \<Rightarrow> bytes \<Rightarrow> bytes" where
  "reverse_loop i buf =
     (if i < length buf div 2
      then reverse_loop (Suc i)
             (buf[i := buf ! (length buf - 1 - i), length buf - 1 - i := buf ! i])
      else buf)"
  by pat_completeness auto
termination
  by (relation "measure (\<lambda>(i, buf). length buf div 2 - i)") auto

declare reverse_loop.simps [simp del]

text \<open>\<open>HashToBig\<close> returns the number and the caller's buffer, which it reverses in place.\<close>

definition HashToBig :: "bytes \<Rightarrow> int \<times> bytes" where
  "HashToBig buf = (let buf' = reverse_loop 0 buf in (set_bytes buf', buf'))"

definition CompactToBig :: "32 word \<Rightarrow> int" where
  "CompactToBig compact =
     (let mantissa = compact AND 0x007fffff;
          isNegative = (compact AND 0x00800000 \<noteq> 0);
          exponent = unat (drop_bit 24 compact);
          bn = (if exponent \<le> 3 then uint (drop_bit (8 * (3 - exponent)) mantissa)
                else uint mantissa * 2 ^ (8 * (exponent - 3)))
      in if isNegative then - bn else bn)"

text \<open>\<open>byte_len n\<close> is \<^verbatim>\<open>len(n.Bytes())\<close>: the bytes of the absolute value.\<close>

fun byte_len :: "nat \<Rightarrow> nat" where
  "byte_len n = (if n = 0 then 0 else Suc (byte_len (n div 256)))"

declare byte_len.simps [simp del]

text \<open>
  \<^verbatim>\<open>Bits()[0]\<close> is the lowest machine word of the absolute value, converted to
  \<^verbatim>\<open>uint32\<close> by truncation; \<^verbatim>\<open>Rsh\<close> on a negative number rounds towards minus
  infinity, as \<open>div\<close> does.
\<close>

definition BigToCompact :: "int \<Rightarrow> 32 word" where
  "BigToCompact n =
     (if n = 0 then 0
      else
        let exponent = byte_len (nat \<bar>n\<bar>);
            mantissa = (if exponent \<le> 3
                        then push_bit (8 * (3 - exponent)) (word_of_int \<bar>n\<bar>)
                        else word_of_int \<bar>n div 2 ^ (8 * (exponent - 3))\<bar>) :: 32 word;
            (mantissa, exponent) =
              (if mantissa AND 0x00800000 \<noteq> 0 then (drop_bit 8 mantissa, Suc exponent)
               else (mantissa, exponent));
            compact = push_bit 24 (of_nat exponent) OR mantissa
        in if n < 0 then compact OR 0x00800000 else compact)"

definition CalcWork :: "32 word \<Rightarrow> int" where
  "CalcWork bits =
     (let difficultyNum = CompactToBig bits
      in if difficultyNum \<le> 0 then 0 else 2 ^ 256 div (difficultyNum + 1))"

section \<open>Work values\<close>

lemma CalcWork_nonneg [simp]: "0 \<le> CalcWork bits"
  by (simp add: CalcWork_def Let_def pos_imp_zdiv_nonneg_iff)

section \<open>Reading a hash as a number\<close>

lemma reverse_loop_nth:
  "i \<le> length buf div 2 \<Longrightarrow>
     length (reverse_loop i buf) = length buf \<and>
     (\<forall>j<length buf. reverse_loop i buf ! j =
        (if i \<le> j \<and> j < length buf - i then buf ! (length buf - 1 - j) else buf ! j))"
proof (induction i buf rule: reverse_loop.induct)
  case (1 i buf)
  let ?n = "length buf"
  let ?buf = "buf[i := buf ! (?n - 1 - i), ?n - 1 - i := buf ! i]"
  show ?case
  proof (cases "i < ?n div 2")
    case True
    then have step: "reverse_loop i buf = reverse_loop (Suc i) ?buf"
      by (simp add: reverse_loop.simps [of i buf])
    have IH: "length (reverse_loop (Suc i) ?buf) = ?n"
      "\<forall>j<?n. reverse_loop (Suc i) ?buf ! j =
         (if Suc i \<le> j \<and> j < ?n - Suc i then ?buf ! (?n - 1 - j) else ?buf ! j)"
      using "1.IH" True by auto
    show ?thesis
      unfolding step using IH True by (auto simp: nth_list_update)
  next
    case False
    then have "reverse_loop i buf = buf"
      by (simp add: reverse_loop.simps [of i buf])
    moreover have "j = ?n - 1 - j" if "i \<le> j" "j < ?n - i" for j
      using that False "1.prems" by linarith
    ultimately show ?thesis by auto
  qed
qed

lemma reverse_loop_rev: "reverse_loop 0 buf = rev buf"
  using reverse_loop_nth [of 0 buf] by (intro nth_equalityI) (auto simp: rev_nth)

lemma set_bytes_rev: "set_bytes (rev bs) = horner_sum uint 256 bs"
  by (induction bs) (simp_all add: set_bytes_def)

lemma HashToBig_eq: "HashToBig buf = (horner_sum uint 256 buf, rev buf)"
  by (simp add: HashToBig_def reverse_loop_rev set_bytes_rev)

lemma horner_sum_bytes_nonneg [simp]: "0 \<le> horner_sum uint 256 (bs :: bytes)"
  by (induction bs) simp_all

lemma horner_sum_bytes_bound: "horner_sum uint 256 (bs :: bytes) < 256 ^ length bs"
proof (induction bs)
  case (Cons b bs)
  have "uint b < 256" using uint_lt2p [of b] by simp
  with Cons show ?case by simp
qed simp

section \<open>The compact form in numbers\<close>

lemma uint_and_mask23: "uint (c AND 0x007fffff :: 32 word) = uint c mod 2 ^ 23"
proof -
  have "c AND 0x007fffff = take_bit 23 c"
    by (simp add: take_bit_eq_mask mask_eq_exp_minus_1)
  then have "uint (c AND 0x007fffff) = take_bit 23 (uint c)"
    by (simp only: unsigned_take_bit_eq)
  then show ?thesis by (simp only: take_bit_eq_mod)
qed

lemma sign_bit_iff: "(c AND 0x00800000 :: 32 word) \<noteq> 0 \<longleftrightarrow> odd (uint c div 2 ^ 23)"
proof -
  have "(c AND 2 ^ 23 = 0) \<longleftrightarrow> \<not> bit c 23" by (rule and_exp_eq_0_iff_not_bit)
  then have "(c AND 0x00800000 \<noteq> 0) \<longleftrightarrow> bit c 23" by simp
  also have "\<dots> \<longleftrightarrow> bit (uint c) 23" by (simp add: bit_uint_iff)
  finally show ?thesis by (simp only: bit_iff_odd)
qed

lemma uint_drop_bit_div: "uint (drop_bit n (c :: 32 word)) = uint c div 2 ^ n"
proof -
  have "uint (drop_bit n c) = drop_bit n (take_bit LENGTH(32) (uint c))"
    by (rule unsigned_drop_bit_eq)
  also have "take_bit LENGTH(32) (uint c) = uint c"
    by (rule take_bit_int_eq_self) (use uint_lt2p [of c] in simp_all)
  finally show ?thesis by (simp only: drop_bit_eq_div)
qed

lemma unat_drop_bit24: "unat (drop_bit 24 (c :: 32 word)) = nat (uint c div 2 ^ 24)"
  by (metis nat_uint_eq uint_drop_bit_div)

lemma or_shift24:
  fixes e m :: int assumes "0 \<le> m" "m < 2 ^ 24"
  shows "push_bit 24 e OR m = e * 2 ^ 24 + m"
proof -
  have m: "take_bit 24 m = m" using assms by (simp add: take_bit_int_eq_self_iff)
  have "\<not> bit (push_bit 24 e) n \<or> \<not> bit m n" for n
    using m by (metis bit_push_bit_iff bit_take_bit_iff linorder_not_less)
  then have "push_bit 24 e + m = push_bit 24 e OR m" by (rule disjunctive_add)
  then show ?thesis by (simp add: push_bit_eq_mult)
qed

lemma uint_pack:
  fixes m :: "32 word" assumes "e < 256" "uint m < 2 ^ 24"
  shows "uint (push_bit 24 (of_nat e) OR m) = int e * 2 ^ 24 + uint m"
proof -
  have "uint (push_bit 24 (of_nat e :: 32 word)) = push_bit 24 (int e)"
    using assms(1) by (simp add: unsigned_push_bit_eq push_bit_eq_mult uint_word_ariths take_bit_eq_mod unsigned_of_nat)
  then show ?thesis using assms(2) by (simp add: uint_or or_shift24)
qed

lemma push_bit_byte_fits:
  assumes "0 \<le> n" "n < 256 ^ e" "e \<le> 3"
  shows "uint (push_bit (8 * (3 - e)) (word_of_int n :: 32 word)) = n * 256 ^ (3 - e)"
proof -
  have le: "n * 256 ^ (3 - e) < 256 ^ 3"
  proof -
    have "n * 256 ^ (3 - e) < 256 ^ e * 256 ^ (3 - e)" using assms by simp
    then show ?thesis using assms(3) by (simp flip: power_add)
  qed
  have "(256::int) ^ e \<le> 256 ^ 3" using assms(3) by (intro power_increasing) auto
  then have n: "uint (word_of_int n :: 32 word) = n"
    using assms by (intro uint_word_of_int_eq [THEN trans] take_bit_int_eq_self) auto
  have "uint (push_bit (8 * (3 - e)) (word_of_int n :: 32 word))
        = take_bit LENGTH(32) (push_bit (8 * (3 - e)) (uint (word_of_int n :: 32 word)))"
    by (rule unsigned_push_bit_eq)
  also have "\<dots> = take_bit LENGTH(32) (n * 256 ^ (3 - e))"
    by (simp only: n push_bit_eq_mult power_mult) simp
  also have "\<dots> = n * 256 ^ (3 - e)"
    using assms le by (intro take_bit_int_eq_self) auto
  finally show ?thesis .
qed
lemma CompactToBig_int:
  "CompactToBig c =
     (let e = nat (uint c div 2 ^ 24); m = uint c mod 2 ^ 23;
          bn = (if e \<le> 3 then m div 256 ^ (3 - e) else m * 256 ^ (e - 3))
      in if odd (uint c div 2 ^ 23) then - bn else bn)"
proof -
  have "(2::int) ^ (8 * k) = 256 ^ k" for k by (simp add: power_mult)
  then show ?thesis
    by (simp only: CompactToBig_def Let_def uint_drop_bit_div uint_and_mask23 unat_drop_bit24
        sign_bit_iff)
qed

lemma byte_len_bounds: "0 < n \<Longrightarrow> 256 ^ (byte_len n - 1) \<le> n \<and> n < 256 ^ byte_len n \<and> 0 < byte_len n"
proof (induction n rule: byte_len.induct)
  case (1 n)
  show ?case
  proof (cases "n < 256")
    case True
    then show ?thesis using "1.prems" by (simp add: byte_len.simps [of n] byte_len.simps [of 0])
  next
    case False
    then have "0 < n div 256" by (simp add: div_greater_zero_iff)
    with "1.IH" "1.prems" have IH: "256 ^ (byte_len (n div 256) - 1) \<le> n div 256"
      "n div 256 < 256 ^ byte_len (n div 256)" "0 < byte_len (n div 256)" by auto
    then have "256 * 256 ^ (byte_len (n div 256) - 1) \<le> n" "n < 256 * 256 ^ byte_len (n div 256)"
      by (simp_all add: less_eq_div_iff_mult_less_eq div_less_iff_less_mult mult.commute)
    with IH(3) "1.prems" show ?thesis
      by (simp add: byte_len.simps [of n]) (metis Suc_pred power_Suc)
  qed
qed

lemma byte_len_less: "n < 256 ^ k \<Longrightarrow> byte_len n \<le> k"
proof (rule ccontr)
  assume n: "n < 256 ^ k" and "\<not> byte_len n \<le> k"
  then have "k \<le> byte_len n - 1" "0 < n" by (auto simp: byte_len.simps [of 0] intro: gr0I)
  then have "(256::nat) ^ k \<le> 256 ^ (byte_len n - 1)" by (intro power_increasing) auto
  with byte_len_bounds [OF \<open>0 < n\<close>] n show False by linarith
qed

text \<open>The 24-bit mantissa of a positive number before the sign bit is looked at.\<close>

definition raw_mantissa :: "int \<Rightarrow> int" where
  "raw_mantissa n =
     (let e = byte_len (nat n) in if e \<le> 3 then n * 256 ^ (3 - e) else n div 256 ^ (e - 3))"

lemma byte_len_int_bounds:
  assumes "0 < n"
  shows "256 ^ (byte_len (nat n) - 1) \<le> n" and "n < 256 ^ byte_len (nat n)"
    and "0 < byte_len (nat n)"
proof -
  have "256 ^ (byte_len (nat n) - 1) \<le> nat n \<and> nat n < 256 ^ byte_len (nat n) \<and> 0 < byte_len (nat n)"
    using assms by (intro byte_len_bounds) simp
  then show "256 ^ (byte_len (nat n) - 1) \<le> n" and "n < 256 ^ byte_len (nat n)"
    and "0 < byte_len (nat n)"
    using assms by (auto simp: nat_le_iff le_nat_iff nat_less_iff)
qed

lemma raw_mantissa_bounds:
  assumes "0 < n"
  shows "2 ^ 16 \<le> raw_mantissa n" and "raw_mantissa n < 2 ^ 24"
proof -
  define e where "e = byte_len (nat n)"
  have b: "256 ^ (e - 1) \<le> n" "n < 256 ^ e" "0 < e"
    using byte_len_int_bounds [OF assms] by (simp_all add: e_def)
  have "2 ^ 16 \<le> raw_mantissa n \<and> raw_mantissa n < 2 ^ 24"
  proof (cases "e \<le> 3")
    case True
    then have "256 ^ (e - 1) * 256 ^ (3 - e) \<le> n * 256 ^ (3 - e)"
      "n * 256 ^ (3 - e) < 256 ^ e * 256 ^ (3 - e)" using b by simp_all
    then show ?thesis using True b(3) by (simp add: raw_mantissa_def e_def [symmetric] flip: power_add)
  next
    case False
    then obtain k where "e = k + 4" using le_Suc_ex [of 4 e] by (auto simp: add.commute)
    then have "(256::int) ^ (e - 1) = 256 ^ 2 * 256 ^ (e - 3)" "(256::int) ^ e = 256 ^ 3 * 256 ^ (e - 3)"
      by (simp_all add: power_add)
    with b have "256 ^ 2 * 256 ^ (e - 3) \<le> n" "n < 256 ^ 3 * 256 ^ (e - 3)" by simp_all
    then have "256 ^ 2 \<le> n div 256 ^ (e - 3)" "n div 256 ^ (e - 3) < 256 ^ 3"
      by (auto intro: le_div_int div_less_int)
    then show ?thesis using False by (simp add: raw_mantissa_def e_def [symmetric])
  qed
  then show "2 ^ 16 \<le> raw_mantissa n" and "raw_mantissa n < 2 ^ 24" by simp_all
qed

lemma BigToCompact_pos:
  assumes n: "0 < n" "n < 256 ^ 254"
  shows "uint (BigToCompact n) =
    (if raw_mantissa n < 2 ^ 23 then int (byte_len (nat n)) * 2 ^ 24 + raw_mantissa n
     else int (Suc (byte_len (nat n))) * 2 ^ 24 + raw_mantissa n div 256)"
proof -
  define e where "e = byte_len (nat n)"
  define m :: "32 word" where
    "m = (if e \<le> 3 then push_bit (8 * (3 - e)) (word_of_int \<bar>n\<bar>)
          else word_of_int \<bar>n div 2 ^ (8 * (e - 3))\<bar>)"
  note b = byte_len_int_bounds [OF n(1), folded e_def]
  note r = raw_mantissa_bounds [OF n(1)]
  have "nat n < 256 ^ 254" using n by (simp add: nat_less_iff)
  then have e: "e \<le> 254" unfolding e_def by (rule byte_len_less)
  have um: "uint m = raw_mantissa n"
  proof (cases "e \<le> 3")
    case True
    then show ?thesis
      using n b push_bit_byte_fits [of n e] by (simp add: m_def raw_mantissa_def e_def [symmetric])
  next
    case False
    then have "raw_mantissa n = n div 2 ^ (8 * (e - 3))"
      by (simp add: raw_mantissa_def e_def [symmetric] power_mult)
    with False r show ?thesis
      by (simp add: m_def uint_word_of_int_eq take_bit_int_eq_self)
  qed
  have sign: "m AND 0x00800000 \<noteq> 0 \<longleftrightarrow> \<not> raw_mantissa n < 2 ^ 23"
  proof -
    have "odd (x div 2 ^ 23) \<longleftrightarrow> \<not> x < 2 ^ 23" if "0 \<le> x" "x < 2 ^ 24" for x :: int
    proof -
      have "x div 2 ^ 23 = 0 \<or> x div 2 ^ 23 = 1" using that by auto
      then show ?thesis using that by auto
    qed
    with r show ?thesis by (simp only: sign_bit_iff um) simp
  qed
  have "BigToCompact n =
      (if m AND 0x00800000 \<noteq> 0 then push_bit 24 (of_nat (Suc e)) OR drop_bit 8 m
       else push_bit 24 (of_nat e) OR m)"
    using n by (simp only: BigToCompact_def Let_def abs_of_pos e_def [symmetric]) (simp add: m_def)
  then show ?thesis
    using e r uint_pack [of e m] uint_pack [of "Suc e" "drop_bit 8 m"]
    by (simp only: sign um uint_drop_bit_div e_def [symmetric]) auto
qed

lemma CompactToBig_packed:
  assumes c: "uint c = int E * 2 ^ 24 + M" and M: "0 \<le> M" "M < 2 ^ 23"
  shows "CompactToBig c = (if E \<le> 3 then M div 256 ^ (3 - E) else M * 256 ^ (E - 3))"
    and "unat (drop_bit 24 c) = E"
proof -
  have 1: "uint c div 2 ^ 24 = int E" unfolding c using M by simp
  have split: "uint c = M + 2 ^ 23 * (int E * 2)" unfolding c by simp
  have Md: "M mod 2 ^ 23 = M" "M div 2 ^ 23 = 0" using M by simp_all
  have 2: "uint c mod 2 ^ 23 = M" unfolding split by (simp only: mod_mult_self2 Md)
  have "(M + 2 ^ 23 * x) div 2 ^ 23 = x + M div 2 ^ 23" for x by (rule div_mult_self2) simp
  then have 3: "uint c div 2 ^ 23 = int E * 2" by (simp only: split Md add_0_right)
  show "CompactToBig c = (if E \<le> 3 then M div 256 ^ (3 - E) else M * 256 ^ (E - 3))"
    by (simp only: CompactToBig_int Let_def 1 2 3) simp
  show "unat (drop_bit 24 c) = E" by (simp only: unat_drop_bit24 1 nat_int)
qed

lemma BigToCompact_expand:
  assumes n: "0 < n" "n < 256 ^ 254"
  defines "E \<equiv> unat (drop_bit 24 (BigToCompact n))"
  shows "CompactToBig (BigToCompact n) = n - n mod 256 ^ (E - 3)"
proof -
  define e where "e = byte_len (nat n)"
  note u = BigToCompact_pos [OF n, folded e_def]
  note r = raw_mantissa_bounds [OF n(1)]
  have trunc: "n - n mod d = n div d * d" for d :: int by (simp add: minus_mod_eq_div_mult)
  show ?thesis
  proof (cases "raw_mantissa n < 2 ^ 23")
    case True
    then have "uint (BigToCompact n) = int e * 2 ^ 24 + raw_mantissa n" by (simp only: u if_True)
    from CompactToBig_packed [OF this] r True
    have "E = e" and c: "CompactToBig (BigToCompact n) =
        (if e \<le> 3 then raw_mantissa n div 256 ^ (3 - e) else raw_mantissa n * 256 ^ (e - 3))"
      by (simp_all add: E_def)
    then show ?thesis by (simp add: trunc raw_mantissa_def e_def [symmetric])
  next
    case False
    then have "uint (BigToCompact n) = int (Suc e) * 2 ^ 24 + raw_mantissa n div 256"
      by (simp only: u if_False)
    from CompactToBig_packed [OF this] r
    have E: "E = Suc e" and c: "CompactToBig (BigToCompact n) =
        (if Suc e \<le> 3 then raw_mantissa n div 256 div 256 ^ (3 - Suc e)
         else raw_mantissa n div 256 * 256 ^ (Suc e - 3))"
      by (simp_all only: E_def) simp_all
    consider "e \<le> 2" | "e = 3" | k where "e = k + 4"
      using le_Suc_ex [of 4 e] by (cases "e \<le> 3") (force simp: add.commute)+
    then show ?thesis
    proof cases
      case 1
      then obtain k where "2 = e + k" using le_Suc_ex by blast
      then have "3 - e = Suc k" "3 - Suc e = k" by auto
      with 1 E c show ?thesis by (simp add: raw_mantissa_def e_def [symmetric] zdiv_zmult2_eq [symmetric])
    next
      case 2
      with E c show ?thesis by (simp add: trunc raw_mantissa_def e_def [symmetric])
    next
      case 3
      then show ?thesis using E c
        by (simp add: trunc raw_mantissa_def e_def [symmetric] zdiv_zmult2_eq [symmetric] mult.commute)
    qed
  qed
qed

text \<open>Compact words in the form the encoder produces, and the way back.\<close>

definition canonical_compact :: "32 word \<Rightarrow> bool" where
  "canonical_compact c \<longleftrightarrow>
     3 \<le> unat (drop_bit 24 c) \<and> unat (drop_bit 24 c) < 254 \<and>
     c AND 0x00800000 = 0 \<and> 0x8000 \<le> c AND 0x007fffff"

lemma byte_len_unique:
  assumes "0 < k" "256 ^ (k - 1) \<le> n" "n < 256 ^ k"
  shows "byte_len n = k"
proof -
  have n: "0 < n" using assms(2) by (rule order.strict_trans2 [rotated]) simp
  have "byte_len n \<le> k" using assms(3) by (rule byte_len_less)
  moreover have "\<not> byte_len n \<le> k - 1"
  proof
    assume "byte_len n \<le> k - 1"
    then have "(256::nat) ^ byte_len n \<le> 256 ^ (k - 1)" by (intro power_increasing) auto
    with byte_len_bounds [OF n] assms(2) show False by linarith
  qed
  ultimately show ?thesis by linarith
qed

lemma byte_len_shift:
  assumes "256 ^ j \<le> m" "m < 256 ^ Suc j"
  shows "byte_len (nat (m * 256 ^ i)) = Suc (j + i)"
proof (rule byte_len_unique)
  have 1: "256 ^ j * 256 ^ i \<le> m * 256 ^ i" using assms(1) by simp
  have 2: "m * 256 ^ i < 256 ^ Suc j * 256 ^ i" using assms(2) by simp
  have "0 \<le> m" using assms(1) by (rule order_trans [rotated]) simp
  then have pos: "0 \<le> m * 256 ^ i" by simp
  show "256 ^ (Suc (j + i) - 1) \<le> nat (m * 256 ^ i)"
    using 1 pos by (simp add: le_nat_iff power_add)
  show "nat (m * 256 ^ i) < 256 ^ Suc (j + i)"
    using 2 pos by (simp add: nat_less_iff power_add)
qed simp

lemma compact_fields: "uint (c :: 32 word) =
    int (unat (drop_bit 24 c)) * 2 ^ 24 + (if c AND 0x00800000 \<noteq> 0 then 2 ^ 23 else 0) + uint (c AND 0x007fffff)"
proof -
  let ?x = "uint c"
  have "?x = ?x div 2 ^ 24 * 2 ^ 24 + ?x mod 2 ^ 24" by simp
  moreover have "?x mod 2 ^ 24 = 2 ^ 23 * (?x div 2 ^ 23 mod 2) + ?x mod 2 ^ 23"
    using mod_mult2_eq' [of ?x "2 ^ 23" 2] by simp
  moreover have "?x div 2 ^ 23 mod 2 = (if c AND 0x00800000 \<noteq> 0 then 1 else 0)"
    by (simp only: sign_bit_iff) (simp add: odd_iff_mod_2_eq_one)
  moreover have "int (unat (drop_bit 24 c)) = ?x div 2 ^ 24"
    by (simp add: unat_drop_bit24)
  ultimately show ?thesis by (simp only: uint_and_mask23) (auto split: if_splits)
qed

lemma BigToCompact_CompactToBig_aux:
  assumes c: "uint c = int (i + 3) * 2 ^ 24 + m" and i: "i < 251" and m: "2 ^ 15 \<le> m" "m < 2 ^ 23"
  shows "BigToCompact (CompactToBig c) = c"
proof -
  let ?n = "m * 256 ^ i"
  have n: "CompactToBig c = ?n"
    using CompactToBig_packed [OF c] m by simp
  have pos: "0 < ?n" using m by simp
  have "?n < 256 ^ 3 * 256 ^ i" using m by simp
  also have "\<dots> \<le> 256 ^ 254" using i by (simp only: power_add [symmetric]) (intro power_increasing, auto)
  finally have small: "?n < 256 ^ 254" .
  have "uint (BigToCompact ?n) = uint c"
  proof (cases "2 ^ 16 \<le> m")
    case True
    then have len: "byte_len (nat ?n) = i + 3" using m byte_len_shift [of 2 m i] by simp
    have "raw_mantissa ?n = m" by (simp add: raw_mantissa_def len Let_def)
    then show ?thesis using m BigToCompact_pos [OF pos small] by (simp add: len c)
  next
    case False
    then have len: "byte_len (nat ?n) = i + 2" using m byte_len_shift [of 1 m i] by simp
    have raw: "raw_mantissa ?n = (if i \<le> 1 then ?n * 256 ^ (1 - i) else ?n div 256 ^ (i - 1))"
      by (simp only: raw_mantissa_def len Let_def) simp
    have "raw_mantissa ?n = m * 256"
    proof (cases i)
      case (Suc j)
      then show ?thesis unfolding raw by (cases "j = 0") (simp_all flip: mult.assoc)
    qed (use raw in simp)
    then show ?thesis using m BigToCompact_pos [OF pos small] by (simp add: len c)
  qed
  then show ?thesis by (simp add: n word_uint_eq_iff)
qed


section \<open>Properties\<close>

text \<open>
  Compacting a target and expanding it again only clears the low bytes the 23-bit
  mantissa cannot hold: for every target below \<open>256 ^ 254\<close> the result is the target
  rounded down to a multiple of \<open>256 ^ (exponent - 3)\<close>, so a re-encoded proof-of-work
  target is never easier than the original, and it is exact up to three bytes.
\<close>

theorem BigToCompact_truncates:
  assumes "0 \<le> n" and "n < 256 ^ 254"
  shows "CompactToBig (BigToCompact n) = n - n mod 256 ^ (unat (drop_bit 24 (BigToCompact n)) - 3)"
proof (cases "n = 0")
  case True
  then show ?thesis by (simp add: BigToCompact_def CompactToBig_def)
next
  case False
  with assms show ?thesis by (intro BigToCompact_expand) simp_all
qed

theorem BigToCompact_truncates_witness:
  "CompactToBig (BigToCompact 0x1234567890) =
     0x1234567890 - 0x1234567890 mod 256 ^ (unat (drop_bit 24 (BigToCompact 0x1234567890)) - 3)"
  by (rule BigToCompact_truncates) simp_all

text \<open>
  The compact word is recovered from the target it stands for: for every canonical
  word (sign bit clear, exponent from 3 to 253, top mantissa byte in use) encoding the
  expanded target gives the same 32 bits back, so difficulty bits survive being carried
  as a number.
\<close>

theorem BigToCompact_CompactToBig:
  assumes "canonical_compact c"
  shows "BigToCompact (CompactToBig c) = c"
proof -
  obtain i where i: "unat (drop_bit 24 c) = i + 3" "i < 251"
    using assms le_Suc_ex [of 3 "unat (drop_bit 24 c)"]
    by (auto simp: canonical_compact_def add.commute)
  have "uint c = int (i + 3) * 2 ^ 24 + uint (c AND 0x007fffff)"
    using compact_fields [of c] assms i by (simp add: canonical_compact_def)
  moreover have "2 ^ 15 \<le> uint (c AND 0x007fffff)"
    using assms by (simp add: canonical_compact_def word_le_def)
  moreover have "uint (c AND 0x007fffff) < 2 ^ 23" by (simp only: uint_and_mask23) simp
  ultimately show ?thesis using i(2) by (intro BigToCompact_CompactToBig_aux)
qed

theorem BigToCompact_CompactToBig_witness: "BigToCompact (CompactToBig 0x1f00ffff) = 0x1f00ffff"
  by (rule BigToCompact_CompactToBig) (simp add: canonical_compact_def)

text \<open>
  A harder target is worth at least as much work: between two positive targets the
  smaller one has the larger or equal work value, and work is never negative.
\<close>

theorem CalcWork_antimono:
  assumes "0 < CompactToBig a" and "CompactToBig a \<le> CompactToBig b"
  shows "0 \<le> CalcWork b \<and> CalcWork b \<le> CalcWork a"
  using assms by (simp add: CalcWork_def Let_def zdiv_mono2 pos_imp_zdiv_nonneg_iff)

theorem CalcWork_antimono_witness:
  "0 \<le> CalcWork 0x1f00ffff \<and> CalcWork 0x1f00ffff \<le> CalcWork 0x1e00ffff"
  by (rule CalcWork_antimono) (simp_all add: CompactToBig_def)

text \<open>
  A block adds work to its chain exactly when its target is positive and fits in 256
  bits; every other compact word counts for nothing.
\<close>

theorem CalcWork_positive_iff:
  "0 < CalcWork bits \<longleftrightarrow> 0 < CompactToBig bits \<and> CompactToBig bits < 2 ^ 256"
proof (cases "0 < CompactToBig bits")
  case True
  have "0 < 2 ^ 256 div (t + 1) \<longleftrightarrow> t < 2 ^ 256" if "0 < t" for t :: int
    using that by (simp only: pos_imp_zdiv_pos_iff) linarith
  with True show ?thesis by (simp add: CalcWork_def Let_def)
qed (simp add: CalcWork_def Let_def)

text \<open>
  A hash is read as a little-endian number: \<open>HashToBig\<close> is the base-256 value of the
  bytes from the last to the first, it stays below \<open>256 ^ length\<close>, and it leaves the
  caller's buffer reversed, which is why the proof-of-work code copies the hash first.
\<close>

theorem HashToBig_little_endian:
  "fst (HashToBig buf) = horner_sum uint 256 buf \<and> snd (HashToBig buf) = rev buf \<and>
   0 \<le> fst (HashToBig buf) \<and> fst (HashToBig buf) < 256 ^ length buf"
  by (simp add: HashToBig_eq horner_sum_bytes_bound)

end
