(* ===== verification/Account.thy ===== *)
theory Account
  imports Omni_Prelude "HOL-Library.Sublist"
begin

text \<open>
  Package \<^verbatim>\<open>omnilink-base/account\<close>: the asset ledger over a key-value store.
  \<^verbatim>\<open>account.go\<close> keeps one account per address, \<^verbatim>\<open>execaccount.go\<close> the
  sub-accounts an address holds inside a contract (available and frozen balance), and
  \<^verbatim>\<open>genesis.go\<close> the first issue of coins.

  The store holds encoded protobuf messages. The protobuf codec, the address drivers and
  the chain configuration are not part of this package, so they are the fields of
  \<open>acc_env\<close>, a parameter of every definition; the type \<open>'v\<close> of encoded values is left
  open. Every operation returns the error or receipt together with the ledger afterwards.
\<close>

section \<open>Data\<close>

record account =
  Currency :: int
  Balance :: int
  Frozen :: int
  Addr :: string

text \<open>The messages this package encodes: an account, and the receipts \<open>Prev\<close>/\<open>Current\<close>.\<close>

datatype acc_msg =
    MAccount account
  | MReceiptAccountTransfer account account
  | MReceiptExecAccountTransfer string account account
  | MReceiptAccountMint account account
  | MReceiptAccountBurn account account

type_synonym 'v kvs = "(string \<times> 'v) list"

record 'v receipt_log =
  LogTy :: nat
  LogData :: 'v

record 'v receipt =
  Ty :: nat
  KV :: "'v kvs"
  Logs :: "'v receipt_log list"

record 'v acc_env =
  CoinPrecision :: int
  CoinExec :: string
  CoinSymbol :: string
  MinerExecs :: "string list"
  ExecName :: "string \<Rightarrow> string"
  ExecAddr :: "string \<Rightarrow> string"
  IsHexAddress :: "string \<Rightarrow> bool"
  FormatKeyFork :: bool
  Encode :: "acc_msg \<Rightarrow> 'v"
  DecodeAccount :: "'v \<Rightarrow> account option"

record 'v acc_db =
  db :: "string \<rightharpoonup> 'v"
  accountKeyPerfix :: string
  execAccountKeyPerfix :: string
  execer :: string
  symbol :: string
  accountKeyBuffer :: string

section \<open>Constants and checks\<close>

definition MaxCoin :: int where "MaxCoin = 1000000000"

definition MaxTokenBalance :: int where "MaxTokenBalance = 900 * 100000000 * 100000000"

definition ExecOk :: nat where "ExecOk = 2"

definition CheckAmount :: "'v acc_env \<Rightarrow> int \<Rightarrow> bool" where
  "CheckAmount env amount =
     (if amount \<le> 0 \<or> amount \<ge> i64 (MaxCoin * CoinPrecision env) then False else True)"

definition safeAdd :: "int \<Rightarrow> int \<Rightarrow> go_error + int" where
  "safeAdd balance amount =
     (if i64 (balance + amount) < amount \<or> i64 (balance + amount) > MaxTokenBalance
      then Inl ErrAmount else Inr (i64 (balance + amount)))"

section \<open>Keys\<close>

definition lower_char :: "char \<Rightarrow> char" where
  "lower_char c = (if 65 \<le> (of_char c :: nat) \<and> (of_char c :: nat) \<le> 90
                   then char_of ((of_char c :: nat) + 32) else c)"

definition FormatEthAddress :: "string \<Rightarrow> string" where
  "FormatEthAddress addr = map lower_char addr"

text \<open>The driver's \<^verbatim>\<open>formatAddr\<close> lower-cases once the key format fork is active.\<close>

definition formatAddr :: "'v acc_env \<Rightarrow> string \<Rightarrow> string" where
  "formatAddr env addr = (if FormatKeyFork env then FormatEthAddress addr else addr)"

definition FormatAddrKey :: "'v acc_env \<Rightarrow> string \<Rightarrow> string" where
  "FormatAddrKey env addr = (if IsHexAddress env addr then formatAddr env addr else addr)"

definition symbolPrefix :: "string \<Rightarrow> string \<Rightarrow> string" where
  "symbolPrefix exec sname = ''mavl-'' @ exec @ ''-'' @ sname @ ''-''"

definition newAccountDB :: "string \<Rightarrow> 'v acc_db" where
  "newAccountDB pre =
     \<lparr>db = Map.empty, accountKeyPerfix = pre, execAccountKeyPerfix = pre @ ''exec-'',
      execer = '''', symbol = '''', accountKeyBuffer = pre\<rparr>"

definition NewCoinsAccount :: "'v acc_env \<Rightarrow> 'v acc_db" where
  "NewCoinsAccount env =
     newAccountDB (''mavl-'' @ CoinExec env @ ''-'' @ CoinSymbol env @ ''-'')"

definition SetDB :: "'v acc_db \<Rightarrow> (string \<rightharpoonup> 'v) \<Rightarrow> 'v acc_db" where
  "SetDB acc m = acc\<lparr>db := m\<rparr>"

definition NewAccountDB ::
  "string \<Rightarrow> string \<Rightarrow> (string \<rightharpoonup> 'v) \<Rightarrow> go_error + 'v acc_db" where
  "NewAccountDB exec sname m =
     (if CHR ''-'' \<in> set exec then Inl ErrExecNameNotAllow
      else if CHR ''-'' \<in> set sname then Inl ErrSymbolNameNotAllow
      else Inr (SetDB ((newAccountDB (symbolPrefix exec sname))\<lparr>execer := exec, symbol := sname\<rparr>) m))"

text \<open>
  \<^verbatim>\<open>accountReadKey\<close> truncates its scratch buffer to the prefix and appends the
  address; what a call leaves after the prefix is cut off by the next one, so the model
  keeps the buffer as \<^verbatim>\<open>newAccountDB\<close> filled it.
\<close>

definition accountReadKey :: "'v acc_env \<Rightarrow> 'v acc_db \<Rightarrow> string \<Rightarrow> string" where
  "accountReadKey env acc addr =
     take (length (accountKeyPerfix acc)) (accountKeyBuffer acc) @ FormatAddrKey env addr"

definition AccountKey :: "'v acc_env \<Rightarrow> 'v acc_db \<Rightarrow> string \<Rightarrow> string" where
  "AccountKey env acc addr = accountKeyPerfix acc @ FormatAddrKey env addr"

definition execAccountKey :: "'v acc_env \<Rightarrow> 'v acc_db \<Rightarrow> string \<Rightarrow> string \<Rightarrow> string" where
  "execAccountKey env acc addr execaddr =
     execAccountKeyPerfix acc @ execaddr @ '':'' @ FormatAddrKey env addr"

section \<open>Loading and saving\<close>

definition new_account :: "string \<Rightarrow> account" where
  "new_account addr = \<lparr>Currency = 0, Balance = 0, Frozen = 0, Addr = addr\<rparr>"

definition LoadAccount :: "'v acc_env \<Rightarrow> 'v acc_db \<Rightarrow> string \<Rightarrow> go_error + account" where
  "LoadAccount env acc addr =
     (case db acc (accountReadKey env acc addr) of
        None \<Rightarrow> Inr (new_account addr)
      | Some v \<Rightarrow> (case DecodeAccount env v of None \<Rightarrow> Inl GoPanic | Some a \<Rightarrow> Inr a))"

definition LoadExecAccount ::
  "'v acc_env \<Rightarrow> 'v acc_db \<Rightarrow> string \<Rightarrow> string \<Rightarrow> go_error + account" where
  "LoadExecAccount env acc addr execaddr =
     (case db acc (execAccountKey env acc addr execaddr) of
        None \<Rightarrow> Inr (new_account addr)
      | Some v \<Rightarrow> (case DecodeAccount env v of None \<Rightarrow> Inl GoPanic | Some a \<Rightarrow> Inr a))"

fun LoadAccountsDB :: "'v acc_env \<Rightarrow> 'v acc_db \<Rightarrow> string list \<Rightarrow> go_error + account list" where
  "LoadAccountsDB env acc [] = Inr []"
| "LoadAccountsDB env acc (addr # addrs) =
     (case LoadAccount env acc addr of
        Inl e \<Rightarrow> Inl e
      | Inr acc1 \<Rightarrow>
          (case LoadAccountsDB env acc addrs of
             Inl e \<Rightarrow> Inl e
           | Inr accs \<Rightarrow> Inr (acc1 # accs)))"

definition GetKVSet :: "'v acc_env \<Rightarrow> 'v acc_db \<Rightarrow> account \<Rightarrow> 'v kvs" where
  "GetKVSet env acc acc1 = [(AccountKey env acc (Addr acc1), Encode env (MAccount acc1))]"

definition GetExecKVSet :: "'v acc_env \<Rightarrow> 'v acc_db \<Rightarrow> string \<Rightarrow> account \<Rightarrow> 'v kvs" where
  "GetExecKVSet env acc execaddr acc1 =
     [(execAccountKey env acc (Addr acc1) execaddr, Encode env (MAccount acc1))]"

fun SaveKVSet :: "'v acc_db \<Rightarrow> 'v kvs \<Rightarrow> 'v acc_db" where
  "SaveKVSet acc [] = acc"
| "SaveKVSet acc ((k, v) # kvs) = SaveKVSet (acc\<lparr>db := (db acc)(k \<mapsto> v)\<rparr>) kvs"

definition SaveAccount :: "'v acc_env \<Rightarrow> 'v acc_db \<Rightarrow> account \<Rightarrow> 'v acc_db" where
  "SaveAccount env acc acc1 = SaveKVSet acc (GetKVSet env acc acc1)"

definition SaveExecAccount ::
  "'v acc_env \<Rightarrow> 'v acc_db \<Rightarrow> string \<Rightarrow> account \<Rightarrow> 'v acc_db" where
  "SaveExecAccount env acc execaddr acc1 = SaveKVSet acc (GetExecKVSet env acc execaddr acc1)"

section \<open>Receipts\<close>

definition ok_receipt :: "'v kvs \<Rightarrow> 'v receipt_log list \<Rightarrow> 'v receipt" where
  "ok_receipt kv logs = \<lparr>Ty = ExecOk, KV = kv, Logs = logs\<rparr>"

definition transferReceipt ::
  "'v acc_env \<Rightarrow> 'v kvs \<Rightarrow> 'v kvs \<Rightarrow> acc_msg \<Rightarrow> acc_msg \<Rightarrow> 'v receipt" where
  "transferReceipt env fromkv tokv receiptFrom receiptTo =
     ok_receipt (fromkv @ tokv)
       [\<lparr>LogTy = 3, LogData = Encode env receiptFrom\<rparr>, \<lparr>LogTy = 3, LogData = Encode env receiptTo\<rparr>]"

definition mintReceipt :: "'v acc_env \<Rightarrow> 'v kvs \<Rightarrow> acc_msg \<Rightarrow> 'v receipt" where
  "mintReceipt env kv r = ok_receipt kv [\<lparr>LogTy = 14, LogData = Encode env r\<rparr>]"

definition burnReceipt :: "'v acc_env \<Rightarrow> 'v kvs \<Rightarrow> acc_msg \<Rightarrow> 'v receipt" where
  "burnReceipt env kv r = ok_receipt kv [\<lparr>LogTy = 15, LogData = Encode env r\<rparr>]"

definition genesisReceipt :: "'v acc_env \<Rightarrow> 'v acc_db \<Rightarrow> account \<Rightarrow> acc_msg \<Rightarrow> 'v receipt" where
  "genesisReceipt env acc accTo r =
     ok_receipt (GetKVSet env acc accTo) [\<lparr>LogTy = 11, LogData = Encode env r\<rparr>]"

definition execReceipt ::
  "'v acc_env \<Rightarrow> 'v acc_db \<Rightarrow> nat \<Rightarrow> account \<Rightarrow> string \<Rightarrow> account \<Rightarrow> account \<Rightarrow> 'v receipt" where
  "execReceipt env acc ty acc1 execaddr prev current =
     ok_receipt (GetExecKVSet env acc execaddr acc1)
       [\<lparr>LogTy = ty, LogData = Encode env (MReceiptExecAccountTransfer execaddr prev current)\<rparr>]"

definition execReceipt2 ::
  "'v acc_env \<Rightarrow> 'v acc_db \<Rightarrow> account \<Rightarrow> account \<Rightarrow> string \<Rightarrow> acc_msg \<Rightarrow> acc_msg \<Rightarrow> 'v receipt" where
  "execReceipt2 env acc acc1 acc2 execaddr r1 r2 =
     ok_receipt (GetExecKVSet env acc execaddr acc1 @ GetExecKVSet env acc execaddr acc2)
       [\<lparr>LogTy = 6, LogData = Encode env r1\<rparr>, \<lparr>LogTy = 6, LogData = Encode env r2\<rparr>]"

definition mergeReceipt :: "'v receipt \<Rightarrow> 'v receipt \<Rightarrow> 'v receipt" where
  "mergeReceipt r r2 = r\<lparr>Logs := Logs r @ Logs r2, KV := KV r @ KV r2\<rparr>"

section \<open>Operations on main accounts\<close>

type_synonym 'v acc_result = "(go_error + 'v receipt) \<times> 'v acc_db"

definition CheckTransfer :: "'v acc_env \<Rightarrow> 'v acc_db \<Rightarrow> string \<Rightarrow> string \<Rightarrow> int \<Rightarrow> go_error option" where
  "CheckTransfer env acc frm dest amount =
     (if \<not> CheckAmount env amount then Some ErrAmount
      else case LoadAccount env acc frm of
        Inl e \<Rightarrow> Some e
      | Inr accFrom \<Rightarrow> if i64 (Balance accFrom - amount) < 0 then Some ErrNoBalance else None)"

definition Transfer :: "'v acc_env \<Rightarrow> 'v acc_db \<Rightarrow> string \<Rightarrow> string \<Rightarrow> int \<Rightarrow> 'v acc_result" where
  "Transfer env acc frm dest amount =
     (if \<not> CheckAmount env amount then (Inl ErrAmount, acc)
      else case LoadAccount env acc frm of
        Inl e \<Rightarrow> (Inl e, acc)
      | Inr accFrom \<Rightarrow>
          (case LoadAccount env acc dest of
             Inl e \<Rightarrow> (Inl e, acc)
           | Inr accTo \<Rightarrow>
               if Addr accFrom = Addr accTo then (Inl ErrSendSameToRecv, acc)
               else if i64 (Balance accFrom - amount) \<ge> 0 then
                 let accFrom' = accFrom\<lparr>Balance := i64 (Balance accFrom - amount)\<rparr>;
                     accTo' = accTo\<lparr>Balance := i64 (Balance accTo + amount)\<rparr>;
                     fromkv = GetKVSet env acc accFrom';
                     tokv = GetKVSet env acc accTo'
                 in (Inr (transferReceipt env fromkv tokv
                           (MReceiptAccountTransfer accFrom accFrom')
                           (MReceiptAccountTransfer accTo accTo')),
                     SaveKVSet (SaveKVSet acc fromkv) tokv)
               else (Inl ErrNoBalance, acc)))"

definition depositBalance :: "'v acc_env \<Rightarrow> 'v acc_db \<Rightarrow> string \<Rightarrow> int \<Rightarrow> 'v acc_result" where
  "depositBalance env acc execaddr amount =
     (if \<not> CheckAmount env amount then (Inl ErrAmount, acc)
      else case LoadAccount env acc execaddr of
        Inl e \<Rightarrow> (Inl e, acc)
      | Inr acc1 \<Rightarrow>
          let acc1' = acc1\<lparr>Balance := i64 (Balance acc1 + amount)\<rparr>;
              kv = GetKVSet env acc acc1'
          in (Inr (ok_receipt kv
                [\<lparr>LogTy = 5, LogData = Encode env (MReceiptAccountTransfer acc1 acc1')\<rparr>]),
              SaveKVSet acc kv))"

definition Mint :: "'v acc_env \<Rightarrow> 'v acc_db \<Rightarrow> string \<Rightarrow> int \<Rightarrow> 'v acc_result" where
  "Mint env acc addr amount =
     (if \<not> CheckAmount env amount then (Inl ErrAmount, acc)
      else case LoadAccount env acc addr of
        Inl e \<Rightarrow> (Inl e, acc)
      | Inr accTo \<Rightarrow>
          (case safeAdd (Balance accTo) amount of
             Inl e \<Rightarrow> (Inl e, acc)
           | Inr balance \<Rightarrow>
               let accTo' = accTo\<lparr>Balance := balance\<rparr>;
                   kv = GetKVSet env acc accTo'
               in (Inr (mintReceipt env kv (MReceiptAccountMint accTo accTo')), SaveKVSet acc kv)))"

definition Burn :: "'v acc_env \<Rightarrow> 'v acc_db \<Rightarrow> string \<Rightarrow> int \<Rightarrow> 'v acc_result" where
  "Burn env acc addr amount =
     (if \<not> CheckAmount env amount then (Inl ErrAmount, acc)
      else case LoadAccount env acc addr of
        Inl e \<Rightarrow> (Inl e, acc)
      | Inr accTo \<Rightarrow>
          if Balance accTo < amount then (Inl ErrNoBalance, acc)
          else
            let accTo' = accTo\<lparr>Balance := i64 (Balance accTo - amount)\<rparr>;
                kv = GetKVSet env acc accTo'
            in (Inr (burnReceipt env kv (MReceiptAccountBurn accTo accTo')), SaveKVSet acc kv))"

definition GenesisInit :: "'v acc_env \<Rightarrow> 'v acc_db \<Rightarrow> string \<Rightarrow> int \<Rightarrow> 'v acc_result" where
  "GenesisInit env acc addr amount =
     (case LoadAccount env acc addr of
        Inl e \<Rightarrow> (Inl e, acc)
      | Inr accTo \<Rightarrow>
          (case safeAdd (Balance accTo) amount of
             Inl e \<Rightarrow> (Inl e, acc)
           | Inr balance \<Rightarrow>
               let accTo' = accTo\<lparr>Balance := balance\<rparr>;
                   acc' = SaveAccount env acc accTo'
               in (Inr (genesisReceipt env acc' accTo' (MReceiptAccountTransfer accTo accTo')), acc')))"

section \<open>Operations on contract sub-accounts\<close>

text \<open>
  \<open>exec_update\<close> is the part \<^verbatim>\<open>ExecFrozen\<close>, \<^verbatim>\<open>ExecActive\<close>, \<^verbatim>\<open>ExecDeposit\<close>,
  \<^verbatim>\<open>ExecWithdraw\<close> and \<^verbatim>\<open>execDepositFrozen\<close> write out each time: the two
  argument checks, the load, the operation's own balance check \<open>short\<close>, the change
  \<open>upd\<close>, the save and the receipt of type \<open>ty\<close>.
\<close>

definition exec_update ::
  "'v acc_env \<Rightarrow> 'v acc_db \<Rightarrow> string \<Rightarrow> string \<Rightarrow> int \<Rightarrow> nat \<Rightarrow>
   (account \<Rightarrow> bool) \<Rightarrow> (account \<Rightarrow> account) \<Rightarrow> 'v acc_result" where
  "exec_update env acc addr execaddr amount ty short upd =
     (if addr = execaddr then (Inl ErrSendSameToRecv, acc)
      else if \<not> CheckAmount env amount then (Inl ErrAmount, acc)
      else case LoadExecAccount env acc addr execaddr of
        Inl e \<Rightarrow> (Inl e, acc)
      | Inr acc1 \<Rightarrow>
          if short acc1 then (Inl ErrNoBalance, acc)
          else (Inr (execReceipt env acc ty (upd acc1) execaddr acc1 (upd acc1)),
                SaveExecAccount env acc execaddr (upd acc1)))"

definition ExecFrozen :: "'v acc_env \<Rightarrow> 'v acc_db \<Rightarrow> string \<Rightarrow> string \<Rightarrow> int \<Rightarrow> 'v acc_result" where
  "ExecFrozen env acc addr execaddr amount =
     exec_update env acc addr execaddr amount 9
       (\<lambda>a. i64 (Balance a - amount) < 0)
       (\<lambda>a. a\<lparr>Balance := i64 (Balance a - amount), Frozen := i64 (Frozen a + amount)\<rparr>)"

definition ExecActive :: "'v acc_env \<Rightarrow> 'v acc_db \<Rightarrow> string \<Rightarrow> string \<Rightarrow> int \<Rightarrow> 'v acc_result" where
  "ExecActive env acc addr execaddr amount =
     exec_update env acc addr execaddr amount 10
       (\<lambda>a. i64 (Frozen a - amount) < 0)
       (\<lambda>a. a\<lparr>Balance := i64 (Balance a + amount), Frozen := i64 (Frozen a - amount)\<rparr>)"

definition execDepositFrozen ::
  "'v acc_env \<Rightarrow> 'v acc_db \<Rightarrow> string \<Rightarrow> string \<Rightarrow> int \<Rightarrow> 'v acc_result" where
  "execDepositFrozen env acc addr execaddr amount =
     exec_update env acc addr execaddr amount 8 (\<lambda>a. False)
       (\<lambda>a. a\<lparr>Frozen := i64 (Frozen a + amount)\<rparr>)"

definition ExecDeposit :: "'v acc_env \<Rightarrow> 'v acc_db \<Rightarrow> string \<Rightarrow> string \<Rightarrow> int \<Rightarrow> 'v acc_result" where
  "ExecDeposit env acc addr execaddr amount =
     exec_update env acc addr execaddr amount 8 (\<lambda>a. False)
       (\<lambda>a. a\<lparr>Balance := i64 (Balance a + amount)\<rparr>)"

definition ExecWithdraw :: "'v acc_env \<Rightarrow> 'v acc_db \<Rightarrow> string \<Rightarrow> string \<Rightarrow> int \<Rightarrow> 'v acc_result" where
  "ExecWithdraw env acc execaddr addr amount =
     exec_update env acc addr execaddr amount 7
       (\<lambda>a. i64 (Balance a - amount) < 0)
       (\<lambda>a. a\<lparr>Balance := i64 (Balance a - amount)\<rparr>)"

definition exec_move ::
  "'v acc_env \<Rightarrow> 'v acc_db \<Rightarrow> string \<Rightarrow> string \<Rightarrow> string \<Rightarrow> int \<Rightarrow>
   (account \<Rightarrow> bool) \<Rightarrow> (account \<Rightarrow> account) \<Rightarrow> 'v acc_result" where
  "exec_move env acc frm dest execaddr amount short take_out =
     (if frm = dest then (Inl ErrSendSameToRecv, acc)
      else if \<not> CheckAmount env amount then (Inl ErrAmount, acc)
      else case LoadExecAccount env acc frm execaddr of
        Inl e \<Rightarrow> (Inl e, acc)
      | Inr accFrom \<Rightarrow>
          (case LoadExecAccount env acc dest execaddr of
             Inl e \<Rightarrow> (Inl e, acc)
           | Inr accTo \<Rightarrow>
               if short accFrom then (Inl ErrNoBalance, acc)
               else
                 let accFrom' = take_out accFrom;
                     accTo' = accTo\<lparr>Balance := i64 (Balance accTo + amount)\<rparr>;
                     acc' = SaveExecAccount env (SaveExecAccount env acc execaddr accFrom') execaddr accTo'
                 in (Inr (execReceipt2 env acc' accFrom' accTo' execaddr
                           (MReceiptExecAccountTransfer execaddr accFrom accFrom')
                           (MReceiptExecAccountTransfer execaddr accTo accTo')),
                     acc')))"

definition ExecTransfer ::
  "'v acc_env \<Rightarrow> 'v acc_db \<Rightarrow> string \<Rightarrow> string \<Rightarrow> string \<Rightarrow> int \<Rightarrow> 'v acc_result" where
  "ExecTransfer env acc frm dest execaddr amount =
     exec_move env acc frm dest execaddr amount
       (\<lambda>a. i64 (Balance a - amount) < 0) (\<lambda>a. a\<lparr>Balance := i64 (Balance a - amount)\<rparr>)"

definition ExecTransferFrozen ::
  "'v acc_env \<Rightarrow> 'v acc_db \<Rightarrow> string \<Rightarrow> string \<Rightarrow> string \<Rightarrow> int \<Rightarrow> 'v acc_result" where
  "ExecTransferFrozen env acc frm dest execaddr amount =
     exec_move env acc frm dest execaddr amount
       (\<lambda>a. i64 (Frozen a - amount) < 0) (\<lambda>a. a\<lparr>Frozen := i64 (Frozen a - amount)\<rparr>)"

section \<open>Operations that touch both levels\<close>

definition TransferToExec ::
  "'v acc_env \<Rightarrow> 'v acc_db \<Rightarrow> string \<Rightarrow> string \<Rightarrow> int \<Rightarrow> 'v acc_result" where
  "TransferToExec env acc frm dest amount =
     (case Transfer env acc frm dest amount of
        (Inl e, acc') \<Rightarrow> (Inl e, acc')
      | (Inr r, acc') \<Rightarrow>
          (case ExecDeposit env acc' frm dest amount of
             (Inl e, acc'') \<Rightarrow> (Inl GoPanic, acc'')
           | (Inr r2, acc'') \<Rightarrow> (Inr (mergeReceipt r r2), acc'')))"

definition TransferWithdraw ::
  "'v acc_env \<Rightarrow> 'v acc_db \<Rightarrow> string \<Rightarrow> string \<Rightarrow> int \<Rightarrow> 'v acc_result" where
  "TransferWithdraw env acc frm dest amount =
     (case CheckTransfer env acc dest frm amount of
        Some e \<Rightarrow> (Inl e, acc)
      | None \<Rightarrow>
          (case ExecWithdraw env acc dest frm amount of
             (Inl e, acc') \<Rightarrow> (Inl e, acc')
           | (Inr r, acc') \<Rightarrow>
               (case Transfer env acc' dest frm amount of
                  (Inl e, acc'') \<Rightarrow> (Inl GoPanic, acc'')
                | (Inr r2, acc'') \<Rightarrow> (Inr (mergeReceipt r r2), acc''))))"

definition ExecIssueCoins :: "'v acc_env \<Rightarrow> 'v acc_db \<Rightarrow> string \<Rightarrow> int \<Rightarrow> 'v acc_result" where
  "ExecIssueCoins env acc execaddr amount =
     (if \<not> list_ex (\<lambda>exec. ExecAddr env (ExecName env exec) = execaddr) (MinerExecs env)
      then (Inl ErrNotAllowDeposit, acc)
      else depositBalance env acc execaddr amount)"

definition ExecDepositFrozen ::
  "'v acc_env \<Rightarrow> 'v acc_db \<Rightarrow> string \<Rightarrow> string \<Rightarrow> int \<Rightarrow> 'v acc_result" where
  "ExecDepositFrozen env acc addr execaddr amount =
     (if addr = execaddr then (Inl ErrSendSameToRecv, acc)
      else case ExecIssueCoins env acc execaddr amount of
        (Inl e, acc') \<Rightarrow> (Inl e, acc')
      | (Inr r1, acc') \<Rightarrow>
          (case execDepositFrozen env acc' addr execaddr amount of
             (Inl e, acc'') \<Rightarrow> (Inl e, acc'')
           | (Inr r2, acc'') \<Rightarrow> (Inr (mergeReceipt r1 r2), acc'')))"

definition GenesisInitExec ::
  "'v acc_env \<Rightarrow> 'v acc_db \<Rightarrow> string \<Rightarrow> int \<Rightarrow> string \<Rightarrow> 'v acc_result" where
  "GenesisInitExec env acc addr amount execaddr =
     (case LoadAccount env acc execaddr of
        Inl e \<Rightarrow> (Inl e, acc)
      | Inr accTo \<Rightarrow>
          (case safeAdd (Balance accTo) amount of
             Inl e \<Rightarrow> (Inl e, acc)
           | Inr balance \<Rightarrow>
               let accTo' = accTo\<lparr>Balance := balance\<rparr>;
                   acc' = SaveAccount env acc accTo';
                   r = genesisReceipt env acc' accTo' (MReceiptAccountTransfer accTo accTo')
               in (case ExecDeposit env acc' addr execaddr amount of
                     (Inl e, acc'') \<Rightarrow> (Inl GoPanic, acc'')
                   | (Inr r2, acc'') \<Rightarrow> (Inr (mergeReceipt r (r2\<lparr>Ty := 12\<rparr>)), acc''))))"

end
