(* ===== verification/Ledger.thy ===== *)
theory Ledger
  imports Account
begin

text \<open>
  The accounting contract of \<open>Account\<close>: what every operation keeps of the sums of the
  ledger. \<open>ledger_ok\<close> is the invariant; the \<open>save_\<close> lemmas say how one write moves the
  totals, and each operation is one or two writes.
\<close>

section \<open>Every operation is the writes its receipt lists\<close>

lemma SaveKVSet_append: "SaveKVSet acc (xs @ ys) = SaveKVSet (SaveKVSet acc xs) ys"
  by (induction acc xs rule: SaveKVSet.induct) simp_all

lemma SaveKVSet_fields [simp]:
  "accountKeyPerfix (SaveKVSet acc kvs) = accountKeyPerfix acc"
  "execAccountKeyPerfix (SaveKVSet acc kvs) = execAccountKeyPerfix acc"
  "accountKeyBuffer (SaveKVSet acc kvs) = accountKeyBuffer acc"
  by (induction acc kvs rule: SaveKVSet.induct) simp_all

lemma keys_SaveKVSet [simp]:
  "AccountKey env (SaveKVSet acc kvs) = AccountKey env acc"
  "execAccountKey env (SaveKVSet acc kvs) = execAccountKey env acc"
  "GetKVSet env (SaveKVSet acc kvs) = GetKVSet env acc"
  "GetExecKVSet env (SaveKVSet acc kvs) = GetExecKVSet env acc"
  by (simp_all add: fun_eq_iff AccountKey_def execAccountKey_def GetKVSet_def GetExecKVSet_def)

lemmas receipt_defs =
  ok_receipt_def transferReceipt_def mintReceipt_def burnReceipt_def genesisReceipt_def
  execReceipt_def execReceipt2_def mergeReceipt_def

lemmas account_op_defs =
  Transfer_def depositBalance_def Mint_def Burn_def GenesisInit_def
  exec_update_def ExecFrozen_def ExecActive_def execDepositFrozen_def ExecDeposit_def
  ExecWithdraw_def exec_move_def ExecTransfer_def ExecTransferFrozen_def

text \<open>The ledger operations of the package as data, and the operation each stands for.\<close>

datatype acc_op =
    OpTransfer string string int
  | OpMint string int
  | OpBurn string int
  | OpGenesisInit string int
  | OpGenesisInitExec string int string
  | OpTransferToExec string string int
  | OpTransferWithdraw string string int
  | OpExecFrozen string string int
  | OpExecActive string string int
  | OpExecTransfer string string string int
  | OpExecTransferFrozen string string string int
  | OpExecDeposit string string int
  | OpExecWithdraw string string int
  | OpExecIssueCoins string int
  | OpExecDepositFrozen string string int

fun run_op :: "'v acc_env \<Rightarrow> 'v acc_db \<Rightarrow> acc_op \<Rightarrow> 'v acc_result" where
  "run_op env acc (OpTransfer f t n) = Transfer env acc f t n"
| "run_op env acc (OpMint a n) = Mint env acc a n"
| "run_op env acc (OpBurn a n) = Burn env acc a n"
| "run_op env acc (OpGenesisInit a n) = GenesisInit env acc a n"
| "run_op env acc (OpGenesisInitExec a n e) = GenesisInitExec env acc a n e"
| "run_op env acc (OpTransferToExec f t n) = TransferToExec env acc f t n"
| "run_op env acc (OpTransferWithdraw f t n) = TransferWithdraw env acc f t n"
| "run_op env acc (OpExecFrozen a e n) = ExecFrozen env acc a e n"
| "run_op env acc (OpExecActive a e n) = ExecActive env acc a e n"
| "run_op env acc (OpExecTransfer f t e n) = ExecTransfer env acc f t e n"
| "run_op env acc (OpExecTransferFrozen f t e n) = ExecTransferFrozen env acc f t e n"
| "run_op env acc (OpExecDeposit a e n) = ExecDeposit env acc a e n"
| "run_op env acc (OpExecWithdraw e a n) = ExecWithdraw env acc e a n"
| "run_op env acc (OpExecIssueCoins e n) = ExecIssueCoins env acc e n"
| "run_op env acc (OpExecDepositFrozen a e n) = ExecDepositFrozen env acc a e n"

text \<open>\<open>op_contract\<close>: success applies the receipt, an error that is no panic changes nothing.\<close>

definition op_contract :: "'v acc_db \<Rightarrow> 'v acc_result \<Rightarrow> bool" where
  "op_contract acc res \<longleftrightarrow>
     (case res of (Inr r, acc') \<Rightarrow> acc' = SaveKVSet acc (KV r)
      | (Inl e, acc') \<Rightarrow> e = GoPanic \<or> acc' = acc)"

lemma op_contract_simps [simp]:
  "op_contract acc (Inr r, acc') \<longleftrightarrow> acc' = SaveKVSet acc (KV r)"
  "op_contract acc (Inl e, acc') \<longleftrightarrow> e = GoPanic \<or> acc' = acc"
  by (simp_all add: op_contract_def)

lemma contract_base:
  "op_contract acc (Transfer env acc f t n)"
  "op_contract acc (depositBalance env acc a n)"
  "op_contract acc (Mint env acc a n)"
  "op_contract acc (Burn env acc a n)"
  "op_contract acc (GenesisInit env acc a n)"
  by (auto simp: account_op_defs receipt_defs Let_def SaveKVSet_append SaveAccount_def
      split: sum.splits)

lemma contract_exec_update: "op_contract acc (exec_update env acc a e n ty short upd)"
  by (auto simp: exec_update_def receipt_defs SaveExecAccount_def split: sum.splits)

lemma contract_exec_move: "op_contract acc (exec_move env acc f t e n short out)"
  by (auto simp: exec_move_def receipt_defs SaveExecAccount_def SaveKVSet_append Let_def
      split: sum.splits)

lemma contract_exec:
  "op_contract acc (ExecFrozen env acc a e n)"
  "op_contract acc (ExecActive env acc a e n)"
  "op_contract acc (execDepositFrozen env acc a e n)"
  "op_contract acc (ExecDeposit env acc a e n)"
  "op_contract acc (ExecWithdraw env acc e a n)"
  "op_contract acc (ExecTransfer env acc f t e n)"
  "op_contract acc (ExecTransferFrozen env acc f t e n)"
  by (simp_all only: ExecFrozen_def ExecActive_def execDepositFrozen_def ExecDeposit_def
      ExecWithdraw_def ExecTransfer_def ExecTransferFrozen_def contract_exec_update contract_exec_move)

text \<open>Two operations in sequence whose second failure is a panic keep the contract.\<close>

lemma contract_seq_panic:
  assumes "op_contract acc res" "\<And>acc'. op_contract acc' (f acc')"
  shows "op_contract acc
    (case res of (Inl e, acc') \<Rightarrow> (Inl e, acc')
     | (Inr r, acc') \<Rightarrow> (case f acc' of (Inl e, acc'') \<Rightarrow> (Inl GoPanic, acc'')
                        | (Inr r2, acc'') \<Rightarrow> (Inr (mergeReceipt r r2), acc'')))"
proof (cases res)
  case (Pair out acc')
  show ?thesis
  proof (cases out)
    case (Inl e)
    with assms(1) Pair show ?thesis by simp
  next
    case (Inr r)
    with assms(1) Pair have "acc' = SaveKVSet acc (KV r)" by simp
    with Pair Inr assms(2) [of acc'] show ?thesis
      by (cases "f acc'") (auto simp: mergeReceipt_def SaveKVSet_append split: sum.splits)
  qed
qed

lemma contract_ExecDepositFrozen: "op_contract acc (ExecDepositFrozen env acc a e n)"
proof -
  have "op_contract acc (ExecIssueCoins env acc e n)"
    by (simp add: ExecIssueCoins_def contract_base)
  moreover have "res = (Inl err, acc'') \<Longrightarrow> res = execDepositFrozen env acc' a e n \<Longrightarrow>
      a \<noteq> e \<Longrightarrow> CheckAmount env n \<Longrightarrow> err = GoPanic" for res err acc' acc''
    by (auto simp: execDepositFrozen_def exec_update_def LoadExecAccount_def
        split: sum.splits option.splits)
  moreover have "ExecIssueCoins env acc e n = (Inr r, acc') \<Longrightarrow> CheckAmount env n" for r acc'
    by (auto simp: ExecIssueCoins_def depositBalance_def split: if_splits)
  ultimately show ?thesis
    using contract_exec(3) [of _ env a e n]
    by (auto simp: ExecDepositFrozen_def mergeReceipt_def SaveKVSet_append split: prod.splits sum.splits)
      (metis op_contract_simps(1))+
qed

lemma run_op_contract: "op_contract acc (run_op env acc x)"
proof (cases x)
  case (OpTransferToExec f t n)
  then show ?thesis by (simp add: TransferToExec_def contract_seq_panic contract_base contract_exec)
next
  case (OpTransferWithdraw f t n)
  then show ?thesis
    by (simp add: TransferWithdraw_def contract_seq_panic contract_base contract_exec split: option.splits)
next
  case (OpGenesisInitExec a n e)
  have "op_contract acc' (ExecDeposit env acc' a e n)" for acc' by (rule contract_exec)
  with OpGenesisInitExec show ?thesis
    by (auto simp: GenesisInitExec_def Let_def SaveAccount_def receipt_defs SaveKVSet_append
        split: sum.splits prod.splits) (metis op_contract_simps(1))
next
  case (OpExecDepositFrozen a e n)
  then show ?thesis by (simp add: contract_ExecDepositFrozen)
qed (simp_all add: contract_base contract_exec ExecIssueCoins_def)

section \<open>The ledger invariant\<close>

definition codec_ok :: "'v acc_env \<Rightarrow> bool" where
  "codec_ok env \<longleftrightarrow> (\<forall>a. DecodeAccount env (Encode env (MAccount a)) = Some a)"

definition plain :: "string \<Rightarrow> bool" where
  "plain s \<longleftrightarrow> CHR ''-'' \<notin> set s \<and> CHR '':'' \<notin> set s"

text \<open>Addresses whose key holds no separator; contract addresses are also normalised.\<close>

definition wf_addr :: "'v acc_env \<Rightarrow> string \<Rightarrow> bool" where
  "wf_addr env a \<longleftrightarrow> plain (FormatAddrKey env a)"

definition wf_exec :: "'v acc_env \<Rightarrow> string \<Rightarrow> bool" where
  "wf_exec env e \<longleftrightarrow> plain e \<and> FormatAddrKey env e = e"

definition wf_prefix :: "'v acc_db \<Rightarrow> bool" where
  "wf_prefix acc \<longleftrightarrow> accountKeyBuffer acc = accountKeyPerfix acc \<and>
     execAccountKeyPerfix acc = accountKeyPerfix acc @ ''exec-''"

definition is_main_key :: "'v acc_db \<Rightarrow> string \<Rightarrow> bool" where
  "is_main_key acc k \<longleftrightarrow> (\<exists>s. plain s \<and> k = accountKeyPerfix acc @ s)"

definition is_exec_key :: "'v acc_db \<Rightarrow> string \<Rightarrow> string \<Rightarrow> bool" where
  "is_exec_key acc e k \<longleftrightarrow> (\<exists>s. plain s \<and> k = execAccountKeyPerfix acc @ e @ '':'' @ s)"

definition main_value :: "'v acc_env \<Rightarrow> 'v acc_db \<Rightarrow> string \<Rightarrow> 'v \<Rightarrow> int" where
  "main_value env acc k v =
     (if is_main_key acc k then (case DecodeAccount env v of None \<Rightarrow> 0 | Some a \<Rightarrow> Balance a) else 0)"

definition exec_value :: "'v acc_env \<Rightarrow> 'v acc_db \<Rightarrow> string \<Rightarrow> string \<Rightarrow> 'v \<Rightarrow> int" where
  "exec_value env acc e k v =
     (if is_exec_key acc e k
      then (case DecodeAccount env v of None \<Rightarrow> 0 | Some a \<Rightarrow> Balance a + Frozen a) else 0)"

text \<open>All coins in main accounts, and all a contract owes its users (available and frozen).\<close>

definition main_total :: "'v acc_env \<Rightarrow> 'v acc_db \<Rightarrow> int" where
  "main_total env acc = kv_sum (main_value env acc) (db acc)"

definition exec_total :: "'v acc_env \<Rightarrow> 'v acc_db \<Rightarrow> string \<Rightarrow> int" where
  "exec_total env acc e = kv_sum (exec_value env acc e) (db acc)"

definition balance_of :: "'v acc_env \<Rightarrow> 'v acc_db \<Rightarrow> string \<Rightarrow> int" where
  "balance_of env acc a = kv_at (main_value env acc) (db acc) (AccountKey env acc a)"

definition entry_ok :: "'v acc_env \<Rightarrow> 'v acc_db \<Rightarrow> string \<Rightarrow> 'v \<Rightarrow> bool" where
  "entry_ok env acc k v \<longleftrightarrow>
     (\<exists>a. DecodeAccount env v = Some a \<and> 0 \<le> Balance a \<and> 0 \<le> Frozen a \<and>
       (is_main_key acc k \<longrightarrow> k = AccountKey env acc (Addr a)) \<and>
       (\<forall>e. plain e \<longrightarrow> is_exec_key acc e k \<longrightarrow> k = execAccountKey env acc (Addr a) e))"

definition ledger_base :: "'v acc_env \<Rightarrow> 'v acc_db \<Rightarrow> bool" where
  "ledger_base env acc \<longleftrightarrow> codec_ok env \<and> wf_prefix acc \<and> finite (dom (db acc)) \<and>
     (\<forall>k v. db acc k = Some v \<longrightarrow> is_main_key acc k \<or> (\<exists>e. plain e \<and> is_exec_key acc e k) \<longrightarrow>
        entry_ok env acc k v)"

text \<open>
  \<open>C\<close> is the set of contract addresses: addresses of executors, which nobody holds a
  private key for. A contract is solvent when its main balance covers what it owes.
\<close>

definition ledger_ok :: "'v acc_env \<Rightarrow> string set \<Rightarrow> 'v acc_db \<Rightarrow> bool" where
  "ledger_ok env C acc \<longleftrightarrow> ledger_base env acc \<and> main_total env acc < 2 ^ 63 \<and>
     (\<forall>e\<in>C. wf_exec env e \<and> exec_total env acc e \<le> balance_of env acc e)"

subsection \<open>Keys\<close>

lemma main_not_exec: "wf_prefix acc \<Longrightarrow> is_main_key acc k \<Longrightarrow> \<not> is_exec_key acc e k"
  by (auto simp: is_main_key_def is_exec_key_def wf_prefix_def plain_def)

lemma is_main_key_AccountKey: "is_main_key acc (AccountKey env acc a) \<longleftrightarrow> wf_addr env a"
  by (auto simp: is_main_key_def AccountKey_def wf_addr_def)

lemma append_colon_eq:
  "plain e \<Longrightarrow> plain e' \<Longrightarrow> e @ CHR '':'' # s = e' @ CHR '':'' # s' \<longleftrightarrow> e = e' \<and> s = s'"
proof (induction e arbitrary: e')
  case Nil
  then show ?case by (cases e') (auto simp: plain_def)
next
  case (Cons c e)
  then show ?case by (cases e') (auto simp: plain_def)
qed

lemma is_exec_key_execAccountKey:
  "plain e \<Longrightarrow> plain e' \<Longrightarrow>
     is_exec_key acc e' (execAccountKey env acc a e) \<longleftrightarrow> e = e' \<and> wf_addr env a"
  by (auto simp: is_exec_key_def execAccountKey_def wf_addr_def append_colon_eq)

lemma not_main_execAccountKey: "wf_prefix acc \<Longrightarrow> \<not> is_main_key acc (execAccountKey env acc a e)"
  by (auto simp: is_main_key_def execAccountKey_def wf_prefix_def plain_def)

lemma AccountKey_eq_iff: "AccountKey env acc a = AccountKey env acc b \<longleftrightarrow> FormatAddrKey env a = FormatAddrKey env b"
  by (simp add: AccountKey_def)

lemma execAccountKey_eq_iff:
  "plain e \<Longrightarrow> plain e' \<Longrightarrow> execAccountKey env acc a e = execAccountKey env acc b e' \<longleftrightarrow>
     e = e' \<and> FormatAddrKey env a = FormatAddrKey env b"
  by (auto simp: execAccountKey_def append_colon_eq)

lemma key_preds_upd [simp]:
  "is_main_key (acc\<lparr>db := m\<rparr>) = is_main_key acc"
  "is_exec_key (acc\<lparr>db := m\<rparr>) = is_exec_key acc"
  "AccountKey env (acc\<lparr>db := m\<rparr>) = AccountKey env acc"
  "execAccountKey env (acc\<lparr>db := m\<rparr>) = execAccountKey env acc"
  "main_value env (acc\<lparr>db := m\<rparr>) = main_value env acc"
  "exec_value env (acc\<lparr>db := m\<rparr>) = exec_value env acc"
  "wf_prefix (acc\<lparr>db := m\<rparr>) = wf_prefix acc"
  by (simp_all add: fun_eq_iff is_main_key_def is_exec_key_def AccountKey_def execAccountKey_def
      main_value_def exec_value_def wf_prefix_def)

lemma entry_ok_upd [simp]: "entry_ok env (acc\<lparr>db := m\<rparr>) = entry_ok env acc"
  by (simp add: fun_eq_iff entry_ok_def)

lemma value_nonneg:
  assumes "ledger_base env acc" "db acc k = Some v"
  shows "0 \<le> main_value env acc k v" and "plain e \<Longrightarrow> 0 \<le> exec_value env acc e k v"
proof -
  have *: "is_main_key acc k \<or> (\<exists>e. plain e \<and> is_exec_key acc e k) \<Longrightarrow> entry_ok env acc k v"
    using assms unfolding ledger_base_def by blast
  show "0 \<le> main_value env acc k v"
    using * by (cases "is_main_key acc k") (auto simp: main_value_def entry_ok_def)
  show "0 \<le> exec_value env acc e k v" if "plain e"
  proof (cases "is_exec_key acc e k")
    case True
    with * that have "entry_ok env acc k v" by blast
    then show ?thesis by (auto simp: exec_value_def entry_ok_def)
  qed (simp add: exec_value_def)
qed

subsection \<open>Reading\<close>

lemma read_key: "wf_prefix acc \<Longrightarrow> accountReadKey env acc a = AccountKey env acc a"
  by (simp add: wf_prefix_def accountReadKey_def AccountKey_def)

lemma LoadAccount_ok:
  assumes "ledger_base env acc" "wf_addr env a"
  obtains x where "LoadAccount env acc a = Inr x" "0 \<le> Balance x" "0 \<le> Frozen x"
    "Balance x = balance_of env acc a" "FormatAddrKey env (Addr x) = FormatAddrKey env a"
    "Balance x \<le> main_total env acc"
proof -
  note b = assms(1) [unfolded ledger_base_def]
  have at: "balance_of env acc a \<le> main_total env acc"
    unfolding balance_of_def main_total_def
    using b value_nonneg [OF assms(1)] by (intro kv_sum_ge_at) simp_all
  show thesis
  proof (cases "db acc (AccountKey env acc a)")
    case None
    then have "LoadAccount env acc a = Inr (new_account a)"
      using b by (simp add: LoadAccount_def read_key)
    moreover have "balance_of env acc a = 0" using None by (simp add: balance_of_def kv_at_def)
    ultimately show thesis using that at by (simp add: new_account_def)
  next
    case (Some v)
    then have "entry_ok env acc (AccountKey env acc a) v"
      using b assms(2) by (simp add: is_main_key_AccountKey)
    then obtain x where x: "DecodeAccount env v = Some x" "0 \<le> Balance x" "0 \<le> Frozen x"
      "AccountKey env acc a = AccountKey env acc (Addr x)"
      using assms(2) by (auto simp: entry_ok_def is_main_key_AccountKey)
    have "LoadAccount env acc a = Inr x" using Some b x(1) by (simp add: LoadAccount_def read_key)
    moreover have "balance_of env acc a = Balance x"
      using Some x(1) assms(2) by (simp add: balance_of_def kv_at_def main_value_def is_main_key_AccountKey)
    moreover have "FormatAddrKey env (Addr x) = FormatAddrKey env a"
      using x(4) by (simp add: AccountKey_def)
    ultimately show thesis using x(2,3) at by (intro that [of x]) simp_all
  qed
qed

definition owed :: "'v acc_env \<Rightarrow> 'v acc_db \<Rightarrow> string \<Rightarrow> string \<Rightarrow> int" where
  "owed env acc a e = kv_at (exec_value env acc e) (db acc) (execAccountKey env acc a e)"

lemma LoadExecAccount_ok:
  assumes "ledger_base env acc" "wf_addr env a" "plain e"
  obtains x where "LoadExecAccount env acc a e = Inr x" "0 \<le> Balance x" "0 \<le> Frozen x"
    "Balance x + Frozen x = owed env acc a e" "FormatAddrKey env (Addr x) = FormatAddrKey env a"
    "Balance x + Frozen x \<le> exec_total env acc e"
proof -
  note b = assms(1) [unfolded ledger_base_def]
  have at: "owed env acc a e \<le> exec_total env acc e"
    unfolding owed_def exec_total_def
    using b assms(3) value_nonneg [OF assms(1)] by (intro kv_sum_ge_at) simp_all
  show thesis
  proof (cases "db acc (execAccountKey env acc a e)")
    case None
    then have "LoadExecAccount env acc a e = Inr (new_account a)" by (simp add: LoadExecAccount_def)
    moreover have "owed env acc a e = 0" using None by (simp add: owed_def kv_at_def)
    ultimately show thesis using that at by (simp add: new_account_def)
  next
    case (Some v)
    have key: "is_exec_key acc e (execAccountKey env acc a e)"
      using assms by (simp add: is_exec_key_execAccountKey)
    then have "entry_ok env acc (execAccountKey env acc a e) v"
      using b assms(3) Some by blast
    then obtain x where x: "DecodeAccount env v = Some x" "0 \<le> Balance x" "0 \<le> Frozen x"
      "execAccountKey env acc a e = execAccountKey env acc (Addr x) e"
      using assms(3) key by (auto simp: entry_ok_def)
    have "LoadExecAccount env acc a e = Inr x" using Some x by (simp add: LoadExecAccount_def)
    moreover have "owed env acc a e = Balance x + Frozen x"
      using Some x key by (simp add: owed_def kv_at_def exec_value_def)
    moreover have "FormatAddrKey env (Addr x) = FormatAddrKey env a"
      using x(4) by (simp add: execAccountKey_def)
    ultimately show thesis using x(2,3) at by (intro that [of x]) simp_all
  qed
qed

subsection \<open>Writing\<close>

lemma save_main:
  assumes base: "ledger_base env acc" and x: "wf_addr env (Addr x)" "0 \<le> Balance x" "0 \<le> Frozen x"
  defines "acc' \<equiv> SaveKVSet acc (GetKVSet env acc x)"
  shows "ledger_base env acc'"
    and "main_total env acc' = main_total env acc - balance_of env acc (Addr x) + Balance x"
    and "exec_total env acc' e = exec_total env acc e"
    and "balance_of env acc' b = (if FormatAddrKey env b = FormatAddrKey env (Addr x) then Balance x
           else balance_of env acc b)"
    and "owed env acc' a e = owed env acc a e"
proof -
  let ?k = "AccountKey env acc (Addr x)" and ?v = "Encode env (MAccount x)"
  note b = base [unfolded ledger_base_def]
  have acc': "acc' = acc\<lparr>db := (db acc)(?k \<mapsto> ?v)\<rparr>" by (simp add: acc'_def GetKVSet_def)
  have dec: "DecodeAccount env ?v = Some x" using b by (simp add: codec_ok_def)
  have main: "is_main_key acc ?k" using x by (simp add: is_main_key_AccountKey)
  have exec: "\<not> is_exec_key acc e' ?k" for e' using b main main_not_exec by blast
  have "entry_ok env acc ?k ?v" using dec x exec by (simp add: entry_ok_def)
  with b show "ledger_base env acc'" by (auto simp: ledger_base_def acc')
  show "main_total env acc' = main_total env acc - balance_of env acc (Addr x) + Balance x"
    using b main dec by (simp add: acc' main_total_def kv_sum_upd balance_of_def main_value_def)
  have ev: "exec_value env acc e' ?k w = 0" for e' w using exec by (simp add: exec_value_def)
  then show "exec_total env acc' e = exec_total env acc e"
    using b by (simp add: acc' exec_total_def kv_sum_upd kv_at_def split: option.splits)
  show "balance_of env acc' b = (if FormatAddrKey env b = FormatAddrKey env (Addr x) then Balance x
           else balance_of env acc b)"
    using main dec by (auto simp: acc' balance_of_def kv_at_def main_value_def AccountKey_def)
  show "owed env acc' a e = owed env acc a e"
    using ev by (auto simp: acc' owed_def kv_at_def split: option.splits)
qed

lemma save_exec:
  assumes base: "ledger_base env acc" and x: "wf_addr env (Addr x)" "0 \<le> Balance x" "0 \<le> Frozen x"
    and e: "plain e"
  defines "acc' \<equiv> SaveExecAccount env acc e x"
  shows "ledger_base env acc'"
    and "main_total env acc' = main_total env acc"
    and "plain e' \<Longrightarrow> exec_total env acc' e' = exec_total env acc e' +
           (if e' = e then Balance x + Frozen x - owed env acc (Addr x) e else 0)"
    and "balance_of env acc' b = balance_of env acc b"
    and "plain e' \<Longrightarrow> owed env acc' a e' =
           (if e' = e \<and> FormatAddrKey env a = FormatAddrKey env (Addr x) then Balance x + Frozen x
            else owed env acc a e')"
proof -
  let ?k = "execAccountKey env acc (Addr x) e" and ?v = "Encode env (MAccount x)"
  note b = base [unfolded ledger_base_def]
  have acc': "acc' = acc\<lparr>db := (db acc)(?k \<mapsto> ?v)\<rparr>"
    by (simp add: acc'_def SaveExecAccount_def GetExecKVSet_def)
  have dec: "DecodeAccount env ?v = Some x" using b by (simp add: codec_ok_def)
  have main: "\<not> is_main_key acc ?k" using b by (simp add: not_main_execAccountKey)
  have exec: "is_exec_key acc e' ?k \<longleftrightarrow> e' = e" if "plain e'" for e'
    using that e x by (auto simp: is_exec_key_execAccountKey)
  have "entry_ok env acc ?k ?v" using dec x exec main by (auto simp: entry_ok_def)
  with b show "ledger_base env acc'" by (auto simp: ledger_base_def acc')
  have mv: "main_value env acc ?k w = 0" for w using main by (simp add: main_value_def)
  then show "main_total env acc' = main_total env acc"
    using b by (simp add: acc' main_total_def kv_sum_upd kv_at_def split: option.splits)
  show "exec_total env acc' e' = exec_total env acc e' +
           (if e' = e then Balance x + Frozen x - owed env acc (Addr x) e else 0)" if "plain e'"
    using b dec exec [OF that]
    by (simp add: acc' exec_total_def kv_sum_upd owed_def exec_value_def kv_at_def split: option.splits)
  show "balance_of env acc' b = balance_of env acc b"
    using mv by (simp add: acc' balance_of_def kv_at_def split: option.splits)
  show "owed env acc' a e' =
           (if e' = e \<and> FormatAddrKey env a = FormatAddrKey env (Addr x) then Balance x + Frozen x
            else owed env acc a e')" if "plain e'"
    using that e x dec
    by (auto simp: acc' owed_def kv_at_def exec_value_def execAccountKey_eq_iff
        is_exec_key_execAccountKey wf_addr_def)
qed

section \<open>What each operation does to the totals\<close>

lemma CheckAmount_bounds: "CheckAmount env n \<Longrightarrow> 0 < n \<and> n < 2 ^ 63"
  using i64_range [of "MaxCoin * CoinPrecision env"]
  by (auto simp: CheckAmount_def in_i64_def split: if_splits)

lemma i64_sub_nonneg_iff:
  assumes "0 \<le> b" "b < 2 ^ 63" "0 < n" "n < 2 ^ 63"
  shows "i64 (b - n) = b - n" "0 \<le> i64 (b - n) \<longleftrightarrow> n \<le> b"
  using assms by (simp_all add: i64_diff_nonneg)

lemma i64_sum_id: "0 \<le> x \<Longrightarrow> x < 2 ^ 63 \<Longrightarrow> i64 x = x"
  by (intro i64_id i64_nonneg_range)

lemma wf_addr_cong: "FormatAddrKey env a = FormatAddrKey env b \<Longrightarrow> wf_addr env a = wf_addr env b"
  by (simp add: wf_addr_def)

lemma balance_of_cong: "FormatAddrKey env a = FormatAddrKey env b \<Longrightarrow> balance_of env acc a = balance_of env acc b"
  by (simp add: balance_of_def AccountKey_def)

lemma owed_cong: "FormatAddrKey env a = FormatAddrKey env b \<Longrightarrow> owed env acc a e = owed env acc b e"
  by (simp add: owed_def execAccountKey_def)

lemma balance_of_bounds:
  assumes "ledger_base env acc" "wf_addr env a"
  shows "0 \<le> balance_of env acc a" "balance_of env acc a \<le> main_total env acc"
  using LoadAccount_ok [OF assms] by metis+

lemma owed_bounds:
  assumes "ledger_base env acc" "wf_addr env a" "plain e"
  shows "0 \<le> owed env acc a e" "owed env acc a e \<le> exec_total env acc e"
  using LoadExecAccount_ok [OF assms] by (metis add_nonneg_nonneg)+

text \<open>
  \<open>ledger_delta env acc acc' s w o\<close>: the ledger stays well-formed, the supply moves by
  \<open>s\<close>, the main balance under each key by \<open>w\<close>, and what each contract owes by \<open>o\<close>.
\<close>

definition ledger_delta ::
  "'v acc_env \<Rightarrow> 'v acc_db \<Rightarrow> 'v acc_db \<Rightarrow> int \<Rightarrow> (string \<Rightarrow> int) \<Rightarrow> (string \<Rightarrow> int) \<Rightarrow> bool" where
  "ledger_delta env acc acc' s w ow \<longleftrightarrow> ledger_base env acc' \<and>
     main_total env acc' = main_total env acc + s \<and>
     (\<forall>b. balance_of env acc' b = balance_of env acc b + w (FormatAddrKey env b)) \<and>
     (\<forall>e. plain e \<longrightarrow> exec_total env acc' e = exec_total env acc e + ow e)"

definition at_key :: "string \<Rightarrow> int \<Rightarrow> string \<Rightarrow> int" where
  "at_key k n j = (if j = k then n else 0)"

lemma ledger_delta_trans:
  assumes "ledger_delta env a b s w ow" "ledger_delta env b c s' w' ow'"
    "\<And>k. w'' k = w k + w' k" "\<And>e. ow'' e = ow e + ow' e" "s'' = s + s'"
  shows "ledger_delta env a c s'' w'' ow''"
  using assms by (simp add: ledger_delta_def)

lemma ledger_ok_delta:
  assumes "ledger_ok env C acc" "ledger_delta env acc acc' s w ow"
    "main_total env acc + s < 2 ^ 63" "\<And>e. e \<in> C \<Longrightarrow> ow e \<le> w e"
  shows "ledger_ok env C acc'"
  using assms unfolding ledger_ok_def ledger_delta_def wf_exec_def
  by (smt (verit, best))

lemma Transfer_delta:
  assumes base: "ledger_base env acc" "main_total env acc < 2 ^ 63"
    and wf: "wf_addr env frm" "wf_addr env dest"
    and run: "Transfer env acc frm dest n = (Inr r, acc')"
  shows "FormatAddrKey env frm \<noteq> FormatAddrKey env dest" "0 < n" "n \<le> balance_of env acc frm"
    "ledger_delta env acc acc' 0
       (\<lambda>k. at_key (FormatAddrKey env dest) n k - at_key (FormatAddrKey env frm) n k) (\<lambda>e. 0)"
proof -
  obtain x where x: "LoadAccount env acc frm = Inr x" "0 \<le> Balance x" "0 \<le> Frozen x"
    "Balance x = balance_of env acc frm" "FormatAddrKey env (Addr x) = FormatAddrKey env frm"
    "Balance x \<le> main_total env acc" using LoadAccount_ok [OF base(1) wf(1)] .
  obtain y where y: "LoadAccount env acc dest = Inr y" "0 \<le> Balance y" "0 \<le> Frozen y"
    "Balance y = balance_of env acc dest" "FormatAddrKey env (Addr y) = FormatAddrKey env dest"
    "Balance y \<le> main_total env acc" using LoadAccount_ok [OF base(1) wf(2)] .
  have amt: "CheckAmount env n" and ne: "Addr x \<noteq> Addr y" and en: "0 \<le> i64 (Balance x - n)"
    using run x(1) y(1) by (auto simp: Transfer_def split: if_splits)
  then show n: "0 < n" using CheckAmount_bounds by blast
  have bx: "Balance x < 2 ^ 63" "n < 2 ^ 63" using x base amt CheckAmount_bounds by force+
  then have sub: "i64 (Balance x - n) = Balance x - n" and le: "n \<le> Balance x"
    using i64_sub_nonneg_iff [of "Balance x" n] x(2) n en by auto
  then show "n \<le> balance_of env acc frm" using x(4) by simp
  show keys: "FormatAddrKey env frm \<noteq> FormatAddrKey env dest"
  proof
    assume same: "FormatAddrKey env frm = FormatAddrKey env dest"
    then have "accountReadKey env acc frm = accountReadKey env acc dest"
      by (simp add: accountReadKey_def)
    with x(1) y(1) ne have "x = new_account frm" by (auto simp: LoadAccount_def split: option.splits)
    with le n show False by (simp add: new_account_def)
  qed
  define x' where "x' = x\<lparr>Balance := Balance x - n\<rparr>"
  define y' where "y' = y\<lparr>Balance := i64 (Balance y + n)\<rparr>"
  define acc1 where "acc1 = SaveKVSet acc (GetKVSet env acc x')"
  have acc': "acc' = SaveKVSet acc1 (GetKVSet env acc1 y')"
    using run x(1) y(1) amt ne en sub
    by (auto simp: Transfer_def Let_def acc1_def x'_def y'_def)
  have wx: "wf_addr env (Addr x')" "0 \<le> Balance x'" "0 \<le> Frozen x'"
    using x wf le by (simp_all add: x'_def wf_addr_def)
  note s1 = save_main [OF base(1) wx, folded acc1_def]
  have bal1: "balance_of env acc1 dest = Balance y"
    using s1(4) [of dest] keys x(5) y(4) by (simp add: x'_def)
  have mt1: "main_total env acc1 = main_total env acc - n"
    using s1(2) x(4) balance_of_cong [OF x(5)] by (simp add: x'_def)
  from balance_of_bounds [OF s1(1) wf(2)] have ybal: "Balance y' = Balance y + n"
    using bal1 mt1 base(2) y(2) n by (simp add: y'_def i64_sum_id)
  have wy: "wf_addr env (Addr y')" "0 \<le> Balance y'" "0 \<le> Frozen y'"
    using y wf n ybal by (simp_all add: y'_def wf_addr_def)
  note s2 = save_main [OF s1(1) wy, folded acc']
  have ay: "balance_of env acc1 (Addr y') = Balance y"
    using bal1 balance_of_cong [of env "Addr y'" dest acc1] y(5) by (simp add: y'_def)
  have "balance_of env acc' b = balance_of env acc b +
      (at_key (FormatAddrKey env dest) n (FormatAddrKey env b) - at_key (FormatAddrKey env frm) n (FormatAddrKey env b))"
    for b
    using s2(4) [of b] s1(4) [of b] ybal x y keys balance_of_cong [of env b dest acc]
      balance_of_cong [of env b frm acc] by (simp add: x'_def y'_def at_key_def)
  then show "ledger_delta env acc acc' 0
       (\<lambda>k. at_key (FormatAddrKey env dest) n k - at_key (FormatAddrKey env frm) n k) (\<lambda>e. 0)"
    using s2(1,2) ybal mt1 ay by (simp add: ledger_delta_def s2(3) s1(3))
qed

lemma main_update_delta:
  assumes base: "ledger_base env acc" and wf: "wf_addr env a"
    and x: "LoadAccount env acc a = Inr x" "0 \<le> b"
  shows "ledger_delta env acc (SaveKVSet acc (GetKVSet env acc (x\<lparr>Balance := b\<rparr>)))
     (b - balance_of env acc a) (at_key (FormatAddrKey env a) (b - balance_of env acc a)) (\<lambda>e. 0)"
proof -
  let ?x = "x\<lparr>Balance := b\<rparr>"
  have fr: "0 \<le> Frozen x" and key: "FormatAddrKey env (Addr x) = FormatAddrKey env a"
    using LoadAccount_ok [OF base wf] x(1) by (metis sum.inject(2))+
  have ax: "balance_of env acc (Addr x) = balance_of env acc a"
    using key by (rule balance_of_cong)
  have x': "wf_addr env (Addr ?x)" "0 \<le> Balance ?x" "0 \<le> Frozen ?x"
    using wf key fr x(2) by (simp_all add: wf_addr_def)
  note s = save_main [OF base x']
  have "balance_of env (SaveKVSet acc (GetKVSet env acc ?x)) c =
      balance_of env acc c + at_key (FormatAddrKey env a) (b - balance_of env acc a) (FormatAddrKey env c)" for c
    using s(4) [of c] key balance_of_cong [of env c a acc] by (simp add: at_key_def)
  with s(1-3) ax show ?thesis by (simp add: ledger_delta_def)
qed

lemma exec_update_delta:
  assumes base: "ledger_base env acc" and wf: "wf_addr env a" "plain e"
    and run: "exec_update env acc a e n ty short upd = (Inr r, acc')"
    and upd: "\<And>x. \<not> short x \<Longrightarrow> CheckAmount env n \<Longrightarrow> 0 \<le> Balance x \<Longrightarrow> 0 \<le> Frozen x \<Longrightarrow>
      Balance x + Frozen x \<le> exec_total env acc e \<Longrightarrow>
      Addr (upd x) = Addr x \<and> 0 \<le> Balance (upd x) \<and> 0 \<le> Frozen (upd x) \<and>
      Balance (upd x) + Frozen (upd x) = Balance x + Frozen x + d"
  shows "ledger_delta env acc acc' 0 (\<lambda>k. 0) (at_key e d)"
proof -
  obtain x where x: "LoadExecAccount env acc a e = Inr x" "0 \<le> Balance x" "0 \<le> Frozen x"
    "Balance x + Frozen x = owed env acc a e" "FormatAddrKey env (Addr x) = FormatAddrKey env a"
    "Balance x + Frozen x \<le> exec_total env acc e" using LoadExecAccount_ok [OF base wf] .
  have ok: "\<not> short x" "CheckAmount env n" and acc': "acc' = SaveExecAccount env acc e (upd x)"
    using run x(1) by (auto simp: exec_update_def split: if_splits)
  note u = upd [OF ok x(2,3,6)]
  then have "wf_addr env (Addr (upd x))" using wf x(5) by (simp add: wf_addr_def)
  moreover have "owed env acc (Addr (upd x)) e = owed env acc a e"
    using u x(5) by (intro owed_cong) simp
  ultimately show ?thesis
    using save_exec [OF base, of "upd x" e] u wf x(4) acc' by (simp add: ledger_delta_def at_key_def)
qed


lemma exec_move_delta:
  assumes base: "ledger_base env acc" "exec_total env acc e < 2 ^ 63"
    and wf: "wf_addr env frm" "wf_addr env dest" "plain e"
    and keys: "FormatAddrKey env frm \<noteq> FormatAddrKey env dest"
    and run: "exec_move env acc frm dest e n short out = (Inr r, acc')"
    and out: "\<And>x. \<not> short x \<Longrightarrow> CheckAmount env n \<Longrightarrow> 0 \<le> Balance x \<Longrightarrow> 0 \<le> Frozen x \<Longrightarrow>
      Balance x + Frozen x \<le> exec_total env acc e \<Longrightarrow>
      Addr (out x) = Addr x \<and> 0 \<le> Balance (out x) \<and> 0 \<le> Frozen (out x) \<and>
      Balance (out x) + Frozen (out x) = Balance x + Frozen x - n"
  shows "ledger_delta env acc acc' 0 (\<lambda>k. 0) (\<lambda>e. 0)"
proof -
  obtain x where x: "LoadExecAccount env acc frm e = Inr x" "0 \<le> Balance x" "0 \<le> Frozen x"
    "Balance x + Frozen x = owed env acc frm e" "FormatAddrKey env (Addr x) = FormatAddrKey env frm"
    "Balance x + Frozen x \<le> exec_total env acc e" using LoadExecAccount_ok [OF base(1) wf(1,3)] .
  obtain y where y: "LoadExecAccount env acc dest e = Inr y" "0 \<le> Balance y" "0 \<le> Frozen y"
    "Balance y + Frozen y = owed env acc dest e" "FormatAddrKey env (Addr y) = FormatAddrKey env dest"
    using LoadExecAccount_ok [OF base(1) wf(2,3)] .
  define y' where "y' = y\<lparr>Balance := i64 (Balance y + n)\<rparr>"
  define acc1 where "acc1 = SaveExecAccount env acc e (out x)"
  have ok: "\<not> short x" "CheckAmount env n" and acc': "acc' = SaveExecAccount env acc1 e y'"
    using run x(1) y(1) by (auto simp: exec_move_def Let_def y'_def acc1_def split: if_splits)
  note u = out [OF ok x(2,3,6)]
  have wx: "wf_addr env (Addr (out x))" using u wf x(5) by (simp add: wf_addr_def)
  have ox: "owed env acc (Addr (out x)) e = owed env acc frm e"
    using u x(5) by (intro owed_cong) simp
  note s1 = save_exec [OF base(1) wx _ _ wf(3), folded acc1_def]
  have b1: "ledger_base env acc1" using s1(1) u by blast
  have t1: "exec_total env acc1 e = exec_total env acc e - n"
    using s1(3) [OF _ _ wf(3)] u ox x(4) by simp
  have o1: "owed env acc1 dest e = owed env acc dest e"
    using s1(5) [OF _ _ wf(3)] u keys x(5) by simp
  from owed_bounds [OF b1 wf(2,3)] have "Balance y + Frozen y \<le> exec_total env acc e - n" using t1 o1 y(4) by simp
  then have yb: "Balance y' = Balance y + n"
    using base(2) y(2,3) ok(2) CheckAmount_bounds [of env n] by (simp add: y'_def i64_sum_id)
  have wy: "wf_addr env (Addr y')" "0 \<le> Balance y'" "0 \<le> Frozen y'"
    using wf y yb ok(2) CheckAmount_bounds [of env n] by (simp_all add: y'_def wf_addr_def)
  have oy: "owed env acc1 (Addr y') e = owed env acc dest e"
    using o1 y(5) owed_cong [of env "Addr y'" dest acc1 e] by (simp add: y'_def)
  note s2 = save_exec [OF b1 wy wf(3), folded acc']
  show ?thesis
    using s1 s2 u ox oy x(4) y(4) yb by (simp add: ledger_delta_def y'_def)
qed

lemma exec_op_delta:
  assumes "ledger_base env acc" "exec_total env acc e < 2 ^ 63" "wf_addr env a" "plain e"
  shows "ExecFrozen env acc a e n = (Inr r, acc') \<Longrightarrow> ledger_delta env acc acc' 0 (\<lambda>k. 0) (at_key e 0)"
    and "ExecActive env acc a e n = (Inr r, acc') \<Longrightarrow> ledger_delta env acc acc' 0 (\<lambda>k. 0) (at_key e 0)"
    and "ExecWithdraw env acc e a n = (Inr r, acc') \<Longrightarrow> ledger_delta env acc acc' 0 (\<lambda>k. 0) (at_key e (- n))"
    and "exec_total env acc e + n < 2 ^ 63 \<Longrightarrow> ExecDeposit env acc a e n = (Inr r, acc') \<Longrightarrow>
      ledger_delta env acc acc' 0 (\<lambda>k. 0) (at_key e n)"
    and "exec_total env acc e + n < 2 ^ 63 \<Longrightarrow> execDepositFrozen env acc a e n = (Inr r, acc') \<Longrightarrow>
      ledger_delta env acc acc' 0 (\<lambda>k. 0) (at_key e n)"
  unfolding ExecFrozen_def ExecActive_def ExecWithdraw_def ExecDeposit_def execDepositFrozen_def
  using assms(2)
  by (auto elim!: exec_update_delta [OF assms(1,3,4)] dest!: CheckAmount_bounds simp: i64_diff_nonneg i64_sum_id)

lemma exec_transfer_delta:
  assumes "ledger_base env acc" "exec_total env acc e < 2 ^ 63" "wf_addr env f" "wf_addr env t" "plain e"
    "FormatAddrKey env f \<noteq> FormatAddrKey env t"
  shows "ExecTransfer env acc f t e n = (Inr r, acc') \<Longrightarrow> ledger_delta env acc acc' 0 (\<lambda>k. 0) (\<lambda>e. 0)"
    and "ExecTransferFrozen env acc f t e n = (Inr r, acc') \<Longrightarrow> ledger_delta env acc acc' 0 (\<lambda>k. 0) (\<lambda>e. 0)"
  unfolding ExecTransfer_def ExecTransferFrozen_def
  using assms(2)
  by (auto elim!: exec_move_delta [OF assms(1-6)] dest!: CheckAmount_bounds simp: i64_diff_nonneg)


section \<open>The specification of the operations\<close>

text \<open>
  What each operation is meant to do, without keys, codecs or machine integers: how much
  it adds to the coin supply, to the wallet stored under a key, and to what a contract owes.
\<close>

fun supply_change :: "acc_op \<Rightarrow> int" where
  "supply_change (OpMint a n) = n"
| "supply_change (OpBurn a n) = - n"
| "supply_change (OpGenesisInit a n) = n"
| "supply_change (OpGenesisInitExec a n e) = n"
| "supply_change (OpExecIssueCoins e n) = n"
| "supply_change (OpExecDepositFrozen a e n) = n"
| "supply_change _ = 0"

fun wallet_change :: "'v acc_env \<Rightarrow> acc_op \<Rightarrow> string \<Rightarrow> int" where
  "wallet_change env (OpTransfer f t n) k =
     at_key (FormatAddrKey env t) n k - at_key (FormatAddrKey env f) n k"
| "wallet_change env (OpMint a n) k = at_key (FormatAddrKey env a) n k"
| "wallet_change env (OpBurn a n) k = - at_key (FormatAddrKey env a) n k"
| "wallet_change env (OpGenesisInit a n) k = at_key (FormatAddrKey env a) n k"
| "wallet_change env (OpGenesisInitExec a n e) k = at_key (FormatAddrKey env e) n k"
| "wallet_change env (OpTransferToExec f e n) k =
     at_key (FormatAddrKey env e) n k - at_key (FormatAddrKey env f) n k"
| "wallet_change env (OpTransferWithdraw f e n) k =
     at_key (FormatAddrKey env f) n k - at_key (FormatAddrKey env e) n k"
| "wallet_change env (OpExecIssueCoins e n) k = at_key (FormatAddrKey env e) n k"
| "wallet_change env (OpExecDepositFrozen a e n) k = at_key (FormatAddrKey env e) n k"
| "wallet_change env _ k = 0"

fun owed_change :: "acc_op \<Rightarrow> string \<Rightarrow> int" where
  "owed_change (OpGenesisInitExec a n e) c = at_key e n c"
| "owed_change (OpTransferToExec f e n) c = at_key e n c"
| "owed_change (OpTransferWithdraw f e n) c = - at_key e n c"
| "owed_change (OpExecDeposit a e n) c = at_key e n c"
| "owed_change (OpExecWithdraw e a n) c = - at_key e n c"
| "owed_change (OpExecDepositFrozen a e n) c = at_key e n c"
| "owed_change _ c = 0"

text \<open>
  \<open>permitted\<close>: the calls the executors make. A wallet that is debited belongs to a user,
  not to a contract of \<open>C\<close>; sub-accounts are those of a contract; the two parties of a
  transfer inside a contract have different keys; an issue keeps the supply below
  \<open>2 ^ 63\<close>. The raw \<^verbatim>\<open>ExecDeposit\<close>, which the package calls only behind a
  transfer or an issue, is not permitted alone.
\<close>

definition user :: "'v acc_env \<Rightarrow> string set \<Rightarrow> string \<Rightarrow> bool" where
  "user env C a \<longleftrightarrow> wf_addr env a \<and> FormatAddrKey env a \<notin> C"

definition may_issue :: "'v acc_env \<Rightarrow> 'v acc_db \<Rightarrow> int \<Rightarrow> bool" where
  "may_issue env acc n \<longleftrightarrow> 0 \<le> n \<and> main_total env acc + n < 2 ^ 63"

fun permitted :: "'v acc_env \<Rightarrow> string set \<Rightarrow> 'v acc_db \<Rightarrow> acc_op \<Rightarrow> bool" where
  "permitted env C acc (OpTransfer f t n) = (user env C f \<and> wf_addr env t)"
| "permitted env C acc (OpMint a n) = (wf_addr env a \<and> may_issue env acc n)"
| "permitted env C acc (OpBurn a n) = user env C a"
| "permitted env C acc (OpGenesisInit a n) = (wf_addr env a \<and> may_issue env acc n)"
| "permitted env C acc (OpGenesisInitExec a n e) =
     (user env C a \<and> e \<in> C \<and> may_issue env acc n \<and> CheckAmount env n)"
| "permitted env C acc (OpTransferToExec f e n) = (user env C f \<and> e \<in> C)"
| "permitted env C acc (OpTransferWithdraw f e n) = (user env C f \<and> e \<in> C)"
| "permitted env C acc (OpExecFrozen a e n) = (wf_addr env a \<and> e \<in> C)"
| "permitted env C acc (OpExecActive a e n) = (wf_addr env a \<and> e \<in> C)"
| "permitted env C acc (OpExecTransfer f t e n) =
     (wf_addr env f \<and> wf_addr env t \<and> FormatAddrKey env f \<noteq> FormatAddrKey env t \<and> e \<in> C)"
| "permitted env C acc (OpExecTransferFrozen f t e n) =
     (wf_addr env f \<and> wf_addr env t \<and> FormatAddrKey env f \<noteq> FormatAddrKey env t \<and> e \<in> C)"
| "permitted env C acc (OpExecDeposit a e n) = False"
| "permitted env C acc (OpExecWithdraw e a n) = (wf_addr env a \<and> e \<in> C)"
| "permitted env C acc (OpExecIssueCoins e n) = (wf_addr env e \<and> may_issue env acc n)"
| "permitted env C acc (OpExecDepositFrozen a e n) = (user env C a \<and> e \<in> C \<and> may_issue env acc n)"

lemma contract_facts:
  assumes "ledger_ok env C acc" "e \<in> C"
  shows "plain e" "wf_addr env e" "FormatAddrKey env e = e"
    "exec_total env acc e \<le> balance_of env acc e" "exec_total env acc e < 2 ^ 63"
  using assms balance_of_bounds(2) [of env acc e]
  by (force simp: ledger_ok_def wf_exec_def wf_addr_def)+

lemma issue_delta:
  assumes base: "ledger_base env acc" and wf: "wf_addr env a" and issue: "may_issue env acc n"
  shows "Mint env acc a n = (Inr r, acc') \<Longrightarrow>
      ledger_delta env acc acc' n (at_key (FormatAddrKey env a) n) (\<lambda>e. 0)"
    and "GenesisInit env acc a n = (Inr r, acc') \<Longrightarrow>
      ledger_delta env acc acc' n (at_key (FormatAddrKey env a) n) (\<lambda>e. 0)"
    and "depositBalance env acc a n = (Inr r, acc') \<Longrightarrow>
      ledger_delta env acc acc' n (at_key (FormatAddrKey env a) n) (\<lambda>e. 0)"
proof -
  obtain x where x: "LoadAccount env acc a = Inr x" "0 \<le> Balance x"
    "Balance x = balance_of env acc a" "Balance x \<le> main_total env acc"
    using LoadAccount_ok [OF base wf] .
  have sum: "i64 (Balance x + n) = Balance x + n"
    using x issue by (intro i64_sum_id) (auto simp: may_issue_def)
  have "ledger_delta env acc (SaveKVSet acc (GetKVSet env acc (x\<lparr>Balance := Balance x + n\<rparr>))) n
      (at_key (FormatAddrKey env a) n) (\<lambda>e. 0)"
    using main_update_delta [OF base wf x(1), of "Balance x + n"] x issue by (simp add: may_issue_def)
  then show "Mint env acc a n = (Inr r, acc') \<Longrightarrow>
      ledger_delta env acc acc' n (at_key (FormatAddrKey env a) n) (\<lambda>e. 0)"
    and "GenesisInit env acc a n = (Inr r, acc') \<Longrightarrow>
      ledger_delta env acc acc' n (at_key (FormatAddrKey env a) n) (\<lambda>e. 0)"
    and "depositBalance env acc a n = (Inr r, acc') \<Longrightarrow>
      ledger_delta env acc acc' n (at_key (FormatAddrKey env a) n) (\<lambda>e. 0)"
    using x(1) sum
    by (auto simp: Mint_def GenesisInit_def depositBalance_def safeAdd_def Let_def SaveAccount_def split: if_splits)
qed


lemma Burn_delta:
  assumes base: "ledger_base env acc" "main_total env acc < 2 ^ 63" and wf: "wf_addr env a"
    and run: "Burn env acc a n = (Inr r, acc')"
  shows "0 < n" "ledger_delta env acc acc' (- n) (\<lambda>k. - at_key (FormatAddrKey env a) n k) (\<lambda>e. 0)"
proof -
  obtain x where x: "LoadAccount env acc a = Inr x" "0 \<le> Balance x"
    "Balance x = balance_of env acc a" "Balance x \<le> main_total env acc"
    using LoadAccount_ok [OF base(1) wf] .
  have le: "n \<le> Balance x" "CheckAmount env n"
    using run x(1) by (auto simp: Burn_def split: if_splits)
  then show n: "0 < n" using CheckAmount_bounds by blast
  then have "i64 (Balance x - n) = Balance x - n" using x base(2) le by (intro i64_diff_nonneg) auto
  then have "acc' = SaveKVSet acc (GetKVSet env acc (x\<lparr>Balance := Balance x - n\<rparr>))"
    using run x(1) le by (auto simp: Burn_def Let_def)
  moreover have "at_key k (- n) = (\<lambda>j. - at_key k n j)" for k by (auto simp: at_key_def)
  ultimately show "ledger_delta env acc acc' (- n) (\<lambda>k. - at_key (FormatAddrKey env a) n k) (\<lambda>e. 0)"
    using main_update_delta [OF base(1) wf x(1), of "Balance x - n"] x le by simp
qed

text \<open>A deposit into a contract behind a credit of the same amount to the contract's wallet.\<close>

lemma covered:
  assumes ok: "ledger_ok env C acc" and e: "e \<in> C"
    and d: "ledger_delta env acc acc1 s w (\<lambda>e. 0)" "main_total env acc + s < 2 ^ 63" "n \<le> w e" "0 \<le> n"
  shows "ledger_base env acc1" "exec_total env acc1 e < 2 ^ 63" "exec_total env acc1 e + n < 2 ^ 63"
proof -
  note c = contract_facts [OF ok e]
  show b: "ledger_base env acc1" using d(1) by (simp add: ledger_delta_def)
  have "exec_total env acc1 e + n \<le> balance_of env acc1 e"
    using d c by (simp add: ledger_delta_def)
  also have "\<dots> \<le> main_total env acc1" using balance_of_bounds(2) [OF b c(2)] .
  also have "\<dots> < 2 ^ 63" using d by (simp add: ledger_delta_def)
  finally show "exec_total env acc1 e + n < 2 ^ 63" .
  then show "exec_total env acc1 e < 2 ^ 63" using d(4) by simp
qed

lemma TransferToExec_delta:
  assumes ok: "ledger_ok env C acc" and p: "user env C f" "e \<in> C"
    and run: "TransferToExec env acc f e n = (Inr r, acc')"
  shows "0 < n" "ledger_delta env acc acc' 0 (wallet_change env (OpTransferToExec f e n))
     (owed_change (OpTransferToExec f e n))"
proof -
  note c = contract_facts [OF ok p(2)]
  have wf: "wf_addr env f" "FormatAddrKey env f \<noteq> e" using p by (auto simp: user_def)
  obtain r1 acc1 r2 where t: "Transfer env acc f e n = (Inr r1, acc1)"
    and x: "ExecDeposit env acc1 f e n = (Inr r2, acc')"
    using run by (auto simp: TransferToExec_def split: prod.splits sum.splits)
  have base: "ledger_base env acc" "main_total env acc < 2 ^ 63" using ok by (simp_all add: ledger_ok_def)
  note d = Transfer_delta [OF base wf(1) c(2) t]
  show "0 < n" by (rule d(2))
  note k = covered [OF ok p(2) d(4), of n]
  have "n \<le> at_key (FormatAddrKey env e) n e - at_key (FormatAddrKey env f) n e"
    using c(3) wf(2) by (simp add: at_key_def)
  then have "ledger_delta env acc1 acc' 0 (\<lambda>k. 0) (at_key e n)"
    using k base d(2) x wf(1) c(1) by (intro exec_op_delta(4)) simp_all
  from ledger_delta_trans [OF d(4) this] show "ledger_delta env acc acc' 0
     (wallet_change env (OpTransferToExec f e n)) (owed_change (OpTransferToExec f e n))" by simp
qed

lemma TransferWithdraw_delta:
  assumes ok: "ledger_ok env C acc" and p: "user env C f" "e \<in> C"
    and run: "TransferWithdraw env acc f e n = (Inr r, acc')"
  shows "ledger_delta env acc acc' 0 (wallet_change env (OpTransferWithdraw f e n))
     (owed_change (OpTransferWithdraw f e n))"
proof -
  note c = contract_facts [OF ok p(2)]
  have wf: "wf_addr env f" using p by (auto simp: user_def)
  obtain r1 acc1 r2 where x: "ExecWithdraw env acc e f n = (Inr r1, acc1)"
    and t: "Transfer env acc1 e f n = (Inr r2, acc')"
    using run by (auto simp: TransferWithdraw_def split: prod.splits sum.splits option.splits)
  have base: "ledger_base env acc" "main_total env acc < 2 ^ 63" using ok by (simp_all add: ledger_ok_def)
  note d1 = exec_op_delta(3) [OF base(1) c(5) wf c(1) x]
  then have "ledger_base env acc1" "main_total env acc1 < 2 ^ 63"
    using base by (simp_all add: ledger_delta_def)
  note d2 = Transfer_delta [OF this c(2) wf t]
  show ?thesis by (rule ledger_delta_trans [OF d1 d2(4)]) (simp_all add: at_key_def)
qed

lemma GenesisInitExec_delta:
  assumes ok: "ledger_ok env C acc" and p: "user env C a" "e \<in> C" "may_issue env acc n"
    and run: "GenesisInitExec env acc a n e = (Inr r, acc')"
  shows "ledger_delta env acc acc' n (wallet_change env (OpGenesisInitExec a n e))
     (owed_change (OpGenesisInitExec a n e))"
proof -
  note c = contract_facts [OF ok p(2)]
  have wf: "wf_addr env a" using p by (auto simp: user_def)
  obtain r1 acc1 r2 where t: "GenesisInit env acc e n = (Inr r1, acc1)"
    and x: "ExecDeposit env acc1 a e n = (Inr r2, acc')"
    using run by (auto simp: GenesisInitExec_def GenesisInit_def Let_def split: prod.splits sum.splits)
  have base: "ledger_base env acc" using ok by (simp add: ledger_ok_def)
  note d = issue_delta(2) [OF base c(2) p(3) t]
  have "n \<le> at_key (FormatAddrKey env e) n e" using c(3) by (simp add: at_key_def)
  then have "ledger_delta env acc1 acc' 0 (\<lambda>k. 0) (at_key e n)"
    using covered [OF ok p(2) d, of n] p(3) x wf c(1)
    by (intro exec_op_delta(4)) (simp_all add: may_issue_def)
  from ledger_delta_trans [OF d this] show ?thesis by simp
qed

lemma ExecDepositFrozen_delta:
  assumes ok: "ledger_ok env C acc" and p: "user env C a" "e \<in> C" "may_issue env acc n"
    and run: "ExecDepositFrozen env acc a e n = (Inr r, acc')"
  shows "ledger_delta env acc acc' n (wallet_change env (OpExecDepositFrozen a e n))
     (owed_change (OpExecDepositFrozen a e n))"
proof -
  note c = contract_facts [OF ok p(2)]
  have wf: "wf_addr env a" using p by (auto simp: user_def)
  obtain r1 acc1 r2 where t: "depositBalance env acc e n = (Inr r1, acc1)"
    and x: "execDepositFrozen env acc1 a e n = (Inr r2, acc')"
    using run by (auto simp: ExecDepositFrozen_def ExecIssueCoins_def split: prod.splits sum.splits if_splits)
  have base: "ledger_base env acc" using ok by (simp add: ledger_ok_def)
  note d = issue_delta(3) [OF base c(2) p(3) t]
  have "n \<le> at_key (FormatAddrKey env e) n e" using c(3) by (simp add: at_key_def)
  then have "ledger_delta env acc1 acc' 0 (\<lambda>k. 0) (at_key e n)"
    using covered [OF ok p(2) d, of n] p(3) x wf c(1)
    by (intro exec_op_delta(5)) (simp_all add: may_issue_def)
  from ledger_delta_trans [OF d this] show ?thesis by simp
qed

lemma run_op_refines:
  assumes ok: "ledger_ok env C acc" and p: "permitted env C acc x"
    and run: "run_op env acc x = (Inr r, acc')"
  shows "ledger_delta env acc acc' (supply_change x) (wallet_change env x) (owed_change x)"
proof -
  have base: "ledger_base env acc" "main_total env acc < 2 ^ 63" using ok by (simp_all add: ledger_ok_def)
  show ?thesis
  proof (cases x)
    case (OpTransfer f t n)
    with p run show ?thesis
      using Transfer_delta(4) [OF base, of f t n r acc'] by (simp add: user_def ledger_delta_def)
  next
    case (OpBurn a n)
    with p run show ?thesis using Burn_delta(2) [OF base, of a n r acc'] by (simp add: user_def ledger_delta_def)
  next
    case (OpExecIssueCoins e n)
    with p run show ?thesis
      using issue_delta(3) [OF base(1), of e n r acc'] by (auto simp: ExecIssueCoins_def ledger_delta_def split: if_splits)
  next
    case (OpTransferToExec f e n)
    with p run show ?thesis using TransferToExec_delta(2) [OF ok, of f e n r acc'] by simp
  next
    case (OpTransferWithdraw f e n)
    with p run show ?thesis using TransferWithdraw_delta [OF ok, of f e n r acc'] by simp
  next
    case (OpGenesisInitExec a n e)
    with p run show ?thesis using GenesisInitExec_delta [OF ok, of a e n r acc'] by simp
  next
    case (OpExecDepositFrozen a e n)
    with p run show ?thesis using ExecDepositFrozen_delta [OF ok, of a e n r acc'] by simp
  next
    case (OpMint a n)
    with p run show ?thesis
      using issue_delta(1) [OF base(1), of a n r acc'] by (simp add: ledger_delta_def)
  next
    case (OpGenesisInit a n)
    with p run show ?thesis
      using issue_delta(2) [OF base(1), of a n r acc'] by (simp add: ledger_delta_def)
  next
    case (OpExecFrozen a e n)
    with p run show ?thesis
      using contract_facts [OF ok, of e] exec_op_delta(1) [OF base(1), of e a n r acc']
      by (simp add: ledger_delta_def at_key_def)
  next
    case (OpExecActive a e n)
    with p run show ?thesis
      using contract_facts [OF ok, of e] exec_op_delta(2) [OF base(1), of e a n r acc']
      by (simp add: ledger_delta_def at_key_def)
  next
    case (OpExecWithdraw e a n)
    with p run show ?thesis
      using contract_facts [OF ok, of e] exec_op_delta(3) [OF base(1), of e a n r acc']
      by (simp add: ledger_delta_def at_key_def)
  next
    case (OpExecTransfer f t e n)
    with p run show ?thesis
      using contract_facts [OF ok, of e] exec_transfer_delta(1) [OF base(1), of e f t n r acc']
      by (simp add: ledger_delta_def)
  next
    case (OpExecTransferFrozen f t e n)
    with p run show ?thesis
      using contract_facts [OF ok, of e] exec_transfer_delta(2) [OF base(1), of e f t n r acc']
      by (simp add: ledger_delta_def)
  qed (use p in simp)
qed

lemma burn_amount: "Burn env acc a n = (Inr r, acc') \<Longrightarrow> 0 < n"
  by (auto simp: Burn_def dest!: CheckAmount_bounds split: if_splits)

lemma withdraw_amount: "ExecWithdraw env acc e a n = (Inr r, acc') \<Longrightarrow> 0 < n"
  by (auto simp: ExecWithdraw_def exec_update_def dest!: CheckAmount_bounds split: if_splits)

lemma transfer_amount: "Transfer env acc f t n = (Inr r, acc') \<Longrightarrow> 0 < n"
  by (auto simp: Transfer_def dest!: CheckAmount_bounds split: if_splits)

lemma permitted_covered:
  assumes ok: "ledger_ok env C acc" and p: "permitted env C acc x"
    and run: "run_op env acc x = (Inr r, acc')"
  shows "main_total env acc + supply_change x < 2 ^ 63" "e \<in> C \<Longrightarrow> owed_change x e \<le> wallet_change env x e"
proof -
  have base: "main_total env acc < 2 ^ 63" using ok by (simp add: ledger_ok_def)
  show "main_total env acc + supply_change x < 2 ^ 63"
    using p run base by (cases x) (auto simp: may_issue_def dest: burn_amount)
  show "owed_change x e \<le> wallet_change env x e" if "e \<in> C"
    using p run that contract_facts(3) [OF ok]
    by (cases x) (auto simp: may_issue_def user_def at_key_def TransferToExec_def
        dest: withdraw_amount transfer_amount dest!: less_imp_le split: prod.splits sum.splits)
qed

section \<open>No operation panics\<close>

lemma load_no_panic:
  assumes "ledger_base env acc" "wf_addr env a"
  shows "LoadAccount env acc a \<noteq> Inl err" "plain e \<Longrightarrow> LoadExecAccount env acc a e \<noteq> Inl err"
  using LoadAccount_ok [OF assms] LoadExecAccount_ok [OF assms] by (metis sum.distinct(1))+

lemma base_no_panic:
  assumes "ledger_base env acc" "wf_addr env a"
  shows "wf_addr env b \<Longrightarrow> fst (Transfer env acc a b n) \<noteq> Inl GoPanic"
    and "fst (Mint env acc a n) \<noteq> Inl GoPanic" and "fst (Burn env acc a n) \<noteq> Inl GoPanic"
    and "fst (GenesisInit env acc a n) \<noteq> Inl GoPanic" and "fst (ExecIssueCoins env acc a n) \<noteq> Inl GoPanic"
  using load_no_panic(1) [OF assms(1)] assms(2)
  by (auto simp: account_op_defs ExecIssueCoins_def safeAdd_def Let_def split: sum.splits)

lemma exec_no_panic:
  assumes "ledger_base env acc" "wf_addr env a" "plain e"
  shows "fst (exec_update env acc a e n ty short upd) \<noteq> Inl GoPanic"
    and "wf_addr env b \<Longrightarrow> fst (exec_move env acc a b e n short out) \<noteq> Inl GoPanic"
  using load_no_panic(2) [OF assms(1) _ assms(3)] assms(2)
  by (auto simp: exec_update_def exec_move_def Let_def split: sum.splits)

lemma exec_op_no_panic:
  assumes "ledger_base env acc" "wf_addr env a" "plain e"
  shows "fst (ExecFrozen env acc a e n) \<noteq> Inl GoPanic" "fst (ExecActive env acc a e n) \<noteq> Inl GoPanic"
    "fst (ExecWithdraw env acc e a n) \<noteq> Inl GoPanic" "fst (execDepositFrozen env acc a e n) \<noteq> Inl GoPanic"
    "wf_addr env b \<Longrightarrow> fst (ExecTransfer env acc a b e n) \<noteq> Inl GoPanic"
    "wf_addr env b \<Longrightarrow> fst (ExecTransferFrozen env acc a b e n) \<noteq> Inl GoPanic"
  by (simp_all only: ExecFrozen_def ExecActive_def ExecWithdraw_def execDepositFrozen_def
      ExecTransfer_def ExecTransferFrozen_def exec_no_panic [OF assms] not_False_eq_True)

lemma ExecDeposit_succeeds:
  assumes "ledger_base env acc" "wf_addr env a" "plain e" "a \<noteq> e" "CheckAmount env n"
  obtains r acc' where "ExecDeposit env acc a e n = (Inr r, acc')"
  using load_no_panic(2) [OF assms(1-3)] assms(4,5) that
  by (cases "LoadExecAccount env acc a e") (fastforce simp: ExecDeposit_def exec_update_def)+

lemma TransferWithdraw_no_panic:
  assumes ok: "ledger_ok env C acc" and p: "user env C f" "e \<in> C"
  shows "fst (TransferWithdraw env acc f e n) \<noteq> Inl GoPanic"
proof (cases "CheckTransfer env acc e f n")
  case (Some err)
  with load_no_panic(1) [of env acc e] ok contract_facts(2) [OF ok p(2)] show ?thesis
    by (auto simp: TransferWithdraw_def CheckTransfer_def ledger_ok_def split: sum.splits if_splits)
next
  case None
  note c = contract_facts [OF ok p(2)]
  have wf: "wf_addr env f" "FormatAddrKey env f \<noteq> e" using p by (auto simp: user_def)
  have base: "ledger_base env acc" using ok by (simp add: ledger_ok_def)
  obtain x where x: "LoadAccount env acc e = Inr x" "Balance x = balance_of env acc e"
    using LoadAccount_ok [OF base c(2)] .
  from None x(1) have amt: "CheckAmount env n" "0 \<le> i64 (Balance x - n)"
    by (auto simp: CheckTransfer_def split: if_splits)
  obtain out acc1 where w: "ExecWithdraw env acc e f n = (out, acc1)" by (cases "ExecWithdraw env acc e f n")
  show ?thesis
  proof (cases out)
    case (Inl err)
    then have "err \<noteq> GoPanic"
      using w exec_op_no_panic(3) [OF base wf(1) c(1), of n] by auto
    with w Inl None show ?thesis by (simp add: TransferWithdraw_def)
  next
    case (Inr r)
    note d = exec_op_delta(3) [OF base c(5) wf(1) c(1) w [unfolded Inr]]
    then have b1: "ledger_base env acc1" "balance_of env acc1 e = balance_of env acc e"
      by (simp_all add: ledger_delta_def)
    obtain x1 where x1: "LoadAccount env acc1 e = Inr x1" "Balance x1 = balance_of env acc1 e"
      "FormatAddrKey env (Addr x1) = FormatAddrKey env e" using LoadAccount_ok [OF b1(1) c(2)] .
    obtain y1 where y1: "LoadAccount env acc1 f = Inr y1"
      "FormatAddrKey env (Addr y1) = FormatAddrKey env f" using LoadAccount_ok [OF b1(1) wf(1)] .
    have "Addr x1 \<noteq> Addr y1" using x1(3) y1(2) c(3) wf(2) by auto
    then show ?thesis
      using None w Inr x1 y1(1) amt x(2) b1(2)
      by (auto simp: TransferWithdraw_def Transfer_def Let_def)
  qed
qed

lemma run_op_no_panic:
  assumes ok: "ledger_ok env C acc" and p: "permitted env C acc x"
  shows "fst (run_op env acc x) \<noteq> Inl GoPanic"
proof -
  have base: "ledger_base env acc" "main_total env acc < 2 ^ 63" using ok by (simp_all add: ledger_ok_def)
  note c = contract_facts [OF ok]
  show ?thesis
  proof (cases x)
    case (OpTransferToExec f e n)
    then have f: "wf_addr env f" "f \<noteq> e" "e \<in> C" using p c by (auto simp: user_def)
    show ?thesis
    proof (cases "Transfer env acc f e n")
      case (Pair out acc1)
      show ?thesis
      proof (cases out)
        case (Inl err)
        with Pair OpTransferToExec base_no_panic(1) [OF base(1) f(1) c(2) [OF f(3)], of n]
        show ?thesis by (simp add: TransferToExec_def)
      next
        case (Inr r)
        have d: "ledger_base env acc1" "CheckAmount env n"
          using Transfer_delta(4) [OF base f(1) c(2) [OF f(3)] Pair [unfolded Inr]] Pair Inr
          by (auto simp: ledger_delta_def Transfer_def split: if_splits)
        obtain r2 acc2 where "ExecDeposit env acc1 f e n = (Inr r2, acc2)"
          using ExecDeposit_succeeds [OF d(1) f(1) c(1) [OF f(3)] f(2) d(2)] .
        with Pair Inr OpTransferToExec show ?thesis by (simp add: TransferToExec_def)
      qed
    qed
  next
    case (OpTransferWithdraw f e n)
    with p TransferWithdraw_no_panic [OF ok] show ?thesis by simp
  next
    case (OpGenesisInitExec a n e)
    then have f: "wf_addr env a" "a \<noteq> e" "e \<in> C" "may_issue env acc n" "CheckAmount env n"
      using p c by (auto simp: user_def)
    obtain out acc1 where g: "GenesisInit env acc e n = (out, acc1)" by (cases "GenesisInit env acc e n")
    show ?thesis
    proof (cases out)
      case (Inl err)
      with g OpGenesisInitExec base_no_panic(4) [OF base(1) c(2) [OF f(3)], of n] show ?thesis
        by (auto simp: GenesisInitExec_def GenesisInit_def Let_def split: sum.splits)
    next
      case (Inr r)
      then have "ledger_base env acc1"
        using issue_delta(2) [OF base(1) c(2) [OF f(3)] f(4)] g by (auto simp: ledger_delta_def)
      then obtain r2 acc2 where "ExecDeposit env acc1 a e n = (Inr r2, acc2)"
        using ExecDeposit_succeeds f c(1) [OF f(3)] by metis
      with g Inr OpGenesisInitExec show ?thesis
        by (auto simp: GenesisInitExec_def GenesisInit_def Let_def split: sum.splits)
    qed
  next
    case (OpExecDepositFrozen a e n)
    then have f: "wf_addr env a" "e \<in> C" "may_issue env acc n" using p by (auto simp: user_def)
    obtain out acc1 where g: "ExecIssueCoins env acc e n = (out, acc1)" by (cases "ExecIssueCoins env acc e n")
    show ?thesis
    proof (cases out)
      case (Inl err)
      with g OpExecDepositFrozen base_no_panic(5) [OF base(1) c(2) [OF f(2)], of n] show ?thesis
        by (auto simp: ExecDepositFrozen_def)
    next
      case (Inr r)
      then have "depositBalance env acc e n = (Inr r, acc1)"
        using g by (auto simp: ExecIssueCoins_def split: if_splits)
      then have "ledger_base env acc1"
        using issue_delta(3) [OF base(1) c(2) [OF f(2)] f(3)] by (auto simp: ledger_delta_def)
      from exec_op_no_panic(4) [OF this f(1) c(1) [OF f(2)], of n] g Inr OpExecDepositFrozen show ?thesis
        by (auto simp: ExecDepositFrozen_def split: prod.splits sum.splits)
    qed
  qed (use p base_no_panic [OF base(1)] exec_op_no_panic [OF base(1)] c(1) in
      \<open>simp_all add: user_def\<close>)
qed

section \<open>Reachable ledgers\<close>

text \<open>
  \<open>ledger_reach env C acc0 s acc\<close>: permitted operations, each done or refused, lead from
  \<open>acc0\<close> to \<open>acc\<close>, and those done issue \<open>s\<close> coins in all (issues less burns).
\<close>

inductive ledger_reach :: "'v acc_env \<Rightarrow> string set \<Rightarrow> 'v acc_db \<Rightarrow> int \<Rightarrow> 'v acc_db \<Rightarrow> bool"
  for env C acc0 where
  start: "ledger_reach env C acc0 0 acc0"
| done_op: "ledger_reach env C acc0 s acc \<Longrightarrow> permitted env C acc x \<Longrightarrow>
    run_op env acc x = (Inr r, acc') \<Longrightarrow> ledger_reach env C acc0 (s + supply_change x) acc'"
| refused: "ledger_reach env C acc0 s acc \<Longrightarrow> permitted env C acc x \<Longrightarrow>
    run_op env acc x = (Inl e, acc') \<Longrightarrow> ledger_reach env C acc0 s acc'"

lemma run_op_preserves:
  assumes "ledger_ok env C acc" "permitted env C acc x" "run_op env acc x = (Inr r, acc')"
  shows "ledger_ok env C acc'"
  using run_op_refines [OF assms] permitted_covered [OF assms] by (rule ledger_ok_delta [OF assms(1)])

lemma refused_unchanged:
  assumes "ledger_ok env C acc" "permitted env C acc x" "run_op env acc x = (Inl e, acc')"
  shows "acc' = acc" "e \<noteq> GoPanic"
  using run_op_contract [of acc env x] run_op_no_panic [OF assms(1,2)] assms(3) by auto

end
