(* ===== verification/Ledger_Theorems.thy ===== *)
theory Ledger_Theorems
  imports Ledger
begin

text \<open>
  The properties of the asset ledger: solvency and conservation over every reachable
  ledger, refinement of the specification, receipts, exactness of the checked addition,
  the freeze/activate round trip, and the same-key flaw of \<^verbatim>\<open>ExecTransfer\<close>.
\<close>

section \<open>Concrete environment\<close>

text \<open>
  An environment in which the hypotheses hold: values are the messages themselves, hex
  addresses start with \<open>0x\<close>, one miner executor.
\<close>

fun decode_msg :: "acc_msg \<Rightarrow> account option" where
  "decode_msg (MAccount a) = Some a"
| "decode_msg _ = None"

definition demo_env :: "acc_msg acc_env" where
  "demo_env = \<lparr>CoinPrecision = 100, CoinExec = ''coins'', CoinSymbol = ''omni'',
     MinerExecs = [''pow''], ExecName = (\<lambda>s. s), ExecAddr = (\<lambda>s. s),
     IsHexAddress = (\<lambda>s. take 2 s = ''0x''), FormatKeyFork = True,
     Encode = (\<lambda>m. m), DecodeAccount = decode_msg\<rparr>"

definition demo_ledger :: "acc_msg acc_db" where
  "demo_ledger = NewCoinsAccount demo_env"

lemma demo_sel [simp]:
  "CoinPrecision demo_env = 100" "Encode demo_env m = m" "DecodeAccount demo_env = decode_msg"
  "IsHexAddress demo_env s = (take 2 s = ''0x'')" "FormatKeyFork demo_env"
  by (simp_all add: demo_env_def)

lemma demo_ledger_ok: "ledger_ok demo_env {''cc''} demo_ledger"
  by (simp add: ledger_ok_def ledger_base_def codec_ok_def wf_prefix_def wf_exec_def plain_def
      demo_ledger_def NewCoinsAccount_def newAccountDB_def FormatAddrKey_def main_total_def
      exec_total_def balance_of_def kv_at_def)

lemma demo_user: "user demo_env {''cc''} ''al''" "user demo_env {''cc''} ''bo''"
  by (simp_all add: user_def wf_addr_def plain_def FormatAddrKey_def)

lemma demo_issue: "may_issue demo_env demo_ledger 500"
  by (simp add: may_issue_def main_total_def demo_ledger_def NewCoinsAccount_def newAccountDB_def)

lemmas demo_run = CheckAmount_def MaxCoin_def LoadAccount_def LoadExecAccount_def accountReadKey_def
  AccountKey_def execAccountKey_def FormatAddrKey_def new_account_def safeAdd_def MaxTokenBalance_def
  GetKVSet_def GetExecKVSet_def SaveAccount_def SaveExecAccount_def demo_ledger_def
  NewCoinsAccount_def newAccountDB_def demo_env_def i64_def

definition demo_funded :: "acc_msg acc_db" where
  "demo_funded = snd (GenesisInit demo_env demo_ledger ''al'' 500)"

lemma demo_funded_run: "\<exists>r. run_op demo_env demo_ledger (OpGenesisInit ''al'' 500) = (Inr r, demo_funded)"
  unfolding demo_funded_def by (simp add: GenesisInit_def demo_run Let_def)

lemma demo_funded_ok: "ledger_ok demo_env {''cc''} demo_funded"
  using demo_funded_run run_op_preserves [OF demo_ledger_ok, of "OpGenesisInit ''al'' 500"]
    demo_user demo_issue by (auto simp: user_def)

lemma demo_deposit_run:
  "\<exists>r acc'. run_op demo_env demo_funded (OpTransferToExec ''al'' ''cc'' 200) = (Inr r, acc')"
  unfolding demo_funded_def
  by (simp add: GenesisInit_def TransferToExec_def Transfer_def ExecDeposit_def exec_update_def demo_run Let_def)

section \<open>Properties\<close>

text \<open>
  C1. Contract solvency and conservation of the supply, in every state reachable by
  permitted operations (done or refused): every stored balance, available or frozen, is
  non-negative, the total of the wallets stays below \<open>2 ^ 63\<close> and differs from the first
  state's exactly by what was issued less what was burned, and every contract's wallet
  covers all it owes its users.
\<close>

theorem ledger_reach_solvent:
  assumes "ledger_ok env C acc0" "ledger_reach env C acc0 s acc"
  shows "ledger_ok env C acc \<and> main_total env acc = main_total env acc0 + s"
  using assms(2)
proof induction
  case start
  then show ?case using assms(1) by simp
next
  case (done_op s acc x r acc')
  then show ?case using run_op_refines [of env C acc x r acc'] run_op_preserves [of env C acc x r acc']
    by (simp add: ledger_delta_def)
next
  case (refused s acc x e acc')
  then show ?case using refused_unchanged [of env C acc x e acc'] by simp
qed

theorem ledger_reach_solvent_witness:
  "\<exists>acc. ledger_ok demo_env {''cc''} acc \<and> main_total demo_env acc = 500"
proof -
  obtain r1 where r1: "run_op demo_env demo_ledger (OpGenesisInit ''al'' 500) = (Inr r1, demo_funded)"
    using demo_funded_run by blast
  obtain r2 acc where r2: "run_op demo_env demo_funded (OpTransferToExec ''al'' ''cc'' 200) = (Inr r2, acc)"
    using demo_deposit_run by blast
  have "ledger_reach demo_env {''cc''} demo_ledger (0 + supply_change (OpGenesisInit ''al'' 500)
      + supply_change (OpTransferToExec ''al'' ''cc'' 200)) acc"
    by (rule done_op [OF done_op [OF start _ r1] _ r2]) (use demo_user demo_issue in \<open>auto simp: user_def\<close>)
  moreover have "main_total demo_env demo_ledger = 0"
    by (simp add: main_total_def demo_ledger_def NewCoinsAccount_def newAccountDB_def)
  ultimately show ?thesis
    using ledger_reach_solvent [OF demo_ledger_ok, of 500 acc] by auto
qed

text \<open>
  C10. The operations refine their specification: in a well-formed ledger a permitted
  operation never panics; when it succeeds, the supply, every wallet and every contract's
  debt change by exactly what \<open>supply_change\<close>, \<open>wallet_change\<close> and \<open>owed_change\<close> say,
  in unbounded integers although the code computes in \<open>int64\<close>; when it fails, the ledger
  is as before.
\<close>

theorem run_op_refines_spec:
  assumes "ledger_ok env C acc" "permitted env C acc x"
  shows "case run_op env acc x of
      (Inr r, acc') \<Rightarrow> ledger_delta env acc acc' (supply_change x) (wallet_change env x) (owed_change x)
    | (Inl e, acc') \<Rightarrow> acc' = acc \<and> e \<noteq> GoPanic"
  using run_op_refines [OF assms] refused_unchanged [OF assms]
  by (auto split: prod.splits sum.splits)

theorem run_op_refines_spec_witness:
  "case run_op demo_env demo_funded (OpTransferToExec ''al'' ''cc'' 200) of
      (Inr r, acc') \<Rightarrow> exec_total demo_env acc' ''cc'' = exec_total demo_env demo_funded ''cc'' + 200
    | (Inl e, acc') \<Rightarrow> False"
  using run_op_refines_spec [OF demo_funded_ok, of "OpTransferToExec ''al'' ''cc'' 200"] demo_user
    demo_deposit_run
  by (auto simp: ledger_delta_def plain_def at_key_def)

text \<open>
  Every operation's effect is its receipt: whatever the ledger, a successful
  operation leaves exactly the store that writing the receipt's key-value list in order
  leaves, and an error other than a panic leaves the store untouched. Blocks are
  replayed and rolled back from these lists.
\<close>

theorem run_op_effect_is_receipt:
  "case run_op env acc x of (Inr r, acc') \<Rightarrow> acc' = SaveKVSet acc (KV r)
   | (Inl e, acc') \<Rightarrow> e = GoPanic \<or> acc' = acc"
  using run_op_contract [of acc env x] by (simp add: op_contract_def)

text \<open>
  \<^verbatim>\<open>safeAdd\<close> is exact: for a non-negative \<open>int64\<close> balance and any \<open>int64\<close>
  amount it returns the true sum when that is at most \<^verbatim>\<open>MaxTokenBalance\<close> and
  \<^verbatim>\<open>ErrAmount\<close> otherwise, also when the machine sum wraps around.
\<close>

theorem safeAdd_exact:
  assumes "0 \<le> b" "in_i64 b" "in_i64 n"
  shows "safeAdd b n = (if b + n \<le> MaxTokenBalance then Inr (b + n) else Inl ErrAmount)"
proof (cases "b + n < 2 ^ 63")
  case True
  then have "i64 (b + n) = b + n" using assms by (intro i64_id) (simp add: in_i64_def)
  with assms(1) show ?thesis by (simp add: safeAdd_def)
next
  case False
  then have "i64 (b + n) = b + n - 2 ^ 64"
    using assms by (simp add: i64_def in_i64_def mod_pos_geq mod_pos_pos_trivial)
  with False assms show ?thesis by (simp add: safeAdd_def in_i64_def MaxTokenBalance_def)
qed

theorem safeAdd_exact_witness:
  "safeAdd (2 ^ 63 - 1) 1 = Inl ErrAmount \<and> safeAdd 5 7 = Inr 12"
  using safeAdd_exact [of "2 ^ 63 - 1" 1] safeAdd_exact [of 5 7]
  by (simp add: in_i64_def MaxTokenBalance_def)


text \<open>
  Freezing is undone by activating: after a successful \<^verbatim>\<open>ExecFrozen\<close>,
  \<^verbatim>\<open>ExecActive\<close> of the same amount succeeds, gives the sub-account back as it was
  and touches no other key of the store.
\<close>

theorem ExecFrozen_ExecActive:
  assumes "ledger_base env acc" "exec_total env acc e < 2 ^ 63" "wf_addr env a" "plain e"
    and run: "ExecFrozen env acc a e n = (Inr r, acc1)"
  shows "\<exists>r2 acc2. ExecActive env acc1 a e n = (Inr r2, acc2) \<and>
    LoadExecAccount env acc2 a e = LoadExecAccount env acc a e \<and>
    (\<forall>k. k \<noteq> execAccountKey env acc a e \<longrightarrow> db acc2 k = db acc k)"
proof -
  obtain x where x: "LoadExecAccount env acc a e = Inr x" "0 \<le> Balance x" "0 \<le> Frozen x"
    "FormatAddrKey env (Addr x) = FormatAddrKey env a" "Balance x + Frozen x \<le> exec_total env acc e"
    using LoadExecAccount_ok [OF assms(1,3,4)] .
  have g: "a \<noteq> e" "CheckAmount env n" "\<not> i64 (Balance x - n) < 0"
    using run x(1) by (auto simp: ExecFrozen_def exec_update_def split: if_splits)
  then have n: "0 < n" "n < 2 ^ 63" using CheckAmount_bounds by auto
  have b: "Balance x < 2 ^ 63" "Frozen x < 2 ^ 63" using x assms(2) by auto
  have sub: "i64 (Balance x - n) = Balance x - n" "n \<le> Balance x"
    using g(3) b n x(2) i64_sub_nonneg_iff [of "Balance x" n] by auto
  have plus: "i64 (Frozen x + n) = Frozen x + n"
    using x assms(2) n sub(2) by (intro i64_sum_id) auto
  have again: "i64 (Frozen x + n - n) = Frozen x" "i64 (Balance x - n + n) = Balance x"
    using x b by (simp_all add: i64_sum_id)
  let ?y = "x\<lparr>Balance := Balance x - n, Frozen := Frozen x + n\<rparr>"
  have key: "execAccountKey env acc (Addr x) e = execAccountKey env acc a e"
    using x(4) by (simp add: execAccountKey_def)
  have dec: "DecodeAccount env (Encode env (MAccount z)) = Some z" for z
    using assms(1) by (simp add: ledger_base_def codec_ok_def)
  have acc1: "acc1 = acc\<lparr>db := (db acc)(execAccountKey env acc a e \<mapsto> Encode env (MAccount ?y))\<rparr>"
    using run x(1) g sub plus key
    by (simp add: ExecFrozen_def exec_update_def SaveExecAccount_def GetExecKVSet_def)
  then have "LoadExecAccount env acc1 a e = Inr ?y" by (simp add: LoadExecAccount_def dec)
  with g(1,2) again x(3) show ?thesis
    by (simp add: ExecActive_def exec_update_def SaveExecAccount_def GetExecKVSet_def
        LoadExecAccount_def dec key acc1 x(1) [unfolded LoadExecAccount_def])
qed

text \<open>
  C40. A flaw of \<^verbatim>\<open>ExecTransfer\<close>: it compares the two address strings, while the
  store is keyed by the normalised address. When the strings differ but normalise to the
  same key (an Ethereum address in two letter cases) the recipient's copy, loaded before
  the debit, is written last, so the transfer credits the sender's own sub-account with
  the amount out of nothing.
\<close>

theorem ExecTransfer_same_key_mints:
  assumes "codec_ok env" "frm \<noteq> dest" "FormatAddrKey env frm = FormatAddrKey env dest"
    and "CheckAmount env n" "LoadExecAccount env acc frm e = Inr x"
    and "db acc (execAccountKey env acc frm e) \<noteq> None"
    and "FormatAddrKey env (Addr x) = FormatAddrKey env frm"
    and "n \<le> Balance x" "in_i64 (Balance x + n)"
  shows "\<exists>r acc'. ExecTransfer env acc frm dest e n = (Inr r, acc') \<and>
    LoadExecAccount env acc' frm e = Inr (x\<lparr>Balance := Balance x + n\<rparr>)"
proof -
  have n: "0 < n" "n < 2 ^ 63" using CheckAmount_bounds [OF assms(4)] by auto
  have key: "execAccountKey env acc dest e = execAccountKey env acc frm e"
    "execAccountKey env acc (Addr x) e = execAccountKey env acc frm e"
    using assms by (simp_all add: execAccountKey_def)
  have y: "LoadExecAccount env acc dest e = Inr x"
    using assms(5,6) key by (auto simp: LoadExecAccount_def split: option.splits)
  have "\<not> i64 (Balance x - n) < 0"
    using n assms(8,9) by (simp add: i64_id in_i64_def)
  moreover have "i64 (Balance x + n) = Balance x + n" using assms(9) by (rule i64_id)
  moreover have "DecodeAccount env (Encode env (MAccount z)) = Some z" for z
    using assms(1) by (simp add: codec_ok_def)
  ultimately show ?thesis
    using assms(2,4,5) y key
    by (simp add: ExecTransfer_def exec_move_def Let_def SaveExecAccount_def GetExecKVSet_def LoadExecAccount_def)
qed


definition demo_deposited :: "acc_msg acc_db" where
  "demo_deposited = snd (TransferToExec demo_env demo_funded ''al'' ''cc'' 200)"

lemma demo_deposited_run:
  "\<exists>r. run_op demo_env demo_funded (OpTransferToExec ''al'' ''cc'' 200) = (Inr r, demo_deposited)"
  using demo_deposit_run by (auto simp: demo_deposited_def)

lemma demo_deposited_ok: "ledger_ok demo_env {''cc''} demo_deposited"
  using demo_deposited_run run_op_preserves [OF demo_funded_ok, of "OpTransferToExec ''al'' ''cc'' 200"]
    demo_user by auto

theorem ExecFrozen_ExecActive_witness:
  "\<exists>r acc1 r2 acc2. ExecFrozen demo_env demo_deposited ''al'' ''cc'' 50 = (Inr r, acc1) \<and>
     ExecActive demo_env acc1 ''al'' ''cc'' 50 = (Inr r2, acc2) \<and>
     LoadExecAccount demo_env acc2 ''al'' ''cc'' = LoadExecAccount demo_env demo_deposited ''al'' ''cc''"
proof -
  have "\<exists>r acc1. ExecFrozen demo_env demo_deposited ''al'' ''cc'' 50 = (Inr r, acc1)"
    unfolding demo_deposited_def demo_funded_def
    by (simp add: GenesisInit_def TransferToExec_def Transfer_def ExecDeposit_def ExecFrozen_def
        exec_update_def demo_run Let_def)
  then obtain r acc1 where r: "ExecFrozen demo_env demo_deposited ''al'' ''cc'' 50 = (Inr r, acc1)" by blast
  have "ledger_base demo_env demo_deposited" "wf_addr demo_env ''al''"
    using demo_deposited_ok demo_user by (auto simp: ledger_ok_def user_def)
  with ExecFrozen_ExecActive [of demo_env demo_deposited "''cc''" "''al''" 50 r acc1] r
    contract_facts(1,5) [OF demo_deposited_ok, of "''cc''"]
  show ?thesis by auto
qed

theorem ExecTransfer_same_key_mints_witness:
  "\<exists>acc r acc'. LoadExecAccount demo_env acc ''0xab'' ''cc'' = Inr \<lparr>Currency = 0, Balance = 200, Frozen = 0, Addr = ''0xab''\<rparr> \<and>
     ExecTransfer demo_env acc ''0xab'' ''0xAB'' ''cc'' 150 = (Inr r, acc') \<and>
     LoadExecAccount demo_env acc' ''0xab'' ''cc'' = Inr \<lparr>Currency = 0, Balance = 350, Frozen = 0, Addr = ''0xab''\<rparr>"
proof -
  let ?x = "\<lparr>Currency = 0, Balance = 200, Frozen = 0, Addr = ''0xab''\<rparr>"
  let ?acc = "SaveExecAccount demo_env demo_ledger ''cc'' ?x"
  have same: "FormatAddrKey demo_env ''0xab'' = FormatAddrKey demo_env ''0xAB''"
    by code_simp
  have load: "LoadExecAccount demo_env ?acc ''0xab'' ''cc'' = Inr ?x"
    and stored: "db ?acc (execAccountKey demo_env ?acc ''0xab'' ''cc'') \<noteq> None"
    by (simp_all add: LoadExecAccount_def SaveExecAccount_def GetExecKVSet_def execAccountKey_def)
  have "\<exists>r acc'. ExecTransfer demo_env ?acc ''0xab'' ''0xAB'' ''cc'' 150 = (Inr r, acc') \<and>
      LoadExecAccount demo_env acc' ''0xab'' ''cc'' = Inr (?x\<lparr>Balance := Balance ?x + 150\<rparr>)"
    by (rule ExecTransfer_same_key_mints [OF _ _ same _ load stored])
      (simp_all add: codec_ok_def CheckAmount_def MaxCoin_def i64_def in_i64_def)
  with load show ?thesis by auto
qed

end
