(* ===== verification/KVStores.thy ===== *)
theory KVStores
  imports Omni_Prelude
begin

text \<open>
  The transactional key-value stores the executor works on.

  \<^item> \<^verbatim>\<open>executor/localdb.go\<close> (\<^verbatim>\<open>cacheDB\<close>): the write cache, \<open>cacheDB\<close>. A Go
    slice that may be nil is a \<open>bytes option\<close>; a nil value in the cache marks a deleted key.
  \<^item> \<^verbatim>\<open>executor/statedb.go\<close>: \<open>StateDB\<close>, the state of one block, read through a
    cache from the store service (or the MVCC tables) and written through \<^verbatim>\<open>txcache\<close>
    inside a transaction. The two services are the fields of \<open>state_env\<close>.
  \<^item> \<^verbatim>\<open>common/db/localdb.go\<close>: \<open>MemLocalDB\<close>, the same discipline over a main database.
  \<^item> \<^verbatim>\<open>executor/localdb.go\<close>: \<open>ExecLocalDB\<close>, the executor's proxy of a
    \<open>MemLocalDB\<close> that the blockchain module keeps (\<^verbatim>\<open>blockchain/localdb.go\<close>).

  The locale \<open>tx_store\<close> states what the executor relies on: reads see the latest write, a
  rollback restores what was visible when the transaction began, a commit keeps it.
\<close>

section \<open>The write cache\<close>

type_synonym gobytes = "bytes option"
type_synonym cacheDB = "string \<rightharpoonup> gobytes"

definition cacheDB_Get :: "cacheDB \<Rightarrow> string \<Rightarrow> (go_error + bytes) option" where
  "cacheDB_Get data key =
     (case data key of
        Some (Some v) \<Rightarrow> Some (Inr v)
      | Some None \<Rightarrow> Some (Inl ErrNotFound)
      | None \<Rightarrow> None)"

definition cacheDB_Set :: "cacheDB \<Rightarrow> string \<Rightarrow> gobytes \<Rightarrow> cacheDB" where
  "cacheDB_Set data key value = data(key \<mapsto> value)"

definition cacheDB_Reset :: "cacheDB \<Rightarrow> cacheDB" where
  "cacheDB_Reset data = Map.empty"

definition cacheDB_Merge :: "cacheDB \<Rightarrow> cacheDB \<Rightarrow> cacheDB" where
  "cacheDB_Merge data db2 = data ++ db2"

definition stored :: "gobytes \<Rightarrow> go_error + bytes" where
  "stored v = (case v of Some b \<Rightarrow> Inr b | None \<Rightarrow> Inl ErrNotFound)"

lemma cacheDB_Get_simps [simp]:
  "cacheDB_Get Map.empty k = None"
  "cacheDB_Get (cacheDB_Reset m) k = None"
  "cacheDB_Get (cacheDB_Set m j v) k = (if k = j then Some (stored v) else cacheDB_Get m k)"
  "cacheDB_Get (cacheDB_Merge m n) k = (case cacheDB_Get n k of None \<Rightarrow> cacheDB_Get m k | Some r \<Rightarrow> Some r)"
  by (auto simp: cacheDB_Get_def cacheDB_Reset_def cacheDB_Set_def cacheDB_Merge_def stored_def map_add_def
      split: option.splits)

section \<open>The state of a block\<close>

text \<open>The answer of the store service to a query for one key.\<close>

datatype store_reply = SendFailed go_error | WaitFailed | NoValues | StoreValue gobytes

record state_env =
  StoreGet :: "string \<Rightarrow> store_reply"
  GetVersion :: "bytes option \<Rightarrow> go_error + int"
  GetV :: "string \<Rightarrow> int \<Rightarrow> go_error + bytes"
  ForkExecRollback :: "int \<Rightarrow> bool"

record StateDB =
  s_cache :: cacheDB
  s_txcache :: cacheDB
  s_keys :: "string list"
  s_intx :: bool
  s_has_client :: bool
  s_stateHash :: bytes
  s_version :: int
  s_height :: int
  EnableMVCC :: bool

definition NewStateDB :: "bool \<Rightarrow> bytes \<Rightarrow> (bool \<times> int) option \<Rightarrow> StateDB" where
  "NewStateDB client hash opt =
     (let (mvcc, h) = (case opt of None \<Rightarrow> (False, 0) | Some p \<Rightarrow> p)
      in \<lparr>s_cache = Map.empty, s_txcache = Map.empty, s_keys = [], s_intx = False, s_has_client = client,
          s_stateHash = hash, s_version = -1, s_height = h, EnableMVCC = mvcc\<rparr>)"

definition enableMVCC :: "state_env \<Rightarrow> StateDB \<Rightarrow> bytes option \<Rightarrow> go_error + StateDB" where
  "enableMVCC env s hash =
     (if EnableMVCC s then
        let h = (case hash of None \<Rightarrow> Some (s_stateHash s) | Some x \<Rightarrow> Some x) in
        (case GetVersion env h of
           Inr v \<Rightarrow> if v \<ge> 0 then Inr (s\<lparr>s_version := v\<rparr>)
                    else if s_height s > 0 then Inl GoPanic else Inr s
         | Inl e \<Rightarrow> if s_height s > 0 then Inl GoPanic else Inr s)
      else Inr s)"

definition StateDB_resetTx :: "StateDB \<Rightarrow> StateDB" where
  "StateDB_resetTx s = s\<lparr>s_intx := False, s_txcache := cacheDB_Reset (s_txcache s), s_keys := []\<rparr>"

definition StateDB_Begin :: "state_env \<Rightarrow> StateDB \<Rightarrow> StateDB" where
  "StateDB_Begin env s =
     (let s1 = s\<lparr>s_intx := True, s_keys := []\<rparr>
      in if ForkExecRollback env (s_height s) then s1\<lparr>s_txcache := cacheDB_Reset (s_txcache s1)\<rparr> else s1)"

definition StateDB_Rollback :: "StateDB \<Rightarrow> StateDB" where
  "StateDB_Rollback s = StateDB_resetTx s"

definition StateDB_ResetCache :: "StateDB \<Rightarrow> StateDB" where
  "StateDB_ResetCache s = StateDB_resetTx (s\<lparr>s_cache := cacheDB_Reset (s_cache s)\<rparr>)"

definition StateDB_Commit :: "state_env \<Rightarrow> StateDB \<Rightarrow> StateDB" where
  "StateDB_Commit env s =
     (let s1 = s\<lparr>s_cache := cacheDB_Merge (s_cache s) (s_txcache s), s_intx := False, s_keys := []\<rparr>
      in if ForkExecRollback env (s_height s) then StateDB_resetTx s1 else s1)"

definition StateDB_Get :: "state_env \<Rightarrow> StateDB \<Rightarrow> string \<Rightarrow> (go_error + bytes) \<times> StateDB" where
  "StateDB_Get env s key =
     (case (if s_intx s then cacheDB_Get (s_txcache s) key else None) of
        Some r \<Rightarrow> (r, s)
      | None \<Rightarrow>
          (case cacheDB_Get (s_cache s) key of
             Some r \<Rightarrow> (r, s)
           | None \<Rightarrow>
               if s_version s \<ge> 0 then (GetV env key (s_version s), s)
               else if \<not> s_has_client s then (Inl ErrNotFound, s)
               else (case StoreGet env key of
                       SendFailed e \<Rightarrow> (Inl e, s)
                     | WaitFailed \<Rightarrow> (Inl GoPanic, s)
                     | NoValues \<Rightarrow> (Inl ErrNotFound, s)
                     | StoreValue None \<Rightarrow> (Inl ErrNotFound, s)
                     | StoreValue (Some v) \<Rightarrow> (Inr v, s\<lparr>s_cache := cacheDB_Set (s_cache s) key (Some v)\<rparr>))))"

definition StateDB_StartTx :: "StateDB \<Rightarrow> StateDB" where
  "StateDB_StartTx s = s\<lparr>s_keys := []\<rparr>"

definition StateDB_GetSetKeys :: "StateDB \<Rightarrow> string list" where
  "StateDB_GetSetKeys s = s_keys s"

definition StateDB_Set :: "StateDB \<Rightarrow> string \<Rightarrow> gobytes \<Rightarrow> StateDB" where
  "StateDB_Set s key value =
     (if s_intx s
      then s\<lparr>s_keys := s_keys s @ [key], s_txcache := cacheDB_Set (s_txcache s) key value\<rparr>
      else s\<lparr>s_cache := cacheDB_Set (s_cache s) key value\<rparr>)"

fun StateDB_BatchGet ::
  "state_env \<Rightarrow> StateDB \<Rightarrow> string list \<Rightarrow> (go_error + gobytes list) \<times> StateDB" where
  "StateDB_BatchGet env s [] = (Inr [], s)"
| "StateDB_BatchGet env s (key # ks) =
     (case StateDB_Get env s key of
        (Inl e, s1) \<Rightarrow>
          if e \<noteq> ErrNotFound then (Inl e, s1)
          else (case StateDB_BatchGet env s1 ks of
                  (Inl e', s2) \<Rightarrow> (Inl e', s2)
                | (Inr vs, s2) \<Rightarrow> (Inr (None # vs), s2))
      | (Inr v, s1) \<Rightarrow>
          (case StateDB_BatchGet env s1 ks of
             (Inl e', s2) \<Rightarrow> (Inl e', s2)
           | (Inr vs, s2) \<Rightarrow> (Inr (Some v # vs), s2)))"

section \<open>The local database of the blockchain module\<close>

record MemLocalDB =
  m_txcache :: "(string \<rightharpoonup> bytes) option"
  m_cache :: "(string \<rightharpoonup> bytes) option"
  m_maindb :: "string \<rightharpoonup> bytes"
  m_intx :: bool
  m_readOnly :: bool

definition newMemDB :: "string \<rightharpoonup> bytes" where
  "newMemDB = Map.empty"

definition NewMemLocalDB :: "(string \<rightharpoonup> bytes) \<Rightarrow> bool \<Rightarrow> MemLocalDB" where
  "NewMemLocalDB maindb readOnly =
     (if readOnly
      then \<lparr>m_txcache = None, m_cache = None, m_maindb = maindb, m_intx = False, m_readOnly = True\<rparr>
      else \<lparr>m_txcache = Some newMemDB, m_cache = Some newMemDB, m_maindb = maindb, m_intx = False,
            m_readOnly = False\<rparr>)"

definition isdeleted :: "bytes \<Rightarrow> bool" where
  "isdeleted d \<longleftrightarrow> length d = 0"

definition mem_get :: "(string \<rightharpoonup> bytes) option \<Rightarrow> string \<Rightarrow> bytes option" where
  "mem_get d key = (case d of None \<Rightarrow> None | Some m \<Rightarrow> m key)"

definition MemLocalDB_get :: "MemLocalDB \<Rightarrow> string \<Rightarrow> (go_error + bytes) \<times> MemLocalDB" where
  "MemLocalDB_get l key =
     (case (if m_intx l then mem_get (m_txcache l) key else None) of
        Some v \<Rightarrow> (Inr v, l)
      | None \<Rightarrow>
          (case mem_get (m_cache l) key of
             Some v \<Rightarrow> (Inr v, l)
           | None \<Rightarrow>
               (case m_maindb l key of
                  None \<Rightarrow> (Inl ErrNotFound, l)
                | Some v \<Rightarrow> (Inr v, l\<lparr>m_cache := map_option (\<lambda>m. m(key \<mapsto> v)) (m_cache l)\<rparr>))))"

definition MemLocalDB_Get :: "MemLocalDB \<Rightarrow> string \<Rightarrow> (go_error + bytes) \<times> MemLocalDB" where
  "MemLocalDB_Get l key =
     (case MemLocalDB_get l key of
        (Inl e, l') \<Rightarrow> (Inl ErrNotFound, l')
      | (Inr v, l') \<Rightarrow> ((if isdeleted v then Inl ErrNotFound else Inr v), l'))"

text \<open>A nil value is stored as the empty value, the mark of a deleted key.\<close>

definition setdb2 :: "(string \<rightharpoonup> bytes) \<Rightarrow> string \<Rightarrow> gobytes \<Rightarrow> (string \<rightharpoonup> bytes)" where
  "setdb2 d key value = d(key \<mapsto> (case value of None \<Rightarrow> [] | Some v \<Rightarrow> v))"

definition MemLocalDB_Set :: "MemLocalDB \<Rightarrow> string \<Rightarrow> gobytes \<Rightarrow> go_error + MemLocalDB" where
  "MemLocalDB_Set l key value =
     (if m_readOnly l then Inl GoPanic
      else if m_intx l then
        let tc = (case m_txcache l of None \<Rightarrow> newMemDB | Some m \<Rightarrow> m)
        in Inr (l\<lparr>m_txcache := Some (setdb2 tc key value)\<rparr>)
      else (case m_cache l of
              None \<Rightarrow> Inr l
            | Some m \<Rightarrow> Inr (l\<lparr>m_cache := Some (setdb2 m key value)\<rparr>)))"

definition MemLocalDB_resetTx :: "MemLocalDB \<Rightarrow> MemLocalDB" where
  "MemLocalDB_resetTx l = l\<lparr>m_intx := False, m_txcache := None\<rparr>"

definition MemLocalDB_Begin :: "MemLocalDB \<Rightarrow> MemLocalDB" where
  "MemLocalDB_Begin l = l\<lparr>m_intx := True, m_txcache := None\<rparr>"

definition MemLocalDB_Rollback :: "MemLocalDB \<Rightarrow> MemLocalDB" where
  "MemLocalDB_Rollback l = MemLocalDB_resetTx l"

text \<open>The loop over the transaction cache writes each of its entries into the cache.\<close>

definition MemLocalDB_Commit :: "MemLocalDB \<Rightarrow> MemLocalDB" where
  "MemLocalDB_Commit l =
     (case m_txcache l of
        None \<Rightarrow> MemLocalDB_resetTx l
      | Some tc \<Rightarrow> MemLocalDB_resetTx (l\<lparr>m_cache := map_option (\<lambda>m. m ++ tc) (m_cache l)\<rparr>))"


section \<open>The executor's local database\<close>

text \<open>
  \<open>x_remote\<close> is the database behind \<^verbatim>\<open>txid\<close>: the \<open>MemLocalDB\<close> the blockchain
  module stored under that pointer, absent once \<^verbatim>\<open>LocalClose\<close> removed it. \<open>x_kvs\<close> is
  the list \<^verbatim>\<open>kvs\<close>, nil being the empty list: the code never makes an empty one.
\<close>

record ExecLocalDB =
  x_cache :: cacheDB
  x_txcache :: cacheDB
  x_keys :: "string list"
  x_intx :: bool
  x_hasbegin :: bool
  x_kvs :: "(string \<times> gobytes) list"
  x_remote :: "MemLocalDB option"
  x_disableread :: bool
  x_disablewrite :: bool

definition NewExecLocalDB :: "(string \<rightharpoonup> bytes) \<Rightarrow> bool \<Rightarrow> ExecLocalDB" where
  "NewExecLocalDB maindb readOnly =
     \<lparr>x_cache = Map.empty, x_txcache = Map.empty, x_keys = [], x_intx = False, x_hasbegin = False,
      x_kvs = [], x_remote = Some (NewMemLocalDB maindb readOnly), x_disableread = False,
      x_disablewrite = False\<rparr>"

definition DisableRead :: "ExecLocalDB \<Rightarrow> ExecLocalDB" where
  "DisableRead l = l\<lparr>x_disableread := True\<rparr>"

definition DisableWrite :: "ExecLocalDB \<Rightarrow> ExecLocalDB" where
  "DisableWrite l = l\<lparr>x_disablewrite := True\<rparr>"

definition EnableRead :: "ExecLocalDB \<Rightarrow> ExecLocalDB" where
  "EnableRead l = l\<lparr>x_disableread := False\<rparr>"

definition EnableWrite :: "ExecLocalDB \<Rightarrow> ExecLocalDB" where
  "EnableWrite l = l\<lparr>x_disablewrite := False\<rparr>"

definition ExecLocalDB_resetTx :: "ExecLocalDB \<Rightarrow> ExecLocalDB" where
  "ExecLocalDB_resetTx l =
     l\<lparr>x_intx := False, x_txcache := cacheDB_Reset (x_txcache l), x_keys := [], x_hasbegin := False\<rparr>"

definition ExecLocalDB_StartTx :: "ExecLocalDB \<Rightarrow> ExecLocalDB" where
  "ExecLocalDB_StartTx l = l\<lparr>x_keys := []\<rparr>"

definition ExecLocalDB_GetSetKeys :: "ExecLocalDB \<Rightarrow> string list" where
  "ExecLocalDB_GetSetKeys l = x_keys l"

definition ExecLocalDB_Begin :: "ExecLocalDB \<Rightarrow> ExecLocalDB" where
  "ExecLocalDB_Begin l =
     l\<lparr>x_intx := True, x_keys := [], x_txcache := cacheDB_Reset (x_txcache l), x_hasbegin := False\<rparr>"

text \<open>
  The requests to the blockchain module (\<^verbatim>\<open>localGet\<close>, \<^verbatim>\<open>localSet\<close>,
  \<^verbatim>\<open>localBegin\<close>, \<^verbatim>\<open>localCommit\<close>, \<^verbatim>\<open>localRollback\<close>, \<^verbatim>\<open>localClose\<close>).
\<close>

fun localSet_loop :: "MemLocalDB \<Rightarrow> (string \<times> gobytes) list \<Rightarrow> go_error + MemLocalDB" where
  "localSet_loop tx [] = Inr tx"
| "localSet_loop tx ((k, v) # kvs) =
     (case MemLocalDB_Set tx k v of Inl e \<Rightarrow> Inl e | Inr tx' \<Rightarrow> localSet_loop tx' kvs)"

definition localSet ::
  "MemLocalDB option \<Rightarrow> (string \<times> gobytes) list \<Rightarrow> go_error + MemLocalDB" where
  "localSet txid kvs = (case txid of None \<Rightarrow> Inl ErrNotFound | Some tx \<Rightarrow> localSet_loop tx kvs)"

definition localGet :: "MemLocalDB option \<Rightarrow> string \<Rightarrow> go_error + (gobytes \<times> MemLocalDB)" where
  "localGet txid key =
     (case txid of
        None \<Rightarrow> Inl ErrNotFound
      | Some tx \<Rightarrow>
          (case MemLocalDB_Get tx key of
             (Inl e, tx') \<Rightarrow> Inr (None, tx')
           | (Inr v, tx') \<Rightarrow> Inr (Some v, tx')))"

definition localBegin :: "MemLocalDB option \<Rightarrow> go_error + MemLocalDB" where
  "localBegin txid = (case txid of None \<Rightarrow> Inl ErrNotFound | Some tx \<Rightarrow> Inr (MemLocalDB_Begin tx))"

definition localCommit :: "MemLocalDB option \<Rightarrow> go_error + MemLocalDB" where
  "localCommit txid = (case txid of None \<Rightarrow> Inl ErrNotFound | Some tx \<Rightarrow> Inr (MemLocalDB_Commit tx))"

definition localRollback :: "MemLocalDB option \<Rightarrow> go_error + MemLocalDB" where
  "localRollback txid = (case txid of None \<Rightarrow> Inl ErrNotFound | Some tx \<Rightarrow> Inr (MemLocalDB_Rollback tx))"

definition ExecLocalDB_begin :: "ExecLocalDB \<Rightarrow> go_error + ExecLocalDB" where
  "ExecLocalDB_begin l =
     (case localBegin (x_remote l) of
        Inl e \<Rightarrow> Inl GoPanic
      | Inr tx \<Rightarrow> Inr (l\<lparr>x_remote := Some tx\<rparr>))"

definition ExecLocalDB_save :: "ExecLocalDB \<Rightarrow> (go_error option) \<times> ExecLocalDB" where
  "ExecLocalDB_save l =
     (if x_kvs l \<noteq> [] then
        case (if x_hasbegin l then Inr l
              else (case ExecLocalDB_begin l of
                      Inl e \<Rightarrow> Inl e
                    | Inr l1 \<Rightarrow> Inr (l1\<lparr>x_hasbegin := True\<rparr>))) of
          Inl e \<Rightarrow> (Some e, l)
        | Inr l2 \<Rightarrow>
            (case localSet (x_remote l2) (x_kvs l2) of
               Inl e \<Rightarrow> (Some e, l2)
             | Inr tx \<Rightarrow> (None, l2\<lparr>x_remote := Some tx, x_kvs := []\<rparr>))
      else (None, l))"

definition ExecLocalDB_Commit :: "ExecLocalDB \<Rightarrow> (go_error option) \<times> ExecLocalDB" where
  "ExecLocalDB_Commit l =
     (case ExecLocalDB_save (l\<lparr>x_cache := cacheDB_Merge (x_cache l) (x_txcache l)\<rparr>) of
        (Some e, l1) \<Rightarrow> (Some e, l1)
      | (None, l1) \<Rightarrow>
          if x_hasbegin l1 then
            (case localCommit (x_remote l1) of
               Inl e \<Rightarrow> (Some e, ExecLocalDB_resetTx l1)
             | Inr tx \<Rightarrow> (None, ExecLocalDB_resetTx (l1\<lparr>x_remote := Some tx\<rparr>)))
          else (None, ExecLocalDB_resetTx l1))"

definition ExecLocalDB_Close :: "ExecLocalDB \<Rightarrow> (go_error option) \<times> ExecLocalDB" where
  "ExecLocalDB_Close l =
     (let l1 = ExecLocalDB_resetTx (l\<lparr>x_cache := cacheDB_Reset (x_cache l)\<rparr>)
      in ((case x_remote l of None \<Rightarrow> Some ErrNotFound | Some tx \<Rightarrow> None), l1\<lparr>x_remote := None\<rparr>))"

definition ExecLocalDB_ResetCache :: "ExecLocalDB \<Rightarrow> ExecLocalDB" where
  "ExecLocalDB_ResetCache l = ExecLocalDB_resetTx (l\<lparr>x_cache := cacheDB_Reset (x_cache l)\<rparr>)"

definition ExecLocalDB_Rollback :: "ExecLocalDB \<Rightarrow> go_error + ExecLocalDB" where
  "ExecLocalDB_Rollback l =
     (if x_hasbegin l then
        (case localRollback (x_remote l) of
           Inl e \<Rightarrow> Inl GoPanic
         | Inr tx \<Rightarrow> Inr (ExecLocalDB_resetTx (l\<lparr>x_remote := Some tx\<rparr>)))
      else Inr (ExecLocalDB_resetTx l))"

definition ExecLocalDB_Get :: "ExecLocalDB \<Rightarrow> string \<Rightarrow> (go_error + bytes) \<times> ExecLocalDB" where
  "ExecLocalDB_Get l key =
     (if x_disableread l then (Inl ErrDisableRead, l)
      else case (if x_intx l then cacheDB_Get (x_txcache l) key else None) of
        Some r \<Rightarrow> (r, l)
      | None \<Rightarrow>
          (case cacheDB_Get (x_cache l) key of
             Some r \<Rightarrow> (r, l)
           | None \<Rightarrow>
               (case localGet (x_remote l) key of
                  Inl e \<Rightarrow> (Inl GoPanic, l)
                | Inr (None, tx) \<Rightarrow>
                    (Inl ErrNotFound, l\<lparr>x_remote := Some tx, x_cache := cacheDB_Set (x_cache l) key None\<rparr>)
                | Inr (Some v, tx) \<Rightarrow>
                    (Inr v, l\<lparr>x_remote := Some tx, x_cache := cacheDB_Set (x_cache l) key (Some v)\<rparr>))))"

definition ExecLocalDB_Set :: "ExecLocalDB \<Rightarrow> string \<Rightarrow> gobytes \<Rightarrow> (go_error option) \<times> ExecLocalDB" where
  "ExecLocalDB_Set l key value =
     (if x_disablewrite l then (Some ErrDisableWrite, l)
      else
        let l1 = (if x_intx l
                  then l\<lparr>x_keys := x_keys l @ [key], x_txcache := cacheDB_Set (x_txcache l) key value\<rparr>
                  else l\<lparr>x_cache := cacheDB_Set (x_cache l) key value\<rparr>)
        in (None, l1\<lparr>x_kvs := x_kvs l1 @ [(key, value)]\<rparr>))"

end
