(* ===== verification/KVStore_Theorems.thy ===== *)
theory KVStore_Theorems
  imports KVStores
begin

text \<open>
  The contract of a transactional store and the stores that keep it. \<open>tx_store\<close> is the
  interface \<^verbatim>\<open>db.KV\<close> (\<^verbatim>\<open>Get\<close>, \<^verbatim>\<open>Set\<close>, \<^verbatim>\<open>Begin\<close>, \<^verbatim>\<open>Commit\<close>,
  \<^verbatim>\<open>Rollback\<close>); what a whole transaction does is proved once inside it and used for
  \<^verbatim>\<open>StateDB\<close> and for the local database of the blockchain module. The executor's
  \<^verbatim>\<open>LocalDB\<close> does not keep the contract: its rolled back writes come back.
\<close>

section \<open>The contract\<close>

datatype tx_op = Read string | Write string gobytes

fun tx_run1 :: "('s \<Rightarrow> string \<Rightarrow> 's) \<Rightarrow> ('s \<Rightarrow> string \<Rightarrow> gobytes \<Rightarrow> 's) \<Rightarrow> 's \<Rightarrow> tx_op \<Rightarrow> 's" where
  "tx_run1 rd put s (Read k) = rd s k"
| "tx_run1 rd put s (Write k v) = put s k v"

fun tx_effect1 ::
  "(gobytes \<Rightarrow> go_error + bytes) \<Rightarrow> (string \<Rightarrow> go_error + bytes) \<Rightarrow> tx_op \<Rightarrow> (string \<Rightarrow> go_error + bytes)" where
  "tx_effect1 wr m (Read k) = m"
| "tx_effect1 wr m (Write k v) = m(k := wr v)"

locale tx_store =
  fixes view :: "'s \<Rightarrow> string \<Rightarrow> go_error + bytes"
    and committed :: "'s \<Rightarrow> string \<Rightarrow> go_error + bytes"
    and wr :: "gobytes \<Rightarrow> go_error + bytes"
    and idle :: "'s \<Rightarrow> bool" and active :: "'s \<Rightarrow> bool"
    and tbegin :: "'s \<Rightarrow> 's" and tcommit :: "'s \<Rightarrow> 's" and trollback :: "'s \<Rightarrow> 's"
    and rd :: "'s \<Rightarrow> string \<Rightarrow> 's" and put :: "'s \<Rightarrow> string \<Rightarrow> gobytes \<Rightarrow> 's"
  assumes idle_view: "idle s \<Longrightarrow> committed s = view s"
    and begin_law: "idle s \<Longrightarrow> active (tbegin s) \<and> view (tbegin s) = view s \<and> committed (tbegin s) = view s"
    and read_law: "active s \<Longrightarrow> active (rd s k) \<and> view (rd s k) = view s \<and> committed (rd s k) = committed s"
    and write_law: "active s \<Longrightarrow> active (put s k v) \<and> view (put s k v) = (view s)(k := wr v) \<and>
        committed (put s k v) = committed s"
    and commit_law: "active s \<Longrightarrow> idle (tcommit s) \<and> view (tcommit s) = view s"
    and rollback_law: "active s \<Longrightarrow> idle (trollback s) \<and> view (trollback s) = committed s"
begin

lemma run_active:
  "active s \<Longrightarrow> active (foldl (tx_run1 rd put) s ops) \<and> committed (foldl (tx_run1 rd put) s ops) = committed s \<and>
     view (foldl (tx_run1 rd put) s ops) = foldl (tx_effect1 wr) (view s) ops"
proof (induction ops arbitrary: s)
  case (Cons x ops)
  then show ?case by (cases x) (simp_all add: read_law write_law fun_upd_def)
qed simp

lemma rollback_restores:
  assumes "idle s"
  shows "view (trollback (foldl (tx_run1 rd put) (tbegin s) ops)) = view s" "idle (trollback (foldl (tx_run1 rd put) (tbegin s) ops))"
  using assms begin_law run_active rollback_law by metis+

lemma commit_keeps:
  assumes "idle s"
  shows "view (tcommit (foldl (tx_run1 rd put) (tbegin s) ops)) = foldl (tx_effect1 wr) (view s) ops"
    "idle (tcommit (foldl (tx_run1 rd put) (tbegin s) ops))"
  using assms begin_law run_active commit_law by metis+

end

section \<open>StateDB keeps it\<close>

definition StateDB_under :: "state_env \<Rightarrow> StateDB \<Rightarrow> string \<Rightarrow> go_error + bytes" where
  "StateDB_under env s k = fst (StateDB_Get env (s\<lparr>s_intx := False\<rparr>) k)"

definition StateDB_idle :: "state_env \<Rightarrow> StateDB \<Rightarrow> bool" where
  "StateDB_idle env s \<longleftrightarrow> \<not> s_intx s \<and> ForkExecRollback env (s_height s)"

definition StateDB_active :: "state_env \<Rightarrow> StateDB \<Rightarrow> bool" where
  "StateDB_active env s \<longleftrightarrow> s_intx s \<and> ForkExecRollback env (s_height s)"

definition StateDB_view :: "state_env \<Rightarrow> StateDB \<Rightarrow> string \<Rightarrow> go_error + bytes" where
  "StateDB_view env s k = fst (StateDB_Get env s k)"

lemmas StateDB_defs = StateDB_view_def StateDB_under_def StateDB_Get_def StateDB_Begin_def
  StateDB_Commit_def StateDB_Rollback_def StateDB_resetTx_def StateDB_Set_def
  StateDB_idle_def StateDB_active_def

interpretation sdb: tx_store
  "StateDB_view env" "StateDB_under env" stored "StateDB_idle env" "StateDB_active env"
  "StateDB_Begin env" "StateDB_Commit env" StateDB_Rollback "\<lambda>s k. snd (StateDB_Get env s k)" StateDB_Set
proof
  fix s k v
  show "StateDB_idle env s \<Longrightarrow> StateDB_under env s = StateDB_view env s"
    by (auto intro!: ext simp: StateDB_defs split: option.splits store_reply.splits)
  show "StateDB_idle env s \<Longrightarrow> StateDB_active env (StateDB_Begin env s) \<and>
      StateDB_view env (StateDB_Begin env s) = StateDB_view env s \<and>
      StateDB_under env (StateDB_Begin env s) = StateDB_view env s"
    by (auto intro!: ext simp: StateDB_defs Let_def split: option.splits store_reply.splits)
  show "StateDB_active env s \<Longrightarrow> StateDB_active env (snd (StateDB_Get env s k)) \<and>
      StateDB_view env (snd (StateDB_Get env s k)) = StateDB_view env s \<and>
      StateDB_under env (snd (StateDB_Get env s k)) = StateDB_under env s"
    by (auto intro!: ext simp: StateDB_defs stored_def split: option.splits store_reply.splits)
  show "StateDB_active env s \<Longrightarrow> StateDB_active env (StateDB_Set s k v) \<and>
      StateDB_view env (StateDB_Set s k v) = (StateDB_view env s)(k := stored v) \<and>
      StateDB_under env (StateDB_Set s k v) = StateDB_under env s"
    by (auto intro!: ext simp: StateDB_defs split: option.splits store_reply.splits)
  show "StateDB_active env s \<Longrightarrow> StateDB_idle env (StateDB_Commit env s) \<and>
      StateDB_view env (StateDB_Commit env s) = StateDB_view env s"
    by (auto intro!: ext simp: StateDB_defs Let_def split: option.splits store_reply.splits)
  show "StateDB_active env s \<Longrightarrow> StateDB_idle env (StateDB_Rollback s) \<and>
      StateDB_view env (StateDB_Rollback s) = StateDB_under env s"
    by (auto intro!: ext simp: StateDB_defs Let_def split: option.splits store_reply.splits)
qed

section \<open>The local database of the blockchain module keeps it\<close>

definition mem_wr :: "gobytes \<Rightarrow> go_error + bytes" where
  "mem_wr v = (case v of Some (b # bs) \<Rightarrow> Inr (b # bs) | _ \<Rightarrow> Inl ErrNotFound)"

definition MemLocalDB_write :: "MemLocalDB \<Rightarrow> string \<Rightarrow> gobytes \<Rightarrow> MemLocalDB" where
  "MemLocalDB_write l k v = (case MemLocalDB_Set l k v of Inl e \<Rightarrow> l | Inr l' \<Rightarrow> l')"

definition MemLocalDB_view :: "MemLocalDB \<Rightarrow> string \<Rightarrow> go_error + bytes" where
  "MemLocalDB_view l k = fst (MemLocalDB_Get l k)"

definition MemLocalDB_under :: "MemLocalDB \<Rightarrow> string \<Rightarrow> go_error + bytes" where
  "MemLocalDB_under l k = fst (MemLocalDB_Get (l\<lparr>m_intx := False\<rparr>) k)"

definition MemLocalDB_idle :: "MemLocalDB \<Rightarrow> bool" where
  "MemLocalDB_idle l \<longleftrightarrow> \<not> m_intx l \<and> \<not> m_readOnly l \<and> m_cache l \<noteq> None"

definition MemLocalDB_active :: "MemLocalDB \<Rightarrow> bool" where
  "MemLocalDB_active l \<longleftrightarrow> m_intx l \<and> \<not> m_readOnly l \<and> m_cache l \<noteq> None"

lemmas MemLocalDB_defs = MemLocalDB_view_def MemLocalDB_under_def MemLocalDB_Get_def MemLocalDB_get_def
  MemLocalDB_Begin_def MemLocalDB_Commit_def MemLocalDB_Rollback_def MemLocalDB_resetTx_def
  MemLocalDB_write_def MemLocalDB_Set_def MemLocalDB_idle_def MemLocalDB_active_def
  mem_get_def mem_wr_def setdb2_def isdeleted_def newMemDB_def

interpretation ldb: tx_store
  MemLocalDB_view MemLocalDB_under mem_wr MemLocalDB_idle MemLocalDB_active
  MemLocalDB_Begin MemLocalDB_Commit MemLocalDB_Rollback
  "\<lambda>l k. snd (MemLocalDB_Get l k)" MemLocalDB_write
proof
  fix s k v
  show "MemLocalDB_idle s \<Longrightarrow> MemLocalDB_under s = MemLocalDB_view s"
    by (auto intro!: ext simp: MemLocalDB_defs split: option.splits)
  show "MemLocalDB_idle s \<Longrightarrow> MemLocalDB_active (MemLocalDB_Begin s) \<and>
      MemLocalDB_view (MemLocalDB_Begin s) = MemLocalDB_view s \<and>
      MemLocalDB_under (MemLocalDB_Begin s) = MemLocalDB_view s"
    by (auto intro!: ext simp: MemLocalDB_defs split: option.splits)
  show "MemLocalDB_active s \<Longrightarrow> MemLocalDB_active (snd (MemLocalDB_Get s k)) \<and>
      MemLocalDB_view (snd (MemLocalDB_Get s k)) = MemLocalDB_view s \<and>
      MemLocalDB_under (snd (MemLocalDB_Get s k)) = MemLocalDB_under s"
    by (auto intro!: ext simp: MemLocalDB_defs split: option.splits)
  show "MemLocalDB_active s \<Longrightarrow> MemLocalDB_active (MemLocalDB_write s k v) \<and>
      MemLocalDB_view (MemLocalDB_write s k v) = (MemLocalDB_view s)(k := mem_wr v) \<and>
      MemLocalDB_under (MemLocalDB_write s k v) = MemLocalDB_under s"
    by (auto intro!: ext simp: MemLocalDB_defs split: option.splits list.splits)
  show "MemLocalDB_active s \<Longrightarrow> MemLocalDB_idle (MemLocalDB_Commit s) \<and>
      MemLocalDB_view (MemLocalDB_Commit s) = MemLocalDB_view s"
    by (auto intro!: ext simp: MemLocalDB_defs map_add_def split: option.splits)
  show "MemLocalDB_active s \<Longrightarrow> MemLocalDB_idle (MemLocalDB_Rollback s) \<and>
      MemLocalDB_view (MemLocalDB_Rollback s) = MemLocalDB_under s"
    by (auto intro!: ext simp: MemLocalDB_defs split: option.splits)
qed


section \<open>Properties\<close>

text \<open>
  C16. A transaction of \<^verbatim>\<open>StateDB\<close> is atomic once the fork \<^verbatim>\<open>ForkExecRollback\<close>
  is active: after \<^verbatim>\<open>Begin\<close> and any sequence of \<^verbatim>\<open>Get\<close> and \<^verbatim>\<open>Set\<close>,
  \<^verbatim>\<open>Rollback\<close> makes every key read as before \<^verbatim>\<open>Begin\<close> and \<^verbatim>\<open>Commit\<close> makes
  every key read as the writes in their order leave it.
\<close>

theorem StateDB_transaction:
  fixes ops :: "tx_op list"
  assumes "ForkExecRollback env (s_height s)" "\<not> s_intx s"
  defines "s' \<equiv> foldl (tx_run1 (\<lambda>s k. snd (StateDB_Get env s k)) StateDB_Set) (StateDB_Begin env s) ops"
  shows "fst (StateDB_Get env (StateDB_Rollback s') k) = fst (StateDB_Get env s k) \<and>
    fst (StateDB_Get env (StateDB_Commit env s') k) =
      foldl (tx_effect1 stored) (\<lambda>k. fst (StateDB_Get env s k)) ops k"
proof -
  have "StateDB_idle env s" using assms by (simp add: StateDB_idle_def)
  from sdb.rollback_restores(1) [OF this, of ops] sdb.commit_keeps(1) [OF this, of ops]
  show ?thesis unfolding s'_def StateDB_view_def by (metis (no_types))
qed

definition demo_state_env :: state_env where
  "demo_state_env = \<lparr>StoreGet = (\<lambda>k. if k = ''a'' then StoreValue (Some [1]) else NoValues),
     GetVersion = (\<lambda>h. Inl ErrNotFound), GetV = (\<lambda>k v. Inl ErrNotFound), ForkExecRollback = (\<lambda>h. True)\<rparr>"

theorem StateDB_transaction_witness:
  "fst (StateDB_Get demo_state_env (StateDB_Rollback (StateDB_Set (StateDB_Begin demo_state_env
      (NewStateDB True [] None)) ''a'' (Some [2]))) ''a'') = Inr [1]"
  using StateDB_transaction [of demo_state_env "NewStateDB True [] None" "[Write ''a'' (Some [2])]" "''a''"]
  by (simp add: NewStateDB_def demo_state_env_def StateDB_Get_def cacheDB_Get_def)

text \<open>
  C19. A transaction of the blockchain module's local database is atomic in the same
  sense; a key whose value is set to nil or to an empty slice reads as not found.
\<close>

theorem MemLocalDB_transaction:
  fixes ops :: "tx_op list"
  assumes "\<not> m_readOnly l" "\<not> m_intx l" "m_cache l \<noteq> None"
  defines "l' \<equiv> foldl (tx_run1 (\<lambda>l k. snd (MemLocalDB_Get l k)) MemLocalDB_write) (MemLocalDB_Begin l) ops"
  shows "fst (MemLocalDB_Get (MemLocalDB_Rollback l') k) = fst (MemLocalDB_Get l k) \<and>
    fst (MemLocalDB_Get (MemLocalDB_Commit l') k) =
      foldl (tx_effect1 mem_wr) (\<lambda>k. fst (MemLocalDB_Get l k)) ops k"
proof -
  have "MemLocalDB_idle l" using assms by (simp add: MemLocalDB_idle_def)
  from ldb.rollback_restores(1) [OF this, of ops] ldb.commit_keeps(1) [OF this, of ops]
  show ?thesis unfolding l'_def MemLocalDB_view_def by (metis (no_types))
qed

theorem MemLocalDB_transaction_witness:
  "fst (MemLocalDB_Get (MemLocalDB_Commit (MemLocalDB_write (MemLocalDB_Begin
      (NewMemLocalDB [''a'' \<mapsto> [1]] False)) ''a'' None)) ''a'') = Inl ErrNotFound"
  using MemLocalDB_transaction [of "NewMemLocalDB [''a'' \<mapsto> [1]] False" "[Write ''a'' None]" "''a''"]
  by (simp add: NewMemLocalDB_def newMemDB_def mem_wr_def)

text \<open>
  The executor's \<^verbatim>\<open>LocalDB\<close> is not atomic: \<^verbatim>\<open>Rollback\<close> drops the
  transaction cache but not the list \<^verbatim>\<open>kvs\<close> of writes still to be sent, so the next
  transaction that commits, even an empty one, sends the rolled back write to the blockchain
  module, and from then on \<^verbatim>\<open>Get\<close> returns it.
\<close>

theorem ExecLocalDB_rollback_leaks:
  fixes m :: "string \<rightharpoonup> bytes" and k :: string and v :: bytes
  assumes "v \<noteq> []"
  defines "l0 \<equiv> NewExecLocalDB m False"
  defines "l1 \<equiv> snd (ExecLocalDB_Set (ExecLocalDB_Begin l0) k (Some v))"
  shows "\<exists>l2. ExecLocalDB_Rollback l1 = Inr l2 \<and>
    (\<exists>l3. ExecLocalDB_Commit (ExecLocalDB_Begin l2) = (None, l3) \<and> fst (ExecLocalDB_Get l3 k) = Inr v)"
  using assms
  by (simp add: l0_def l1_def NewExecLocalDB_def ExecLocalDB_Begin_def ExecLocalDB_Set_def Let_def
      ExecLocalDB_Rollback_def ExecLocalDB_resetTx_def ExecLocalDB_Commit_def ExecLocalDB_save_def
      ExecLocalDB_begin_def localBegin_def localSet_def localCommit_def localGet_def
      NewMemLocalDB_def ExecLocalDB_Get_def MemLocalDB_defs cacheDB_Merge_def cacheDB_Reset_def)

theorem ExecLocalDB_rollback_leaks_witness:
  "\<exists>l2. ExecLocalDB_Rollback (snd (ExecLocalDB_Set (ExecLocalDB_Begin (NewExecLocalDB Map.empty False))
       ''k'' (Some [7]))) = Inr l2 \<and>
    (\<exists>l3. ExecLocalDB_Commit (ExecLocalDB_Begin l2) = (None, l3) \<and> fst (ExecLocalDB_Get l3 ''k'') = Inr [7])"
  by (rule ExecLocalDB_rollback_leaks) simp

end
