(* ===== verification/Blocks.thy ===== *)
theory Blocks
  imports Omni_Prelude
begin

text \<open>
  The block record of \<^verbatim>\<open>types/blockchain.pb.go\<close> and the header functions of
  \<^verbatim>\<open>types/block.go\<close>, shared by consensus and chain. Byte slices that name a block are
  strings of bytes; the transaction type is left open. The protobuf encoding of a header and
  SHA-256 are the fields of \<open>hash_env\<close>, with the fork height of \<^verbatim>\<open>ForkBlockHash\<close>.
\<close>

record 'tx block =
  Version :: int
  ParentHash :: bytes
  TxHash :: bytes
  StateHash :: bytes
  Height :: int
  BlockTime :: int
  Difficulty :: "32 word"
  MainHash :: bytes
  MainHeight :: int
  Signature :: "bytes option"
  Txs :: "'tx list"

record header =
  hVersion :: int
  hParentHash :: bytes
  hTxHash :: bytes
  hStateHash :: bytes
  hHeight :: int
  hBlockTime :: int
  hTxCount :: int
  hHash :: bytes
  hDifficulty :: "32 word"
  hSignature :: "bytes option"

record hash_env =
  ForkBlockHash :: "int \<Rightarrow> bool"
  EncodeHeader :: "header \<Rightarrow> bytes"
  Sha256 :: "bytes \<Rightarrow> bytes"

definition empty_header :: header where
  "empty_header = \<lparr>hVersion = 0, hParentHash = [], hTxHash = [], hStateHash = [], hHeight = 0,
     hBlockTime = 0, hTxCount = 0, hHash = [], hDifficulty = 0, hSignature = None\<rparr>"


definition getHeaderHashOld :: "'tx block \<Rightarrow> header" where
  "getHeaderHashOld b =
     empty_header\<lparr>hVersion := Version b, hParentHash := ParentHash b, hTxHash := TxHash b,
       hBlockTime := BlockTime b, hHeight := Height b\<rparr>"

definition getHeaderHashNew :: "'tx block \<Rightarrow> header" where
  "getHeaderHashNew b =
     empty_header\<lparr>hVersion := Version b, hParentHash := ParentHash b, hTxHash := TxHash b,
       hBlockTime := BlockTime b, hHeight := Height b, hDifficulty := Difficulty b,
       hStateHash := StateHash b, hTxCount := int (length (Txs b))\<rparr>"

definition HashNew :: "hash_env \<Rightarrow> 'tx block \<Rightarrow> bytes" where
  "HashNew env b = Sha256 env (EncodeHeader env (getHeaderHashNew b))"

definition HashOld :: "hash_env \<Rightarrow> 'tx block \<Rightarrow> bytes" where
  "HashOld env b = Sha256 env (EncodeHeader env (getHeaderHashOld b))"

definition Hash :: "hash_env \<Rightarrow> 'tx block \<Rightarrow> bytes" where
  "Hash env b = (if ForkBlockHash env (Height b) then HashNew env b else HashOld env b)"

definition HashByForkHeight :: "hash_env \<Rightarrow> 'tx block \<Rightarrow> int \<Rightarrow> bytes" where
  "HashByForkHeight env b forkheight =
     (if Height b \<ge> forkheight then HashNew env b else HashOld env b)"

definition GetHeader :: "hash_env \<Rightarrow> 'tx block \<Rightarrow> header" where
  "GetHeader env b =
     empty_header\<lparr>hVersion := Version b, hParentHash := ParentHash b, hTxHash := TxHash b,
       hBlockTime := BlockTime b, hHeight := Height b, hDifficulty := Difficulty b,
       hStateHash := StateHash b, hTxCount := int (length (Txs b)), hHash := Hash env b\<rparr>"

definition SetHeader :: "'tx block \<Rightarrow> header \<Rightarrow> 'tx block" where
  "SetHeader b h =
     b\<lparr>Version := hVersion h, ParentHash := hParentHash h, TxHash := hTxHash h,
       BlockTime := hBlockTime h, Height := hHeight h, Difficulty := hDifficulty h,
       StateHash := hStateHash h, Signature := hSignature h\<rparr>"

text \<open>
  Header round trip: setting on any block with as many transactions the header taken
  from another gives a block with that block's hash, before and after the fork
  \<^verbatim>\<open>ForkBlockHash\<close>, and with that block's header again; only the signature is lost.
\<close>

theorem SetHeader_GetHeader:
  assumes "length (Txs b') = length (Txs b)"
  shows "Hash env (SetHeader b' (GetHeader env b)) = Hash env b \<and>
    GetHeader env (SetHeader b' (GetHeader env b)) = GetHeader env b \<and>
    Signature (SetHeader b' (GetHeader env b)) = None"
  using assms
  by (simp add: Hash_def HashNew_def HashOld_def SetHeader_def GetHeader_def empty_header_def
      getHeaderHashNew_def getHeaderHashOld_def)

definition demo_block :: "nat block" where
  "demo_block = \<lparr>Version = 0, ParentHash = [], TxHash = [], StateHash = [], Height = 1, BlockTime = 0,
     Difficulty = 0x1f00ffff, MainHash = [], MainHeight = 0, Signature = Some [], Txs = [1]\<rparr>"

text \<open>A hash environment for examples: the hash of a block is the nonce in 32 bytes.\<close>

definition demo_hash_env :: hash_env where
  "demo_hash_env = \<lparr>ForkBlockHash = (\<lambda>h. True),
     EncodeHeader = (\<lambda>h. word_of_int (hVersion h) # replicate 31 0), Sha256 = (\<lambda>x. x)\<rparr>"

theorem SetHeader_GetHeader_witness:
  "Hash demo_hash_env (SetHeader (demo_block\<lparr>Version := 9\<rparr>) (GetHeader demo_hash_env demo_block)) =
   Hash demo_hash_env demo_block"
  using SetHeader_GetHeader [of "demo_block\<lparr>Version := 9\<rparr>" demo_block demo_hash_env]
  by (simp add: demo_block_def)

end
