(* ===== verification/Pow.thy ===== *)
theory Pow
  imports Blocks Difficulty
begin

text \<open>
  \<^verbatim>\<open>system/consensus/pow/pow.go\<close>: the proof-of-work consensus driver. The client's
  configuration is \<open>subConfig\<close>; the configured limit \<^verbatim>\<open>GetP(height).PowLimitBits\<close>
  and the block hash are parameters. \<open>mine_loop\<close> is the nonce search at its width: the
  nonce is a \<open>64 word\<close> stored as \<^verbatim>\<open>int64\<close>, the loop has no bound when
  \<^verbatim>\<open>MaxNonceScan\<close> is 0, so it is a partial function and a search that never ends is
  \<open>None\<close>. \<open>mining_round\<close> is one turn of the loop of \<^verbatim>\<open>CreateBlock\<close>, with what the
  services answer in that turn as the record \<open>round_input\<close>.
\<close>

section \<open>Configuration\<close>

record subConfig =
  Genesis :: string
  GenesisBlockTime :: int
  DifficultyBits :: "32 word"
  MeanBlockMs :: int
  Maintainers :: int
  LocalMiners :: int
  Miners :: int
  MinerID :: int
  MineEmpty :: bool
  DisableMining :: bool
  BenchMode :: bool
  MaxNonceScan :: "64 word"
  Seed :: int

definition defaultMaintainers :: int where "defaultMaintainers = 4"
definition defaultMeanBlockMs :: int where "defaultMeanBlockMs = 300"
definition hashCheckInterval :: "64 word" where "hashCheckInterval = 4096"

definition zero_config :: subConfig where
  "zero_config = \<lparr>Genesis = '''', GenesisBlockTime = 0, DifficultyBits = 0, MeanBlockMs = 0,
     Maintainers = 0, LocalMiners = 0, Miners = 0, MinerID = 0, MineEmpty = False,
     DisableMining = False, BenchMode = False, MaxNonceScan = 0, Seed = 0\<rparr>"

text \<open>
  \<^verbatim>\<open>New\<close>: the decoded sub-configuration with its defaults, and the seed of the random
  source; \<open>now\<close> is the clock in nanoseconds.
\<close>

definition New :: "string \<Rightarrow> int \<Rightarrow> int \<Rightarrow> subConfig option \<Rightarrow> subConfig \<times> int" where
  "New cfgGenesis cfgGenesisBlockTime now sub =
     (let c = (case sub of None \<Rightarrow> zero_config | Some s \<Rightarrow> s);
          c = (if Genesis c = '''' then c\<lparr>Genesis := cfgGenesis\<rparr> else c);
          c = (if GenesisBlockTime c = 0 then c\<lparr>GenesisBlockTime := cfgGenesisBlockTime\<rparr> else c);
          c = (if Maintainers c = 0 then c\<lparr>Maintainers := Miners c\<rparr> else c);
          c = (if Maintainers c \<le> 0 then c\<lparr>Maintainers := defaultMaintainers\<rparr> else c);
          c = (if LocalMiners c \<le> 0 then c\<lparr>LocalMiners := 1\<rparr> else c);
          c = (if MeanBlockMs c \<le> 0 then c\<lparr>MeanBlockMs := defaultMeanBlockMs\<rparr> else c);
          seed = (if Seed c = 0 then now else Seed c)
      in (c, seed))"

section \<open>Checking a block\<close>

definition hashToBig :: "bytes \<Rightarrow> int" where
  "hashToBig hash = fst (HashToBig hash)"

definition difficultyBits :: "(int \<Rightarrow> 32 word) \<Rightarrow> subConfig \<Rightarrow> int \<Rightarrow> 32 word" where
  "difficultyBits powLimitBits c h =
     (if DifficultyBits c \<noteq> 0 then DifficultyBits c else powLimitBits h)"

definition CheckBlock ::
  "hash_env \<Rightarrow> (int \<Rightarrow> 32 word) \<Rightarrow> subConfig \<Rightarrow> 'tx block option \<Rightarrow> go_error option" where
  "CheckBlock henv powLimitBits c current =
     (case current of
        None \<Rightarrow> Some ErrInvalidParam
      | Some b \<Rightarrow>
          if length (Txs b) = 0 \<and> \<not> MineEmpty c then Some ErrEmptyTx
          else if Difficulty b \<noteq> difficultyBits powLimitBits c (Height b) then Some ErrBlockHeaderDifficulty
          else
            let target = CompactToBig (Difficulty b) in
            if target \<le> 0 then Some ErrBlockHeaderDifficulty
            else if hashToBig (Hash henv b) > target then Some ErrBlockHeaderDifficulty
            else None)"

definition CmpBestBlock :: "hash_env \<Rightarrow> 'tx block option \<Rightarrow> 'tx block option \<Rightarrow> bool" where
  "CmpBestBlock henv newBlock cmpBlock =
     (case (newBlock, cmpBlock) of
        (Some n, Some c) \<Rightarrow> hashToBig (Hash henv n) < hashToBig (Hash henv c)
      | _ \<Rightarrow> False)"

section \<open>Mining\<close>

datatype mine_error = MineBadDifficulty | MaxNonceScanExceeded | MineQueueClosed

definition with_nonce :: "'tx block \<Rightarrow> 64 word \<Rightarrow> 'tx block" where
  "with_nonce b nonce = b\<lparr>Version := sint nonce\<rparr>"

definition hits :: "hash_env \<Rightarrow> int \<Rightarrow> 'tx block \<Rightarrow> bool" where
  "hits henv target b \<longleftrightarrow> hashToBig (Hash henv b) \<le> target"

text \<open>\<open>closed n\<close> is what \<^verbatim>\<open>IsClosed\<close> answers at attempt \<open>n\<close>.\<close>

partial_function (option) mine_loop ::
  "hash_env \<Rightarrow> subConfig \<Rightarrow> (64 word \<Rightarrow> bool) \<Rightarrow> int \<Rightarrow> 64 word \<Rightarrow> 64 word \<Rightarrow> 'tx block \<Rightarrow>
   (64 word \<times> mine_error option \<times> 'tx block) option" where
  "mine_loop henv c closed target startNonce attempts b =
     (let b = with_nonce b (startNonce + attempts - 1) in
      if hits henv target b then Some (attempts, None, b)
      else if MaxNonceScan c > 0 \<and> attempts \<ge> MaxNonceScan c then Some (attempts, Some MaxNonceScanExceeded, b)
      else if attempts mod hashCheckInterval = 0 \<and> closed attempts then Some (attempts, Some MineQueueClosed, b)
      else mine_loop henv c closed target startNonce (attempts + 1) b)"

definition mineBlock ::
  "hash_env \<Rightarrow> subConfig \<Rightarrow> (64 word \<Rightarrow> bool) \<Rightarrow> 64 word \<Rightarrow> 'tx block \<Rightarrow>
   (64 word \<times> mine_error option \<times> 'tx block) option" where
  "mineBlock henv c closed nextNonce b =
     (let target = CompactToBig (Difficulty b) in
      if target \<le> 0 then Some (0, Some MineBadDifficulty, b)
      else mine_loop henv c closed target nextNonce 1 b)"


section \<open>One turn of the mining loop\<close>

record 'tx round_input =
  IsClosed :: bool
  IsMining :: bool
  IsCaughtUp :: bool
  ForceMining :: bool
  sleepOrClosed :: bool
  lastBlock :: "'tx block option"
  MaxTxNumber :: "int \<Rightarrow> int"
  RequestTx :: "int \<Rightarrow> 'tx list"
  CheckTxDup :: "'tx list \<Rightarrow> 'tx list"
  AddTxsToBlock :: "'tx block \<Rightarrow> 'tx list \<Rightarrow> 'tx block"
  ForkRootHash :: "int \<Rightarrow> bool"
  TransactionSort :: "'tx list \<Rightarrow> 'tx list"
  CalcMerkleRoot :: "int \<Rightarrow> 'tx list \<Rightarrow> bytes"
  nowUnix :: int
  PreExecBlock :: "bytes \<Rightarrow> 'tx block \<Rightarrow> go_error + 'tx block option"
  closedAt :: "64 word \<Rightarrow> bool"
  nextNonce :: "64 word"
  currentBlock :: "'tx block option"
  WriteBlock :: "bytes \<Rightarrow> 'tx block \<Rightarrow> go_error option"

datatype 'tx round_result = Stopped | Retry | NewBlock "'tx block"

definition empty_block :: "'tx block" where
  "empty_block = \<lparr>Version = 0, ParentHash = [], TxHash = [], StateHash = [], Height = 0, BlockTime = 0,
     Difficulty = 0, MainHash = [], MainHeight = 0, Signature = None, Txs = []\<rparr>"

definition preExecBlock ::
  "'tx round_input \<Rightarrow> 'tx block \<Rightarrow> 'tx block \<Rightarrow> 'tx block option" where
  "preExecBlock inp parent b =
     (case PreExecBlock inp (StateHash parent) b of
        Inl e \<Rightarrow> None
      | Inr None \<Rightarrow> None
      | Inr (Some detail) \<Rightarrow> Some detail)"

text \<open>The candidate block of a turn; \<open>None\<close> when the turn is given up.\<close>

definition new_candidate ::
  "hash_env \<Rightarrow> (int \<Rightarrow> 32 word) \<Rightarrow> subConfig \<Rightarrow> 'tx round_input \<Rightarrow> 'tx block \<Rightarrow> 'tx block option" where
  "new_candidate henv powLimitBits c inp prev =
     (let parentHash = Hash henv prev;
          maxTxNum = MaxTxNumber inp (i64 (Height prev + 1));
          txs = CheckTxDup inp (RequestTx inp maxTxNum)
      in
      if (length txs = 0 \<or> BenchMode c \<and> int (length txs) < maxTxNum) \<and> \<not> MineEmpty c then None
      else
        let b = empty_block\<lparr>ParentHash := parentHash, Height := i64 (Height prev + 1)\<rparr>;
            b = AddTxsToBlock inp b txs
        in
        if length (Txs b) = 0 \<and> \<not> MineEmpty c then None
        else
          let b = (if ForkRootHash inp (Height b) then b\<lparr>Txs := TransactionSort inp (Txs b)\<rparr> else b);
              b = b\<lparr>TxHash := CalcMerkleRoot inp (Height b) (Txs b)\<rparr>;
              b = b\<lparr>Difficulty := difficultyBits powLimitBits c (Height b)\<rparr>;
              b = b\<lparr>BlockTime := nowUnix inp\<rparr>
          in Some (if BlockTime prev > BlockTime b then b\<lparr>BlockTime := BlockTime prev\<rparr> else b))"

definition finish_round ::
  "hash_env \<Rightarrow> 'tx round_input \<Rightarrow> 'tx block \<Rightarrow> (64 word \<times> mine_error option \<times> 'tx block) \<Rightarrow> 'tx round_result" where
  "finish_round henv inp prev mined =
     (case mined of
        (attempts, Some err, b) \<Rightarrow> Retry
      | (attempts, None, b) \<Rightarrow>
          (case currentBlock inp of
             None \<Rightarrow> Retry
           | Some current \<Rightarrow>
               if Hash henv current \<noteq> Hash henv prev then Retry
               else (case WriteBlock inp (StateHash prev) b of
                       Some err \<Rightarrow> Retry
                     | None \<Rightarrow> NewBlock b)))"

definition mining_round ::
  "hash_env \<Rightarrow> (int \<Rightarrow> 32 word) \<Rightarrow> subConfig \<Rightarrow> 'tx round_input \<Rightarrow> 'tx round_result option" where
  "mining_round henv powLimitBits c inp =
     (if IsClosed inp then Some Stopped
      else if DisableMining c then Some Retry
      else if \<not> IsMining inp \<or> \<not> (IsCaughtUp inp \<or> ForceMining inp) then Some Retry
      else if sleepOrClosed inp then Some Stopped
      else case lastBlock inp of
        None \<Rightarrow> Some Retry
      | Some prev \<Rightarrow>
          (case new_candidate henv powLimitBits c inp prev of
             None \<Rightarrow> Some Retry
           | Some b \<Rightarrow>
               (case preExecBlock inp prev b of
                  None \<Rightarrow> Some Retry
                | Some b \<Rightarrow> map_option (finish_round henv inp prev)
                              (mineBlock henv c (closedAt inp) (nextNonce inp) b))))"

section \<open>The nonce search\<close>

lemma with_nonce_twice [simp]: "with_nonce (with_nonce b n) m = with_nonce b m"
  by (simp add: with_nonce_def)

lemma mine_loop_sound_aux:
  assumes "mine_loop henv c closed target s a b = Some y"
  shows "\<exists>n. snd (snd y) = with_nonce b n \<and> (fst (snd y) = None \<longleftrightarrow> hits henv target (snd (snd y)))"
proof (rule mine_loop.raw_induct [OF _ assms,
      of "\<lambda>henv c closed target s a b y.
        \<exists>n. snd (snd y) = with_nonce b n \<and> (fst (snd y) = None \<longleftrightarrow> hits henv target (snd (snd y)))"])
  fix ml :: "hash_env \<Rightarrow> subConfig \<Rightarrow> (64 word \<Rightarrow> bool) \<Rightarrow> int \<Rightarrow> 64 word \<Rightarrow> 64 word \<Rightarrow> 'a block \<Rightarrow>
      (64 word \<times> mine_error option \<times> 'a block) option"
  fix henv c closed target s a and b :: "'a block" and y
  assume hyp: "\<And>henv c closed target s a b y. ml henv c closed target s a b = Some y \<Longrightarrow>
      \<exists>n. snd (snd y) = with_nonce b n \<and> (fst (snd y) = None) = hits henv target (snd (snd y))"
  let ?b = "with_nonce b (s + a - 1)"
  assume run: "(let b = ?b in
      if hits henv target b then Some (a, None, b)
      else if MaxNonceScan c > 0 \<and> a \<ge> MaxNonceScan c then Some (a, Some MaxNonceScanExceeded, b)
      else if a mod hashCheckInterval = 0 \<and> closed a then Some (a, Some MineQueueClosed, b)
      else ml henv c closed target s (a + 1) b) = Some y"
  show "\<exists>n. snd (snd y) = with_nonce b n \<and> (fst (snd y) = None) = hits henv target (snd (snd y))"
    using run hyp [of henv c closed target s "a + 1" ?b y] by (auto simp: Let_def split: if_splits)
qed

lemma mine_loop_sound:
  assumes "mine_loop henv c closed target s a b = Some (a', r, b')"
  shows "\<exists>n. b' = with_nonce b n \<and> (r = None \<longleftrightarrow> hits henv target b')"
  using mine_loop_sound_aux [OF assms] by simp

lemma mine_loop_bounded:
  assumes "MaxNonceScan c > 0" "1 \<le> a" "a \<le> MaxNonceScan c"
  shows "\<exists>a' r b'. mine_loop henv c closed target s a b = Some (a', r, b') \<and> a' \<le> MaxNonceScan c"
  using assms(2,3)
proof (induction "unat (MaxNonceScan c) - unat a" arbitrary: a b rule: less_induct)
  case less
  show ?case
  proof (cases "a = MaxNonceScan c")
    case True
    then show ?thesis using less.prems assms(1) by (subst mine_loop.simps) (auto simp: Let_def)
  next
    case False
    then have lt: "a < MaxNonceScan c" using less.prems by simp
    have "unat a + 1 < 2 ^ 64"
      using lt unsigned_less [of "MaxNonceScan c", where 'a = nat] by (simp add: word_less_nat_alt)
    then have up: "unat (a + 1) = unat a + 1" by (simp add: unat_word_ariths)
    then have up2: "a + 1 \<le> MaxNonceScan c" using lt by (simp add: word_less_nat_alt word_le_nat_alt)
    then have "unat (MaxNonceScan c) - unat (a + 1) < unat (MaxNonceScan c) - unat a" "1 \<le> a + 1"
      using lt up by (simp_all add: word_less_nat_alt word_le_nat_alt)
    from less.hyps [OF this up2, of "with_nonce b (s + a - 1)"] lt less.prems assms(1) show ?thesis
      by (subst mine_loop.simps) (auto simp: Let_def)
  qed
qed

lemma mine_loop_finds:
  assumes "hits henv target (with_nonce b (s + (a + of_nat d) - 1))"
  shows "\<exists>a' r b'. mine_loop henv c closed target s a b = Some (a', r, b')"
  using assms
proof (induction d arbitrary: a b)
  case 0
  then show ?case by (subst mine_loop.simps) (simp add: Let_def)
next
  case (Suc d)
  have "hits henv target (with_nonce (with_nonce b (s + a - 1)) (s + (a + 1 + of_nat d) - 1))"
    using Suc.prems by (simp add: with_nonce_def algebra_simps)
  from Suc.IH [OF this] show ?case by (subst mine_loop.simps) (auto simp: Let_def)
qed


lemma mined_block_aux:
  assumes "mineBlock henv c closed nonce b = Some (attempts, None, b')"
    and "Difficulty b = difficultyBits powLimitBits c (Height b)" "Txs b \<noteq> [] \<or> MineEmpty c"
  shows "CheckBlock henv powLimitBits c (Some b') = None \<and> (\<exists>n. b' = with_nonce b n)"
proof -
  from assms(1) have pos: "0 < CompactToBig (Difficulty b)"
    and loop: "mine_loop henv c closed (CompactToBig (Difficulty b)) nonce 1 b = Some (attempts, None, b')"
    by (auto simp: mineBlock_def Let_def split: if_splits)
  from mine_loop_sound [OF loop] obtain n where
    "b' = with_nonce b n" "hits henv (CompactToBig (Difficulty b)) b'" by auto
  with pos assms(2,3) show ?thesis
    by (auto simp: CheckBlock_def Let_def hits_def with_nonce_def)
qed

lemma new_candidate_fields:
  assumes "new_candidate henv powLimitBits c inp prev = Some x"
    and "\<And>x txs. ParentHash (AddTxsToBlock inp x txs) = ParentHash x \<and> Height (AddTxsToBlock inp x txs) = Height x"
  shows "ParentHash x = Hash henv prev" "Height x = i64 (Height prev + 1)"
    "Difficulty x = difficultyBits powLimitBits c (Height x)"
  using assms(1) by (auto simp: new_candidate_def Let_def assms(2) split: if_splits)

section \<open>Properties\<close>

text \<open>
  C24. Mining and checking agree: a block whose difficulty is the configured one and
  that is not empty (or empty blocks are allowed) passes \<^verbatim>\<open>CheckBlock\<close> once
  \<^verbatim>\<open>mineBlock\<close> returns without error, and only its nonce field has changed.
\<close>

theorem mined_block_passes_check:
  assumes "mineBlock henv c closed nonce b = Some (attempts, None, b')"
    and "Difficulty b = difficultyBits powLimitBits c (Height b)" "Txs b \<noteq> [] \<or> MineEmpty c"
  shows "CheckBlock henv powLimitBits c (Some b') = None \<and> (\<exists>n. b' = with_nonce b n)"
  using assms by (rule mined_block_aux)

text \<open>
  The nonce search ends: with a positive \<^verbatim>\<open>MaxNonceScan\<close> after at most that many
  attempts, and without a bound whenever some 64-bit nonce meets the target, also when the
  counter wraps around.
\<close>

theorem mineBlock_returns:
  assumes "MaxNonceScan c > 0 \<or> (\<exists>n. hits henv (CompactToBig (Difficulty b)) (with_nonce b n))"
  shows "\<exists>attempts r b'. mineBlock henv c closed nonce b = Some (attempts, r, b') \<and>
    (MaxNonceScan c > 0 \<longrightarrow> attempts \<le> MaxNonceScan c)"
proof (cases "CompactToBig (Difficulty b) \<le> 0")
  case True
  then show ?thesis by (simp add: mineBlock_def)
next
  case False
  show ?thesis
  proof (cases "MaxNonceScan c > 0")
    case True
    then have "1 \<le> MaxNonceScan c" by (simp add: word_le_nat_alt word_less_nat_alt)
    from mine_loop_bounded [OF True _ this, of henv closed "CompactToBig (Difficulty b)" nonce b] False
    show ?thesis by (auto simp: mineBlock_def Let_def)
  next
    case unbounded: False
    with assms obtain n where n: "hits henv (CompactToBig (Difficulty b)) (with_nonce b n)" by blast
    have "nonce + (1 + of_nat (unat (n - nonce))) - 1 = n" by simp
    with n mine_loop_finds [of henv "CompactToBig (Difficulty b)" b nonce 1 "unat (n - nonce)" c closed] False unbounded
    show ?thesis by (auto simp: mineBlock_def Let_def)
  qed
qed



definition demo_config :: subConfig where
  "demo_config = zero_config\<lparr>DifficultyBits := 0x03000002, MaxNonceScan := 5\<rparr>"

definition demo_candidate :: "nat block" where
  "demo_candidate = demo_block\<lparr>Difficulty := 0x03000002\<rparr>"

lemma demo_target: "CompactToBig 0x03000002 = 2"
  by code_simp

lemma demo_hits: "hits demo_hash_env 2 (with_nonce demo_candidate n) \<longleftrightarrow> uint (word_of_int (sint n) :: 8 word) \<le> 2"
  by (simp add: hits_def hashToBig_def HashToBig_eq with_nonce_def Hash_def HashNew_def demo_hash_env_def
      getHeaderHashNew_def empty_header_def demo_candidate_def demo_block_def horner_sum_simps(2) numeral_eq_Suc)

lemma demo_mined: "mineBlock demo_hash_env demo_config (\<lambda>n. False) 0 demo_candidate =
    Some (1, None, with_nonce demo_candidate 0)"
proof -
  have d: "Difficulty demo_candidate = 0x03000002" by (simp add: demo_candidate_def)
  have "hits demo_hash_env 2 (with_nonce demo_candidate 0)" by (simp add: demo_hits)
  then show ?thesis by (simp add: mineBlock_def d demo_target mine_loop.simps Let_def)
qed

theorem mined_block_passes_check_witness:
  "CheckBlock demo_hash_env (\<lambda>h. 0) demo_config (Some (with_nonce demo_candidate 0)) = None"
  using mined_block_passes_check [OF demo_mined, of "\<lambda>h. 0"]
  by (simp add: demo_candidate_def demo_config_def difficultyBits_def demo_block_def)

theorem mineBlock_returns_witness:
  "\<exists>attempts r b'. mineBlock demo_hash_env demo_config (\<lambda>n. False) 0 demo_candidate = Some (attempts, r, b') \<and>
     attempts \<le> 5"
  using mineBlock_returns [of demo_config demo_hash_env demo_candidate "\<lambda>n. False" 0]
  by (simp add: demo_config_def)

definition demo_round :: "nat round_input" where
  "demo_round = \<lparr>IsClosed = False, IsMining = True, IsCaughtUp = True, ForceMining = False,
     sleepOrClosed = False, lastBlock = Some demo_block, MaxTxNumber = (\<lambda>h. 10), RequestTx = (\<lambda>n. [7]),
     CheckTxDup = (\<lambda>txs. txs), AddTxsToBlock = (\<lambda>b txs. b\<lparr>Txs := Txs b @ txs\<rparr>), ForkRootHash = (\<lambda>h. False),
     TransactionSort = (\<lambda>txs. txs), CalcMerkleRoot = (\<lambda>h txs. []), nowUnix = 5,
     PreExecBlock = (\<lambda>h b. if Txs b = [] then Inl ErrEmptyTx else Inr (Some b)), closedAt = (\<lambda>n. False),
     nextNonce = 0, currentBlock = Some demo_block, WriteBlock = (\<lambda>h b. None)\<rparr>"

lemma demo_round_run: "\<exists>b. mining_round demo_hash_env (\<lambda>h. 0) demo_config demo_round = Some (NewBlock b)"
proof -
  let ?x = "empty_block\<lparr>ParentHash := Hash demo_hash_env demo_block, Height := 2, Txs := [7],
      Difficulty := 0x03000002, BlockTime := 5\<rparr> :: nat block"
  have "hits demo_hash_env 2 (with_nonce ?x 0)"
    by (simp add: hits_def hashToBig_def HashToBig_eq with_nonce_def Hash_def HashNew_def demo_hash_env_def
        getHeaderHashNew_def empty_header_def horner_sum_simps(2) numeral_eq_Suc)
  then have "mineBlock demo_hash_env demo_config (\<lambda>n. False) 0 ?x = Some (1, None, with_nonce ?x 0)"
    by (simp add: mineBlock_def demo_target mine_loop.simps Let_def)
  then show ?thesis
    by (simp add: mining_round_def demo_round_def new_candidate_def Let_def preExecBlock_def finish_round_def
        demo_config_def zero_config_def difficultyBits_def i64_def empty_block_def demo_block_def)
qed


text \<open>
  \<^verbatim>\<open>CmpBestBlock\<close>, which breaks ties of equal work, is a strict order on blocks
  up to equal hash values: irreflexive, transitive, and two blocks neither of which is
  preferred have the same hash value, so all nodes pick the same block.
\<close>

theorem CmpBestBlock_strict_order:
  "\<not> CmpBestBlock henv a a \<and>
   (CmpBestBlock henv a b \<longrightarrow> CmpBestBlock henv b c \<longrightarrow> CmpBestBlock henv a c) \<and>
   (\<not> CmpBestBlock henv (Some x) (Some y) \<and> \<not> CmpBestBlock henv (Some y) (Some x) \<longleftrightarrow>
      hashToBig (Hash henv x) = hashToBig (Hash henv y))"
  by (auto simp: CmpBestBlock_def split: option.splits)

theorem CmpBestBlock_strict_order_witness:
  "\<not> CmpBestBlock demo_hash_env (Some demo_block) (Some demo_block)"
  using CmpBestBlock_strict_order [of demo_hash_env "Some demo_block"] by blast

text \<open>
  The configuration \<^verbatim>\<open>New\<close> builds is usable whatever was decoded: a positive
  mean block time, at least one maintainer and one local miner; values that were positive
  are kept.
\<close>

theorem New_config_positive:
  "let c = fst (New g t now sub) in 0 < MeanBlockMs c \<and> 0 < Maintainers c \<and> 0 < LocalMiners c \<and>
     (\<forall>s. sub = Some s \<longrightarrow> (0 < MeanBlockMs s \<longrightarrow> MeanBlockMs c = MeanBlockMs s) \<and>
        (0 < Maintainers s \<longrightarrow> Maintainers c = Maintainers s) \<and> (0 < LocalMiners s \<longrightarrow> LocalMiners c = LocalMiners s))"
  by (cases sub) (auto simp: New_def Let_def defaultMaintainers_def defaultMeanBlockMs_def zero_config_def)

theorem New_config_positive_witness:
  "let c = fst (New ''g'' 0 0 (Some zero_config)) in 0 < MeanBlockMs c \<and> 0 < Maintainers c \<and> 0 < LocalMiners c"
  using New_config_positive [of "''g''" 0 0 "Some zero_config"] by (auto simp: Let_def)

end
