(* ===== verification/Forks.thy ===== *)
theory Forks
  imports Omni_Prelude "HOL-Library.AList"
begin

text \<open>
  The fork table of \<^verbatim>\<open>types/fork.go\<close>: from which height on a change of the rules is
  in force. A Go map is an association list with at most one entry per key (iterating over it
  visits the entries in some order), a nil map is \<open>None\<close>, and a panic is \<open>Inl GoPanic\<close>.
  \<open>OmnilinkConfig\<close> holds the part of the configuration the fork and transaction rules read.
\<close>

section \<open>The table\<close>

definition MaxHeight :: int where "MaxHeight = 10000000000000000"

record Forks =
  fork_map :: "(string \<times> int) list option"

definition fork_list :: "Forks \<Rightarrow> (string \<times> int) list" where
  "fork_list f = (case fork_map f of None \<Rightarrow> [] | Some m \<Rightarrow> m)"

definition checkKey :: "string \<Rightarrow> go_error + unit" where
  "checkKey key = (if CHR ''.'' \<in> set key then Inl GoPanic else Inr ())"

definition setFork :: "Forks \<Rightarrow> string \<Rightarrow> int \<Rightarrow> Forks" where
  "setFork f key height = f\<lparr>fork_map := Some (AList.update key height (fork_list f))\<rparr>"

definition replaceFork :: "Forks \<Rightarrow> string \<Rightarrow> int \<Rightarrow> go_error + Forks" where
  "replaceFork f key height =
     (if map_of (fork_list f) key = None then Inl GoPanic
      else Inr (f\<lparr>fork_map := Some (AList.update key height (fork_list f))\<rparr>))"

definition SetFork :: "Forks \<Rightarrow> string \<Rightarrow> int \<Rightarrow> go_error + Forks" where
  "SetFork f key height =
     (case checkKey key of Inl e \<Rightarrow> Inl e | Inr _ \<Rightarrow> Inr (setFork f key height))"

definition ReplaceFork :: "Forks \<Rightarrow> string \<Rightarrow> int \<Rightarrow> go_error + Forks" where
  "ReplaceFork f key height =
     (case checkKey key of Inl e \<Rightarrow> Inl e | Inr _ \<Rightarrow> replaceFork f key height)"

definition dapp_key :: "string \<Rightarrow> string \<Rightarrow> string" where
  "dapp_key dapp key = dapp @ ''.'' @ key"

definition SetDappFork :: "Forks \<Rightarrow> string \<Rightarrow> string \<Rightarrow> int \<Rightarrow> go_error + Forks" where
  "SetDappFork f dapp key height =
     (case checkKey key of Inl e \<Rightarrow> Inl e | Inr _ \<Rightarrow> Inr (setFork f (dapp_key dapp key) height))"

definition ReplaceDappFork :: "Forks \<Rightarrow> string \<Rightarrow> string \<Rightarrow> int \<Rightarrow> go_error + Forks" where
  "ReplaceDappFork f dapp key height =
     (case checkKey key of Inl e \<Rightarrow> Inl e | Inr _ \<Rightarrow> replaceFork f (dapp_key dapp key) height)"

definition GetFork :: "Forks \<Rightarrow> string \<Rightarrow> int" where
  "GetFork f key = (case map_of (fork_list f) key of None \<Rightarrow> MaxHeight | Some height \<Rightarrow> height)"

definition HasFork :: "Forks \<Rightarrow> string \<Rightarrow> bool" where
  "HasFork f key \<longleftrightarrow> map_of (fork_list f) key \<noteq> None"

definition GetDappFork :: "Forks \<Rightarrow> string \<Rightarrow> string \<Rightarrow> int" where
  "GetDappFork f app key = GetFork f (dapp_key app key)"

definition SetAllFork :: "Forks \<Rightarrow> int \<Rightarrow> Forks" where
  "SetAllFork f height = f\<lparr>fork_map := map_option (map (\<lambda>(k, _). (k, height))) (fork_map f)\<rparr>"

definition IsFork :: "Forks \<Rightarrow> int \<Rightarrow> string \<Rightarrow> bool" where
  "IsFork f height fork \<longleftrightarrow> height = - 1 \<or> height \<ge> GetFork f fork"

definition IsDappFork :: "Forks \<Rightarrow> int \<Rightarrow> string \<Rightarrow> string \<Rightarrow> bool" where
  "IsDappFork f height dapp fork = IsFork f height (dapp_key dapp fork)"

section \<open>The forks of the system\<close>

definition system_forks :: "(string \<times> int) list" where
  "system_forks =
    [(''ForkChainParamV1'', 110000), (''ForkChainParamV2'', 1692674), (''ForkCheckTxDup'', 75260),
     (''ForkBlockHash'', 209186), (''ForkMinerTime'', 350000), (''ForkTransferExec'', 408400),
     (''ForkExecKey'', 408400), (''ForkWithdraw'', 480000), (''ForkTxGroup'', 408400),
     (''ForkResetTx0'', 453400), (''ForkExecRollback'', 706531), (''ForkTxHeight'', 806578),
     (''ForkCheckBlockTime'', 1200000), (''ForkMultiSignAddress'', 1298600),
     (''ForkStateDBSet'', 1572391), (''ForkBlockCheck'', 1560000), (''ForkLocalDBAccess'', 1572391),
     (''ForkTxGroupPara'', 1687250), (''ForkBase58AddressCheck'', 1800000),
     (''ForkEnableParaRegExec'', 0), (''ForkCacheDriver'', 2580000),
     (''ForkTicketFundAddrV1'', 3350000), (''ForkRootHash'', 4500000),
     (''ForkFormatAddressKey'', 0), (''ForkEthAddressFormat'', 0)]"

definition system_forks_unchecked :: "(string \<times> int) list" where
  "system_forks_unchecked =
    [(''ForkCheckEthTxSort'', 0), (''ForkProxyExec'', 0), (''ForkMaxTxFeeV1'', 0)]"

fun set_forks :: "(string \<times> int) list \<Rightarrow> Forks \<Rightarrow> go_error + Forks" where
  "set_forks [] f = Inr f"
| "set_forks ((k, h) # ks) f =
     (case SetFork f k h of Inl e \<Rightarrow> Inl e | Inr f' \<Rightarrow> set_forks ks f')"

definition RegisterSystemFork :: "Forks \<Rightarrow> go_error + Forks" where
  "RegisterSystemFork f =
     (case set_forks system_forks f of
        Inl e \<Rightarrow> Inl e
      | Inr f1 \<Rightarrow> Inr (fold (\<lambda>(k, h) g. setFork g k h) system_forks_unchecked f1))"

definition setLocalFork :: "Forks \<Rightarrow> go_error + Forks" where
  "setLocalFork f =
     (case ReplaceFork (SetAllFork f 0) ''ForkBlockHash'' 1 of
        Inl e \<Rightarrow> Inl e
      | Inr f1 \<Rightarrow> ReplaceFork f1 ''ForkRootHash'' 1)"

definition setForkForParaZero :: "Forks \<Rightarrow> go_error + Forks" where
  "setForkForParaZero f =
     (case ReplaceFork (SetAllFork f 0) ''ForkBlockHash'' 1 of
        Inl e \<Rightarrow> Inl e
      | Inr f1 \<Rightarrow> ReplaceFork f1 ''ForkRootHash'' 1)"

section \<open>The configuration\<close>

text \<open>
  \<open>Mcfg\<close> is what \<^verbatim>\<open>needSetForkZero\<close> reads of the module configuration: whether
  \<^verbatim>\<open>Fork.System\<close> is there, and \<^verbatim>\<open>EnableParaFork\<close>; \<open>None\<close> is a nil pointer.
  \<open>flags\<close> are the boolean entries \<^verbatim>\<open>IsEnable\<close> looks up.
\<close>

record Mcfg =
  ForkSystemSet :: bool
  EnableParaFork :: bool

record OmnilinkConfig =
  title :: string
  cfg_forks :: Forks
  flags :: "(string \<times> bool) list"
  chainID :: int
  mcfg :: "Mcfg option"
  disableCheckFork :: bool
  AllowUserExec :: "string list"

definition ParaKeyX :: string where "ParaKeyX = ''user.p.''"

definition MainChainName :: string where "MainChainName = ''main''"

definition IsParaExecName :: "string \<Rightarrow> bool" where
  "IsParaExecName exec \<longleftrightarrow> take (length ParaKeyX) exec = ParaKeyX"

fun title_loop :: "string \<Rightarrow> string \<Rightarrow> string option" where
  "title_loop seen [] = None"
| "title_loop seen (ch # rest) = (if ch = CHR ''.'' then Some (seen @ [ch]) else title_loop (seen @ [ch]) rest)"

definition GetParaExecTitleName :: "string \<Rightarrow> string option" where
  "GetParaExecTitleName exec =
     (if IsParaExecName exec then title_loop ParaKeyX (drop (length ParaKeyX) exec) else None)"

definition isLocal :: "OmnilinkConfig \<Rightarrow> bool" where
  "isLocal c \<longleftrightarrow> title c = ''local''"

definition isPara :: "OmnilinkConfig \<Rightarrow> bool" where
  "isPara c \<longleftrightarrow> count_list (title c) (CHR ''.'') = 3 \<and> take (length ParaKeyX) (title c) = ParaKeyX"

definition IsEnable :: "OmnilinkConfig \<Rightarrow> string \<Rightarrow> bool" where
  "IsEnable c name \<longleftrightarrow> map_of (flags c) name = Some True"

definition needSetForkZero :: "OmnilinkConfig \<Rightarrow> go_error + bool" where
  "needSetForkZero c =
     (if isLocal c then Inr True
      else if isPara c then
        (case mcfg c of
           None \<Rightarrow> Inl GoPanic
         | Some m \<Rightarrow> Inr (\<not> ForkSystemSet m \<and> \<not> EnableParaFork m))
      else Inr False)"

definition RegisterDappFork ::
  "OmnilinkConfig \<Rightarrow> string \<Rightarrow> string \<Rightarrow> int \<Rightarrow> go_error + OmnilinkConfig" where
  "RegisterDappFork c dapp fork height =
     (case needSetForkZero c of
        Inl e \<Rightarrow> Inl e
      | Inr zero \<Rightarrow>
          let height' = (if zero then if fork = ''ForkBlockHash'' then 1 else 0 else height)
          in case SetDappFork (cfg_forks c) dapp fork height' of
               Inl e \<Rightarrow> Inl e
             | Inr f \<Rightarrow> Inr (c\<lparr>cfg_forks := f\<rparr>))"

definition IsEnableFork :: "OmnilinkConfig \<Rightarrow> int \<Rightarrow> string \<Rightarrow> bool \<Rightarrow> bool" where
  "IsEnableFork c height fork enable \<longleftrightarrow> (if \<not> enable then False else IsFork (cfg_forks c) height fork)"

section \<open>Reading the configuration file\<close>

record ForkList =
  System :: "(string \<times> int) list"
  Sub :: "(string \<times> (string \<times> int) list) list option"

fun split_dot :: "string \<Rightarrow> string list" where
  "split_dot [] = [[]]"
| "split_dot (c # cs) =
     (if c = CHR ''.'' then [] # split_dot cs
      else (c # hd (split_dot cs)) # tl (split_dot cs))"

definition nl :: string where "nl = [CHR 0x0A]"

definition missing_system :: "(string \<times> int) list \<Rightarrow> string list \<Rightarrow> string" where
  "missing_system sys ks =
     concat (map (\<lambda>k. if CHR ''.'' \<notin> set k \<and> map_of sys k = None
                      then ''system fork '' @ k @ '' not config'' @ nl else []) ks)"

definition missing_dapp :: "(string \<times> (string \<times> int) list) list option \<Rightarrow> string \<Rightarrow> string \<Rightarrow> string" where
  "missing_dapp sub exec name =
     (let not_config = ''exec '' @ exec @ '' name '' @ name @ '' not config in config file'' @ nl
      in case sub of
           None \<Rightarrow> not_config
         | Some s \<Rightarrow>
             (case map_of s exec of
                None \<Rightarrow> ''exec '' @ exec @ '' not enable in config file'' @ nl
              | Some names \<Rightarrow> if map_of names name \<noteq> None then [] else not_config))"

fun missing_dapps ::
  "(string \<times> (string \<times> int) list) list option \<Rightarrow> string list \<Rightarrow> go_error + string" where
  "missing_dapps sub [] = Inr []"
| "missing_dapps sub (k # ks) =
     (let forkname = split_dot k
      in if length forkname = 1 then missing_dapps sub ks
         else if length forkname > 2 then Inl GoPanic
         else case missing_dapps sub ks of
                Inl e \<Rightarrow> Inl e
              | Inr s \<Rightarrow> Inr (missing_dapp sub (forkname ! 0) (forkname ! 1) @ s))"

definition fork_height :: "int \<Rightarrow> int" where
  "fork_height v = (if v = - 1 then MaxHeight else v)"

fun set_system :: "(string \<times> int) list \<Rightarrow> Forks \<times> string \<Rightarrow> go_error + Forks \<times> string" where
  "set_system [] (f, s) = Inr (f, s)"
| "set_system ((k, v) # rest) (f, s) =
     (let s' = (if \<not> HasFork f k then s @ ''system fork not exist : '' @ k @ nl else s)
      in case SetFork f k (fork_height v) of
           Inl e \<Rightarrow> Inl e
         | Inr f' \<Rightarrow> set_system rest (f', s'))"

fun set_dapp :: "string \<Rightarrow> (string \<times> int) list \<Rightarrow> Forks \<times> string \<Rightarrow> go_error + Forks \<times> string" where
  "set_dapp dapp [] (f, s) = Inr (f, s)"
| "set_dapp dapp ((k, v) # rest) (f, s) =
     (let s' = (if \<not> HasFork f (dapp_key dapp k)
                then s @ ''exec fork not exist in code : exec = '' @ dapp @ '' key = '' @ k @ nl else s)
      in case SetDappFork f dapp k (fork_height v) of
           Inl e \<Rightarrow> Inl e
         | Inr f' \<Rightarrow> set_dapp dapp rest (f', s'))"

fun set_dapps ::
  "(string \<times> (string \<times> int) list) list \<Rightarrow> Forks \<times> string \<Rightarrow> go_error + Forks \<times> string" where
  "set_dapps [] st = Inr st"
| "set_dapps ((dapp, forklist) # rest) st =
     (case set_dapp dapp forklist st of Inl e \<Rightarrow> Inl e | Inr st' \<Rightarrow> set_dapps rest st')"

definition sub_list :: "ForkList \<Rightarrow> (string \<times> (string \<times> int) list) list" where
  "sub_list fl = (case Sub fl of None \<Rightarrow> [] | Some s \<Rightarrow> s)"

definition initForkConfig :: "OmnilinkConfig \<Rightarrow> ForkList \<Rightarrow> go_error + OmnilinkConfig" where
  "initForkConfig c fl =
     (case fork_map (cfg_forks c) of
        None \<Rightarrow> Inl GoPanic
      | Some omnilinkfork \<Rightarrow>
          let ks = map fst omnilinkfork; s0 = missing_system (System fl) ks
          in case missing_dapps (Sub fl) ks of
               Inl e \<Rightarrow> Inl e
             | Inr s1 \<Rightarrow>
                 (case set_system (System fl) (cfg_forks c, s0 @ s1) of
                    Inl e \<Rightarrow> Inl e
                  | Inr (f2, s2) \<Rightarrow>
                      (case set_dapps (sub_list fl) (f2, s2) of
                         Inl e \<Rightarrow> Inl e
                       | Inr (f3, s3) \<Rightarrow>
                           if \<not> disableCheckFork c \<and> length s3 > 0 then Inl GoPanic
                           else Inr (c\<lparr>cfg_forks := f3,
                                       AllowUserExec := ''none'' # map fst (sub_list fl)\<rparr>))))"

section \<open>Lookups\<close>

lemma map_of_setFork: "map_of (fork_list (setFork f k h)) = (map_of (fork_list f))(k \<mapsto> h)"
  by (simp add: setFork_def fork_list_def update_conv')

lemma dom_setFork [simp]:
  "dom (map_of (fork_list (setFork f k h))) = insert k (dom (map_of (fork_list f)))"
  by (auto simp: map_of_setFork dom_def)

lemma SetFork_Inr: "SetFork f k h = Inr f' \<longleftrightarrow> CHR ''.'' \<notin> set k \<and> f' = setFork f k h"
  by (auto simp: SetFork_def checkKey_def)

lemma SetDappFork_Inr:
  "SetDappFork f d k h = Inr f' \<longleftrightarrow> CHR ''.'' \<notin> set k \<and> f' = setFork f (dapp_key d k) h"
  by (auto simp: SetDappFork_def checkKey_def)

lemma HasFork_dom: "HasFork f k \<longleftrightarrow> k \<in> dom (map_of (fork_list f))"
  by (auto simp: HasFork_def)

definition put_all :: "(string \<times> int) list \<Rightarrow> Forks \<Rightarrow> Forks" where
  "put_all kvs f = fold (\<lambda>(k, v) g. setFork g k (fork_height v)) kvs f"

lemma put_all_simps [simp]:
  "put_all [] f = f" "put_all ((k, v) # kvs) f = put_all kvs (setFork f k (fork_height v))"
  "put_all (xs @ ys) f = put_all ys (put_all xs f)"
  by (simp_all add: put_all_def)

lemma put_all_lookup:
  "distinct (map fst kvs) \<Longrightarrow>
   map_of (fork_list (put_all kvs f)) k =
     (case map_of kvs k of None \<Rightarrow> map_of (fork_list f) k | Some v \<Rightarrow> Some (fork_height v))"
proof (induction kvs arbitrary: f)
  case (Cons x kvs)
  obtain j v where x: "x = (j, v)" by fastforce
  have "map_of kvs j = None" using Cons.prems x by (simp add: map_of_eq_None_iff)
  then show ?case using Cons x by (auto simp: map_of_setFork split: option.splits)
qed simp

lemma put_all_dom:
  "dom (map_of (fork_list (put_all kvs f))) = dom (map_of (fork_list f)) \<union> fst ` set kvs"
proof (induction kvs arbitrary: f)
  case (Cons x kvs)
  obtain j v where x: "x = (j, v)" by fastforce
  show ?case using Cons by (simp add: x)
qed simp

section \<open>The loops of initForkConfig\<close>

lemma set_system_Inr:
  "set_system sys (f, s) = Inr (f', s') \<Longrightarrow>
   f' = put_all sys f \<and> (\<forall>k\<in>fst ` set sys. CHR ''.'' \<notin> set k) \<and>
   (s' = [] \<longrightarrow> s = [] \<and> fst ` set sys \<subseteq> dom (map_of (fork_list f)))"
proof (induction sys arbitrary: f s)
  case (Cons x sys)
  obtain k v where x: "x = (k, v)" by fastforce
  let ?s = "if \<not> HasFork f k then s @ ''system fork not exist : '' @ k @ nl else s"
  obtain g where g: "SetFork f k (fork_height v) = Inr g" "set_system sys (g, ?s) = Inr (f', s')"
    using Cons.prems by (auto simp: x Let_def split: sum.splits)
  have dotless: "CHR ''.'' \<notin> set k" and g': "g = setFork f k (fork_height v)"
    using g(1) by (simp_all add: SetFork_Inr)
  show ?case
    using Cons.IH [OF g(2)] dotless
    by (cases "HasFork f k") (simp_all add: x g' HasFork_dom insert_absorb)
qed simp

definition dapp_entries :: "(string \<times> (string \<times> int) list) list \<Rightarrow> (string \<times> int) list" where
  "dapp_entries subs = concat (map (\<lambda>(d, ks). map (\<lambda>(k, v). (dapp_key d k, v)) ks) subs)"

lemma dapp_entries_simps [simp]:
  "dapp_entries [] = []"
  "dapp_entries ((d, ks) # subs) = map (\<lambda>(k, v). (dapp_key d k, v)) ks @ dapp_entries subs"
  by (simp_all add: dapp_entries_def)

lemma set_dapp_Inr:
  "set_dapp d ks (f, s) = Inr (f', s') \<Longrightarrow>
   f' = put_all (map (\<lambda>(k, v). (dapp_key d k, v)) ks) f \<and> (\<forall>k\<in>fst ` set ks. CHR ''.'' \<notin> set k) \<and>
   (s' = [] \<longrightarrow> s = [] \<and> dapp_key d ` fst ` set ks \<subseteq> dom (map_of (fork_list f)))"
proof (induction ks arbitrary: f s)
  case (Cons x ks)
  obtain k v where x: "x = (k, v)" by fastforce
  let ?s = "if \<not> HasFork f (dapp_key d k)
    then s @ ''exec fork not exist in code : exec = '' @ d @ '' key = '' @ k @ nl else s"
  obtain g where g: "SetDappFork f d k (fork_height v) = Inr g" "set_dapp d ks (g, ?s) = Inr (f', s')"
    using Cons.prems by (auto simp: x Let_def split: sum.splits)
  have dotless: "CHR ''.'' \<notin> set k" and g': "g = setFork f (dapp_key d k) (fork_height v)"
    using g(1) by (simp_all add: SetDappFork_Inr)
  show ?case
    using Cons.IH [OF g(2)] dotless
    by (cases "HasFork f (dapp_key d k)") (simp_all add: x g' HasFork_dom insert_absorb)
qed simp

lemma set_dapps_Inr:
  "set_dapps subs (f, s) = Inr (f', s') \<Longrightarrow>
   f' = put_all (dapp_entries subs) f \<and>
   (\<forall>d ks. (d, ks) \<in> set subs \<longrightarrow> (\<forall>k\<in>fst ` set ks. CHR ''.'' \<notin> set k)) \<and>
   (s' = [] \<longrightarrow> s = [] \<and> fst ` set (dapp_entries subs) \<subseteq> dom (map_of (fork_list f)))"
proof (induction subs arbitrary: f s)
  case (Cons x subs)
  obtain d ks where x: "x = (d, ks)" by fastforce
  obtain g t where g: "set_dapp d ks (f, s) = Inr (g, t)" "set_dapps subs (g, t) = Inr (f', s')"
    using Cons.prems by (auto simp: x split: sum.splits)
  note one = set_dapp_Inr [OF g(1)]
  note more = Cons.IH [OF g(2)]
  have keys: "fst ` set (map (\<lambda>(k, v). (dapp_key d k, v)) ks) = dapp_key d ` fst ` set ks"
    by (induction ks) auto
  have mono: "dom (map_of (fork_list g)) = dom (map_of (fork_list f)) \<union> dapp_key d ` fst ` set ks"
    using one keys by (simp add: put_all_dom del: set_map)
  show ?case
  proof (intro conjI allI impI)
    show "f' = put_all (dapp_entries (x # subs)) f" using one more by (simp add: x)
    fix d' ks' assume "(d', ks') \<in> set (x # subs)"
    then show "\<forall>k\<in>fst ` set ks'. CHR ''.'' \<notin> set k" using one more by (auto simp: x)
  next
    assume "s' = []"
    then have t: "t = []" and more': "fst ` set (dapp_entries subs) \<subseteq> dom (map_of (fork_list g))"
      using more by auto
    from t show "s = []" using one by simp
    have here: "dapp_key d ` fst ` set ks \<subseteq> dom (map_of (fork_list f))" using one t by simp
    then have "dom (map_of (fork_list g)) = dom (map_of (fork_list f))"
      unfolding mono by (rule Un_absorb2)
    moreover have "fst ` set (dapp_entries (x # subs)) = dapp_key d ` fst ` set ks \<union> fst ` set (dapp_entries subs)"
      using keys by (simp only: x dapp_entries_simps set_append image_Un)
    ultimately show "fst ` set (dapp_entries (x # subs)) \<subseteq> dom (map_of (fork_list f))"
      using more' here by (metis Un_least)
  qed
qed simp

section \<open>Fork names\<close>

lemma dapp_key_inj:
  assumes "CHR ''.'' \<notin> set k" "CHR ''.'' \<notin> set k'" "dapp_key d k = dapp_key d' k'"
  shows "d = d' \<and> k = k'"
proof -
  have tw: "takeWhile (\<lambda>c. c \<noteq> CHR ''.'') (rev (dapp_key e n)) = rev n" if "CHR ''.'' \<notin> set n" for e n
  proof -
    have "takeWhile (\<lambda>c. c \<noteq> CHR ''.'') (rev n @ CHR ''.'' # rev e) = rev n"
      using that by (subst takeWhile_append2) auto
    then show ?thesis by (simp add: dapp_key_def)
  qed
  have "rev k = rev k'" using tw [OF assms(1), of d] tw [OF assms(2), of d'] assms(3) by simp
  then show ?thesis using assms(3) by (simp add: dapp_key_def)
qed

lemma split_dot_nonempty [simp]: "split_dot k \<noteq> []"
  by (cases k) auto

lemma split_dot_one: "length (split_dot k) = Suc 0 \<longleftrightarrow> CHR ''.'' \<notin> set k"
proof (induction k)
  case (Cons c k)
  then show ?case by (cases "split_dot k") auto
qed simp

lemma split_dot_two:
  "length (split_dot k) = 2 \<Longrightarrow> k = dapp_key (split_dot k ! 0) (split_dot k ! 1)"
proof (induction k)
  case (Cons c k)
  show ?case
  proof (cases "c = CHR ''.''")
    case True
    then have "length (split_dot k) = Suc 0" using Cons.prems by simp
    moreover from this have "split_dot k = [k]"
    proof (induction k)
      case (Cons a k)
      then show ?case by (cases "split_dot k") (auto split: if_splits)
    qed simp
    ultimately show ?thesis using True by (simp add: dapp_key_def)
  next
    case False
    then have "length (split_dot k) = 2" using Cons.prems
      by (cases "split_dot k") simp_all
    then obtain a b where "split_dot k = [a, b]" by (auto simp: numeral_2_eq_2 length_Suc_conv)
    then show ?thesis using Cons False by (simp add: dapp_key_def)
  qed
qed simp

lemma missing_system_nil:
  "missing_system sys ks = [] \<longleftrightarrow> (\<forall>k\<in>set ks. CHR ''.'' \<in> set k \<or> map_of sys k \<noteq> None)"
proof (induction ks)
  case (Cons k ks)
  then show ?case by (cases "CHR ''.'' \<in> set k"; cases "map_of sys k") (simp_all add: missing_system_def)
qed (simp add: missing_system_def)

definition sub_lookup :: "(string \<times> (string \<times> int) list) list \<Rightarrow> string \<Rightarrow> string \<Rightarrow> int option" where
  "sub_lookup subs d n = (case map_of subs d of None \<Rightarrow> None | Some ks \<Rightarrow> map_of ks n)"

lemma missing_dapp_nil:
  "missing_dapp sub d n = [] \<longleftrightarrow> (\<exists>subs. sub = Some subs \<and> sub_lookup subs d n \<noteq> None)"
  by (auto simp: missing_dapp_def sub_lookup_def Let_def nl_def split: option.splits)

lemma missing_dapps_nil:
  "missing_dapps sub ks = Inr [] \<Longrightarrow>
   \<forall>k\<in>set ks. CHR ''.'' \<in> set k \<longrightarrow>
     (\<exists>d n subs. k = dapp_key d n \<and> sub = Some subs \<and> sub_lookup subs d n \<noteq> None)"
proof (induction ks)
  case (Cons k ks)
  have rest: "missing_dapps sub ks = Inr []"
    using Cons.prems by (auto simp: Let_def split: if_splits sum.splits)
  have this_key: "\<exists>d n subs. k = dapp_key d n \<and> sub = Some subs \<and> sub_lookup subs d n \<noteq> None"
    if "CHR ''.'' \<in> set k"
  proof -
    have len: "length (split_dot k) = 2"
    proof -
      have "length (split_dot k) \<noteq> 1" "\<not> 2 < length (split_dot k)"
        using that Cons.prems split_dot_one [of k] by (simp_all add: Let_def split: if_splits)
      moreover have "0 < length (split_dot k)" by simp
      ultimately show ?thesis by linarith
    qed
    then have "missing_dapp sub (split_dot k ! 0) (split_dot k ! 1) = []"
      using Cons.prems by (simp add: Let_def split: sum.splits)
    then have "\<exists>subs. sub = Some subs \<and> sub_lookup subs (split_dot k ! 0) (split_dot k ! 1) \<noteq> None"
      by (simp only: missing_dapp_nil)
    with split_dot_two [OF len] show ?thesis by blast
  qed
  show ?case using Cons.IH [OF rest] this_key by simp
qed simp


lemma dapp_entries_distinct:
  assumes "distinct (map fst subs)"
    and "\<And>d ks. (d, ks) \<in> set subs \<Longrightarrow> distinct (map fst ks) \<and> (\<forall>k\<in>fst ` set ks. CHR ''.'' \<notin> set k)"
  shows "distinct (map fst (dapp_entries subs))"
  using assms
proof (induction subs)
  case (Cons x subs)
  obtain d ks where x: "x = (d, ks)" by fastforce
  have ks: "distinct (map fst ks)" "\<forall>k\<in>fst ` set ks. CHR ''.'' \<notin> set k" using Cons.prems(2) x by auto
  have here: "map fst (map (\<lambda>(k, v). (dapp_key d k, v)) ks) = map (dapp_key d) (map fst ks)"
    by (induction ks) auto
  have inj: "inj_on (dapp_key d) (set (map fst ks))"
    using ks(2) by (auto simp: inj_on_def dest!: dapp_key_inj [rotated 2])
  have apart: "dapp_key d k \<notin> fst ` set (dapp_entries subs)" if "k \<in> fst ` set ks" for k
  proof
    assume "dapp_key d k \<in> fst ` set (dapp_entries subs)"
    then obtain d' ks' k' where "(d', ks') \<in> set subs" "k' \<in> fst ` set ks'" "dapp_key d k = dapp_key d' k'"
      by (force simp: dapp_entries_def)
    moreover from this have "CHR ''.'' \<notin> set k'" using Cons.prems(2) by auto
    ultimately have "d = d'" "(d', ks') \<in> set subs" using dapp_key_inj ks(2) that by blast+
    then show False using Cons.prems(1) x by force
  qed
  have "distinct (map fst (dapp_entries subs))" using Cons.IH Cons.prems by auto
  moreover have "distinct (map (dapp_key d) (map fst ks))"
    using inj ks(1) by (simp only: distinct_map)
  moreover have "map fst (dapp_entries (x # subs)) = map (dapp_key d) (map fst ks) @ map fst (dapp_entries subs)"
    using here by (simp only: x dapp_entries_simps map_append)
  ultimately show ?case using apart by (auto simp only: distinct_append set_map)
qed simp

lemma map_of_dapp_entries:
  assumes "(d, ks) \<in> set subs" "map_of ks n = Some v" "distinct (map fst (dapp_entries subs))"
  shows "map_of (dapp_entries subs) (dapp_key d n) = Some v"
proof -
  have "(dapp_key d n, v) \<in> set (dapp_entries subs)"
    using assms(1) map_of_SomeD [OF assms(2)] by (force simp: dapp_entries_def)
  then show ?thesis using assms(3) by (rule map_of_is_SomeI [rotated])
qed

lemma initForkConfig_Inr:
  assumes "initForkConfig c fl = Inr c'" "\<not> disableCheckFork c"
  obtains m f2 where "fork_map (cfg_forks c) = Some m"
    "missing_system (System fl) (map fst m) = []" "missing_dapps (Sub fl) (map fst m) = Inr []"
    "set_system (System fl) (cfg_forks c, []) = Inr (f2, [])"
    "set_dapps (sub_list fl) (f2, []) = Inr (cfg_forks c', [])"
proof -
  obtain m where m: "fork_map (cfg_forks c) = Some m"
    using assms(1) by (auto simp: initForkConfig_def split: option.splits)
  obtain s1 where s1: "missing_dapps (Sub fl) (map fst m) = Inr s1"
    using assms(1) by (auto simp: initForkConfig_def m Let_def split: sum.splits)
  let ?s = "missing_system (System fl) (map fst m) @ s1"
  obtain f2 s2 where f2: "set_system (System fl) (cfg_forks c, ?s) = Inr (f2, s2)"
    using assms(1) by (auto simp: initForkConfig_def m s1 Let_def split: sum.splits)
  obtain f3 s3 where f3: "set_dapps (sub_list fl) (f2, s2) = Inr (f3, s3)"
    using assms(1) by (auto simp: initForkConfig_def m s1 f2 Let_def split: sum.splits)
  have fin: "s3 = []" "cfg_forks c' = f3"
    using assms by (auto simp: initForkConfig_def m s1 f2 f3 Let_def split: if_splits)
  then have "s2 = []" using set_dapps_Inr [OF f3] by simp
  moreover from this have "?s = []" using set_system_Inr [OF f2] by simp
  ultimately show ?thesis using that [OF m] s1 f2 f3 fin by simp
qed


definition demo_cfg :: OmnilinkConfig where
  "demo_cfg = \<lparr>title = ''bityuan'', cfg_forks = \<lparr>fork_map = Some [(''F'', 5), (''evm.V1'', 7)]\<rparr>,
     flags = [(''TxHeight'', True)], chainID = 3, mcfg = None, disableCheckFork = False, AllowUserExec = []\<rparr>"

definition demo_fork_file :: ForkList where
  "demo_fork_file = \<lparr>System = [(''F'', 30)], Sub = Some [(''evm'', [(''V1'', - 1)])]\<rparr>"

lemma demo_init:
  "initForkConfig demo_cfg demo_fork_file =
   Inr (demo_cfg\<lparr>cfg_forks := \<lparr>fork_map = Some [(''F'', 30), (''evm.V1'', MaxHeight)]\<rparr>,
     AllowUserExec := [''none'', ''evm'']\<rparr>)"
  by code_simp


section \<open>The local chain\<close>

lemma RegisterSystemFork_table:
  "RegisterSystemFork \<lparr>fork_map = None\<rparr> = Inr \<lparr>fork_map = Some (system_forks @ system_forks_unchecked)\<rparr>"
  by code_simp

lemma map_of_SetAllFork:
  "map_of (fork_list (SetAllFork f h)) k = map_option (\<lambda>_. h) (map_of (fork_list f) k)"
proof -
  have "map_of (map (\<lambda>(k, _). (k, h)) m) k = map_option (\<lambda>_. h) (map_of m k)" for m :: "(string \<times> int) list"
    by (induction m) auto
  then show ?thesis by (simp add: SetAllFork_def fork_list_def split: option.splits)
qed

lemma setLocalFork_spec:
  assumes "HasFork f ''ForkBlockHash''" "HasFork f ''ForkRootHash''"
  shows "\<exists>f'. setLocalFork f = Inr f' \<and>
    (\<forall>k. HasFork f k \<longrightarrow> GetFork f' k = (if k \<in> {''ForkBlockHash'', ''ForkRootHash''} then 1 else 0))"
proof -
  let ?g = "setFork (SetAllFork f 0) ''ForkBlockHash'' 1"
  have "replaceFork (SetAllFork f 0) ''ForkBlockHash'' 1 = Inr ?g"
    using assms(1) by (auto simp: replaceFork_def setFork_def map_of_SetAllFork HasFork_def)
  moreover have "replaceFork ?g ''ForkRootHash'' 1 = Inr (setFork ?g ''ForkRootHash'' 1)"
    using assms(2) by (auto simp: replaceFork_def setFork_def [of ?g] map_of_setFork map_of_SetAllFork HasFork_def)
  ultimately have "setLocalFork f = Inr (setFork ?g ''ForkRootHash'' 1)"
    by (simp add: setLocalFork_def ReplaceFork_def checkKey_def)
  moreover have "GetFork (setFork ?g ''ForkRootHash'' 1) k = (if k \<in> {''ForkBlockHash'', ''ForkRootHash''} then 1 else 0)"
    if "HasFork f k" for k
    using that by (auto simp: GetFork_def map_of_setFork map_of_SetAllFork HasFork_def)
  ultimately show ?thesis by blast
qed

text \<open>
  Registering the forks of the system never panics, and the local chain has every one of them
  in force from height 1 on: at height 0 all but the new block hash and the new root hash.
\<close>

theorem setLocalFork_in_force:
  "\<exists>f f'. RegisterSystemFork \<lparr>fork_map = None\<rparr> = Inr f \<and> setLocalFork f = Inr f' \<and>
     {k. HasFork f k \<and> \<not> IsFork f' 0 k} = {''ForkBlockHash'', ''ForkRootHash''} \<and>
     (\<forall>h. {k. HasFork f k \<and> \<not> IsFork f' (max 1 h) k} = {})"
proof -
  let ?f = "\<lparr>fork_map = Some (system_forks @ system_forks_unchecked)\<rparr>"
  have two: "HasFork ?f ''ForkBlockHash''" "HasFork ?f ''ForkRootHash''" by code_simp+
  obtain f' where f': "setLocalFork ?f = Inr f'"
    "\<And>k. HasFork ?f k \<Longrightarrow> GetFork f' k = (if k \<in> {''ForkBlockHash'', ''ForkRootHash''} then 1 else 0)"
    using setLocalFork_spec [OF two] by blast
  have "{k. HasFork ?f k \<and> \<not> IsFork f' 0 k} = {''ForkBlockHash'', ''ForkRootHash''}"
    using f'(2) two by (auto simp: IsFork_def split: if_splits)
  moreover have "{k. HasFork ?f k \<and> \<not> IsFork f' (max 1 h) k} = {}" for h
    using f'(2) by (auto simp: IsFork_def)
  ultimately show ?thesis using RegisterSystemFork_table f'(1) by blast
qed

end
