(* ===== verification/Merkle.thy ===== *)
theory Merkle
  imports Forks
begin

text \<open>
  Package \<^verbatim>\<open>common/merkle\<close>: the root of a list of hashes level by level
  (\<^verbatim>\<open>getMerkleRoot\<close>), in parallel chunks (\<^verbatim>\<open>GetMerkleRoot\<close>), and the root of a
  block's transactions, with one subtree per parallel chain after \<^verbatim>\<open>ForkRootHash\<close>.
  SHA-256, the number of processors and the order in which goroutines finish are
  parameters. The Go code reuses the slice of hashes it is given; the model returns new lists.
\<close>

section \<open>Pairs of hashes\<close>

text \<open>
  A hash is a Go slice: \<open>None\<close> is nil. \<open>go_copy dst src\<close> is \<^verbatim>\<open>copy\<close>.
  \<^verbatim>\<open>GetHashFromTwoHash\<close> writes into a 64-byte buffer that its callers reuse, so it
  returns the buffer too; \<open>sha\<close> stands for \<^verbatim>\<open>common.Sha2Sum\<close>.
\<close>

type_synonym ghash = "bytes option"

definition go_copy :: "'a list \<Rightarrow> 'a list \<Rightarrow> 'a list" where
  "go_copy dst src = take (length dst) src @ drop (length src) dst"

definition GetHashFromTwoHash ::
  "(bytes \<Rightarrow> bytes) \<Rightarrow> bytes \<Rightarrow> ghash \<Rightarrow> ghash \<Rightarrow> ghash \<times> bytes" where
  "GetHashFromTwoHash sha parent left right =
     (case (left, right) of
        (Some l, Some r) \<Rightarrow>
          let p1 = go_copy parent l;
              p2 = take 32 p1 @ go_copy (drop 32 p1) r
          in (Some (sha p2), p2)
      | _ \<Rightarrow> (None, parent))"

section \<open>The root, level by level\<close>

text \<open>One pass of the inner loop of \<^verbatim>\<open>getMerkleRoot\<close> over an even number of hashes.\<close>

fun merkle_pass :: "(bytes \<Rightarrow> bytes) \<Rightarrow> bytes \<Rightarrow> ghash list \<Rightarrow> ghash list \<times> bytes" where
  "merkle_pass sha cache (a # b # hs) =
     (let (h, cache1) = GetHashFromTwoHash sha cache a b;
          (rest, cache2) = merkle_pass sha cache1 hs
      in (h # rest, cache2))"
| "merkle_pass sha cache _ = ([], cache)"

lemma length_merkle_pass [simp]: "length (fst (merkle_pass sha cache hs)) = length hs div 2"
  by (induction sha cache hs rule: merkle_pass.induct) (auto simp: Let_def split: prod.splits)

lemma half_up_less: "Suc 0 < n \<Longrightarrow> odd n \<Longrightarrow> Suc (n div 2) < (n :: nat)"
  by presburger

function getMerkleRoot_loop :: "(bytes \<Rightarrow> bytes) \<Rightarrow> bytes \<Rightarrow> ghash list \<Rightarrow> ghash list" where
  "getMerkleRoot_loop sha cache hashes =
     (if length hashes > 1 then
        let hashes1 = (if odd (length hashes) then hashes @ [last hashes] else hashes);
            (hashes2, cache') = merkle_pass sha cache hashes1
        in getMerkleRoot_loop sha cache' hashes2
      else hashes)"
  by pat_completeness auto
termination
proof (relation "measure (\<lambda>(sha, cache, hs). length hs)")
  fix sha cache hashes hashes1 and x :: "ghash list \<times> bytes" and hashes2 cache'
  assume *: "1 < length hashes" "hashes1 = (if odd (length hashes) then hashes @ [last hashes] else hashes)"
    "x = merkle_pass sha cache hashes1" "(hashes2, cache') = x"
  then have "length hashes2 = length hashes1 div 2" using length_merkle_pass by (metis fst_conv)
  with * show "((sha, cache', hashes2), (sha, cache, hashes)) \<in> measure (\<lambda>(sha, cache, hs). length hs)"
    by (auto simp: half_up_less)
qed simp

declare getMerkleRoot_loop.simps [simp del]

definition getMerkleRoot :: "(bytes \<Rightarrow> bytes) \<Rightarrow> ghash list \<Rightarrow> ghash" where
  "getMerkleRoot sha hashes =
     (case getMerkleRoot_loop sha (replicate 64 0) hashes of [] \<Rightarrow> None | h # _ \<Rightarrow> h)"

section \<open>Levels\<close>

function log2_loop :: "nat \<Rightarrow> nat \<Rightarrow> nat" where
  "log2_loop data level =
     (let data = data div 2 in if data \<le> 1 then level else log2_loop data (level + 1))"
  by pat_completeness auto
termination by (relation "measure fst") auto

declare log2_loop.simps [simp del]

definition log2 :: "nat \<Rightarrow> nat" where
  "log2 data = (if data \<le> 0 then 0 else log2_loop data 1)"

fun pow2_loop :: "nat \<Rightarrow> nat \<Rightarrow> nat" where
  "pow2_loop 0 p = p"
| "pow2_loop (Suc i) p = pow2_loop i (p * 2)"

definition pow2 :: "nat \<Rightarrow> nat" where
  "pow2 d = (if d \<le> 0 then 1 else pow2_loop d 1)"

function calcLevel_loop :: "nat \<Rightarrow> nat \<Rightarrow> nat" where
  "calcLevel_loop n level =
     (if n > 1 then calcLevel_loop ((if odd n then n + 1 else n) div 2) (level + 1) else level)"
  by pat_completeness auto
termination by (relation "measure fst") (auto simp: half_up_less)

declare calcLevel_loop.simps [simp del]

definition calcLevel :: "nat \<Rightarrow> nat" where
  "calcLevel n = (if n = 1 then 1 else calcLevel_loop n 0)"

fun pad_loop :: "(bytes \<Rightarrow> bytes) \<Rightarrow> bytes \<Rightarrow> ghash \<Rightarrow> nat \<Rightarrow> ghash" where
  "pad_loop sha cache root 0 = root"
| "pad_loop sha cache root (Suc i) =
     (let (root', cache') = GetHashFromTwoHash sha cache root root in pad_loop sha cache' root' i)"

definition getMerkleRootPad :: "(bytes \<Rightarrow> bytes) \<Rightarrow> ghash list \<Rightarrow> nat \<Rightarrow> ghash" where
  "getMerkleRootPad sha hashes step =
     (let level1 = calcLevel (length hashes);
          level2 = log2 step;
          cache = replicate 64 0;
          (root, cache) =
            (if length hashes = 1 then GetHashFromTwoHash sha cache (hashes ! 0) (hashes ! 0)
             else (getMerkleRoot sha hashes, cache))
      in pad_loop sha cache root (level2 - level1))"

section \<open>The parallel root\<close>

text \<open>
  \<open>ncpu\<close> is \<^verbatim>\<open>runtime.NumCPU()\<close>. Each chunk's root is computed by its own goroutine
  and sent with its index; \<open>arrival\<close> is the order in which the results arrive.
\<close>

definition chunk_step :: "nat \<Rightarrow> nat \<Rightarrow> nat" where
  "chunk_step ncpu n =
     (let step = log2 (n div ncpu);
          step = (if step < 1 then 1 else step);
          step = pow2 step
      in if step > 256 then 256 else step)"

definition chunk_count :: "nat \<Rightarrow> nat \<Rightarrow> nat" where
  "chunk_count n step = (if n mod step \<noteq> 0 then n div step + 1 else n div step)"

definition chunk_of :: "'a list \<Rightarrow> nat \<Rightarrow> nat \<Rightarrow> 'a list" where
  "chunk_of hashes step i =
     (let end1 = (i + 1) * step;
          end1 = (if end1 > length hashes then length hashes else end1)
      in take (end1 - i * step) (drop (i * step) hashes))"

definition chunk_root :: "(bytes \<Rightarrow> bytes) \<Rightarrow> nat \<Rightarrow> ghash list \<Rightarrow> ghash" where
  "chunk_root sha step h =
     (if length h \<noteq> step then getMerkleRootPad sha h step else getMerkleRoot sha h)"

definition collect_children :: "nat \<Rightarrow> (nat \<Rightarrow> ghash) \<Rightarrow> nat list \<Rightarrow> ghash list" where
  "collect_children l sub arrival =
     foldl (\<lambda>childlist index. childlist[index := sub index]) (replicate l None) arrival"

definition GetMerkleRoot ::
  "(bytes \<Rightarrow> bytes) \<Rightarrow> nat \<Rightarrow> nat list \<Rightarrow> ghash list \<Rightarrow> ghash" where
  "GetMerkleRoot sha ncpu arrival hashes =
     (if length hashes \<le> 80 \<or> ncpu \<le> 1 then getMerkleRoot sha hashes
      else
        let step = chunk_step ncpu (length hashes);
            l = chunk_count (length hashes) step
        in getMerkleRoot sha
             (collect_children l (\<lambda>i. chunk_root sha step (chunk_of hashes step i)) arrival))"

section \<open>The root of a block's transactions\<close>

record merkle_env =
  Sha2Sum :: "bytes \<Rightarrow> bytes"
  NumCPU :: nat
  arrivals :: "nat \<Rightarrow> nat list"

definition merkle_root :: "merkle_env \<Rightarrow> ghash list \<Rightarrow> ghash" where
  "merkle_root env hashes =
     GetMerkleRoot (Sha2Sum env) (NumCPU env)
       (arrivals env (chunk_count (length hashes) (chunk_step (NumCPU env) (length hashes)))) hashes"

definition zeroHash :: bytes where "zeroHash = replicate 32 0"

text \<open>
  \<^verbatim>\<open>calcMerkleRoot\<close>, \<^verbatim>\<open>calcSingleLayerMerkleRoot\<close> and
  \<^verbatim>\<open>CalcMerkleRootCache\<close> differ in the hash they take of a transaction, \<open>txhash\<close>.
\<close>

definition calcMerkleRoot :: "merkle_env \<Rightarrow> ('tx \<Rightarrow> bytes) \<Rightarrow> 'tx list \<Rightarrow> go_error + bytes" where
  "calcMerkleRoot env txhash txs =
     (if txs = [] then Inr zeroHash
      else case merkle_root env (map (\<lambda>tx. Some (txhash tx)) txs) of
        None \<Rightarrow> Inl GoPanic
      | Some root \<Rightarrow> Inr root)"

record childchain =
  Title :: string
  StartIndex :: int
  ChildHash :: ghash
  TxCount :: int

definition new_child :: "string \<Rightarrow> int \<Rightarrow> childchain" where
  "new_child t i = \<lparr>Title = t, StartIndex = i, ChildHash = None, TxCount = 0\<rparr>"

fun find_chains :: "('tx \<Rightarrow> string) \<Rightarrow> nat \<Rightarrow> string \<Rightarrow> 'tx list \<Rightarrow> childchain list" where
  "find_chains execer i fristParaTitle [] = []"
| "find_chains execer i fristParaTitle (tx # txs) =
     (case GetParaExecTitleName (execer tx) of
        None \<Rightarrow>
          (if i = 0 then new_child MainChainName 0 # find_chains execer (Suc i) fristParaTitle txs
           else find_chains execer (Suc i) fristParaTitle txs)
      | Some paraTitle \<Rightarrow>
          (if length fristParaTitle = 0 \<or> paraTitle \<noteq> fristParaTitle
           then new_child paraTitle (i32 (int i)) # find_chains execer (Suc i) paraTitle txs
           else find_chains execer (Suc i) fristParaTitle txs))"

fun set_counts :: "nat \<Rightarrow> childchain list \<Rightarrow> childchain list" where
  "set_counts txsCount [] = []"
| "set_counts txsCount [c] = [c\<lparr>TxCount := i32 (i32 (int txsCount) - StartIndex c)\<rparr>]"
| "set_counts txsCount (c # d # cs) =
     c\<lparr>TxCount := i32 (StartIndex d - StartIndex c)\<rparr> # set_counts txsCount (d # cs)"

definition sub_txs :: "'tx list \<Rightarrow> childchain \<Rightarrow> 'tx list" where
  "sub_txs txs c = take (nat (TxCount c)) (drop (nat (StartIndex c)) txs)"

fun child_roots ::
  "merkle_env \<Rightarrow> ('tx \<Rightarrow> bytes) \<Rightarrow> 'tx list \<Rightarrow> childchain list \<Rightarrow> go_error + childchain list" where
  "child_roots env fullhash txs [] = Inr []"
| "child_roots env fullhash txs (c # cs) =
     (case calcMerkleRoot env fullhash (sub_txs txs c) of
        Inl e \<Rightarrow> Inl e
      | Inr h \<Rightarrow>
          (case child_roots env fullhash txs cs of
             Inl e \<Rightarrow> Inl e
           | Inr cs' \<Rightarrow> Inr (c\<lparr>ChildHash := Some h\<rparr> # cs')))"

definition calcMultiLayerMerkleInfo ::
  "merkle_env \<Rightarrow> ('tx \<Rightarrow> string) \<Rightarrow> ('tx \<Rightarrow> bytes) \<Rightarrow> 'tx list \<Rightarrow> go_error + (bytes \<times> childchain list)" where
  "calcMultiLayerMerkleInfo env execer fullhash txs =
     (if length txs = 0 then Inr (zeroHash, [])
      else
        let childchains = find_chains execer 0 [] txs in
        if length childchains \<le> 1 then
          (case calcMerkleRoot env fullhash txs of
             Inl e \<Rightarrow> Inl e
           | Inr root \<Rightarrow>
               (case childchains of
                  [] \<Rightarrow> Inl GoPanic
                | c # cs \<Rightarrow>
                    Inr (root, c\<lparr>ChildHash := Some root, TxCount := i32 (int (length txs))\<rparr> # cs)))
        else
          (case child_roots env fullhash txs (set_counts (length txs) childchains) of
             Inl e \<Rightarrow> Inl e
           | Inr cchains \<Rightarrow>
               (case merkle_root env (map ChildHash cchains) of
                  None \<Rightarrow> Inl GoPanic
                | Some root \<Rightarrow> Inr (root, cchains))))"

definition CalcMerkleRoot ::
  "merkle_env \<Rightarrow> bool \<Rightarrow> ('tx \<Rightarrow> string) \<Rightarrow> ('tx \<Rightarrow> bytes) \<Rightarrow> ('tx \<Rightarrow> bytes) \<Rightarrow> 'tx list \<Rightarrow> go_error + bytes" where
  "CalcMerkleRoot env forkRootHash execer txhash fullhash txs =
     (if \<not> forkRootHash then calcMerkleRoot env txhash txs
      else case calcMultiLayerMerkleInfo env execer fullhash txs of
        Inl e \<Rightarrow> Inl e
      | Inr (root, _) \<Rightarrow> Inr root)"

definition CalcMultiLayerMerkleInfo ::
  "merkle_env \<Rightarrow> bool \<Rightarrow> ('tx \<Rightarrow> string) \<Rightarrow> ('tx \<Rightarrow> bytes) \<Rightarrow> 'tx list \<Rightarrow> (go_error + (bytes \<times> childchain list)) option" where
  "CalcMultiLayerMerkleInfo env forkRootHash execer fullhash txs =
     (if \<not> forkRootHash then None else Some (calcMultiLayerMerkleInfo env execer fullhash txs))"

end
