(* ===== verification/Merkle_Theorems.thy ===== *)
theory Merkle_Theorems
  imports Merkle
begin

text \<open>
  The root of \<open>Merkle\<close> as a function of the plain hashes: \<open>mpairs\<close> is one level of the
  tree, \<open>mfinal\<close> the last one, and \<open>levels k\<close> the \<open>k\<close>-th; a chunk of \<open>2 ^ k\<close> hashes is
  one node of level \<open>k\<close>, which makes the parallel computation agree with the sequential one.
\<close>

section \<open>The tree of hashes\<close>

fun mpairs :: "('a \<Rightarrow> 'a \<Rightarrow> 'a) \<Rightarrow> 'a list \<Rightarrow> 'a list" where
  "mpairs H (a # b # xs) = H a b # mpairs H xs"
| "mpairs H [a] = [H a a]"
| "mpairs H [] = []"

lemma length_mpairs [simp]: "length (mpairs H xs) = (length xs + 1) div 2"
  by (induction H xs rule: mpairs.induct) auto

function mfinal :: "('a \<Rightarrow> 'a \<Rightarrow> 'a) \<Rightarrow> 'a list \<Rightarrow> 'a list" where
  "mfinal H xs = (if length xs > 1 then mfinal H (mpairs H xs) else xs)"
  by pat_completeness auto
termination by (relation "measure (\<lambda>(H, xs). length xs)") auto

declare mfinal.simps [simp del]

abbreviation node :: "(bytes \<Rightarrow> bytes) \<Rightarrow> bytes \<Rightarrow> bytes \<Rightarrow> bytes" where
  "node sha l r \<equiv> sha (l @ r)"

definition hash_size :: "(bytes \<Rightarrow> bytes) \<Rightarrow> bool" where
  "hash_size sha \<longleftrightarrow> (\<forall>x. length (sha x) = 32)"

lemma GetHashFromTwoHash_node:
  assumes "length cache = 64" "length l = 32" "length r = 32"
  shows "GetHashFromTwoHash sha cache (Some l) (Some r) = (Some (node sha l r), l @ r)"
  using assms by (simp add: GetHashFromTwoHash_def go_copy_def Let_def)

lemma mpairs_size: "hash_size sha \<Longrightarrow> h \<in> set (mpairs (node sha) hs) \<Longrightarrow> length h = 32"
  by (induction "node sha" hs rule: mpairs.induct) (auto simp: hash_size_def)

lemma merkle_pass_node:
  assumes "hash_size sha" "length cache = 64" "\<forall>h\<in>set hs. length h = 32" "even (length hs)"
  shows "\<exists>c. merkle_pass sha cache (map Some hs) = (map Some (mpairs (node sha) hs), c) \<and> length c = 64"
  using assms(2-4)
proof (induction "node sha" hs arbitrary: cache rule: mpairs.induct)
  case (1 a b xs)
  then have "length (a @ b) = 64" "\<forall>h\<in>set xs. length h = 32" "even (length xs)" by simp_all
  from "1.hyps" [OF this] obtain c where
    "merkle_pass sha (a @ b) (map Some xs) = (map Some (mpairs (node sha) xs), c)" "length c = 64" by blast
  with 1 show ?case by (simp add: GetHashFromTwoHash_node)
qed simp_all

lemma mpairs_snoc_last: "odd (length xs) \<Longrightarrow> mpairs H (xs @ [last xs]) = mpairs H xs"
  by (induction H xs rule: mpairs.induct) auto

lemma getMerkleRoot_loop_node:
  assumes "hash_size sha" "length cache = 64" "\<forall>h\<in>set hs. length h = 32"
  shows "getMerkleRoot_loop sha cache (map Some hs) = map Some (mfinal (node sha) hs)"
  using assms(2,3)
proof (induction hs arbitrary: cache rule: length_induct)
  case (1 hs)
  show ?case
  proof (cases "length hs > 1")
    case True
    define hs1 where "hs1 = (if odd (length hs) then hs @ [last hs] else hs)"
    have ne: "hs \<noteq> []" using True by auto
    have m: "(if odd (length (map Some hs)) then map Some hs @ [last (map Some hs)] else map Some hs) = map Some hs1"
      using ne by (simp add: hs1_def last_map)
    have "even (length hs1)" "\<forall>h\<in>set hs1. length h = 32" using "1.prems" ne by (auto simp: hs1_def)
    with merkle_pass_node [OF assms(1) "1.prems"(1), of hs1] obtain c where
      c: "merkle_pass sha cache (map Some hs1) = (map Some (mpairs (node sha) hs1), c)" "length c = 64" by blast
    have same: "mpairs (node sha) hs1 = mpairs (node sha) hs" by (simp add: hs1_def mpairs_snoc_last)
    have "length (mpairs (node sha) hs) < length hs" using True by simp
    moreover have "\<forall>h\<in>set (mpairs (node sha) hs). length h = 32" using assms(1) mpairs_size by blast
    ultimately have "getMerkleRoot_loop sha c (map Some (mpairs (node sha) hs)) =
        map Some (mfinal (node sha) (mpairs (node sha) hs))" using "1.IH" c(2) by blast
    with True c(1) show ?thesis
      by (simp add: getMerkleRoot_loop.simps [of sha cache] mfinal.simps [of _ hs] m [simplified] same)
  next
    case False
    then show ?thesis by (simp add: getMerkleRoot_loop.simps [of sha cache] mfinal.simps [of _ hs])
  qed
qed

lemma getMerkleRoot_node:
  assumes "hash_size sha" "\<forall>h\<in>set hs. length h = 32"
  shows "getMerkleRoot sha (map Some hs) = (case mfinal (node sha) hs of [] \<Rightarrow> None | h # _ \<Rightarrow> Some h)"
  using getMerkleRoot_loop_node [OF assms(1) _ assms(2), of "replicate 64 0"]
  by (simp add: getMerkleRoot_def split: list.splits)

section \<open>Levels and chunks\<close>

abbreviation levels :: "('a \<Rightarrow> 'a \<Rightarrow> 'a) \<Rightarrow> nat \<Rightarrow> 'a list \<Rightarrow> 'a list" where
  "levels H k \<equiv> mpairs H ^^ k"

lemma levels_Suc: "levels H (Suc k) xs = levels H k (mpairs H xs)"
  by (simp only: funpow_Suc_right o_apply)

lemma mpairs_append: "even (length xs) \<Longrightarrow> mpairs H (xs @ ys) = mpairs H xs @ mpairs H ys"
  by (induction H xs rule: mpairs.induct) auto

lemma levels_append: "2 ^ k dvd length xs \<Longrightarrow> levels H k (xs @ ys) = levels H k xs @ levels H k ys"
proof (induction k arbitrary: xs ys)
  case (Suc k)
  then obtain m where m: "length xs = 2 * (2 ^ k * m)" by auto
  then have "2 ^ k dvd length (mpairs H xs)" "even (length xs)" by simp_all
  with Suc.IH show ?case by (simp add: levels_Suc mpairs_append del: funpow.simps)
qed simp

lemma levels_single: "0 < length xs \<Longrightarrow> length xs \<le> 2 ^ k \<Longrightarrow> length (levels H k xs) = 1"
proof (induction k arbitrary: xs)
  case (Suc k)
  then have "0 < length (mpairs H xs)" "length (mpairs H xs) \<le> 2 ^ k" by auto
  from Suc.IH [OF this] show ?case by (simp only: levels_Suc)
next
  case 0
  then show ?case by (cases xs) auto
qed

lemma mfinal_levels: "2 ^ k < length xs \<Longrightarrow> mfinal H (levels H k xs) = mfinal H xs"
proof (induction k arbitrary: xs)
  case (Suc k)
  have "1 \<le> (2 :: nat) ^ k" by simp
  then have "2 ^ k < length (mpairs H xs)" "1 < length xs"
    using Suc.prems by (simp, simp only: power_Suc)
  with Suc.IH show ?case by (simp add: levels_Suc mfinal.simps [of H xs] del: funpow.simps)
qed simp

lemma levels_singleton: "levels H k [r] = [((\<lambda>x. H x x) ^^ k) r]"
  by (induction k) simp_all

lemma calcLevel_loop_add: "calcLevel_loop n l = calcLevel_loop n 0 + l"
proof (induction n arbitrary: l rule: less_induct)
  case (less n)
  show ?case
  proof (cases "n > 1")
    case True
    then have "(if odd n then n + 1 else n) div 2 < n" by (auto simp: half_up_less)
    from less.IH [OF this, of "l + 1"] less.IH [OF this, of 1] True show ?thesis
      by (simp add: calcLevel_loop.simps [of n])
  qed (simp add: calcLevel_loop.simps [of n])
qed

lemma calcLevel_loop_rec: "n > 1 \<Longrightarrow> calcLevel_loop n 0 = Suc (calcLevel_loop ((n + 1) div 2) 0)"
  using calcLevel_loop_add [of "(n + 1) div 2" 1]
  by (subst calcLevel_loop.simps) (auto elim: evenE)

lemma calcLevel_loop_pow: "calcLevel_loop (2 ^ k) 0 = k"
proof (induction k)
  case (Suc k)
  have "(2 ^ Suc k + 1) div 2 = (2 ^ k :: nat)" "1 < (2 ^ Suc k :: nat)"
    by (simp, rule one_less_power) simp_all
  with Suc calcLevel_loop_rec [of "2 ^ Suc k"] show ?case by simp
qed (simp add: calcLevel_loop.simps)

lemma calcLevel_loop_le: "n \<le> 2 ^ k \<Longrightarrow> calcLevel_loop n 0 \<le> k"
proof (induction k arbitrary: n)
  case (Suc k)
  show ?case
  proof (cases "n > 1")
    case True
    from Suc.prems have "(n + 1) div 2 \<le> 2 ^ k" by simp
    from Suc.IH [OF this] True show ?thesis by (simp add: calcLevel_loop_rec)
  qed (simp add: calcLevel_loop.simps)
qed (simp add: calcLevel_loop.simps)

lemma levels_mfinal:
  assumes "0 < length xs" "length xs \<le> 2 ^ k"
  shows "\<exists>r. mfinal H xs = [r] \<and> levels H k xs = [((\<lambda>x. H x x) ^^ (k - calcLevel_loop (length xs) 0)) r]"
  using assms
proof (induction k arbitrary: xs)
  case 0
  then obtain r where "xs = [r]" by (cases xs) auto
  then show ?case by (simp add: mfinal.simps calcLevel_loop.simps)
next
  case (Suc k)
  show ?case
  proof (cases "length xs > 1")
    case True
    then have "0 < length (mpairs H xs)" "length (mpairs H xs) \<le> 2 ^ k" using Suc.prems by auto
    from Suc.IH [OF this] True show ?thesis
      by (simp add: levels_Suc mfinal.simps [of H xs] calcLevel_loop_rec del: funpow.simps)
  next
    case False
    with Suc.prems obtain r where "xs = [r]" by (cases xs) auto
    then show ?thesis by (simp add: mfinal.simps calcLevel_loop.simps levels_singleton del: funpow.simps)
  qed
qed

lemma chunk_of_0: "chunk_of xs s 0 = take s xs"
  by (simp add: chunk_of_def Let_def)

lemma chunk_of_Suc: "s \<le> length xs \<Longrightarrow> chunk_of xs s (Suc i) = chunk_of (drop s xs) s i"
proof -
  assume s: "s \<le> length xs"
  have "(Suc i + 1) * s > length xs \<longleftrightarrow> (i + 1) * s > length xs - s" using s by auto
  then show ?thesis using s by (auto simp: chunk_of_def Let_def add.commute)
qed

lemma chunk_count_small: "0 < n \<Longrightarrow> n \<le> s \<Longrightarrow> chunk_count n s = 1"
  by (cases "n = s") (simp_all add: chunk_count_def)

lemma chunk_count_Suc: "0 < s \<Longrightarrow> s \<le> n \<Longrightarrow> chunk_count n s = Suc (chunk_count (n - s) s)"
  by (simp add: chunk_count_def le_div_geq le_mod_geq)

lemma chunk_of_length:
  assumes "0 < s" "i < chunk_count (length xs) s"
  shows "0 < length (chunk_of xs s i)" "length (chunk_of xs s i) \<le> s"
proof -
  have "i * s < length xs"
  proof (cases "i < length xs div s")
    case True
    then have "(i + 1) * s \<le> length xs"
      by (metis Suc_eq_plus1 Suc_leI div_times_less_eq_dividend le_trans mult_le_mono1)
    then show ?thesis using assms(1) by simp
  next
    case False
    with assms have "i = length xs div s" "length xs mod s \<noteq> 0"
      by (auto simp: chunk_count_def split: if_splits)
    then show ?thesis by (metis div_times_less_eq_dividend le_neq_implies_less mod_mult_self2_is_0 mult.commute)
  qed
  then show "0 < length (chunk_of xs s i)" "length (chunk_of xs s i) \<le> s"
    using assms by (auto simp: chunk_of_def Let_def chunk_count_def split: if_splits)
qed

lemma levels_chunks:
  assumes "xs \<noteq> []"
  shows "levels H k xs = map (\<lambda>i. hd (levels H k (chunk_of xs (2 ^ k) i))) [0..<chunk_count (length xs) (2 ^ k)]"
  using assms
proof (induction xs rule: length_induct)
  case (1 xs)
  let ?s = "2 ^ k :: nat"
  show ?case
  proof (cases "length xs \<le> ?s")
    case True
    then have "length (levels H k xs) = 1" using "1.prems" by (intro levels_single) auto
    then have "levels H k xs = [hd (levels H k xs)]" by (cases "levels H k xs") auto
    then show ?thesis using True "1.prems" by (simp add: chunk_count_small chunk_of_0)
  next
    case False
    let ?t = "take ?s xs" and ?d = "drop ?s xs"
    have "?d \<noteq> []" "length ?d < length xs" using False "1.prems" by (simp_all add: diff_less)
    with "1.IH" have ih: "levels H k ?d =
        map (\<lambda>i. hd (levels H k (chunk_of ?d ?s i))) [0..<chunk_count (length ?d) ?s]" by blast
    have lt: "length ?t = ?s" using False by simp
    then have "length (levels H k ?t) = 1" by (intro levels_single) simp_all
    then have one: "levels H k ?t = [hd (levels H k ?t)]" by (cases "levels H k ?t") auto
    have "levels H k xs = levels H k ?t @ levels H k ?d"
      using levels_append [of k ?t H ?d] lt by simp
    also have "\<dots> = hd (levels H k (chunk_of xs ?s 0)) #
        map (\<lambda>i. hd (levels H k (chunk_of xs ?s (Suc i)))) [0..<chunk_count (length ?d) ?s]"
      using False one ih by (simp add: chunk_of_0 chunk_of_Suc)
    also have "\<dots> = map (\<lambda>i. hd (levels H k (chunk_of xs ?s i))) [0..<Suc (chunk_count (length ?d) ?s)]"
      by (simp only: map_upt_Suc)
    finally show ?thesis using False by (simp add: chunk_count_Suc)
  qed
qed

section \<open>The padded root of a chunk\<close>

lemma pow2_loop_eq: "pow2_loop i p = p * 2 ^ i"
  by (induction i p rule: pow2_loop.induct) simp_all

lemma pow2_eq: "pow2 d = 2 ^ d"
  by (simp add: pow2_def pow2_loop_eq)

lemma log2_loop_pow: "log2_loop (2 ^ Suc k) l = l + k"
proof (induction k arbitrary: l)
  case (Suc k)
  have "1 < (2 :: nat) ^ Suc k" by (rule one_less_power) simp_all
  then have "\<not> (2 ^ Suc (Suc k) div 2 \<le> (1 :: nat))" by simp
  with Suc.IH [of "l + 1"] show ?case by (subst log2_loop.simps) (simp add: Let_def)
qed (simp add: log2_loop.simps)

lemma log2_pow: "log2 (2 ^ Suc k) = Suc k"
  using log2_loop_pow [of k 1] by (simp add: log2_def)

lemma log2_loop_bound: "1 < n \<Longrightarrow> l < log2_loop n (Suc l) \<and> 2 ^ log2_loop n (Suc l) \<le> 2 ^ l * n"
proof (induction n arbitrary: l rule: less_induct)
  case (less n)
  show ?case
  proof (cases "n div 2 \<le> 1")
    case True
    then show ?thesis using less.prems by (simp add: log2_loop.simps [of n])
  next
    case False
    then have "l + 1 < log2_loop (n div 2) (Suc (l + 1)) \<and>
        2 ^ log2_loop (n div 2) (Suc (l + 1)) \<le> 2 ^ (l + 1) * (n div 2)"
      using less.prems by (intro less.IH) auto
    moreover have "2 ^ (l + 1) * (n div 2) \<le> 2 ^ l * n"
      using mult_le_mono2 [of "2 * (n div 2)" n "2 ^ l"] by (simp add: mult.left_commute)
    ultimately have "l < log2_loop (n div 2) (Suc (l + 1)) \<and> 2 ^ log2_loop (n div 2) (Suc (l + 1)) \<le> 2 ^ l * n"
      by (meson add_lessD1 le_trans)
    then show ?thesis using False by (simp add: log2_loop.simps [of n] Let_def)
  qed
qed

lemma log2_bound: "2 ^ (if log2 n < 1 then 1 else log2 n) \<le> max 2 n"
proof (cases "n > 1")
  case True
  then show ?thesis using log2_loop_bound [of n 0] by (simp add: log2_def)
next
  case False
  then have "n = 0 \<or> n = 1" by auto
  then show ?thesis by (auto simp: log2_def log2_loop.simps)
qed

lemma chunk_step_pow:
  assumes "80 < n" "1 < ncpu"
  obtains k where "chunk_step ncpu n = 2 ^ Suc k" "2 ^ Suc k < n"
proof -
  let ?e = "if log2 (n div ncpu) < 1 then 1 else log2 (n div ncpu)"
  have "n div ncpu \<le> n div 2" using assms(2) by (intro div_le_mono2) auto
  then have "2 ^ ?e < n" using log2_bound [of "n div ncpu"] assms(1) by simp
  have e: "chunk_step ncpu n = (if 2 ^ ?e > (256 :: nat) then 2 ^ Suc 7 else 2 ^ Suc (?e - 1))"
    by (auto simp: chunk_step_def Let_def pow2_eq)
  show thesis
  proof (cases "2 ^ ?e > (256 :: nat)")
    case True
    with e \<open>2 ^ ?e < n\<close> show thesis by (intro that [of 7]) simp_all
  next
    case False
    have "Suc (?e - 1) = ?e" by auto
    with False e \<open>2 ^ ?e < n\<close> show thesis by (intro that [of "?e - 1"]) (simp_all del: power_Suc)
  qed
qed

lemma self_Suc: "((\<lambda>x. H x x) ^^ Suc i) r = ((\<lambda>x. H x x) ^^ i) (H r r)"
  by (simp only: funpow_Suc_right o_apply)

lemma pad_loop_node:
  assumes "hash_size sha" "length cache = 64" "length r = 32"
  shows "pad_loop sha cache (Some r) i = Some (((\<lambda>x. node sha x x) ^^ i) r)"
  using assms(2,3)
proof (induction i arbitrary: cache r)
  case (Suc i)
  have "length (sha (r @ r)) = 32" using assms(1) by (simp add: hash_size_def)
  with Suc show ?case by (simp add: GetHashFromTwoHash_node self_Suc [where H = "node sha"] del: funpow.simps)
qed simp

lemma mfinal_size: "hash_size sha \<Longrightarrow> \<forall>h\<in>set hs. length h = 32 \<Longrightarrow> \<forall>h\<in>set (mfinal (node sha) hs). length h = 32"
proof (induction hs rule: length_induct)
  case (1 hs)
  show ?case
  proof (cases "length hs > 1")
    case True
    then have "length (mpairs (node sha) hs) < length hs" by simp
    with 1 mpairs_size [OF 1(2)] have "\<forall>h\<in>set (mfinal (node sha) (mpairs (node sha) hs)). length h = 32" by blast
    with True show ?thesis by (simp add: mfinal.simps [of _ hs])
  qed (use 1 in \<open>simp add: mfinal.simps [of _ hs]\<close>)
qed

lemma chunk_root_levels:
  assumes "hash_size sha" "\<forall>h\<in>set hs. length h = 32" "0 < length hs" "length hs \<le> 2 ^ Suc k"
  shows "chunk_root sha (2 ^ Suc k) (map Some hs) = Some (hd (levels (node sha) (Suc k) hs))"
proof -
  obtain r where r: "mfinal (node sha) hs = [r]" "levels (node sha) (Suc k) hs =
      [((\<lambda>x. node sha x x) ^^ (Suc k - calcLevel_loop (length hs) 0)) r]"
    using levels_mfinal [OF assms(3,4), of "node sha"] by blast
  have root: "getMerkleRoot sha (map Some hs) = Some r"
    using getMerkleRoot_node [OF assms(1,2)] r(1) by simp
  have r32: "length r = 32" using mfinal_size [OF assms(1,2)] r(1) by simp
  have sha32: "length (sha x) = 32" for x using assms(1) by (simp add: hash_size_def)
  consider (full) "length hs = 2 ^ Suc k" | (one) "length hs = 1" "length hs \<noteq> 2 ^ Suc k"
    | (part) "length hs \<noteq> 1" "length hs \<noteq> 2 ^ Suc k" by blast
  then show ?thesis
  proof cases
    case full
    then have "calcLevel_loop (length hs) 0 = Suc k" by (simp only: calcLevel_loop_pow)
    with full root r(2) show ?thesis by (simp add: chunk_root_def)
  next
    case one
    then obtain h where h: "hs = [h]" by (cases hs) auto
    with r(1) have "r = h" by (simp add: mfinal.simps)
    with one h r32 sha32 r(2) assms(1) show ?thesis
      by (simp add: chunk_root_def getMerkleRootPad_def Let_def log2_pow calcLevel_def calcLevel_loop.simps
          GetHashFromTwoHash_node pad_loop_node self_Suc [where H = "node sha"] del: power_Suc funpow.simps)
  next
    case part
    with root r(2) r32 assms(1) show ?thesis
      by (simp add: chunk_root_def getMerkleRootPad_def Let_def log2_pow calcLevel_def pad_loop_node
          del: power_Suc funpow.simps)
  qed
qed

lemma collect_children_eq:
  assumes "set arrival = {..<l}"
  shows "collect_children l sub arrival = map sub [0..<l]"
proof -
  have "j < length cs \<Longrightarrow> foldl (\<lambda>c i. c[i := sub i]) cs arr ! j = (if j \<in> set arr then sub j else cs ! j)"
    and "length (foldl (\<lambda>c i. c[i := sub i]) cs arr) = length cs" for cs arr j
    by (induction arr arbitrary: cs) (auto simp: nth_list_update)
  with assms show ?thesis
    by (auto simp: collect_children_def intro!: nth_equalityI)
qed


lemma parallel_root:
  assumes "hash_size sha" "\<forall>h\<in>set hs. length h = 32"
    and "set arrival = {..<chunk_count (length hs) (chunk_step ncpu (length hs))}"
  shows "GetMerkleRoot sha ncpu arrival (map Some hs) = getMerkleRoot sha (map Some hs)"
proof (cases "length hs \<le> 80 \<or> ncpu \<le> 1")
  case True
  then show ?thesis by (auto simp: GetMerkleRoot_def)
next
  case False
  then have "80 < length hs" "1 < ncpu" by auto
  from chunk_step_pow [OF this] obtain k where
    k: "chunk_step ncpu (length hs) = 2 ^ Suc k" "2 ^ Suc k < length hs" .
  let ?s = "2 ^ Suc k :: nat" and ?H = "node sha"
  let ?l = "chunk_count (length hs) ?s"
  have "hs \<noteq> []" using False by auto
  have chunk: "chunk_root sha ?s (chunk_of (map Some hs) ?s i) = Some (hd (levels ?H (Suc k) (chunk_of hs ?s i)))"
    if "i < ?l" for i
  proof -
    have m: "chunk_of (map Some hs) ?s i = map Some (chunk_of hs ?s i)"
      by (simp add: chunk_of_def Let_def drop_map take_map)
    have "0 < length (chunk_of hs ?s i)" "length (chunk_of hs ?s i) \<le> ?s"
      using chunk_of_length [OF _ that] by simp_all
    moreover have "set (chunk_of hs ?s i) \<subseteq> set hs"
      by (auto simp: chunk_of_def Let_def dest: in_set_takeD in_set_dropD)
    ultimately show ?thesis using assms(1,2) unfolding m by (intro chunk_root_levels) auto
  qed
  have "collect_children ?l (\<lambda>i. chunk_root sha ?s (chunk_of (map Some hs) ?s i)) arrival =
      map (\<lambda>i. Some (hd (levels ?H (Suc k) (chunk_of hs ?s i)))) [0..<?l]"
    using assms(3) chunk by (simp add: k(1) collect_children_eq del: power_Suc funpow.simps)
  also have "\<dots> = map Some (levels ?H (Suc k) hs)"
    using levels_chunks [OF \<open>hs \<noteq> []\<close>, where H = ?H and k = "Suc k"] by (simp add: comp_def del: power_Suc funpow.simps)
  finally have "GetMerkleRoot sha ncpu arrival (map Some hs) = getMerkleRoot sha (map Some (levels ?H (Suc k) hs))"
    using False by (simp add: GetMerkleRoot_def Let_def k(1) del: power_Suc funpow.simps)
  also have "\<forall>h\<in>set (levels ?H (Suc k) hs). length h = 32"
    using mpairs_size [OF assms(1)] by auto
  then have "getMerkleRoot sha (map Some (levels ?H (Suc k) hs)) = getMerkleRoot sha (map Some hs)"
    using assms(1,2) mfinal_levels [OF k(2), where H = ?H] by (simp add: getMerkleRoot_node del: power_Suc funpow.simps)
  finally show ?thesis .
qed

section \<open>Properties\<close>

text \<open>
  C11. The parallel root is the sequential root: for hashes of 32 bytes, any number of
  processors and any order in which the chunks' results arrive, \<^verbatim>\<open>GetMerkleRoot\<close>
  returns what \<^verbatim>\<open>getMerkleRoot\<close> returns, so all nodes compute the same
  \<^verbatim>\<open>TxHash\<close> whatever hardware they run on.
\<close>

theorem GetMerkleRoot_sequential:
  assumes "hash_size sha" "\<forall>h\<in>set hs. length h = 32"
    and "set arrival = {..<chunk_count (length hs) (chunk_step ncpu (length hs))}"
  shows "GetMerkleRoot sha ncpu arrival (map Some hs) = getMerkleRoot sha (map Some hs)"
  using assms by (rule parallel_root)

theorem GetMerkleRoot_sequential_witness:
  "GetMerkleRoot (\<lambda>x. take 32 (x @ replicate 32 0)) 4 [5,4,3,2,1,0] (map Some (replicate 81 (replicate 32 1))) =
   getMerkleRoot (\<lambda>x. take 32 (x @ replicate 32 0)) (map Some (replicate 81 (replicate 32 1)))"
proof -
  have c: "chunk_count 81 (chunk_step 4 81) = 6" by code_simp
  have "hash_size (\<lambda>x. take 32 (x @ replicate 32 0))" by (auto simp: hash_size_def min_def)
  moreover have "set [5,4,3,2,1,0 :: nat] = {..<6}" by auto
  ultimately show ?thesis by (intro GetMerkleRoot_sequential) (simp_all add: c)
qed

section \<open>The chains of a block\<close>

lemma find_chains_starts:
  assumes "i + length txs < 2 ^ 31"
  shows "sorted_wrt (<) (map StartIndex (find_chains execer i t txs)) \<and>
    (\<forall>c\<in>set (find_chains execer i t txs). int i \<le> StartIndex c \<and> StartIndex c < int (i + length txs))"
  using assms
proof (induction execer i t txs rule: find_chains.induct)
  case (2 execer i t tx txs)
  have i32: "i32 (int i) = int i" using "2.prems" by (intro i32_id) auto
  show ?case
  proof (cases "GetParaExecTitleName (execer tx)")
    case None
    with 2 show ?thesis by (cases "i = 0") (force simp: new_child_def)+
  next
    case (Some p)
    with 2 i32 show ?thesis by (cases "length t = 0 \<or> p \<noteq> t") (force simp: new_child_def)+
  qed
qed simp

lemma find_chains_first: "txs \<noteq> [] \<Longrightarrow> \<exists>c cs. find_chains execer 0 [] txs = c # cs \<and> StartIndex c = 0"
  by (cases txs) (auto simp: new_child_def i32_def split: option.splits)

lemma set_counts_parts:
  assumes "sorted_wrt (<) (map StartIndex (c # cs))" "0 \<le> StartIndex c"
    and "\<forall>d\<in>set (c # cs). StartIndex d < int (length txs)" "length txs < 2 ^ 31"
  shows "concat (map (sub_txs txs) (set_counts (length txs) (c # cs))) = drop (nat (StartIndex c)) txs \<and>
    (\<forall>d\<in>set (set_counts (length txs) (c # cs)). sub_txs txs d \<noteq> [])"
  using assms
proof (induction cs arbitrary: c)
  case Nil
  have "i32 (int (length txs)) = int (length txs)" using Nil by (intro i32_id) auto
  moreover have "i32 (int (length txs) - StartIndex c) = int (length txs) - StartIndex c"
    using Nil by (intro i32_id) auto
  ultimately show ?case using Nil by (simp add: sub_txs_def nat_diff_distrib)
next
  case (Cons d cs)
  have sz: "i32 (StartIndex d - StartIndex c) = StartIndex d - StartIndex c"
    using Cons.prems by (intro i32_id) auto
  have ih: "concat (map (sub_txs txs) (set_counts (length txs) (d # cs))) = drop (nat (StartIndex d)) txs \<and>
    (\<forall>d\<in>set (set_counts (length txs) (d # cs)). sub_txs txs d \<noteq> [])"
    using Cons.prems by (intro Cons.IH) auto
  have "drop (nat (StartIndex d)) txs = drop (nat (StartIndex d - StartIndex c)) (drop (nat (StartIndex c)) txs)"
    using Cons.prems by (simp flip: nat_add_distrib)
  moreover have "sub_txs txs (c\<lparr>TxCount := i32 (StartIndex d - StartIndex c)\<rparr>) =
      take (nat (StartIndex d - StartIndex c)) (drop (nat (StartIndex c)) txs)"
    by (simp add: sub_txs_def sz)
  moreover have "take n ys @ drop n ys = ys" for n and ys :: "'a list" by simp
  ultimately have "sub_txs txs (c\<lparr>TxCount := i32 (StartIndex d - StartIndex c)\<rparr>) @
      drop (nat (StartIndex d)) txs = drop (nat (StartIndex c)) txs" by (simp only: append_take_drop_id)
  moreover have "sub_txs txs (c\<lparr>TxCount := i32 (StartIndex d - StartIndex c)\<rparr>) \<noteq> []"
    using Cons.prems by (auto simp: sub_txs_def sz)
  ultimately show ?case using ih by simp
qed

lemma merkle_root_some:
  assumes "hash_size (Sha2Sum env)" "\<And>l. set (arrivals env l) = {..<l}" "hs \<noteq> []" "\<forall>h\<in>set hs. length h = 32"
  shows "\<exists>r. merkle_root env (map Some hs) = Some r \<and> length r = 32"
proof -
  have eq: "merkle_root env (map Some hs) = getMerkleRoot (Sha2Sum env) (map Some hs)"
    unfolding merkle_root_def using assms by (intro parallel_root) simp_all
  have "mfinal H xs \<noteq> []" if "xs \<noteq> []" for H :: "bytes \<Rightarrow> bytes \<Rightarrow> bytes" and xs
    using levels_mfinal [of xs "length xs" H] that by (force simp: less_imp_le [OF less_exp])
  then obtain r rs where "mfinal (node (Sha2Sum env)) hs = r # rs" using assms(3) by (meson neq_Nil_conv)
  with eq assms mfinal_size [OF assms(1,4)] show ?thesis by (simp add: getMerkleRoot_node)
qed

lemma child_roots_ok:
  assumes "\<And>c. c \<in> set cs \<Longrightarrow> \<exists>h. calcMerkleRoot env fullhash (sub_txs txs c) = Inr h"
  shows "\<exists>cs'. child_roots env fullhash txs cs = Inr cs' \<and> map (sub_txs txs) cs' = map (sub_txs txs) cs \<and>
    (\<forall>c\<in>set cs'. \<exists>h. ChildHash c = Some h \<and> calcMerkleRoot env fullhash (sub_txs txs c) = Inr h) \<and> length cs' = length cs"
  using assms
proof (induction cs)
  case (Cons c cs)
  then obtain cs' where "child_roots env fullhash txs cs = Inr cs'" "map (sub_txs txs) cs' = map (sub_txs txs) cs"
    "\<forall>c\<in>set cs'. \<exists>h. ChildHash c = Some h \<and> calcMerkleRoot env fullhash (sub_txs txs c) = Inr h"
    "length cs' = length cs" by auto
  moreover obtain h where "calcMerkleRoot env fullhash (sub_txs txs c) = Inr h" using Cons.prems by force
  moreover have "sub_txs txs (c\<lparr>ChildHash := x\<rparr>) = sub_txs txs c" for x by (simp add: sub_txs_def)
  ultimately show ?case by auto
qed simp


text \<open>
  The chains of a block partition its transactions: when every hash is 32 bytes and
  the block has fewer than \<open>2 ^ 31\<close> transactions, \<^verbatim>\<open>calcMultiLayerMerkleInfo\<close> does not
  panic; the slices the returned chains name, in order, are non-empty and together are the
  whole transaction list, and each chain's hash is the root of its slice.
\<close>

theorem chains_partition_block:
  assumes "hash_size (Sha2Sum env)" "\<And>l. set (arrivals env l) = {..<l}"
    and "\<And>tx. length (fullhash tx) = 32" "txs \<noteq> []" "length txs < 2 ^ 31"
  shows "\<exists>root cchains. calcMultiLayerMerkleInfo env execer fullhash txs = Inr (root, cchains) \<and>
    concat (map (sub_txs txs) cchains) = txs \<and>
    (\<forall>c\<in>set cchains. sub_txs txs c \<noteq> [] \<and>
       (\<exists>h. ChildHash c = Some h \<and> calcMerkleRoot env fullhash (sub_txs txs c) = Inr h))"
proof -
  have root: "\<exists>h. calcMerkleRoot env fullhash xs = Inr h \<and> length h = 32" if "xs \<noteq> []" for xs
  proof -
    obtain r where "merkle_root env (map Some (map fullhash xs)) = Some r" "length r = 32"
      using merkle_root_some [OF assms(1,2), of "map fullhash xs"] assms(3) \<open>xs \<noteq> []\<close> by auto
    then show ?thesis using \<open>xs \<noteq> []\<close> by (simp add: calcMerkleRoot_def comp_def)
  qed
  obtain c cs where cs: "find_chains execer 0 [] txs = c # cs" "StartIndex c = 0"
    using find_chains_first [OF assms(4)] by blast
  show ?thesis
  proof (cases "cs = []")
    case True
    obtain h where h: "calcMerkleRoot env fullhash txs = Inr h" using root [OF assms(4)] by blast
    have "i32 (int (length txs)) = int (length txs)" using assms(5) by (intro i32_id) auto
    then show ?thesis using True cs h assms(4) by (simp add: calcMultiLayerMerkleInfo_def sub_txs_def)
  next
    case False
    have starts: "sorted_wrt (<) (map StartIndex (c # cs))" "\<forall>d\<in>set (c # cs). StartIndex d < int (length txs)"
      using find_chains_starts [of 0 txs execer "[]"] assms(5) unfolding cs(1) by auto
    let ?cs = "set_counts (length txs) (c # cs)"
    have parts: "concat (map (sub_txs txs) ?cs) = txs" "\<forall>d\<in>set ?cs. sub_txs txs d \<noteq> []"
      using set_counts_parts [OF starts(1) _ starts(2) assms(5)] cs(2) by simp_all
    obtain cs' where cs': "child_roots env fullhash txs ?cs = Inr cs'" "map (sub_txs txs) cs' = map (sub_txs txs) ?cs"
      "\<forall>c\<in>set cs'. \<exists>h. ChildHash c = Some h \<and> calcMerkleRoot env fullhash (sub_txs txs c) = Inr h"
      "length cs' = length ?cs"
      using child_roots_ok [of ?cs env fullhash txs] root parts(2) by metis
    have ne: "\<forall>d\<in>set cs'. sub_txs txs d \<noteq> []" using parts(2) arg_cong [OF cs'(2), of set] by simp (metis (no_types, lifting) imageE imageI)
    define hs where "hs = map (\<lambda>c. the (ChildHash c)) cs'"
    have hs: "map ChildHash cs' = map Some hs" using cs'(3) by (auto simp: hs_def)
    have "\<forall>h\<in>set hs. length h = 32" using cs'(3) ne root by (force simp: hs_def)
    moreover have "hs \<noteq> []" using parts(1) cs'(4) assms(4) by (auto simp: hs_def)
    ultimately obtain r where "merkle_root env (map ChildHash cs') = Some r"
      using merkle_root_some [OF assms(1,2)] hs by metis
    then show ?thesis
      using False cs(1) cs' parts(1) ne by (auto simp: calcMultiLayerMerkleInfo_def Let_def)
  qed
qed

definition demo_merkle_env :: merkle_env where
  "demo_merkle_env = \<lparr>Sha2Sum = (\<lambda>x. take 32 (x @ replicate 32 0)), NumCPU = 4, arrivals = (\<lambda>l. [0..<l])\<rparr>"

theorem chains_partition_block_witness:
  "\<exists>root cchains. calcMultiLayerMerkleInfo demo_merkle_env (\<lambda>n. if n = 0 then ''coins'' else ''user.p.a.coins'')
      (\<lambda>n. replicate 32 (of_nat n)) [0, 1, 2 :: nat] = Inr (root, cchains) \<and>
    concat (map (sub_txs [0, 1, 2 :: nat]) cchains) = [0, 1, 2]"
proof -
  have "hash_size (Sha2Sum demo_merkle_env)" by (auto simp: hash_size_def demo_merkle_env_def min_def)
  moreover have "set (arrivals demo_merkle_env l) = {..<l}" for l by (auto simp: demo_merkle_env_def)
  ultimately show ?thesis
    using chains_partition_block [of demo_merkle_env "\<lambda>n. replicate 32 (of_nat n)" "[0, 1, 2 :: nat]"
        "\<lambda>n. if n = 0 then ''coins'' else ''user.p.a.coins''"] by auto
qed

end
