(* ===== verification/Merkle_Branch.thy ===== *)
theory Merkle_Branch
  imports Merkle_Theorems
begin

text \<open>
  Merkle branches, the proofs of inclusion of \<^verbatim>\<open>common/merkle/merkle.go\<close>: the constant-space
  calculator \<^verbatim>\<open>Computation\<close> that yields a root and the branch of one leaf, and
  \<^verbatim>\<open>GetMerkleRootFromBranch\<close> that recomputes the root from a leaf and its branch.
  \<open>inner\<close> has 32 entries, one per level of a pending subtree; an index beyond them is the panic
  of Go. The last loop of \<^verbatim>\<open>Computation\<close> is a \<open>partial_function\<close>, so that its termination
  is proved and not assumed.
\<close>

section \<open>The calculator\<close>

record branch_state =
  cur :: ghash
  matchh :: bool
  mutated :: bool
  branch :: "ghash list"
  hcache :: bytes

definition ghash_equal :: "ghash \<Rightarrow> ghash \<Rightarrow> bool" where
  "ghash_equal a b \<longleftrightarrow> (case a of None \<Rightarrow> [] | Some x \<Rightarrow> x) = (case b of None \<Rightarrow> [] | Some y \<Rightarrow> y)"

definition wants_branch :: "nat \<Rightarrow> bool" where
  "wants_branch flage \<longleftrightarrow> odd (flage div 2)"

text \<open>
  One level up: what both inner loops do while the bit \<open>level\<close> of \<open>count\<close> is zero. Only the
  first one looks for equal neighbours, \<open>chk\<close>.
\<close>

definition carry_step :: "(bytes \<Rightarrow> bytes) \<Rightarrow> nat \<Rightarrow> bool \<Rightarrow> nat \<Rightarrow> ghash \<Rightarrow> nat \<Rightarrow> branch_state \<Rightarrow> branch_state" where
  "carry_step sha flage chk matchlevel left level s =
     (let s1 = (if wants_branch flage then
                  (if matchh s then s\<lparr>branch := branch s @ [left]\<rparr>
                   else if matchlevel = level then s\<lparr>branch := branch s @ [cur s], matchh := True\<rparr>
                   else s)
                else s);
          s2 = (if chk \<and> ghash_equal left (cur s) then s1\<lparr>mutated := True\<rparr> else s1);
          (h, c) = GetHashFromTwoHash sha (hcache s) left (cur s)
      in s2\<lparr>cur := h, hcache := c\<rparr>)"

function carry_loop ::
  "(bytes \<Rightarrow> bytes) \<Rightarrow> nat \<Rightarrow> bool \<Rightarrow> nat \<Rightarrow> ghash list \<Rightarrow> nat \<Rightarrow> nat \<Rightarrow> branch_state \<Rightarrow> go_error + (nat \<times> branch_state)" where
  "carry_loop sha flage chk matchlevel inner count level s =
     (if odd (count div 2 ^ level) then Inr (level, s)
      else if level \<ge> length inner then Inl GoPanic
      else carry_loop sha flage chk matchlevel inner count (Suc level)
             (carry_step sha flage chk matchlevel (inner ! level) level s))"
  by pat_completeness auto
termination
  by (relation "measure (\<lambda>(sha, flage, chk, matchlevel, inner, count, level, s). length inner - level)") auto

declare carry_loop.simps [simp del]

fun leaves_loop ::
  "(bytes \<Rightarrow> bytes) \<Rightarrow> nat \<Rightarrow> nat \<Rightarrow> ghash list \<Rightarrow> nat \<Rightarrow> ghash list \<Rightarrow> nat \<Rightarrow> branch_state \<Rightarrow>
   go_error + (ghash list \<times> nat \<times> branch_state)" where
  "leaves_loop sha flage branchpos [] count inner matchlevel s = Inr (inner, matchlevel, s)"
| "leaves_loop sha flage branchpos (h # leaves) count inner matchlevel s =
     (let s1 = s\<lparr>cur := h, matchh := (count mod 2 ^ 32 = branchpos \<and> wants_branch flage)\<rparr>
      in case carry_loop sha flage True matchlevel inner (Suc count) 0 s1 of
           Inl e \<Rightarrow> Inl e
         | Inr (level, s2) \<Rightarrow>
             if level \<ge> length inner then Inl GoPanic
             else leaves_loop sha flage branchpos leaves (Suc count) (inner[level := cur s2])
                    (if matchh s2 then level else matchlevel) s2)"

text \<open>The lowest set bit of the number of leaves, which is positive.\<close>

fun lowest_bit :: "nat \<Rightarrow> nat" where
  "lowest_bit count = (if count = 0 \<or> odd count then 0 else Suc (lowest_bit (count div 2)))"

declare lowest_bit.simps [simp del]

partial_function (option) finish_loop ::
  "(bytes \<Rightarrow> bytes) \<Rightarrow> nat \<Rightarrow> nat \<Rightarrow> ghash list \<Rightarrow> nat \<Rightarrow> nat \<Rightarrow> branch_state \<Rightarrow> (go_error + branch_state) option" where
  "finish_loop sha flage matchlevel inner count level s =
     (if count = 2 ^ level then Some (Inr s)
      else
        let s1 = (if wants_branch flage \<and> matchh s then s\<lparr>branch := branch s @ [cur s]\<rparr> else s);
            (h, c) = GetHashFromTwoHash sha (hcache s1) (cur s1) (cur s1);
            s2 = s1\<lparr>cur := h, hcache := c\<rparr>;
            count' = count + 2 ^ level
        in case carry_loop sha flage False matchlevel inner count' (Suc level) s2 of
             Inl e \<Rightarrow> Some (Inl e)
           | Inr (level', s3) \<Rightarrow> finish_loop sha flage matchlevel inner count' level' s3)"

definition Computation ::
  "(bytes \<Rightarrow> bytes) \<Rightarrow> ghash list \<Rightarrow> int \<Rightarrow> nat \<Rightarrow> (go_error + ghash \<times> bool \<times> ghash list) option" where
  "Computation sha leaves flage branchpos =
     (if length leaves = 0 then Some (Inr (None, False, []))
      else if flage < 1 \<or> flage > 3 then Some (Inr (None, False, []))
      else
        let s0 = \<lparr>cur = None, matchh = False, mutated = False, branch = [], hcache = replicate 64 0\<rparr>
        in case leaves_loop sha (nat flage) branchpos leaves 0 (replicate 32 None) 255 s0 of
             Inl e \<Rightarrow> Some (Inl e)
           | Inr (inner, matchlevel, s1) \<Rightarrow>
               let level = lowest_bit (length leaves)
               in if level \<ge> length inner then Some (Inl GoPanic)
                  else
                    (case finish_loop sha (nat flage) matchlevel inner (length leaves) level
                            (s1\<lparr>cur := inner ! level, matchh := (matchlevel = level)\<rparr>) of
                       None \<Rightarrow> None
                     | Some (Inl e) \<Rightarrow> Some (Inl e)
                     | Some (Inr s) \<Rightarrow> Some (Inr (cur s, mutated s, branch s))))"

definition GetMerkleBranch :: "(bytes \<Rightarrow> bytes) \<Rightarrow> ghash list \<Rightarrow> nat \<Rightarrow> (go_error + ghash list) option" where
  "GetMerkleBranch sha leaves position =
     map_option (map_sum id (\<lambda>(_, _, branchs). branchs)) (Computation sha leaves 2 position)"

definition GetMerkleRootAndBranch ::
  "(bytes \<Rightarrow> bytes) \<Rightarrow> ghash list \<Rightarrow> nat \<Rightarrow> (go_error + ghash \<times> ghash list) option" where
  "GetMerkleRootAndBranch sha leaves position =
     map_option (map_sum id (\<lambda>(roothash, _, branchs). (roothash, branchs))) (Computation sha leaves 3 position)"

section \<open>The root from a branch\<close>

fun root_from_branch :: "(bytes \<Rightarrow> bytes) \<Rightarrow> bytes \<Rightarrow> ghash list \<Rightarrow> ghash \<Rightarrow> nat \<Rightarrow> ghash" where
  "root_from_branch sha cache [] hash Index = hash"
| "root_from_branch sha cache (b # bs) hash Index =
     (let (h, c) = (if odd Index then GetHashFromTwoHash sha cache b hash
                    else GetHashFromTwoHash sha cache hash b)
      in root_from_branch sha c bs h (Index div 2))"

definition GetMerkleRootFromBranch :: "(bytes \<Rightarrow> bytes) \<Rightarrow> ghash list \<Rightarrow> ghash \<Rightarrow> nat \<Rightarrow> ghash" where
  "GetMerkleRootFromBranch sha merkleBranch leaf Index =
     root_from_branch sha (replicate 64 0) merkleBranch leaf Index"

section \<open>Nodes of the tree\<close>

text \<open>
  \<open>lv l j\<close> is the node \<open>j\<close> of level \<open>l\<close>, \<open>width n l\<close> the number of nodes there: the length
  divided by \<open>2 ^ l\<close>, rounded up.
\<close>

primrec width :: "nat \<Rightarrow> nat \<Rightarrow> nat" where
  "width n 0 = n"
| "width n (Suc l) = (width n l + 1) div 2"

lemma mpairs_nth:
  "j < length (mpairs H xs) \<Longrightarrow>
   mpairs H xs ! j = (if Suc (2 * j) < length xs then H (xs ! (2 * j)) (xs ! Suc (2 * j)) else H (xs ! (2 * j)) (xs ! (2 * j)))"
proof (induction H xs arbitrary: j rule: mpairs.induct)
  case (1 H a b xs)
  then show ?case by (cases j) auto
qed auto

lemma div_up: "(p :: nat) div 2 ^ Suc l = p div 2 ^ l div 2"
  by (simp only: power_Suc2 div_mult2_eq)

lemma dvd_up: "2 ^ l dvd n \<Longrightarrow> 2 ^ Suc l dvd n \<longleftrightarrow> even (n div 2 ^ l :: nat)"
  by (auto elim!: dvdE simp: power_Suc2 simp del: power_Suc)

lemma dvd_down: "2 ^ Suc l dvd (n :: nat) \<Longrightarrow> 2 ^ l dvd n"
  using dvd_trans [OF le_imp_power_dvd [of l "Suc l" 2]] by simp

lemma length_levels: "length (levels H l xs) = width (length xs) l"
  by (induction l) simp_all

lemma width_eq: "width n l = (if 2 ^ l dvd n then n div 2 ^ l else Suc (n div 2 ^ l))"
proof (induction l)
  case (Suc l)
  show ?case
  proof (cases "2 ^ l dvd n")
    case True
    then show ?thesis using Suc by (auto simp: div_up dvd_up simp del: power_Suc elim!: oddE)
  next
    case False
    then have "\<not> 2 ^ Suc l dvd n" using dvd_down by blast
    then show ?thesis using Suc False by (simp add: div_up del: power_Suc)
  qed
qed simp

lemma width_dvd: "2 ^ l dvd n \<Longrightarrow> width n l = n div 2 ^ l" by (simp add: width_eq)

lemma width_not_dvd: "\<not> 2 ^ l dvd n \<Longrightarrow> width n l = Suc (n div 2 ^ l)" by (simp add: width_eq)

lemma div_less_width: "p < n \<Longrightarrow> p div 2 ^ l < width n l"
  using div_le_mono [of p n "2 ^ l"]
  by (cases "2 ^ l dvd n") (auto simp: width_dvd width_not_dvd less_Suc_eq_le div_less_iff_less_mult)

definition lv :: "(bytes \<Rightarrow> bytes) \<Rightarrow> bytes list \<Rightarrow> nat \<Rightarrow> nat \<Rightarrow> bytes" where
  "lv sha xs l j = levels (node sha) l xs ! j"

lemma lv_0 [simp]: "lv sha xs 0 j = xs ! j" by (simp add: lv_def)

lemma lv_Suc:
  assumes "j < width (length xs) (Suc l)"
  shows "lv sha xs (Suc l) j =
    (if Suc (2 * j) < width (length xs) l then node sha (lv sha xs l (2 * j)) (lv sha xs l (Suc (2 * j)))
     else node sha (lv sha xs l (2 * j)) (lv sha xs l (2 * j)))"
  using assms mpairs_nth [of j "node sha" "levels (node sha) l xs"]
  by (simp add: lv_def length_levels)

lemma lv_size:
  assumes "hash_size sha" "\<forall>h\<in>set xs. length h = 32" "j < width (length xs) l"
  shows "length (lv sha xs l j) = 32"
proof -
  have "\<forall>h\<in>set (levels (node sha) l xs). length h = 32"
    using assms(1,2) mpairs_size by (cases l) (auto simp del: mpairs.simps)
  then show ?thesis using assms(3) by (simp add: lv_def length_levels)
qed

text \<open>The sibling of the node above leaf \<open>p\<close> at level \<open>l\<close>; an unpaired node is its own.\<close>

definition sib :: "(bytes \<Rightarrow> bytes) \<Rightarrow> bytes list \<Rightarrow> nat \<Rightarrow> nat \<Rightarrow> bytes" where
  "sib sha xs p l =
     (let j = p div 2 ^ l
      in lv sha xs l (if odd j then j - 1 else if Suc j < width (length xs) l then Suc j else j))"

lemma lv_up:
  assumes "p < length xs"
  shows "lv sha xs (Suc l) (p div 2 ^ Suc l) =
    (if odd (p div 2 ^ l) then node sha (sib sha xs p l) (lv sha xs l (p div 2 ^ l))
     else node sha (lv sha xs l (p div 2 ^ l)) (sib sha xs p l))"
proof -
  let ?j = "p div 2 ^ l"
  note up = div_up [of p l]
  have "?j < width (length xs) l" "p div 2 ^ Suc l < width (length xs) (Suc l)" using assms by (simp_all only: div_less_width)
  then show ?thesis
    using lv_Suc [of "?j div 2" xs l sha] unfolding up
    by (cases "even ?j") (auto simp: sib_def Let_def elim!: evenE oddE)
qed

lemma root_from_branch_up:
  assumes "hash_size sha" "\<forall>h\<in>set xs. length h = 32" "p < length xs" "length c = 64"
  shows "root_from_branch sha c (map (\<lambda>i. Some (sib sha xs p i)) [l..<l + d]) (Some (lv sha xs l (p div 2 ^ l))) (p div 2 ^ l) =
    Some (lv sha xs (l + d) (p div 2 ^ (l + d)))"
  using assms(4)
proof (induction d arbitrary: l c)
  case (Suc d)
  let ?j = "p div 2 ^ l"
  have j: "?j < width (length xs) l" using assms(3) by (rule div_less_width)
  then have "length (lv sha xs l ?j) = 32" by (rule lv_size [OF assms(1,2)])
  moreover have "length (sib sha xs p l) = 32"
    unfolding sib_def Let_def using j by (intro lv_size [OF assms(1,2)]) auto
  moreover note div_up [of p l, symmetric]
  ultimately show ?case
    using Suc.IH [of "sib sha xs p l @ lv sha xs l ?j" "Suc l"] Suc.IH [of "lv sha xs l ?j @ sib sha xs p l" "Suc l"]
      Suc.prems lv_up [OF assms(3), of sha l]
    by (cases "odd ?j") (simp_all add: upt_conv_Cons GetHashFromTwoHash_node del: upt_Suc power_Suc)
qed simp

section \<open>The leaves, one by one\<close>

text \<open>
  After \<open>k\<close> leaves, \<open>inner\<close> holds the root of a complete subtree for each set bit of \<open>k\<close>.
  \<open>below p l\<close> is the branch of \<open>p\<close> up to level \<open>l\<close>.
\<close>

definition pending_ok :: "(bytes \<Rightarrow> bytes) \<Rightarrow> bytes list \<Rightarrow> nat \<Rightarrow> ghash list \<Rightarrow> bool" where
  "pending_ok sha xs k inner \<longleftrightarrow> length inner = 32 \<and>
     (\<forall>i<32. odd (k div 2 ^ i) \<longrightarrow> inner ! i = Some (lv sha xs i (k div 2 ^ i - 1)))"

definition below :: "(bytes \<Rightarrow> bytes) \<Rightarrow> bytes list \<Rightarrow> nat \<Rightarrow> nat \<Rightarrow> ghash list" where
  "below sha xs p l = map (\<lambda>i. Some (sib sha xs p i)) [0..<l]"

lemma below_Suc: "below sha xs p (Suc l) = below sha xs p l @ [Some (sib sha xs p l)]"
  by (simp add: below_def)

text \<open>The node of level \<open>l\<close> just completed, and where the branch of \<open>p\<close> stands.\<close>

definition cur_ok :: "(bytes \<Rightarrow> bytes) \<Rightarrow> bytes list \<Rightarrow> nat \<Rightarrow> nat \<Rightarrow> branch_state \<Rightarrow> bool" where
  "cur_ok sha xs j l s \<longleftrightarrow> cur s = Some (lv sha xs l j) \<and> length (hcache s) = 64"

definition path_ok :: "(bytes \<Rightarrow> bytes) \<Rightarrow> bytes list \<Rightarrow> nat \<Rightarrow> nat \<Rightarrow> nat \<Rightarrow> nat \<Rightarrow> nat \<Rightarrow> branch_state \<Rightarrow> bool" where
  "path_ok sha xs p k m j l s \<longleftrightarrow>
     (if matchh s then p div 2 ^ l = j \<and> branch s = below sha xs p l
      else if p < k then l \<le> m \<and> m < 32 \<and> odd (k div 2 ^ m) \<and> p div 2 ^ m = k div 2 ^ m - 1 \<and> branch s = below sha xs p m
      else m = 255 \<and> branch s = [] \<and> p div 2 ^ l > j)"

lemma inner_node:
  assumes "hash_size sha" "\<forall>h\<in>set xs. length h = 32" "pending_ok sha xs k inner" "l < 32"
    and "j = k div 2 ^ l" "odd j" "j < width (length xs) l" "cur_ok sha xs j l s"
  shows "inner ! l = Some (lv sha xs l (j - 1))"
    "GetHashFromTwoHash sha (hcache s) (inner ! l) (cur s) =
      (Some (lv sha xs (Suc l) (j div 2)), lv sha xs l (j - 1) @ lv sha xs l j)"
    "length (lv sha xs l (j - 1)) = 32" "length (lv sha xs l j) = 32"
proof -
  show inner: "inner ! l = Some (lv sha xs l (j - 1))" using assms by (simp add: pending_ok_def)
  show sz: "length (lv sha xs l (j - 1)) = 32" "length (lv sha xs l j) = 32"
    using assms(7) by (auto intro!: lv_size [OF assms(1,2)])
  obtain i where i: "j = Suc (2 * i)" using assms(6) by (auto elim: oddE)
  then have "lv sha xs (Suc l) (j div 2) = node sha (lv sha xs l (j - 1)) (lv sha xs l j)"
    using assms(7) by (subst lv_Suc) auto
  then show "GetHashFromTwoHash sha (hcache s) (inner ! l) (cur s) =
      (Some (lv sha xs (Suc l) (j div 2)), lv sha xs l (j - 1) @ lv sha xs l j)"
    using assms(8) inner sz by (simp add: cur_ok_def GetHashFromTwoHash_node)
qed

lemma carry_step_ok:
  assumes "hash_size sha" "\<forall>h\<in>set xs. length h = 32" "pending_ok sha xs k inner" "l < 32"
    and "j = k div 2 ^ l" "odd j" "j < width (length xs) l" "cur_ok sha xs j l s"
  shows "cur_ok sha xs (j div 2) (Suc l) (carry_step sha flage chk m (inner ! l) l s) \<and>
    (wants_branch flage \<longrightarrow> path_ok sha xs p k m j l s \<longrightarrow>
       path_ok sha xs p k m (j div 2) (Suc l) (carry_step sha flage chk m (inner ! l) l s))"
proof -
  note node = inner_node [OF assms]
  have c: "cur_ok sha xs (j div 2) (Suc l) (carry_step sha flage chk m (inner ! l) l s)"
    using node by (simp add: carry_step_def Let_def cur_ok_def del: power_Suc)
  have "path_ok sha xs p k m (j div 2) (Suc l) (carry_step sha flage chk m (inner ! l) l s)"
    if w: "wants_branch flage" and p: "path_ok sha xs p k m j l s"
  proof -
    have sib: "inner ! l = Some (sib sha xs p l)" if "p div 2 ^ l = j"
      using node(1) that assms(6) by (simp add: sib_def)
    have sib': "cur s = Some (sib sha xs p l)" if "p div 2 ^ l = j - 1"
      using that assms(6,7,8) by (auto simp: sib_def cur_ok_def elim!: oddE)
    consider "matchh s" | "\<not> matchh s" "p < k" "m = l" | "\<not> matchh s" "p < k" "m \<noteq> l" | "\<not> matchh s" "\<not> p < k" by blast
    then show ?thesis
    proof cases
      case 1
      then show ?thesis using p w node sib
        by (simp add: path_ok_def carry_step_def Let_def below_Suc div_up del: power_Suc)
    next
      case 2
      then have "p div 2 ^ l = j - 1" using p assms(5) by (simp add: path_ok_def)
      then show ?thesis using 2 p w node sib' assms(6)
        by (simp add: path_ok_def carry_step_def Let_def below_Suc div_up del: power_Suc) (auto elim!: oddE)
    next
      case 3
      then show ?thesis using p w node
        by (simp add: path_ok_def carry_step_def Let_def del: power_Suc)
    next
      case 4
      then have "p div 2 ^ l > j" "m = 255" using p by (simp_all add: path_ok_def)
      then have "p div 2 ^ l div 2 > j div 2" using assms(6) by (auto elim!: oddE)
      then show ?thesis using 4 p w node assms(4)
        by (simp add: path_ok_def carry_step_def Let_def div_up del: power_Suc)
    qed
  qed
  then show ?thesis using c by blast
qed

lemma Suc_div_dvd: "2 ^ l dvd Suc k \<Longrightarrow> Suc k div 2 ^ l = Suc (k div 2 ^ l)"
  using div_Suc [of k "2 ^ l"] by (auto simp: dvd_eq_mod_eq_0)

lemma Suc_div_not_dvd: "\<not> 2 ^ l dvd Suc k \<Longrightarrow> Suc k div 2 ^ l = k div 2 ^ l"
  using div_Suc [of k "2 ^ l"] by (auto simp: dvd_eq_mod_eq_0)

lemma small_level: "even ((c :: nat) div 2 ^ l) \<Longrightarrow> 2 ^ l dvd c \<Longrightarrow> 0 < c \<Longrightarrow> c < 2 ^ 32 \<Longrightarrow> l < 31"
proof -
  assume *: "even (c div 2 ^ l)" "2 ^ l dvd c" "0 < c" "c < 2 ^ 32"
  then have "2 ^ Suc l dvd c" by (simp only: dvd_up)
  then have "2 ^ Suc l \<le> c" using * by (simp add: dvd_imp_le del: power_Suc)
  then have "(2 :: nat) ^ Suc l < 2 ^ 32" using * by linarith
  then show ?thesis using power_less_imp_less_exp [of "2 :: nat" "Suc l" 32] by simp
qed

lemma carry_loop_ok:
  assumes "hash_size sha" "\<forall>h\<in>set xs. length h = 32" "pending_ok sha xs k inner"
    and "Suc k \<le> length xs" "Suc k < 2 ^ 32"
    and "2 ^ l dvd Suc k" "cur_ok sha xs (k div 2 ^ l) l s" "wants_branch flage \<longrightarrow> path_ok sha xs p k m (k div 2 ^ l) l s"
  shows "\<exists>l' s'. carry_loop sha flage True m inner (Suc k) l s = Inr (l', s') \<and> l' < 32 \<and>
    2 ^ l' dvd Suc k \<and> odd (Suc k div 2 ^ l') \<and> cur_ok sha xs (k div 2 ^ l') l' s' \<and>
    (wants_branch flage \<longrightarrow> path_ok sha xs p k m (k div 2 ^ l') l' s')"
  using assms(6-8)
proof (induction "32 - l" arbitrary: l s rule: less_induct)
  case less
  have len: "length inner = 32" using assms(3) by (simp add: pending_ok_def)
  show ?case
  proof (cases "odd (Suc k div 2 ^ l)")
    case True
    have "2 ^ l \<le> Suc k" using less.prems(1) by (simp add: dvd_imp_le)
    then have "(2 :: nat) ^ l < 2 ^ 32" using assms(5) by linarith
    then have "l < 32" using power_less_imp_less_exp [of "2 :: nat" l 32] by simp
    then show ?thesis using True less.prems by (simp add: carry_loop.simps [of sha flage True m inner "Suc k" l])
  next
    case False
    let ?j = "k div 2 ^ l" and ?s = "carry_step sha flage True m (inner ! l) l s"
    have l: "l < 31" using small_level [of "Suc k" l] False less.prems(1) assms(5) by simp
    have "odd ?j" using False Suc_div_dvd [OF less.prems(1)] by simp
    moreover have "?j < width (length xs) l" using assms(4) by (intro div_less_width) simp
    ultimately have step: "cur_ok sha xs (?j div 2) (Suc l) ?s \<and>
        (wants_branch flage \<longrightarrow> path_ok sha xs p k m ?j l s \<longrightarrow> path_ok sha xs p k m (?j div 2) (Suc l) ?s)"
      using l less.prems by (intro carry_step_ok [OF assms(1-3)]) auto
    have "carry_loop sha flage True m inner (Suc k) l s = carry_loop sha flage True m inner (Suc k) (Suc l) ?s"
      using False l len by (subst carry_loop.simps) simp
    moreover have "2 ^ Suc l dvd Suc k" using dvd_up less.prems(1) False by blast
    ultimately show ?thesis
      using less.hyps [of "Suc l" ?s] step less.prems(3) l by (simp add: div_up del: power_Suc)
  qed
qed

definition leaf_ok :: "(bytes \<Rightarrow> bytes) \<Rightarrow> bytes list \<Rightarrow> nat \<Rightarrow> nat \<Rightarrow> nat \<Rightarrow> branch_state \<Rightarrow> bool" where
  "leaf_ok sha xs p k m s \<longleftrightarrow>
     (if p < k then m < 32 \<and> odd (k div 2 ^ m) \<and> p div 2 ^ m = k div 2 ^ m - 1 \<and> branch s = below sha xs p m
      else m = 255 \<and> branch s = [])"

lemma pending_ok_Suc:
  assumes "pending_ok sha xs k inner" "l < 32" "2 ^ l dvd Suc k" "odd (Suc k div 2 ^ l)"
    and "cur_ok sha xs (k div 2 ^ l) l s"
  shows "pending_ok sha xs (Suc k) (inner[l := cur s])"
  unfolding pending_ok_def
proof (intro conjI allI impI)
  show "length (inner[l := cur s]) = 32" using assms(1) by (simp add: pending_ok_def)
  fix i assume i: "i < 32" "odd (Suc k div 2 ^ i)"
  consider "i < l" | "i = l" | "l < i" by linarith
  then show "inner[l := cur s] ! i = Some (lv sha xs i (Suc k div 2 ^ i - 1))"
  proof cases
    case 1
    then have "2 ^ Suc i dvd Suc k" using assms(3) dvd_trans [OF le_imp_power_dvd [of "Suc i" l 2]] by simp
    then have "even (Suc k div 2 ^ i)" using dvd_up [of i "Suc k"] dvd_down by blast
    then show ?thesis using i by simp
  next
    case 2
    then show ?thesis using assms by (simp add: pending_ok_def cur_ok_def Suc_div_dvd)
  next
    case 3
    have "\<not> 2 ^ Suc l dvd Suc k" using assms(3,4) dvd_up by blast
    then have "\<not> 2 ^ i dvd Suc k" using 3 dvd_trans [OF le_imp_power_dvd [of "Suc l" i 2]] by auto
    then have "Suc k div 2 ^ i = k div 2 ^ i" by (rule Suc_div_not_dvd)
    then show ?thesis using 3 i assms(1) by (simp add: pending_ok_def)
  qed
qed

lemma leaf_ok_Suc:
  assumes "path_ok sha xs p k m (k div 2 ^ l) l s" "2 ^ l dvd Suc k" "odd (Suc k div 2 ^ l)" "l < 32"
  shows "leaf_ok sha xs p (Suc k) (if matchh s then l else m) s"
proof -
  have e: "Suc k div 2 ^ l = Suc (k div 2 ^ l)" "even (k div 2 ^ l)" using assms(2,3) Suc_div_dvd [of l k] by simp_all
  have lt: "p < Suc k \<longleftrightarrow> p div 2 ^ l < Suc (k div 2 ^ l)"
    using assms(2) e(1) by (auto simp: div_less_iff_less_mult dvd_mult_div_cancel mult.commute elim!: dvdE)
  show ?thesis
  proof (cases "matchh s")
    case True
    then show ?thesis using assms(1,4) e lt by (simp add: path_ok_def leaf_ok_def)
  next
    case False
    show ?thesis
    proof (cases "p < k")
      case True
      then have m: "l \<le> m" "m < 32" "odd (k div 2 ^ m)" "p div 2 ^ m = k div 2 ^ m - 1" "branch s = below sha xs p m"
        using assms(1) False by (simp_all add: path_ok_def)
      then have "l < m" using e(2) by (cases "l = m") auto
      moreover have "\<not> 2 ^ Suc l dvd Suc k" using assms(2,3) dvd_up by blast
      ultimately have "\<not> 2 ^ m dvd Suc k" using dvd_trans [OF le_imp_power_dvd [of "Suc l" m 2]] by auto
      then show ?thesis using m True False by (simp add: leaf_ok_def Suc_div_not_dvd)
    next
      case no: False
      then show ?thesis using assms(1) False lt by (auto simp: path_ok_def leaf_ok_def)
    qed
  qed
qed

lemma leaves_loop_ok:
  assumes "hash_size sha" "\<forall>h\<in>set xs. length h = 32" "length xs < 2 ^ 32"
    and "ys = drop k xs" "k \<le> length xs" "pending_ok sha xs k inner" "length (hcache s) = 64"
    and "wants_branch flage \<longrightarrow> leaf_ok sha xs p k m s"
  shows "\<exists>inner' m' s'. leaves_loop sha flage p (map Some ys) k inner m s = Inr (inner', m', s') \<and>
    pending_ok sha xs (length xs) inner' \<and> length (hcache s') = 64 \<and>
    (wants_branch flage \<longrightarrow> leaf_ok sha xs p (length xs) m' s')"
  using assms(4-)
proof (induction ys arbitrary: k inner m s)
  case (Cons h ys)
  have k: "k < length xs" "h = xs ! k" "ys = drop (Suc k) xs"
    using Cons.prems(1) by (metis drop_eq_Nil list.distinct(1) not_less, metis drop_eq_Nil nth_via_drop list.distinct(1) not_less, metis drop_Suc list.sel(3) tl_drop)
  define s1 where "s1 = s\<lparr>cur := Some h, matchh := (k mod 2 ^ 32 = p \<and> wants_branch flage)\<rparr>"
  have "cur_ok sha xs (k div 2 ^ 0) 0 s1" using Cons.prems k by (simp add: cur_ok_def s1_def)
  moreover have "wants_branch flage \<longrightarrow> path_ok sha xs p k m (k div 2 ^ 0) 0 s1"
    using Cons.prems(5) assms(3) k(1) by (auto simp: path_ok_def leaf_ok_def s1_def below_def)
  ultimately obtain l s2 where c: "carry_loop sha flage True m inner (Suc k) 0 s1 = Inr (l, s2)" "l < 32"
    "2 ^ l dvd Suc k" "odd (Suc k div 2 ^ l)" "cur_ok sha xs (k div 2 ^ l) l s2"
    "wants_branch flage \<longrightarrow> path_ok sha xs p k m (k div 2 ^ l) l s2"
    using carry_loop_ok [OF assms(1,2) Cons.prems(3), of 0 s1 flage p m] k(1) assms(3) by auto
  have "length inner = 32" using Cons.prems(3) by (simp add: pending_ok_def)
  then have "leaves_loop sha flage p (map Some (h # ys)) k inner m s =
      leaves_loop sha flage p (map Some ys) (Suc k) (inner[l := cur s2]) (if matchh s2 then l else m) s2"
    using c(1,2) by (simp add: s1_def)
  moreover have "length (hcache s2) = 64" using c(5) by (simp add: cur_ok_def)
  ultimately show ?case
    using Cons.IH [OF k(3) _ pending_ok_Suc [OF Cons.prems(3) c(2-5)]] leaf_ok_Suc [OF _ c(3,4,2)] c(6) k(1) by simp
qed simp

section \<open>Closing the tree\<close>

text \<open>
  From the last complete subtree upwards. \<open>first_top l\<close>: below level \<open>l\<close> no level is a single
  node yet.
\<close>

definition first_top :: "nat \<Rightarrow> nat \<Rightarrow> bool" where
  "first_top n l \<longleftrightarrow> l = 0 \<or> 1 < width n (l - 1)"

lemma mfinal_first_top: "first_top (length xs) l \<Longrightarrow> mfinal H (levels H l xs) = mfinal H xs"
proof (induction l)
  case (Suc l)
  then have w: "1 < width (length xs) l" by (simp add: first_top_def)
  then have "first_top (length xs) l" by (cases l) (auto simp: first_top_def)
  then show ?case using Suc.IH w mfinal.simps [of H "levels H l xs"] by (simp add: length_levels)
qed simp

lemma mfinal_top:
  assumes "width (length xs) l = 1" "first_top (length xs) l"
  shows "mfinal (node sha) xs = [lv sha xs l 0]"
proof -
  have "length (levels (node sha) l xs) = 1" using assms(1) by (simp add: length_levels)
  then have "levels (node sha) l xs = [lv sha xs l 0]"
    unfolding lv_def by (cases "levels (node sha) l xs") auto
  then show ?thesis
    using mfinal_first_top [OF assms(2), of "node sha"] mfinal.simps [of "node sha" "[lv sha xs l 0]"] by simp
qed

lemma width_mono: "l \<le> l' \<Longrightarrow> width n l' \<le> width n l"
  by (induction rule: dec_induct) auto

lemma top_unique:
  assumes "width n d = 1" "first_top n d" "width n d' = 1" "first_top n d'" shows "d = d'"
proof -
  have "\<not> a < b" if "width n a = 1" "first_top n b" for a b
    using that width_mono [of a "b - 1" n] by (cases b) (auto simp: first_top_def)
  then show ?thesis using assms by (meson linorder_neqE_nat)
qed

definition top_ok :: "(bytes \<Rightarrow> bytes) \<Rightarrow> bytes list \<Rightarrow> nat \<Rightarrow> nat \<Rightarrow> nat \<Rightarrow> nat \<Rightarrow> nat \<Rightarrow> branch_state \<Rightarrow> bool" where
  "top_ok sha xs flage p m count l s \<longleftrightarrow>
     count = 2 ^ l * width (length xs) l \<and> first_top (length xs) l \<and>
     cur_ok sha xs (width (length xs) l - 1) l s \<and>
     (wants_branch flage \<longrightarrow> path_ok sha xs p (length xs) m (width (length xs) l - 1) l s)"

lemma not_dvd_up: "\<not> 2 ^ l dvd (n :: nat) \<Longrightarrow> \<not> 2 ^ Suc l dvd n"
  using dvd_down by blast

lemma close_carry:
  assumes "hash_size sha" "\<forall>h\<in>set xs. length h = 32" "pending_ok sha xs (length xs) inner"
    and "0 < length xs" "length xs < 2 ^ 32"
    and "\<not> 2 ^ l dvd length xs" "top_ok sha xs flage p m count l s"
  shows "\<exists>l' s'. carry_loop sha flage False m inner count l s = Inr (l', s') \<and> l \<le> l' \<and>
    \<not> 2 ^ l' dvd length xs \<and> odd (width (length xs) l') \<and> top_ok sha xs flage p m count l' s'"
  using assms(6,7)
proof (induction "width (length xs) l" arbitrary: l s rule: less_induct)
  case less
  let ?n = "length xs" and ?j = "length xs div 2 ^ l"
  have w: "width ?n l = Suc ?j" using less.prems(1) by (rule width_not_dvd)
  have c: "count div 2 ^ l = Suc ?j" using less.prems(2) w by (simp add: top_ok_def)
  show ?case
  proof (cases "odd (Suc ?j)")
    case True
    then show ?thesis using less.prems w c by (simp add: carry_loop.simps [of sha flage False m inner count l])
  next
    case False
    then have j: "odd ?j" by simp
    then have "2 ^ l \<le> ?n" by (metis div_less even_zero not_less)
    then have "(2 :: nat) ^ l < 2 ^ 32" using assms(5) by linarith
    then have l: "l < 32" using power_less_imp_less_exp [of "2 :: nat" l 32] by simp
    let ?s = "carry_step sha flage False m (inner ! l) l s"
    have len: "length inner = 32" using assms(3) by (simp add: pending_ok_def)
    have up: "width ?n (Suc l) - 1 = ?j div 2" "Suc 0 < width ?n l" "width ?n (Suc l) = Suc (?j div 2)"
      using j by (auto simp: w elim!: oddE)
    have step: "cur_ok sha xs (?j div 2) (Suc l) ?s \<and>
        (wants_branch flage \<longrightarrow> path_ok sha xs p ?n m ?j l s \<longrightarrow> path_ok sha xs p ?n m (?j div 2) (Suc l) ?s)"
      using less.prems(2) w j l by (intro carry_step_ok [OF assms(1-3)]) (auto simp: top_ok_def)
    have "count = 2 ^ Suc l * width ?n (Suc l)"
      using less.prems(2) j unfolding top_ok_def up(3) by (auto simp: w elim!: oddE)
    then have "top_ok sha xs flage p m count (Suc l) ?s"
      using step less.prems(2) up unfolding top_ok_def by (simp add: first_top_def w del: power_Suc width.simps)
    moreover have "width ?n (Suc l) < width ?n l" using up(2) by simp
    ultimately obtain l' s' where "carry_loop sha flage False m inner count (Suc l) ?s = Inr (l', s')" "Suc l \<le> l'"
      "\<not> 2 ^ l' dvd ?n" "odd (width ?n l')" "top_ok sha xs flage p m count l' s'"
      using less.hyps [of "Suc l" ?s] not_dvd_up [OF less.prems(1)] by blast
    moreover have "carry_loop sha flage False m inner count l s = carry_loop sha flage False m inner count (Suc l) ?s"
      using False c l len by (subst carry_loop.simps) simp
    ultimately show ?thesis by (metis Suc_leD)
  qed
qed

lemma close_step:
  assumes "hash_size sha" "\<forall>h\<in>set xs. length h = 32" "0 < length xs"
    and "odd (width (length xs) l)" "width (length xs) l \<noteq> 1" "top_ok sha xs flage p m count l s"
    and "wants_branch flage \<Longrightarrow> \<not> matchh s \<Longrightarrow> m \<noteq> l" "p < length xs"
  defines "s1 \<equiv> (if wants_branch flage \<and> matchh s then s\<lparr>branch := branch s @ [cur s]\<rparr> else s)"
  shows "\<exists>h c. GetHashFromTwoHash sha (hcache s1) (cur s1) (cur s1) = (h, c) \<and>
    top_ok sha xs flage p m (count + 2 ^ l) (Suc l) (s1\<lparr>cur := h, hcache := c\<rparr>)"
proof -
  let ?n = "length xs"
  obtain i where i: "width ?n l = Suc (2 * i)" "0 < i" using assms(4,5) by (auto elim: oddE)
  have cur: "cur s = Some (lv sha xs l (2 * i))" "length (hcache s) = 64"
    using assms(6) i by (simp_all add: top_ok_def cur_ok_def)
  have sz: "length (lv sha xs l (2 * i)) = 32" using i by (intro lv_size [OF assms(1,2)]) simp
  have wS: "width ?n (Suc l) = Suc i" by (simp add: i)
  have node: "node sha (lv sha xs l (2 * i)) (lv sha xs l (2 * i)) = lv sha xs (Suc l) i"
    using i wS by (subst lv_Suc) simp_all
  have h: "GetHashFromTwoHash sha (hcache s1) (cur s1) (cur s1) =
      (Some (lv sha xs (Suc l) i), lv sha xs l (2 * i) @ lv sha xs l (2 * i))"
    using cur sz node by (simp add: s1_def GetHashFromTwoHash_node)
  have "path_ok sha xs p ?n m i (Suc l) (s1\<lparr>cur := h, hcache := c\<rparr>)" if w: "wants_branch flage" for h c
  proof -
    have p: "path_ok sha xs p ?n m (2 * i) l s" using assms(6) w i by (simp add: top_ok_def)
    show ?thesis
    proof (cases "matchh s")
      case True
      then have "p div 2 ^ l = 2 * i" "branch s = below sha xs p l" using p by (simp_all add: path_ok_def)
      moreover have "sib sha xs p l = lv sha xs l (2 * i)" using calculation(1) i by (simp add: sib_def)
      ultimately show ?thesis using True w cur by (simp add: path_ok_def s1_def below_Suc div_up del: power_Suc)
    next
      case False
      then show ?thesis using p assms(7) [OF w] assms(8) by (auto simp: path_ok_def s1_def)
    qed
  qed
  moreover have "count + 2 ^ l = 2 ^ Suc l * Suc i" using assms(6) i by (simp add: top_ok_def)
  moreover have "first_top ?n (Suc l)" using i by (simp add: first_top_def)
  ultimately show ?thesis
    unfolding h top_ok_def wS cur_ok_def by (simp add: sz del: power_Suc)
qed

lemma finish_loop_ok:
  assumes "hash_size sha" "\<forall>h\<in>set xs. length h = 32" "pending_ok sha xs (length xs) inner"
    and "p < length xs" "length xs < 2 ^ 32"
    and "odd (width (length xs) l)" "\<not> 2 ^ Suc l dvd length xs" "top_ok sha xs flage p m count l s"
    and "wants_branch flage \<Longrightarrow> \<not> matchh s \<Longrightarrow> m \<noteq> l"
  shows "\<exists>d s'. finish_loop sha flage m inner count l s = Some (Inr s') \<and> mfinal (node sha) xs = [lv sha xs d 0] \<and>
    width (length xs) d = 1 \<and> first_top (length xs) d \<and> cur s' = Some (lv sha xs d 0) \<and> (wants_branch flage \<longrightarrow> branch s' = below sha xs p d)"
  using assms(6-9)
proof (induction "width (length xs) l" arbitrary: l count s rule: less_induct)
  case less
  let ?n = "length xs"
  have n: "0 < ?n" using assms(4) by auto
  show ?case
  proof (cases "width ?n l = 1")
    case True
    have below: "branch s = below sha xs p l" if w: "wants_branch flage"
    proof (cases "matchh s")
      case True
      then show ?thesis using less.prems(3) w by (simp add: top_ok_def path_ok_def)
    next
      case False
      have "l \<le> m" "odd (?n div 2 ^ m)" using less.prems(3) w False assms(4) by (simp_all add: top_ok_def path_ok_def)
      moreover have "l < m" using calculation(1) less.prems(4) [OF w False] by simp
      moreover have "?n div 2 ^ l \<le> 1" using True by (auto simp: width_eq split: if_splits)
      moreover have "?n div 2 ^ m = ?n div 2 ^ l div 2 ^ (m - l)"
        using \<open>l \<le> m\<close> by (simp flip: div_mult2_eq power_add)
      moreover have "(2 :: nat) \<le> 2 ^ (m - l)" using \<open>l < m\<close> self_le_power [of "2 :: nat" "m - l"] by simp
      ultimately show ?thesis by simp
    qed
    have "finish_loop sha flage m inner count l s = Some (Inr s)"
      using True less.prems(3) by (subst finish_loop.simps) (simp add: top_ok_def)
    then show ?thesis
      using True less.prems(3) below mfinal_top [of xs l sha] by (auto simp: top_ok_def cur_ok_def intro!: exI [of _ l])
  next
    case False
    define s1 where "s1 = (if wants_branch flage \<and> matchh s then s\<lparr>branch := branch s @ [cur s]\<rparr> else s)"
    obtain h c where h: "GetHashFromTwoHash sha (hcache s1) (cur s1) (cur s1) = (h, c)"
      and top: "top_ok sha xs flage p m (count + 2 ^ l) (Suc l) (s1\<lparr>cur := h, hcache := c\<rparr>)"
      using close_step [OF assms(1,2) n less.prems(1) False less.prems(3,4) assms(4)] unfolding s1_def by blast
    obtain l' s' where c': "carry_loop sha flage False m inner (count + 2 ^ l) (Suc l) (s1\<lparr>cur := h, hcache := c\<rparr>) = Inr (l', s')"
      "Suc l \<le> l'" "\<not> 2 ^ l' dvd ?n" "odd (width ?n l')" "top_ok sha xs flage p m (count + 2 ^ l) l' s'"
      using close_carry [OF assms(1-3) n assms(5) less.prems(2) top] by blast
    have "count \<noteq> 2 ^ l" using False less.prems(3) by (simp add: top_ok_def)
    then have step: "finish_loop sha flage m inner count l s = finish_loop sha flage m inner (count + 2 ^ l) l' s'"
      using h c'(1) by (subst finish_loop.simps) (simp add: s1_def)
    have "even (?n div 2 ^ l')" using c'(3,4) by (simp add: width_not_dvd)
    then have "m \<noteq> l'" if "wants_branch flage" "\<not> matchh s'"
      using c'(5) that assms(4) by (auto simp: top_ok_def path_ok_def)
    moreover have "width ?n l' < width ?n l"
    proof -
      have "width ?n l' \<le> width ?n (Suc l)" using c'(2)
        by (induction rule: dec_induct) auto
      moreover have "width ?n (Suc l) < width ?n l" using less.prems(1) False by (auto elim!: oddE)
      ultimately show ?thesis by linarith
    qed
    ultimately show ?thesis
      unfolding step using c' not_dvd_up [OF c'(3)] by (intro less.hyps) auto
  qed
qed

lemma lowest_bit_ok:
  "0 < n \<Longrightarrow> 2 ^ lowest_bit n dvd n \<and> odd (n div 2 ^ lowest_bit n)"
proof (induction n rule: lowest_bit.induct)
  case (1 n)
  show ?case
  proof (cases "odd n")
    case False
    then have "2 ^ lowest_bit (n div 2) dvd n div 2 \<and> odd (n div 2 div 2 ^ lowest_bit (n div 2))"
      using 1 by (auto elim!: evenE)
    then show ?thesis using False 1(2)
      by (simp add: lowest_bit.simps [of n] div_mult2_eq) (metis dvd_div_iff_mult dvd_mult_div_cancel mult_dvd_mono dvd_refl)
  qed (simp add: lowest_bit.simps [of n])
qed

text \<open>
  The whole computation: with less than \<open>2 ^ 32\<close> leaves of 32 bytes it returns, without a
  panic, the last node of the tree and, where a branch is asked for, the siblings of the leaf.
\<close>

lemma Computation_ok:
  assumes "hash_size sha" "\<forall>h\<in>set xs. length h = 32" "p < length xs" "length xs < 2 ^ 32" "1 \<le> flage" "flage \<le> 3"
  shows "\<exists>d mut br. Computation sha (map Some xs) flage p = Some (Inr (Some (lv sha xs d 0), mut, br)) \<and>
    mfinal (node sha) xs = [lv sha xs d 0] \<and> width (length xs) d = 1 \<and> first_top (length xs) d \<and> (2 \<le> flage \<longrightarrow> br = below sha xs p d)"
proof -
  let ?n = "length xs" and ?l = "lowest_bit (length xs)"
  let ?s0 = "\<lparr>cur = None, matchh = False, mutated = False, branch = [], hcache = replicate 64 0\<rparr>"
  have n: "0 < ?n" using assms(3) by auto
  have "pending_ok sha xs 0 (replicate 32 None)" by (simp add: pending_ok_def)
  moreover have "leaf_ok sha xs p 0 255 ?s0" by (simp add: leaf_ok_def)
  ultimately obtain inner m s1 where
    lv: "leaves_loop sha (nat flage) p (map Some xs) 0 (replicate 32 None) 255 ?s0 = Inr (inner, m, s1)"
    "pending_ok sha xs ?n inner" "length (hcache s1) = 64" "wants_branch (nat flage) \<longrightarrow> leaf_ok sha xs p ?n m s1"
    using leaves_loop_ok [OF assms(1,2,4), of xs 0 "replicate 32 None" ?s0 "nat flage" p 255] by auto
  note lb = lowest_bit_ok [OF n]
  have w: "width ?n ?l = ?n div 2 ^ ?l" using lb by (simp add: width_dvd)
  have l: "?l < 32"
  proof -
    have "2 ^ ?l \<le> ?n" using lb n by (simp add: dvd_imp_le)
    then have "(2 :: nat) ^ ?l < 2 ^ 32" using assms(4) by linarith
    then show ?thesis using power_less_imp_less_exp [of "2 :: nat" ?l 32] by simp
  qed
  define s2 where "s2 = s1\<lparr>cur := inner ! ?l, matchh := (m = ?l)\<rparr>"
  have cur: "inner ! ?l = Some (lv sha xs ?l (width ?n ?l - 1))" using lv(2) l lb w by (simp add: pending_ok_def)
  have low: "?l \<le> i" if "odd (?n div 2 ^ i)" for i
  proof (rule ccontr)
    assume "\<not> ?l \<le> i"
    then have "2 ^ Suc i dvd ?n" using lb dvd_trans [OF le_imp_power_dvd [of "Suc i" ?l 2]] by auto
    then show False using that dvd_up dvd_down by blast
  qed
  have path: "path_ok sha xs p ?n m (width ?n ?l - 1) ?l s2" if "wants_branch (nat flage)"
    using lv(4) that assms(3) low w by (auto simp: leaf_ok_def path_ok_def s2_def)
  have first: "first_top ?n ?l"
  proof (cases "?l = 0")
    case False
    then obtain i where i: "?l = Suc i" by (cases ?l) auto
    then have "width ?n (Suc i) = ?n div 2 ^ Suc i" "0 < ?n div 2 ^ Suc i" "2 ^ i dvd ?n" "even (?n div 2 ^ i)"
      using w lb dvd_down [of i ?n] dvd_up [of i ?n] by (auto simp: odd_pos simp del: power_Suc width.simps)
    then show ?thesis unfolding first_top_def i
      by (auto simp: width_dvd div_up simp del: power_Suc elim!: evenE)
  qed (simp add: first_top_def)
  have "?n = 2 ^ ?l * width ?n ?l" using lb w by simp
  then have "top_ok sha xs (nat flage) p m ?n ?l s2"
    using first path cur lv(3) by (simp add: top_ok_def cur_ok_def s2_def)
  moreover have "\<not> 2 ^ Suc ?l dvd ?n" using lb dvd_up by blast
  ultimately obtain d s' where f: "finish_loop sha (nat flage) m inner ?n ?l s2 = Some (Inr s')"
    "mfinal (node sha) xs = [lv sha xs d 0]" "width ?n d = 1" "first_top ?n d" "cur s' = Some (lv sha xs d 0)"
    "wants_branch (nat flage) \<longrightarrow> branch s' = below sha xs p d"
    using finish_loop_ok [OF assms(1,2) lv(2) assms(3,4), of ?l "nat flage" m ?n s2] lb w by (auto simp: s2_def)
  have "wants_branch (nat flage)" if "2 \<le> flage"
  proof -
    have "nat flage = 2 \<or> nat flage = 3" using that assms(6) by linarith
    then show ?thesis by (auto simp: wants_branch_def)
  qed
  moreover have "length inner = 32" using lv(2) by (simp add: pending_ok_def)
  ultimately show ?thesis
    using f lv(1) l n assms(5,6) by (auto simp: Computation_def s2_def)
qed

section \<open>Properties of branches\<close>

text \<open>
  C31. The constant-space calculator agrees with the level-by-level root: for 1 to
  \<open>2 ^ 32 - 1\<close> hashes of 32 bytes \<^verbatim>\<open>Computation\<close> returns, without panic, the root that
  \<^verbatim>\<open>getMerkleRoot\<close> computes, in each of its three modes.
\<close>

theorem Computation_root:
  assumes "hash_size sha" "\<forall>h\<in>set xs. length h = 32" "p < length xs" "length xs < 2 ^ 32" "flage \<in> {1, 2, 3}"
  shows "\<exists>mut br. Computation sha (map Some xs) flage p = Some (Inr (getMerkleRoot sha (map Some xs), mut, br))"
  using Computation_ok [OF assms(1-4), of flage] assms(5) getMerkleRoot_node [OF assms(1,2)] by fastforce

definition demo_leaves :: "bytes list" where
  "demo_leaves = map (\<lambda>n. replicate 32 n) [1, 2, 3, 4, 5]"

lemma demo_leaves_ok: "hash_size (\<lambda>x. take 32 (drop 16 x @ replicate 32 0))" "\<forall>h\<in>set demo_leaves. length h = 32"
  "length demo_leaves = 5"
  by (auto simp: hash_size_def demo_leaves_def)

theorem Computation_root_witness:
  "\<exists>mut br. Computation (\<lambda>x. take 32 (drop 16 x @ replicate 32 0)) (map Some demo_leaves) 3 4 =
     Some (Inr (getMerkleRoot (\<lambda>x. take 32 (drop 16 x @ replicate 32 0)) (map Some demo_leaves), mut, br))"
  using demo_leaves_ok by (intro Computation_root) simp_all

text \<open>
  C30. A branch proves its leaf: the root recomputed by \<^verbatim>\<open>GetMerkleRootFromBranch\<close> from a leaf
  and the branch that \<^verbatim>\<open>GetMerkleBranch\<close> returns for its position is the Merkle root of the
  whole list, and \<^verbatim>\<open>GetMerkleRootAndBranch\<close> returns the same root and branch together.
\<close>

theorem GetMerkleBranch_proves:
  assumes "hash_size sha" "\<forall>h\<in>set xs. length h = 32" "p < length xs" "length xs < 2 ^ 32"
  shows "\<exists>br. GetMerkleBranch sha (map Some xs) p = Some (Inr br) \<and>
    GetMerkleRootAndBranch sha (map Some xs) p = Some (Inr (getMerkleRoot sha (map Some xs), br)) \<and>
    GetMerkleRootFromBranch sha br (Some (xs ! p)) p = getMerkleRoot sha (map Some xs)"
proof -
  obtain d mut br where c2: "Computation sha (map Some xs) 2 p = Some (Inr (Some (lv sha xs d 0), mut, br))"
    "mfinal (node sha) xs = [lv sha xs d 0]" "width (length xs) d = 1" "first_top (length xs) d" "br = below sha xs p d"
    using Computation_ok [OF assms, of 2] by auto
  obtain d' mut' br' where c3: "Computation sha (map Some xs) 3 p = Some (Inr (Some (lv sha xs d' 0), mut', br'))"
    "width (length xs) d' = 1" "first_top (length xs) d'" "br' = below sha xs p d'"
    using Computation_ok [OF assms, of 3] by auto
  have d: "d' = d" using top_unique c2(3,4) c3(2,3) by blast
  have root: "getMerkleRoot sha (map Some xs) = Some (lv sha xs d 0)"
    using getMerkleRoot_node [OF assms(1,2)] c2(2) by simp
  have "p div 2 ^ d < width (length xs) d" using assms(3) by (rule div_less_width)
  then have "root_from_branch sha (replicate 64 0) (below sha xs p d) (Some (xs ! p)) p = Some (lv sha xs d 0)"
    using root_from_branch_up [OF assms(1-3), of "replicate 64 0" 0 d] c2(3) by (simp add: below_def)
  then show ?thesis
    using c2 c3 d root by (simp add: GetMerkleBranch_def GetMerkleRootAndBranch_def GetMerkleRootFromBranch_def)
qed

theorem GetMerkleBranch_proves_witness:
  "\<exists>br. GetMerkleBranch (\<lambda>x. take 32 (drop 16 x @ replicate 32 0)) (map Some demo_leaves) 4 = Some (Inr br) \<and>
     GetMerkleRootFromBranch (\<lambda>x. take 32 (drop 16 x @ replicate 32 0)) br (Some (replicate 32 5)) 4 =
       getMerkleRoot (\<lambda>x. take 32 (drop 16 x @ replicate 32 0)) (map Some demo_leaves)"
proof -
  have "demo_leaves ! 4 = replicate 32 5" by (simp add: demo_leaves_def)
  then show ?thesis using GetMerkleBranch_proves [OF demo_leaves_ok(1,2), of 4] demo_leaves_ok(3) by auto
qed

text \<open>
  A root commits to its leaf. The first pair of different 64-byte blocks with one hash, if any,
  is read off the two walks.
\<close>

lemma root_from_branch_binds:
  assumes "hash_size sha" "length bs = length bs'" "length c = 64" "length c' = 64"
    and "length x = 32" "length y = 32" "\<forall>b\<in>set bs. length b = 32" "\<forall>b\<in>set bs'. length b = 32"
    and "root_from_branch sha c (map Some bs) (Some x) p = root_from_branch sha c' (map Some bs') (Some y) p"
  shows "(x = y \<and> bs = bs') \<or> (\<exists>u v. u \<noteq> v \<and> length u = 64 \<and> length v = 64 \<and> sha u = sha v)"
  using assms(2-)
proof (induction bs bs' arbitrary: c c' x y p rule: list_induct2)
  case (Cons b bs b' bs')
  define u where "u = (if odd p then b @ x else x @ b)"
  define v where "v = (if odd p then b' @ y else y @ b')"
  have sz: "length u = 64" "length v = 64" "length (sha u) = 32" "length (sha v) = 32"
    using Cons.prems assms(1) by (simp_all add: u_def v_def hash_size_def)
  have "root_from_branch sha u (map Some bs) (Some (sha u)) (p div 2) = root_from_branch sha v (map Some bs') (Some (sha v)) (p div 2)"
    using Cons.prems by (simp add: u_def v_def GetHashFromTwoHash_node split: if_splits)
  with Cons.IH [of u v "sha u" "sha v" "p div 2"] Cons.prems sz
  consider "sha u = sha v" "bs = bs'" | "\<exists>u v. u \<noteq> v \<and> length u = 64 \<and> length v = 64 \<and> sha u = sha v" by auto
  then show ?case
  proof cases
    case 1
    have "x = y \<and> b = b'" if "u = v"
      using that Cons.prems unfolding u_def v_def by (auto split: if_splits)
    then show ?thesis using 1 sz by blast
  qed blast
qed simp

text \<open>
  Soundness of branches: if two leaves of 32 bytes, with branches of equal length, lead at the
  same position to the same root, then leaf and branch are the same, or two different 64-byte
  blocks with the same SHA-256 have been found. A branch of the tree's depth that is accepted for
  position \<open>p\<close> therefore proves the leaf at \<open>p\<close> and nothing else.
\<close>

theorem GetMerkleRootFromBranch_sound:
  assumes "hash_size sha" "length bs = length bs'" "length x = 32" "length y = 32"
    and "\<forall>b\<in>set bs. length b = 32" "\<forall>b\<in>set bs'. length b = 32"
    and "GetMerkleRootFromBranch sha (map Some bs) (Some x) p = GetMerkleRootFromBranch sha (map Some bs') (Some y) p"
  shows "(x = y \<and> bs = bs') \<or> (\<exists>u v. u \<noteq> v \<and> length u = 64 \<and> length v = 64 \<and> sha u = sha v)"
  using assms(7) root_from_branch_binds [OF assms(1,2) _ _ assms(3-6), where c = "replicate 64 0" and c' = "replicate 64 0"]
  unfolding GetMerkleRootFromBranch_def by simp

theorem GetMerkleRootFromBranch_sound_witness:
  "\<exists>u v :: bytes. u \<noteq> v \<and> length u = 64 \<and> length v = 64 \<and> take 32 (drop 16 u @ replicate 32 0) = take 32 (drop 16 v @ replicate 32 0)"
proof -
  let ?sha = "\<lambda>x. take 32 (drop 16 x @ replicate 32 (0 :: 8 word))" and ?b = "[replicate 32 (1 :: 8 word)]"
  have "GetMerkleRootFromBranch ?sha (map Some ?b) (Some (replicate 32 0)) 0 =
      GetMerkleRootFromBranch ?sha (map Some ?b) (Some (7 # replicate 31 0)) 0" by code_simp
  from GetMerkleRootFromBranch_sound [OF demo_leaves_ok(1) refl _ _ _ _ this] have
    "(replicate 32 0 = 7 # replicate 31 (0 :: 8 word) \<and> ?b = ?b) \<or>
     (\<exists>u v. u \<noteq> v \<and> length u = 64 \<and> length v = 64 \<and> ?sha u = ?sha v)" by simp
  moreover have "hd (replicate 32 0) \<noteq> hd (7 # replicate 31 (0 :: 8 word))" by code_simp
  ultimately show ?thesis by fastforce
qed

end
