(* ===== verification/Block_Index.thy ===== *)
theory Block_Index
  imports Blocks Difficulty
begin

text \<open>
  \<^verbatim>\<open>blockchain/blockindex.go\<close> and \<^verbatim>\<open>blockchain/chainview.go\<close>: the tree of known
  blocks and the view of its best branch.

  Block nodes are shared by pointer and changed in place (an evicted node loses its parent,
  a node executed by this process gets its final hash), so the model has a heap
  \<open>nat \<Rightarrow> blockNode\<close> and pointers are addresses. A \<^verbatim>\<open>list.Element\<close> is a pair of an
  identity and the pointer it holds. A node is allocated after its parent, so parent addresses
  decrease (\<open>wf_heap\<close>) and the branch of a node has at most as many nodes as its address
  says: \<open>branch\<close> walks it with that fuel, and the Go loops along \<^verbatim>\<open>parent\<close> are
  searches in it.
\<close>

section \<open>Nodes\<close>

record blockNode =
  parent :: "nat option"
  nhash :: bytes
  nDifficulty :: int
  nheight :: int
  statehash :: bytes
  broadcast :: bool
  pid :: string
  nsequence :: int
  nBlockTime :: int
  errLog :: "go_error option"

type_synonym heap = "nat \<Rightarrow> blockNode"

definition newBlockNode ::
  "hash_env \<Rightarrow> bool \<Rightarrow> 'tx block \<Rightarrow> string \<Rightarrow> int \<Rightarrow> blockNode" where
  "newBlockNode henv bc b p sq =
     \<lparr>parent = None, nhash = Hash henv b, nDifficulty = CalcWork (Difficulty b), nheight = Height b,
      statehash = StateHash b, broadcast = bc, pid = p, nsequence = sq, nBlockTime = BlockTime b,
      errLog = None\<rparr>"

definition newBlockNodeByHeader :: "bool \<Rightarrow> header \<Rightarrow> string \<Rightarrow> int \<Rightarrow> blockNode" where
  "newBlockNodeByHeader bc h p sq =
     \<lparr>parent = None, nhash = hHash h, nDifficulty = CalcWork (hDifficulty h), nheight = hHeight h,
      statehash = hStateHash h, broadcast = bc, pid = p, nsequence = sq, nBlockTime = hBlockTime h,
      errLog = None\<rparr>"

definition newPreGenBlockNode :: blockNode where
  "newPreGenBlockNode =
     \<lparr>parent = None, nhash = replicate 32 0, nDifficulty = -1, nheight = -1,
      statehash = replicate 32 0, broadcast = False, pid = ''self'', nsequence = 0, nBlockTime = 0,
      errLog = None\<rparr>"

fun branch_fuel :: "heap \<Rightarrow> nat \<Rightarrow> nat option \<Rightarrow> nat list" where
  "branch_fuel hp 0 n = []"
| "branch_fuel hp (Suc f) None = []"
| "branch_fuel hp (Suc f) (Some n) = n # branch_fuel hp f (parent (hp n))"

definition branch :: "heap \<Rightarrow> nat \<Rightarrow> nat list" where
  "branch hp n = branch_fuel hp (Suc n) (Some n)"

definition Ancestor :: "heap \<Rightarrow> nat \<Rightarrow> int \<Rightarrow> nat option" where
  "Ancestor hp node h =
     (if h < 0 \<or> h > nheight (hp node) then None
      else find (\<lambda>n. nheight (hp n) = h) (branch hp node))"

definition RelativeAncestor :: "heap \<Rightarrow> nat \<Rightarrow> int \<Rightarrow> nat option" where
  "RelativeAncestor hp node distance = Ancestor hp node (i64 (nheight (hp node) - distance))"

section \<open>The index\<close>

type_synonym elem = "nat \<times> nat"

record blockIndex =
  index :: "bytes \<rightharpoonup> elem"
  cacheQueue :: "elem list"
  nextElem :: nat

definition indexCacheLimit :: nat where "indexCacheLimit = 102400"

definition newBlockIndex :: blockIndex where
  "newBlockIndex = \<lparr>index = Map.empty, cacheQueue = [], nextElem = 0\<rparr>"

definition HaveBlock :: "blockIndex \<Rightarrow> bytes \<Rightarrow> bool" where
  "HaveBlock bi h \<longleftrightarrow> index bi h \<noteq> None"

definition LookupNode :: "blockIndex \<Rightarrow> bytes \<Rightarrow> nat option" where
  "LookupNode bi h = map_option snd (index bi h)"

definition clear_parent :: "heap \<Rightarrow> nat \<Rightarrow> heap" where
  "clear_parent hp n = hp(n := (hp n)\<lparr>parent := None\<rparr>)"

definition AddNode :: "heap \<Rightarrow> blockIndex \<Rightarrow> nat \<Rightarrow> heap \<times> blockIndex" where
  "AddNode hp bi node =
     (let el = (nextElem bi, node);
          bi1 = bi\<lparr>cacheQueue := cacheQueue bi @ [el], nextElem := Suc (nextElem bi),
                   index := (index bi)(nhash (hp node) \<mapsto> el)\<rparr>
      in if length (cacheQueue bi1) > indexCacheLimit then
           let delnode = snd (hd (cacheQueue bi1));
               hp1 = clear_parent hp delnode
           in (hp1, bi1\<lparr>cacheQueue := tl (cacheQueue bi1),
                        index := (index bi1)(nhash (hp1 delnode) := None)\<rparr>)
         else (hp, bi1))"

definition UpdateNode :: "heap \<Rightarrow> blockIndex \<Rightarrow> bytes \<Rightarrow> nat \<Rightarrow> bool \<times> blockIndex" where
  "UpdateNode hp bi h node =
     (case index bi h of
        None \<Rightarrow> (False, bi)
      | Some el \<Rightarrow>
          let el' = (fst el, node)
          in (True, bi\<lparr>cacheQueue := map (\<lambda>x. if fst x = fst el then el' else x) (cacheQueue bi),
                       index := ((index bi)(h := None))(nhash (hp node) \<mapsto> el')\<rparr>))"

definition DelNode :: "heap \<Rightarrow> blockIndex \<Rightarrow> bytes \<Rightarrow> heap \<times> blockIndex" where
  "DelNode hp bi h =
     (case index bi h of
        None \<Rightarrow> (hp, bi)
      | Some el \<Rightarrow>
          (clear_parent hp (snd el),
           bi\<lparr>cacheQueue := filter (\<lambda>x. fst x \<noteq> fst el) (cacheQueue bi), index := (index bi)(h := None)\<rparr>))"

section \<open>The view of the best branch\<close>

record chainView =
  vnodes :: "int \<rightharpoonup> elem"
  vqueue :: "elem list"
  vnext :: nat

definition blockNodeCacheLimit :: nat where "blockNodeCacheLimit = 10240"

definition tip :: "chainView \<Rightarrow> nat option" where
  "tip c = (case vqueue c of [] \<Rightarrow> None | el # _ \<Rightarrow> Some (snd el))"

definition push_tip :: "heap \<Rightarrow> chainView \<Rightarrow> nat \<Rightarrow> chainView" where
  "push_tip hp c node =
     (let el = (vnext c, node);
          c1 = c\<lparr>vqueue := el # vqueue c, vnext := Suc (vnext c),
                 vnodes := (vnodes c)(nheight (hp node) \<mapsto> el)\<rparr>
      in if length (vqueue c1) > blockNodeCacheLimit
         then c1\<lparr>vqueue := butlast (vqueue c1),
                 vnodes := (vnodes c1)(nheight (hp (snd (last (vqueue c1)))) := None)\<rparr>
         else c1)"

definition setTip :: "heap \<Rightarrow> chainView \<Rightarrow> nat \<Rightarrow> chainView" where
  "setTip hp c node =
     (if vqueue c \<noteq> [] \<and> parent (hp node) \<noteq> tip c then c else push_tip hp c node)"

definition newChainView :: "heap \<Rightarrow> nat \<Rightarrow> chainView" where
  "newChainView hp tp = setTip hp \<lparr>vnodes = Map.empty, vqueue = [], vnext = 0\<rparr> tp"

text \<open>When the view is empty, \<^verbatim>\<open>delTip\<close> reads the height of a nil tip for its log: a panic.\<close>

definition delTip :: "heap \<Rightarrow> chainView \<Rightarrow> nat \<Rightarrow> go_error + chainView" where
  "delTip hp c node =
     (if tip c = None then Inl GoPanic
      else case vnodes c (nheight (hp node)) of
        None \<Rightarrow> Inr c
      | Some el \<Rightarrow>
          Inr (c\<lparr>vqueue := filter (\<lambda>x. fst x \<noteq> fst el) (vqueue c),
                 vnodes := (vnodes c)(nheight (hp (snd el)) := None)\<rparr>))"

definition vheight :: "heap \<Rightarrow> chainView \<Rightarrow> int" where
  "vheight hp c = (case tip c of None \<Rightarrow> -1 | Some n \<Rightarrow> nheight (hp n))"

definition nodeByHeight :: "heap \<Rightarrow> chainView \<Rightarrow> int \<Rightarrow> nat option" where
  "nodeByHeight hp c h =
     (if h < 0 \<or> h > vheight hp c then None else map_option snd (vnodes c h))"

definition view_contains :: "heap \<Rightarrow> chainView \<Rightarrow> nat \<Rightarrow> bool" where
  "view_contains hp c node \<longleftrightarrow> nodeByHeight hp c (nheight (hp node)) = Some node"

definition view_next :: "heap \<Rightarrow> chainView \<Rightarrow> nat option \<Rightarrow> nat option" where
  "view_next hp c node =
     (case node of
        None \<Rightarrow> None
      | Some n \<Rightarrow> if \<not> view_contains hp c n then None else nodeByHeight hp c (i64 (nheight (hp n) + 1)))"

definition findFork :: "heap \<Rightarrow> chainView \<Rightarrow> nat option \<Rightarrow> nat option" where
  "findFork hp c node =
     (case node of
        None \<Rightarrow> None
      | Some n \<Rightarrow>
          let start = (if nheight (hp n) > vheight hp c then Ancestor hp n (vheight hp c) else Some n)
          in (case start of None \<Rightarrow> None | Some m \<Rightarrow> find (view_contains hp c) (branch hp m)))"

definition view_HaveBlock :: "heap \<Rightarrow> chainView \<Rightarrow> bytes \<Rightarrow> int \<Rightarrow> bool" where
  "view_HaveBlock hp c h ht =
     (case nodeByHeight hp c ht of None \<Rightarrow> False | Some n \<Rightarrow> h = nhash (hp n))"

section \<open>Branches\<close>

definition wf_heap :: "heap \<Rightarrow> bool" where
  "wf_heap hp \<longleftrightarrow> (\<forall>n p. parent (hp n) = Some p \<longrightarrow> p < n \<and> nheight (hp n) = nheight (hp p) + 1)"

lemma branch_fuel_enough:
  assumes "wf_heap hp" "n < f"
  shows "branch_fuel hp f (Some n) = branch hp n"
  using assms(2)
proof (induction n arbitrary: f rule: less_induct)
  case (less n)
  obtain g where f: "f = Suc g" "n \<le> g" using less.prems by (cases f) auto
  show ?case
  proof (cases "parent (hp n)")
    case None
    then show ?thesis using f by (cases g; cases n) (simp_all add: branch_def)
  next
    case (Some p)
    then have "p < n" using assms(1) by (auto simp: wf_heap_def)
    with less.IH [of p g] less.IH [of p n] f Some show ?thesis by (simp add: branch_def)
  qed
qed

lemma branch_rec:
  assumes "wf_heap hp"
  shows "branch hp n = n # (case parent (hp n) of None \<Rightarrow> [] | Some p \<Rightarrow> branch hp p)"
proof (cases "parent (hp n)")
  case None
  then show ?thesis by (cases n) (simp_all add: branch_def)
next
  case (Some p)
  then have "p < n" using assms by (auto simp: wf_heap_def)
  with Some branch_fuel_enough [OF assms, of p n] show ?thesis by (simp add: branch_def)
qed

lemma find_skip: "find P xs = None \<Longrightarrow> find P (xs @ ys) = find P ys"
  by (induction xs) (auto split: if_splits)

lemma branch_nonempty [simp]: "branch hp n \<noteq> []" "hd (branch hp n) = n"
  by (simp_all add: branch_def)

lemma branch_heights:
  assumes "wf_heap hp"
  shows "m \<in> set (branch hp n) \<Longrightarrow> m \<le> n \<and> nheight (hp m) \<le> nheight (hp n) \<and> (m \<noteq> n \<longrightarrow> nheight (hp m) < nheight (hp n))"
proof (induction n arbitrary: m rule: less_induct)
  case (less n)
  show ?case
  proof (cases "parent (hp n)")
    case (Some p)
    then have p: "p < n" "nheight (hp n) = nheight (hp p) + 1" using assms by (auto simp: wf_heap_def)
    with less.IH [OF p(1), of m] less.prems Some show ?thesis by (auto simp: branch_rec [OF assms, of n])
  qed (use less.prems in \<open>simp add: branch_rec [OF assms, of n]\<close>)
qed

lemma distinct_branch: "wf_heap hp \<Longrightarrow> distinct (branch hp n)"
proof (induction n rule: less_induct)
  case (less n)
  show ?case
  proof (cases "parent (hp n)")
    case (Some p)
    then have "p < n" using less.prems by (auto simp: wf_heap_def)
    with less.IH [OF this less.prems] branch_heights [OF less.prems, of n p] Some
    show ?thesis by (auto simp: branch_rec [OF less.prems, of n])
  qed (simp add: branch_rec [OF less.prems, of n])
qed

text \<open>The branch of an ancestor is the rest of the branch.\<close>

lemma find_branch:
  assumes "wf_heap hp" "find P (branch hp n) = Some m"
  shows "\<exists>xs. branch hp n = xs @ branch hp m \<and> (\<forall>x\<in>set xs. \<not> P x)"
  using assms(2)
proof (induction n rule: less_induct)
  case (less n)
  show ?case
  proof (cases "P n")
    case True
    with less.prems have "m = n" by (simp add: branch_rec [OF assms(1), of n])
    then show ?thesis by auto
  next
    case False
    with less.prems obtain p where p: "parent (hp n) = Some p" "find P (branch hp p) = Some m"
      by (auto simp: branch_rec [OF assms(1), of n] split: option.splits)
    then have "p < n" using assms(1) by (auto simp: wf_heap_def)
    from less.IH [OF this p(2)] obtain xs where "branch hp p = xs @ branch hp m" "\<forall>x\<in>set xs. \<not> P x" by blast
    with False p show ?thesis by (intro exI [of _ "n # xs"]) (simp add: branch_rec [OF assms(1), of n])
  qed
qed

lemma branch_above:
  assumes "wf_heap hp" "branch hp n = xs @ branch hp m" "x \<in> set xs"
  shows "nheight (hp x) > nheight (hp m)"
  using assms(2,3)
proof (induction xs arbitrary: n)
  case (Cons y xs)
  have y: "y = n" using arg_cong [OF Cons.prems(1), of hd] by simp
  have "branch hp m \<noteq> []" by simp
  then obtain p where p: "parent (hp n) = Some p" "branch hp p = xs @ branch hp m"
    using Cons.prems(1) y by (cases "parent (hp n)") (auto simp: branch_rec [OF assms(1), of n])
  show ?case
  proof (cases "x = n")
    case True
    have "m \<in> set (branch hp n)" using Cons.prems(1) by (simp add: branch_rec [OF assms(1), of m])
    moreover have "m \<noteq> n"
      using distinct_branch [OF assms(1), of n] Cons.prems(1) y by (auto simp: branch_rec [OF assms(1), of m])
    ultimately show ?thesis using True branch_heights [OF assms(1), of m n] by simp
  next
    case False
    with Cons.IH [OF p(2)] Cons.prems(2) y show ?thesis by simp
  qed
qed simp

section \<open>Well-formed views\<close>

fun linked :: "heap \<Rightarrow> nat list \<Rightarrow> bool" where
  "linked hp (a # b # ns) = (parent (hp a) = Some b \<and> linked hp (b # ns))"
| "linked hp _ = True"

definition wf_view :: "heap \<Rightarrow> chainView \<Rightarrow> bool" where
  "wf_view hp c \<longleftrightarrow> wf_heap hp \<and> linked hp (map snd (vqueue c)) \<and>
     distinct (map fst (vqueue c)) \<and> (\<forall>el\<in>set (vqueue c). fst el < vnext c) \<and>
     (\<forall>h el. vnodes c h = Some el \<longleftrightarrow> el \<in> set (vqueue c) \<and> nheight (hp (snd el)) = h)"

lemma linked_branch: "wf_heap hp \<Longrightarrow> linked hp (n # ns) \<Longrightarrow> \<exists>rest. branch hp n = n # ns @ rest"
proof (induction ns arbitrary: n)
  case Nil
  then show ?case by (simp add: branch_rec)
next
  case (Cons b ns)
  then obtain rest where "branch hp b = b # ns @ rest" by auto
  with Cons.prems show ?case by (simp add: branch_rec [OF Cons.prems(1), of n])
qed

lemma linked_append: "linked hp (xs @ ys) \<Longrightarrow> linked hp xs \<and> linked hp ys"
  by (induction hp xs rule: linked.induct; cases ys) auto

lemma view_branch:
  assumes "wf_view hp c" "tip c = Some t"
  shows "\<exists>rest. branch hp t = map snd (vqueue c) @ rest"
proof (cases "vqueue c")
  case (Cons el q)
  then show ?thesis
    using assms linked_branch [of hp t "map snd q"] by (auto simp: wf_view_def tip_def)
qed (use assms in \<open>simp add: tip_def\<close>)

lemma view_queue_heights:
  assumes "wf_view hp c" "n \<in> set (map snd (vqueue c))"
  shows "nheight (hp n) \<le> vheight hp c"
proof (cases "tip c")
  case None
  then show ?thesis using assms(2) by (simp add: tip_def split: list.splits)
next
  case (Some t)
  obtain rest where "branch hp t = map snd (vqueue c) @ rest" using view_branch [OF assms(1) Some] by blast
  then have "n \<in> set (branch hp t)" using assms(2) by simp
  with branch_heights [of hp n t] assms(1) Some show ?thesis by (auto simp: vheight_def wf_view_def)
qed

lemma view_contains_iff:
  assumes "wf_view hp c"
  shows "view_contains hp c n \<longleftrightarrow> n \<in> set (map snd (vqueue c)) \<and> 0 \<le> nheight (hp n)"
proof
  assume "view_contains hp c n"
  then show "n \<in> set (map snd (vqueue c)) \<and> 0 \<le> nheight (hp n)"
    using assms by (force simp: view_contains_def nodeByHeight_def wf_view_def split: if_splits)
next
  assume n: "n \<in> set (map snd (vqueue c)) \<and> 0 \<le> nheight (hp n)"
  then obtain el where "el \<in> set (vqueue c)" "snd el = n" by auto
  then have "vnodes c (nheight (hp n)) = Some el" using assms unfolding wf_view_def by blast
  with n \<open>snd el = n\<close> view_queue_heights [OF assms, of n] show "view_contains hp c n"
    by (auto simp: view_contains_def nodeByHeight_def)
qed

lemma branch_covers:
  assumes "wf_heap hp" "m \<in> set (branch hp n)" "nheight (hp m) \<le> h" "h \<le> nheight (hp n)"
  shows "\<exists>x\<in>set (branch hp n). nheight (hp x) = h"
  using assms(2-4)
proof (induction n rule: less_induct)
  case (less n)
  show ?case
  proof (cases "h = nheight (hp n)")
    case True
    then show ?thesis by (auto simp: branch_rec [OF assms(1), of n])
  next
    case False
    then have "m \<noteq> n" using less.prems by auto
    then obtain p where p: "parent (hp n) = Some p" "m \<in> set (branch hp p)"
      using less.prems(1) by (cases "parent (hp n)") (auto simp: branch_rec [OF assms(1), of n])
    then have "p < n" "nheight (hp n) = nheight (hp p) + 1" using assms(1) by (auto simp: wf_heap_def)
    with less.IH [of p] less.prems p False show ?thesis by (auto simp: branch_rec [OF assms(1), of n])
  qed
qed

lemma findFork_eq:
  assumes "wf_view hp c"
  shows "findFork hp c (Some n) = find (view_contains hp c) (branch hp n)"
proof (cases "nheight (hp n) > vheight hp c")
  case False
  then show ?thesis by (simp add: findFork_def)
next
  case True
  have wf: "wf_heap hp" using assms by (simp add: wf_view_def)
  have out: "\<not> view_contains hp c m" if "nheight (hp m) > vheight hp c" for m
    using that view_queue_heights [OF assms, of m] by (auto simp: view_contains_iff [OF assms])
  show ?thesis
  proof (cases "Ancestor hp n (vheight hp c)")
    case None
    have "\<not> view_contains hp c m" if m: "m \<in> set (branch hp n)" for m
    proof
      assume vc: "view_contains hp c m"
      then have h: "0 \<le> nheight (hp m)" "nheight (hp m) \<le> vheight hp c"
        using view_queue_heights [OF assms, of m] by (simp_all only: view_contains_iff [OF assms])
      have "\<exists>x\<in>set (branch hp n). nheight (hp x) = vheight hp c"
        using branch_covers [OF wf m h(2)] True by simp
      with None h True show False by (auto simp: Ancestor_def find_None_iff split: if_splits)
    qed
    then have "find (view_contains hp c) (branch hp n) = None" by (auto simp: find_None_iff)
    with None True show ?thesis by (simp add: findFork_def)
  next
    case (Some m)
    then have f: "find (\<lambda>x. nheight (hp x) = vheight hp c) (branch hp n) = Some m"
      by (simp add: Ancestor_def split: if_splits)
    from find_branch [OF wf f] obtain xs where
      xs: "branch hp n = xs @ branch hp m" "\<forall>x\<in>set xs. nheight (hp x) \<noteq> vheight hp c" by blast
    have "nheight (hp x) > vheight hp c" if "x \<in> set xs" for x
      using branch_above [OF wf xs(1) that] f by (auto simp: find_Some_iff)
    then have "find (view_contains hp c) xs = None" using out by (auto simp: find_None_iff)
    with Some True xs(1) show ?thesis by (simp add: findFork_def find_skip)
  qed
qed


section \<open>Moving the tip\<close>

lemma wf_view_nodes:
  "wf_view hp c \<Longrightarrow> vnodes c h = Some el \<longleftrightarrow> el \<in> set (vqueue c) \<and> nheight (hp (snd el)) = h"
  unfolding wf_view_def by blast

lemma wf_view_queue_unique:
  assumes "wf_view hp c" "x \<in> set (vqueue c)" "y \<in> set (vqueue c)" "nheight (hp (snd x)) = nheight (hp (snd y))"
  shows "x = y"
  using assms unfolding wf_view_def by (metis option.inject)

lemma delTip_tip:
  assumes "wf_view hp c" "tip c = Some t"
  shows "\<exists>c'. delTip hp c t = Inr c' \<and> wf_view hp c' \<and> vqueue c' = tl (vqueue c)"
proof -
  obtain el q where q: "vqueue c = el # q" "snd el = t" using assms(2) by (auto simp: tip_def split: list.splits)
  then have n: "vnodes c (nheight (hp t)) = Some el" using wf_view_nodes [OF assms(1)] by simp
  have f: "filter (\<lambda>x. fst x \<noteq> fst el) (vqueue c) = q"
  proof -
    have "fst el \<notin> fst ` set q" using assms(1) q by (simp add: wf_view_def)
    then have "filter (\<lambda>x. fst x \<noteq> fst el) q = q" by (intro filter_True) (metis image_eqI)
    then show ?thesis using q by simp
  qed
  define c' where "c' = c\<lparr>vqueue := q, vnodes := (vnodes c)(nheight (hp t) := None)\<rparr>"
  have d: "delTip hp c t = Inr c'" using assms(2) n q f by (simp add: delTip_def c'_def)
  have "vnodes c' h = Some e \<longleftrightarrow> e \<in> set q \<and> nheight (hp (snd e)) = h" for h e
  proof -
    have "vnodes c h = Some e \<longleftrightarrow> e \<in> set (vqueue c) \<and> nheight (hp (snd e)) = h"
      using assms(1) unfolding wf_view_def by blast
    moreover have "el \<notin> set q" using assms(1) q by (force simp: wf_view_def)
    ultimately show ?thesis
      using wf_view_queue_unique [OF assms(1), of e el] q by (auto simp: c'_def)
  qed
  moreover have "linked hp (map snd q)" using assms(1) q by (cases q) (auto simp: wf_view_def)
  ultimately have "wf_view hp c'" using assms(1) q unfolding wf_view_def by (auto simp: c'_def)
  with d q show ?thesis by (auto simp: c'_def)
qed

lemma setTip_child:
  assumes "wf_view hp c" "vqueue c = [] \<or> parent (hp n) = tip c" "length (vqueue c) < blockNodeCacheLimit"
  shows "wf_view hp (setTip hp c n) \<and> vqueue (setTip hp c n) = (vnext c, n) # vqueue c"
proof -
  let ?c = "setTip hp c n"
  have eq: "?c = c\<lparr>vqueue := (vnext c, n) # vqueue c, vnext := Suc (vnext c),
      vnodes := (vnodes c)(nheight (hp n) \<mapsto> (vnext c, n))\<rparr>"
    using assms(2,3) by (auto simp: setTip_def push_tip_def Let_def)
  have high: "nheight (hp (snd e)) < nheight (hp n)" if "e \<in> set (vqueue c)" for e
  proof -
    have "tip c \<noteq> None" using that by (auto simp: tip_def split: list.splits)
    then obtain t where t: "tip c = Some t" by blast
    then have "nheight (hp n) = nheight (hp t) + 1" using assms that by (auto simp: wf_view_def wf_heap_def)
    with view_queue_heights [OF assms(1), of "snd e"] that t show ?thesis by (simp add: vheight_def)
  qed
  have "vnodes ?c h = Some e \<longleftrightarrow> e \<in> set (vqueue ?c) \<and> nheight (hp (snd e)) = h" for h e
  proof -
    have "vnodes c h = Some e \<longleftrightarrow> e \<in> set (vqueue c) \<and> nheight (hp (snd e)) = h"
      using assms(1) unfolding wf_view_def by blast
    then show ?thesis using high [of e] by (auto simp: eq)
  qed
  moreover have "linked hp (map snd (vqueue ?c))"
    using assms by (cases "vqueue c") (auto simp: eq wf_view_def tip_def)
  ultimately have "wf_view hp ?c"
    using assms(1) unfolding wf_view_def by (auto simp: eq less_Suc_eq)
  then show ?thesis by (simp add: eq)
qed

end
