(* ===== verification/Orphan_Pool.thy ===== *)
theory Orphan_Pool
  imports Blocks
begin

text \<open>
  \<^verbatim>\<open>blockchain/orphanpool.go\<close>: blocks whose parent is unknown. The pool keeps them by
  hash and by the hash of the parent; \<^verbatim>\<open>AddOrphanBlock\<close> drops expired orphans while it
  looks for the oldest one. Go iterates a map in no fixed order, so the order in which
  \<^verbatim>\<open>AddOrphanBlock\<close> meets the orphans is the argument \<open>order\<close>. An orphan stands for
  the \<^verbatim>\<open>orphanBlock\<close> the pointer names; a parent with no list of children maps to \<open>[]\<close>.
\<close>

record 'tx orphanBlock =
  oblock :: "'tx block"
  expiration :: int
  obroadcast :: bool
  opid :: string
  osequence :: int

record 'tx OrphanPool =
  orphans :: "bytes \<rightharpoonup> 'tx orphanBlock"
  prevOrphans :: "bytes \<Rightarrow> 'tx orphanBlock list"
  oldestOrphan :: "'tx orphanBlock option"

definition maxOrphanBlocks_default :: nat where "maxOrphanBlocks_default = 10240"

definition orphanExpirationTime :: int where "orphanExpirationTime = 600 * 10 ^ 9"

definition NewOrphanPool :: "'tx OrphanPool" where
  "NewOrphanPool = \<lparr>orphans = Map.empty, prevOrphans = (\<lambda>h. []), oldestOrphan = None\<rparr>"

definition IsKnownOrphan :: "'tx OrphanPool \<Rightarrow> bytes \<Rightarrow> bool" where
  "IsKnownOrphan op h \<longleftrightarrow> orphans op h \<noteq> None"

text \<open>The search for the root of a chain of orphans; it ends unless the orphans form a cycle.\<close>

partial_function (option) orphan_root_loop ::
  "'tx OrphanPool \<Rightarrow> bytes \<Rightarrow> bytes \<Rightarrow> bytes option" where
  "orphan_root_loop op orphanRoot prevHash =
     (case orphans op prevHash of
        None \<Rightarrow> Some orphanRoot
      | Some orphan \<Rightarrow> orphan_root_loop op prevHash (ParentHash (oblock orphan)))"

definition GetOrphanRoot :: "'tx OrphanPool \<Rightarrow> bytes \<Rightarrow> bytes option" where
  "GetOrphanRoot op h = orphan_root_loop op h h"

definition removeOrphanBlock :: "hash_env \<Rightarrow> 'tx OrphanPool \<Rightarrow> 'tx orphanBlock \<Rightarrow> 'tx OrphanPool" where
  "removeOrphanBlock henv op orphan =
     (let orphanHash = Hash henv (oblock orphan);
          prevHash = ParentHash (oblock orphan)
      in op\<lparr>orphans := (orphans op)(orphanHash := None),
            prevOrphans := (prevOrphans op)(prevHash :=
              filter (\<lambda>o1. Hash henv (oblock o1) \<noteq> orphanHash) (prevOrphans op prevHash))\<rparr>)"

definition RemoveOrphanBlockByHash :: "hash_env \<Rightarrow> 'tx OrphanPool \<Rightarrow> bytes \<Rightarrow> 'tx OrphanPool" where
  "RemoveOrphanBlockByHash henv op h =
     (case orphans op h of None \<Rightarrow> op | Some orphan \<Rightarrow> removeOrphanBlock henv op orphan)"

definition RemoveOrphanBlock2 ::
  "hash_env \<Rightarrow> 'tx OrphanPool \<Rightarrow> 'tx block \<Rightarrow> int \<Rightarrow> bool \<Rightarrow> string \<Rightarrow> int \<Rightarrow> 'tx OrphanPool" where
  "RemoveOrphanBlock2 henv op b ex bc p sq =
     removeOrphanBlock henv op
       \<lparr>oblock = b, expiration = ex, obroadcast = bc, opid = p, osequence = sq\<rparr>"

definition scan_orphan :: "hash_env \<Rightarrow> int \<Rightarrow> bytes \<Rightarrow> 'tx OrphanPool \<Rightarrow> 'tx OrphanPool" where
  "scan_orphan henv now h op =
     (case orphans op h of
        None \<Rightarrow> op
      | Some oBlock \<Rightarrow>
          if now > expiration oBlock then removeOrphanBlock henv op oBlock
          else (case oldestOrphan op of
                  None \<Rightarrow> op\<lparr>oldestOrphan := Some oBlock\<rparr>
                | Some oldest \<Rightarrow>
                    if expiration oBlock < expiration oldest then op\<lparr>oldestOrphan := Some oBlock\<rparr> else op))"

definition orphan_count :: "'tx OrphanPool \<Rightarrow> nat" where
  "orphan_count op = card (dom (orphans op))"

definition make_room :: "hash_env \<Rightarrow> nat \<Rightarrow> 'tx OrphanPool \<Rightarrow> go_error + 'tx OrphanPool" where
  "make_room henv maxOrphanBlocks op =
     (if orphan_count op + 1 > maxOrphanBlocks then
        (case oldestOrphan op of
           None \<Rightarrow> Inl GoPanic
         | Some oldest \<Rightarrow> Inr ((removeOrphanBlock henv op oldest)\<lparr>oldestOrphan := None\<rparr>))
      else Inr op)"

definition AddOrphanBlock ::
  "hash_env \<Rightarrow> nat \<Rightarrow> int \<Rightarrow> bytes list \<Rightarrow> 'tx OrphanPool \<Rightarrow> bool \<Rightarrow> 'tx block \<Rightarrow> string \<Rightarrow> int \<Rightarrow>
   go_error + 'tx OrphanPool" where
  "AddOrphanBlock henv maxOrphanBlocks now order op bc b p sq =
     (case make_room henv maxOrphanBlocks (fold (scan_orphan henv now) order op) of
        Inl e \<Rightarrow> Inl e
      | Inr op \<Rightarrow>
          let oBlock = \<lparr>oblock = b, expiration = now + orphanExpirationTime, obroadcast = bc, opid = p,
                        osequence = sq\<rparr>;
              prevHash = ParentHash b
          in Inr (op\<lparr>orphans := (orphans op)(Hash henv b \<mapsto> oBlock),
                     prevOrphans := (prevOrphans op)(prevHash := prevOrphans op prevHash @ [oBlock])\<rparr>))"

definition getChildOrphanCount :: "'tx OrphanPool \<Rightarrow> bytes \<Rightarrow> nat" where
  "getChildOrphanCount op h = length (prevOrphans op h)"

definition getChildOrphan :: "'tx OrphanPool \<Rightarrow> bytes \<Rightarrow> nat \<Rightarrow> 'tx orphanBlock option" where
  "getChildOrphan op h i = (if i \<ge> length (prevOrphans op h) then None else Some (prevOrphans op h ! i))"

section \<open>The invariant of the pool\<close>

text \<open>
  \<open>wf_pool\<close>: an orphan is filed under its own hash and under its parent's hash.
  \<open>pool_bound m\<close>: at most \<open>m + 1\<close> orphans, and at most \<open>m\<close> while the cached oldest orphan
  may be out of date.
\<close>

definition wf_pool :: "hash_env \<Rightarrow> 'tx OrphanPool \<Rightarrow> bool" where
  "wf_pool henv op \<longleftrightarrow> finite (dom (orphans op)) \<and>
     (\<forall>h o1. orphans op h = Some o1 \<longrightarrow> Hash henv (oblock o1) = h \<and> o1 \<in> set (prevOrphans op (ParentHash (oblock o1)))) \<and>
     (\<forall>h o1. o1 \<in> set (prevOrphans op h) \<longrightarrow> ParentHash (oblock o1) = h)"

definition pool_bound :: "nat \<Rightarrow> 'tx OrphanPool \<Rightarrow> bool" where
  "pool_bound m op \<longleftrightarrow> orphan_count op \<le> m \<or> orphan_count op \<le> m + 1 \<and> oldestOrphan op = None"

lemma removeOrphanBlock_fields [simp]:
  "orphans (removeOrphanBlock henv op x) = (orphans op)(Hash henv (oblock x) := None)"
  "oldestOrphan (removeOrphanBlock henv op x) = oldestOrphan op"
  by (simp_all add: removeOrphanBlock_def Let_def)

lemma removeOrphanBlock_wf: "wf_pool henv op \<Longrightarrow> wf_pool henv (removeOrphanBlock henv op x)"
  unfolding wf_pool_def removeOrphanBlock_def Let_def by (auto split: if_splits) metis

lemma removeOrphanBlock_bound:
  assumes "wf_pool henv op" "pool_bound m op"
  shows "pool_bound m (removeOrphanBlock henv op x)"
proof -
  have "finite (dom (orphans op))" using assms(1) by (simp add: wf_pool_def)
  then have "orphan_count (removeOrphanBlock henv op x) \<le> orphan_count op"
    by (simp add: orphan_count_def card_Diff1_le)
  then show ?thesis using assms(2) by (auto simp: pool_bound_def)
qed

lemma set_oldest_wf [simp]: "wf_pool henv (op\<lparr>oldestOrphan := x\<rparr>) = wf_pool henv op"
  by (simp add: wf_pool_def)

lemma scan_orphan_wf: "wf_pool henv op \<Longrightarrow> wf_pool henv (scan_orphan henv now h op)"
  by (simp add: scan_orphan_def removeOrphanBlock_wf split: option.splits)

lemma scan_wf: "wf_pool henv op \<Longrightarrow> wf_pool henv (fold (scan_orphan henv now) order op)"
  by (induction order arbitrary: op) (simp_all add: scan_orphan_wf)

lemma scan_orphan_dom: "dom (orphans (scan_orphan henv now h op)) \<subseteq> dom (orphans op)"
  by (auto simp: scan_orphan_def split: option.splits if_splits)

lemma scan_dom: "dom (orphans (fold (scan_orphan henv now) order op)) \<subseteq> dom (orphans op)"
  by (induction order arbitrary: op) (use scan_orphan_dom in fastforce)+

lemma scan_keeps_oldest:
  "oldestOrphan op \<noteq> None \<Longrightarrow> oldestOrphan (fold (scan_orphan henv now) order op) \<noteq> None"
proof (induction order arbitrary: op)
  case (Cons h order)
  have "oldestOrphan (scan_orphan henv now h op) \<noteq> None"
    using Cons.prems by (auto simp: scan_orphan_def split: option.splits)
  with Cons.IH show ?case by simp
qed simp

text \<open>The cached oldest orphan is in the pool and has not expired.\<close>

definition oldest_live :: "hash_env \<Rightarrow> int \<Rightarrow> 'tx OrphanPool \<Rightarrow> bool" where
  "oldest_live henv now op \<longleftrightarrow>
     (\<forall>x. oldestOrphan op = Some x \<longrightarrow> orphans op (Hash henv (oblock x)) = Some x \<and> \<not> now > expiration x)"

lemma scan_orphan_live:
  assumes "wf_pool henv op" "oldest_live henv now op"
  shows "oldest_live henv now (scan_orphan henv now h op)"
    and "h \<in> dom (orphans (scan_orphan henv now h op)) \<Longrightarrow> oldestOrphan (scan_orphan henv now h op) \<noteq> None"
proof -
  have key: "orphans op h = Some x \<Longrightarrow> Hash henv (oblock x) = h" for x using assms(1) by (simp add: wf_pool_def)
  show "oldest_live henv now (scan_orphan henv now h op)"
    using assms(2) key by (auto simp: oldest_live_def scan_orphan_def split: option.splits)
  show "h \<in> dom (orphans (scan_orphan henv now h op)) \<Longrightarrow> oldestOrphan (scan_orphan henv now h op) \<noteq> None"
    using key by (auto simp: scan_orphan_def split: option.splits if_splits)
qed

lemma scan_live_both:
  assumes "wf_pool henv op" "oldest_live henv now op"
  shows "oldest_live henv now (fold (scan_orphan henv now) order op) \<and>
    (set order \<inter> dom (orphans (fold (scan_orphan henv now) order op)) \<noteq> {} \<longrightarrow>
     oldestOrphan (fold (scan_orphan henv now) order op) \<noteq> None)"
  using assms
proof (induction order arbitrary: op)
  case (Cons h order)
  let ?op = "scan_orphan henv now h op"
  have w: "wf_pool henv ?op" "oldest_live henv now ?op"
    using Cons.prems scan_orphan_wf scan_orphan_live(1) by blast+
  show ?case
  proof (cases "h \<in> dom (orphans (fold (scan_orphan henv now) order ?op))")
    case True
    then have "oldestOrphan ?op \<noteq> None"
      using scan_dom [of henv now order ?op] scan_orphan_live(2) [OF Cons.prems] by blast
    then have "oldestOrphan (fold (scan_orphan henv now) order ?op) \<noteq> None" by (rule scan_keeps_oldest)
    then show ?thesis using Cons.IH [OF w] by simp
  next
    case False
    with Cons.IH [OF w] show ?thesis by simp
  qed
qed simp

lemma scan_live:
  assumes "wf_pool henv op" "oldest_live henv now op"
  shows "oldest_live henv now (fold (scan_orphan henv now) order op)"
    "set order \<inter> dom (orphans (fold (scan_orphan henv now) order op)) \<noteq> {} \<Longrightarrow>
     oldestOrphan (fold (scan_orphan henv now) order op) \<noteq> None"
  using scan_live_both [OF assms, of order] by simp_all

lemma make_room_ok:
  fixes order :: "bytes list" and now :: int
  assumes "wf_pool henv op" "pool_bound m op" "1 \<le> m" "dom (orphans op) \<subseteq> set order"
  defines "op1 \<equiv> fold (scan_orphan henv now) order op"
  shows "\<exists>op2. make_room henv m op1 = Inr op2 \<and> wf_pool henv op2 \<and>
    (orphan_count op2 < m \<or> orphan_count op2 \<le> m \<and> oldestOrphan op2 = None)"
proof -
  have w: "wf_pool henv op1" unfolding op1_def using assms(1) by (rule scan_wf)
  then have fin: "finite (dom (orphans op1))" by (simp add: wf_pool_def)
  have "finite (dom (orphans op))" using assms(1) by (simp add: wf_pool_def)
  then have le: "orphan_count op1 \<le> orphan_count op"
    unfolding orphan_count_def op1_def using scan_dom by (rule card_mono)
  show ?thesis
  proof (cases "orphan_count op1 + 1 > m")
    case False
    then show ?thesis using w by (auto simp: make_room_def)
  next
    case True
    then have ne: "dom (orphans op1) \<noteq> {}" using assms(3) by (auto simp: orphan_count_def)
    have rem: "orphan_count (removeOrphanBlock henv op1 x) \<le> orphan_count op1" for x
      using fin by (simp add: orphan_count_def card_Diff1_le)
    have "\<exists>x. oldestOrphan op1 = Some x \<and> orphan_count (removeOrphanBlock henv op1 x) \<le> m"
    proof (cases "oldestOrphan op")
      case None
      then have live: "oldest_live henv now op" by (simp add: oldest_live_def)
      have "set order \<inter> dom (orphans op1) \<noteq> {}"
        using ne assms(4) scan_dom [of henv now order op] unfolding op1_def by blast
      then obtain x where x: "oldestOrphan op1 = Some x"
        using scan_live(2) [OF assms(1) live] by (auto simp: op1_def)
      then have "Hash henv (oblock x) \<in> dom (orphans op1)"
        using scan_live(1) [OF assms(1) live, of order] by (auto simp: oldest_live_def op1_def)
      then have "orphan_count (removeOrphanBlock henv op1 x) = orphan_count op1 - 1"
        using fin by (simp add: orphan_count_def)
      then show ?thesis using x le assms(2) by (auto simp: pool_bound_def)
    next
      case (Some y)
      then obtain x where "oldestOrphan op1 = Some x"
        using scan_keeps_oldest [of op henv now order] by (auto simp: op1_def)
      moreover have "orphan_count op1 \<le> m" using Some le assms(2) by (auto simp: pool_bound_def)
      ultimately show ?thesis using rem le_trans by blast
    qed
    then obtain x where "oldestOrphan op1 = Some x" "orphan_count (removeOrphanBlock henv op1 x) \<le> m" by blast
    with True w show ?thesis
      by (auto simp: make_room_def orphan_count_def removeOrphanBlock_wf simp del: removeOrphanBlock_fields)
  qed
qed

lemma card_insert_le_Suc: "card (insert x A) \<le> Suc (card A)"
  by (cases "finite A") (simp_all add: card_insert_if)

lemma add_entry_wf:
  assumes "wf_pool henv op" "Hash henv b = h" "oblock x = b"
  shows "wf_pool henv (op\<lparr>orphans := (orphans op)(h \<mapsto> x),
      prevOrphans := (prevOrphans op)(ParentHash b := prevOrphans op (ParentHash b) @ [x])\<rparr>)"
  using assms unfolding wf_pool_def by (auto split: if_splits) metis

section \<open>Properties\<close>

text \<open>
  C36. The orphan pool is bounded: for a pool that files every orphan under its hash and
  parent, \<^verbatim>\<open>AddOrphanBlock\<close> never dereferences a nil oldest orphan, files the new
  block, and keeps at most \<open>maxOrphanBlocks + 1\<close> orphans, whatever the order in which the
  map is iterated.
\<close>

theorem AddOrphanBlock_bounded:
  assumes "wf_pool henv op" "pool_bound m op" "1 \<le> m" "dom (orphans op) \<subseteq> set order"
  shows "\<exists>op'. AddOrphanBlock henv m now order op bc b p sq = Inr op' \<and> wf_pool henv op' \<and>
    pool_bound m op' \<and> orphan_count op' \<le> m + 1 \<and> IsKnownOrphan op' (Hash henv b)"
proof -
  obtain op2 where op2: "make_room henv m (fold (scan_orphan henv now) order op) = Inr op2" "wf_pool henv op2"
    "orphan_count op2 < m \<or> orphan_count op2 \<le> m \<and> oldestOrphan op2 = None"
    using make_room_ok [OF assms] by blast
  have "card (insert (Hash henv b) (dom (orphans op2))) \<le> Suc (card (dom (orphans op2)))"
    by (rule card_insert_le_Suc)
  with op2 show ?thesis
    by (auto simp: AddOrphanBlock_def Let_def add_entry_wf pool_bound_def orphan_count_def IsKnownOrphan_def)
qed


theorem AddOrphanBlock_bounded_witness:
  "\<exists>op'. AddOrphanBlock demo_hash_env 2 0 [] NewOrphanPool False demo_block ''p'' 0 = Inr op' \<and> orphan_count op' \<le> 3"
proof -
  have "wf_pool demo_hash_env (NewOrphanPool :: nat OrphanPool)" "pool_bound 2 (NewOrphanPool :: nat OrphanPool)"
    by (simp_all add: wf_pool_def pool_bound_def orphan_count_def NewOrphanPool_def)
  from AddOrphanBlock_bounded [OF this, of "[]" 0 False demo_block "''p''" 0] show ?thesis
    by (auto simp: NewOrphanPool_def)
qed

definition orphan_demo :: "int \<Rightarrow> nat block" where
  "orphan_demo v = demo_block\<lparr>Version := v, ParentHash := [9]\<rparr>"

definition orphan_key :: "8 word \<Rightarrow> bytes" where
  "orphan_key v = v # replicate 31 0"

definition add_demo :: "int \<Rightarrow> bytes list \<Rightarrow> nat OrphanPool \<Rightarrow> nat OrphanPool" where
  "add_demo v order op =
     (case AddOrphanBlock demo_hash_env 2 v order op False (orphan_demo v) ''p'' 0 of Inl e \<Rightarrow> op | Inr op' \<Rightarrow> op')"

text \<open>
  The bound \<open>maxOrphanBlocks + 1\<close> is reached: \<^verbatim>\<open>oldestOrphan\<close> keeps naming an
  orphan after that orphan has left the pool, and removing it again makes no room. With a limit
  of two, adding the blocks 1 and 2, removing 1, then adding 3 and 4 leaves three orphans.
\<close>

theorem AddOrphanBlock_exceeds_limit:
  "orphan_count (add_demo 4 [orphan_key 2, orphan_key 3]
    (add_demo 3 [orphan_key 2]
      (RemoveOrphanBlockByHash demo_hash_env
        (add_demo 2 [orphan_key 1] (add_demo 1 [] NewOrphanPool)) (orphan_key 1)))) = 3"
proof -
  have h: "Hash demo_hash_env (orphan_demo v) = orphan_key (word_of_int v)" for v
    by (simp add: orphan_demo_def demo_block_def Hash_def HashNew_def demo_hash_env_def getHeaderHashNew_def
        empty_header_def orphan_key_def)
  have k: "orphan_key x = orphan_key y \<longleftrightarrow> x = y" for x y by (simp add: orphan_key_def)
  show ?thesis
    by (simp add: add_demo_def AddOrphanBlock_def make_room_def scan_orphan_def RemoveOrphanBlockByHash_def
        removeOrphanBlock_def NewOrphanPool_def orphan_count_def Let_def h k orphanExpirationTime_def)
qed

end
