(* ===== verification/Chain.thy ===== *)
theory Chain
  imports Block_Index Orphan_Pool
begin

text \<open>
  \<^verbatim>\<open>blockchain/process.go\<close> and the part of \<^verbatim>\<open>blockchain/blockstore.go\<close> it writes:
  how a block enters the chain. \<open>chain\<close> is the state of \<^verbatim>\<open>BlockChain\<close>: the heap of
  block nodes, the index, the best chain, the orphan pool and the block store (block by hash,
  hash by height, total difficulty by hash, the last height). What other modules answer
  (executing a block, local key-values, the consensus comparison, error classes) is the record
  \<open>chain_env\<close>. The caches of recent blocks hold what the store holds and are not modelled;
  messages to other modules are the list \<open>events\<close>. An operation returns its error or result
  together with the state; a nil dereference or \<^verbatim>\<open>panic\<close> is \<open>GoPanic\<close>.
\<close>

section \<open>State\<close>

record 'tx blockStore =
  blocks :: "bytes \<rightharpoonup> 'tx block"
  hashAt :: "int \<rightharpoonup> bytes"
  tds :: "bytes \<rightharpoonup> int"
  dbHeight :: "int option"
  bsHeight :: int
  lastStored :: "'tx block option"

datatype chain_event =
    AddBlockEvent bytes | DelBlockEvent bytes | SyncDone int | BroadcastBlock bytes | FutureBlock bytes
  | FaultPeer string int bytes go_error

record 'tx chain =
  hp :: heap
  fresh :: nat
  bindex :: blockIndex
  bestChain :: chainView
  pool :: "'tx OrphanPool"
  store :: "'tx blockStore"
  events :: "chain_event list"

record 'tx chain_env =
  henv :: hash_env
  isclosed :: bool
  isParaChain :: bool
  neverRollback :: bool
  EnableBestBlockCmp :: bool
  DisableBlockBroadcast :: bool
  recordSequence :: bool
  ExecBlock :: "bytes \<Rightarrow> 'tx block \<Rightarrow> bool \<Rightarrow> go_error + 'tx block"
  getLocalKV :: "'tx block \<Rightarrow> go_error option"
  getDelLocalKV :: "'tx block \<Rightarrow> go_error option"
  saveBlockForTable :: "'tx block \<Rightarrow> go_error option"
  saveBlockSequence :: "bytes \<Rightarrow> int \<Rightarrow> int \<Rightarrow> go_error option"
  CmpBest :: "'tx block \<Rightarrow> bytes \<Rightarrow> bool"
  IsGrpcError :: "go_error \<Rightarrow> bool"
  IsQueueError :: "go_error \<Rightarrow> bool"
  inFuture :: "int \<Rightarrow> bool"
  maxOrphanBlocks :: nat
  orphanNow :: int
  orphanOrder :: "bytes list"

type_synonym ('tx, 'a) chain_result = "(go_error + 'a) \<times> 'tx chain"

definition log_event :: "chain_event \<Rightarrow> 'tx chain \<Rightarrow> 'tx chain" where
  "log_event e c = c\<lparr>events := events c @ [e]\<rparr>"

definition tip_hash :: "'tx chain \<Rightarrow> bytes option" where
  "tip_hash c = map_option (\<lambda>n. nhash (hp c n)) (tip (bestChain c))"

definition IsRecordFaultErr :: "'tx chain_env \<Rightarrow> go_error \<Rightarrow> bool" where
  "IsRecordFaultErr env err \<longleftrightarrow> err \<noteq> ErrFutureBlock \<and> \<not> IsGrpcError env err \<and> \<not> IsQueueError env err"

section \<open>The block store\<close>

definition GetTdByBlockHash :: "'tx blockStore \<Rightarrow> bytes \<Rightarrow> go_error + int" where
  "GetTdByBlockHash bs h = (case tds bs h of None \<Rightarrow> Inl ErrHashNotExist | Some td \<Rightarrow> Inr td)"

definition LoadBlockByHash :: "'tx blockStore \<Rightarrow> bytes \<Rightarrow> go_error + 'tx block" where
  "LoadBlockByHash bs h = (case blocks bs h of None \<Rightarrow> Inl ErrHashNotExist | Some b \<Rightarrow> Inr b)"

definition block_td :: "'tx blockStore \<Rightarrow> 'tx block \<Rightarrow> go_error + int" where
  "block_td bs b =
     (if Height b = 0 then Inr (CalcWork (Difficulty b))
      else case GetTdByBlockHash bs (ParentHash b) of
        Inl e \<Rightarrow> Inl e
      | Inr parenttd \<Rightarrow> Inr (CalcWork (Difficulty b) + parenttd))"

definition dbMaybeStoreBlock :: "'tx chain_env \<Rightarrow> 'tx blockStore \<Rightarrow> 'tx block \<Rightarrow> go_error + 'tx blockStore" where
  "dbMaybeStoreBlock env bs b =
     (if neverRollback env then Inr bs
      else
        let h = Hash (henv env) b in
        if blocks bs h \<noteq> None then Inr bs
        else case saveBlockForTable env b of
          Some e \<Rightarrow> Inl e
        | None \<Rightarrow>
            (case block_td bs b of
               Inl e \<Rightarrow> Inl e
             | Inr td \<Rightarrow> Inr (bs\<lparr>blocks := (blocks bs)(h \<mapsto> b), tds := (tds bs)(h \<mapsto> td)\<rparr>)))"

text \<open>\<^verbatim>\<open>AddTxs\<close>, \<^verbatim>\<open>SaveBlock\<close> and \<^verbatim>\<open>SaveTdByBlockHash\<close>, written as one batch.\<close>

definition save_connected ::
  "'tx chain_env \<Rightarrow> 'tx blockStore \<Rightarrow> 'tx block \<Rightarrow> 'tx block \<Rightarrow> int \<Rightarrow> go_error + 'tx blockStore" where
  "save_connected env bs orig b sq =
     (let h = Hash (henv env) b in
      case saveBlockForTable env b of
        Some e \<Rightarrow> Inl e
      | None \<Rightarrow>
          (case (if recordSequence env then saveBlockSequence env h (Height b) sq else None) of
             Some e \<Rightarrow> Inl e
           | None \<Rightarrow>
               (case block_td bs orig of
                  Inl e \<Rightarrow> Inl e
                | Inr td \<Rightarrow>
                    Inr (bs\<lparr>blocks := (blocks bs)(h \<mapsto> b), dbHeight := Some (Height b),
                            hashAt := (hashAt bs)(Height b \<mapsto> h), tds := (tds bs)(h \<mapsto> td),
                            bsHeight := Height b, lastStored := Some b\<rparr>))))"

definition DelBlock :: "'tx chain_env \<Rightarrow> 'tx blockStore \<Rightarrow> 'tx block \<Rightarrow> int \<Rightarrow> go_error + 'tx blockStore" where
  "DelBlock env bs b sq =
     (case (if recordSequence env then saveBlockSequence env (Hash (henv env) b) (Height b) sq else None) of
        Some e \<Rightarrow> Inl e
      | None \<Rightarrow> Inr (bs\<lparr>dbHeight := Some (i64 (Height b - 1)), hashAt := (hashAt bs)(Height b := None)\<rparr>))"

definition UpdateHeight :: "'tx blockStore \<Rightarrow> 'tx blockStore" where
  "UpdateHeight bs = bs\<lparr>bsHeight := (case dbHeight bs of None \<Rightarrow> -1 | Some h \<Rightarrow> h)\<rparr>"

definition UpdateLastBlock :: "'tx blockStore \<Rightarrow> bytes \<Rightarrow> 'tx blockStore" where
  "UpdateLastBlock bs h = (case blocks bs h of None \<Rightarrow> bs | Some b \<Rightarrow> bs\<lparr>lastStored := Some b\<rparr>)"

definition blockExists :: "'tx chain \<Rightarrow> bytes \<Rightarrow> bool" where
  "blockExists c h =
     (if HaveBlock (bindex c) h then True
      else case blocks (store c) h of
        None \<Rightarrow> False
      | Some b \<Rightarrow> hashAt (store c) (Height b) = Some h)"

section \<open>Connecting and disconnecting\<close>

definition handleErrBlk :: "'tx chain_env \<Rightarrow> 'tx chain \<Rightarrow> nat \<Rightarrow> 'tx block \<Rightarrow> go_error \<Rightarrow> 'tx chain" where
  "handleErrBlk env c node b err =
     (let nd = hp c node in
      if pid nd = ''download'' \<or> \<not> IsRecordFaultErr env err \<and> pid nd = ''self'' then
        let (hp', bi') = DelNode (hp c) (bindex c) (nhash nd) in c\<lparr>hp := hp', bindex := bi'\<rparr>
      else
        (log_event (FaultPeer (pid nd) (Height b) (nhash nd) err) c)
          \<lparr>hp := (hp c)(node := nd\<lparr>errLog := Some err\<rparr>)\<rparr>)"

definition update_self :: "'tx chain_env \<Rightarrow> 'tx chain \<Rightarrow> nat \<Rightarrow> 'tx block \<Rightarrow> 'tx chain" where
  "update_self env c node b =
     (let nd = hp c node in
      if pid nd = ''self'' then
        let hp' = (hp c)(node := nd\<lparr>statehash := StateHash b, nhash := Hash (henv env) b\<rparr>);
            (ok, bi') = UpdateNode hp' (bindex c) (nhash nd) node
        in c\<lparr>hp := hp', bindex := bi'\<rparr>
      else c)"

definition announce :: "'tx chain_env \<Rightarrow> 'tx chain \<Rightarrow> nat \<Rightarrow> 'tx block \<Rightarrow> 'tx chain" where
  "announce env c node b =
     (let c = log_event (SyncDone (Height b)) (log_event (AddBlockEvent (Hash (henv env) b)) c) in
      if broadcast (hp c node) \<and> \<not> DisableBlockBroadcast env then
        (if inFuture env (BlockTime b) then log_event (FutureBlock (Hash (henv env) b)) c
         else log_event (BroadcastBlock (Hash (henv env) b)) c)
      else c)"

definition connectBlock ::
  "'tx chain_env \<Rightarrow> 'tx chain \<Rightarrow> nat \<Rightarrow> 'tx block \<Rightarrow> ('tx, 'tx block) chain_result" where
  "connectBlock env c node b =
     (if isclosed env then (Inl ErrIsClosed, c)
      else case tip (bestChain c) of
        None \<Rightarrow> (Inl GoPanic, c)
      | Some t \<Rightarrow>
          if ParentHash b \<noteq> nhash (hp c t) then (Inl ErrBlockHashNoMatch, c)
          else case ExecBlock env (statehash (hp c t)) b (pid (hp c node) \<noteq> ''self'') of
            Inl err \<Rightarrow> (Inl err, handleErrBlk env c node b err)
          | Inr b1 \<Rightarrow>
              let c1 = update_self env c node b1 in
              (case getLocalKV env b1 of
                 Some err \<Rightarrow> (Inl err, handleErrBlk env c1 node b err)
               | None \<Rightarrow>
                   (case save_connected env (store c1) b b1 (nsequence (hp c1 node)) of
                      Inl err \<Rightarrow> (Inl err, c1)
                    | Inr bs \<Rightarrow>
                        (Inr b1, announce env
                           (c1\<lparr>store := bs, bestChain := setTip (hp c1) (bestChain c1) node\<rparr>) node b1))))"

definition disconnectBlock ::
  "'tx chain_env \<Rightarrow> 'tx chain \<Rightarrow> nat \<Rightarrow> 'tx block \<Rightarrow> int \<Rightarrow> ('tx, unit) chain_result" where
  "disconnectBlock env c node b sq =
     (case tip (bestChain c) of
        None \<Rightarrow> (Inl GoPanic, c)
      | Some t \<Rightarrow>
          if nhash (hp c node) \<noteq> nhash (hp c t) then (Inl ErrBlockHashNoMatch, c)
          else case getDelLocalKV env b of
            Some e \<Rightarrow> (Inl e, c)
          | None \<Rightarrow>
              (case DelBlock env (store c) b sq of
                 Inl e \<Rightarrow> (Inl e, c)
               | Inr bs \<Rightarrow>
                   let c1 = c\<lparr>store := UpdateLastBlock (UpdateHeight bs) (ParentHash b)\<rparr> in
                   (case delTip (hp c1) (bestChain c1) node of
                      Inl e \<Rightarrow> (Inl e, c1)
                    | Inr view \<Rightarrow>
                        let c2 = log_event (DelBlockEvent (Hash (henv env) b)) (c1\<lparr>bestChain := view\<rparr>) in
                        if parent (hp c2 node) = None \<or> tip view = None then (Inl GoPanic, c2)
                        else (Inr (), c2))))"

section \<open>Reorganisation\<close>

definition getReorganizeNodes :: "'tx chain \<Rightarrow> nat \<Rightarrow> nat list \<times> nat list" where
  "getReorganizeNodes c node =
     (let forkNode = findFork (hp c) (bestChain c) (Some node);
          attachNodes = rev (takeWhile (\<lambda>n. Some n \<noteq> forkNode) (branch (hp c) node));
          detachNodes = (case tip (bestChain c) of
                           None \<Rightarrow> []
                         | Some t \<Rightarrow> takeWhile (\<lambda>n. Some n \<noteq> forkNode) (branch (hp c) t))
      in (detachNodes, attachNodes))"

fun load_blocks :: "'tx chain \<Rightarrow> nat list \<Rightarrow> go_error + 'tx block list" where
  "load_blocks c [] = Inr []"
| "load_blocks c (n # ns) =
     (case LoadBlockByHash (store c) (nhash (hp c n)) of
        Inl e \<Rightarrow> Inl e
      | Inr b \<Rightarrow> (case load_blocks c ns of Inl e \<Rightarrow> Inl e | Inr bs \<Rightarrow> Inr (b # bs)))"

fun disconnect_all :: "'tx chain_env \<Rightarrow> 'tx chain \<Rightarrow> (nat \<times> 'tx block) list \<Rightarrow> ('tx, unit) chain_result" where
  "disconnect_all env c [] = (Inr (), c)"
| "disconnect_all env c ((n, b) # nbs) =
     (case disconnectBlock env c n b (nsequence (hp c n)) of
        (Inl e, c1) \<Rightarrow> (Inl e, c1)
      | (Inr _, c1) \<Rightarrow> disconnect_all env c1 nbs)"

fun connect_all :: "'tx chain_env \<Rightarrow> 'tx chain \<Rightarrow> (nat \<times> 'tx block) list \<Rightarrow> ('tx, unit) chain_result" where
  "connect_all env c [] = (Inr (), c)"
| "connect_all env c ((n, b) # nbs) =
     (case connectBlock env c n b of
        (Inl e, c1) \<Rightarrow> (Inl e, c1)
      | (Inr _, c1) \<Rightarrow> connect_all env c1 nbs)"

definition reorganizeChain ::
  "'tx chain_env \<Rightarrow> 'tx chain \<Rightarrow> nat list \<Rightarrow> nat list \<Rightarrow> ('tx, unit) chain_result" where
  "reorganizeChain env c detachNodes attachNodes =
     (case load_blocks c detachNodes of
        Inl e \<Rightarrow> (Inl e, c)
      | Inr detachBlocks \<Rightarrow>
          (case load_blocks c attachNodes of
             Inl e \<Rightarrow> (Inl e, c)
           | Inr attachBlocks \<Rightarrow>
               (case disconnect_all env c (zip detachNodes detachBlocks) of
                  (Inl e, c1) \<Rightarrow> (Inl e, c1)
                | (Inr _, c1) \<Rightarrow> connect_all env c1 (zip attachNodes attachBlocks))))"

definition connectBestChain ::
  "'tx chain_env \<Rightarrow> 'tx chain \<Rightarrow> nat \<Rightarrow> 'tx block \<Rightarrow> ('tx, 'tx block option \<times> bool) chain_result" where
  "connectBestChain env c node b =
     (case tip (bestChain c) of
        None \<Rightarrow> (Inl GoPanic, c)
      | Some t \<Rightarrow>
          if ParentHash b = nhash (hp c t) then
            (case connectBlock env c node b of
               (Inl e, c1) \<Rightarrow> (Inl e, c1)
             | (Inr b1, c1) \<Rightarrow> (Inr (Some b1, True), c1))
          else
            (case GetTdByBlockHash (store c) (nhash (hp c t)) of
               Inl e \<Rightarrow> (Inl e, c)
             | Inr tiptd \<Rightarrow>
                 (case GetTdByBlockHash (store c) (ParentHash b) of
                    Inl e \<Rightarrow> (Inl ErrParentTdNoExist, c)
                  | Inr parenttd \<Rightarrow>
                      let blocktd = nDifficulty (hp c node) + parenttd;
                          iSideChain = (blocktd \<le> tiptd);
                          iSideChain =
                            (if EnableBestBlockCmp env \<and> blocktd = tiptd \<and>
                                nheight (hp c node) = nheight (hp c t) \<and> CmpBest env b (nhash (hp c t))
                             then False else iSideChain)
                      in
                      if iSideChain then
                        (if findFork (hp c) (bestChain c) (Some node) = None then (Inl GoPanic, c)
                         else (Inr (None, False), c))
                      else
                        let (detachNodes, attachNodes) = getReorganizeNodes c node in
                        (case reorganizeChain env c detachNodes attachNodes of
                           (Inl e, c1) \<Rightarrow> (Inl e, c1)
                         | (Inr _, c1) \<Rightarrow> (Inr (None, True), c1)))))"

section \<open>Accepting a block\<close>

definition maybeAcceptBlock ::
  "'tx chain_env \<Rightarrow> 'tx chain \<Rightarrow> bool \<Rightarrow> 'tx block \<Rightarrow> string \<Rightarrow> int \<Rightarrow> ('tx, 'tx block option \<times> bool) chain_result" where
  "maybeAcceptBlock env c bc b p sq =
     (case LookupNode (bindex c) (ParentHash b) of
        None \<Rightarrow> (Inl ErrParentBlockNoExist, c)
      | Some prevNode \<Rightarrow>
          if Height b \<noteq> i64 (nheight (hp c prevNode) + 1) then (Inl ErrBlockHeightNoMatch, c)
          else case dbMaybeStoreBlock env (store c) b of
            Inl e \<Rightarrow> (Inl e, c)
          | Inr bs \<Rightarrow>
              let node = fresh c;
                  hp1 = (hp c)(node := (newBlockNode (henv env) bc b p sq)\<lparr>parent := Some prevNode\<rparr>);
                  (hp2, bi) = AddNode hp1 (bindex c) node;
                  c1 = c\<lparr>store := bs, hp := hp2, fresh := Suc node, bindex := bi\<rparr>
              in connectBestChain env c1 node b)"

text \<open>
  \<^verbatim>\<open>ProcessOrphans\<close>: a queue of hashes whose orphan children are accepted in turn. The
  inner loop of the source takes the first child until none is left, since removing a child
  shifts the list and the index is decreased again.
\<close>

partial_function (option) process_orphans_loop ::
  "'tx chain_env \<Rightarrow> 'tx chain \<Rightarrow> bytes list \<Rightarrow> ('tx, unit) chain_result option" where
  "process_orphans_loop env c processHashes =
     (case processHashes of
        [] \<Rightarrow> Some (Inr (), c)
      | processHash # rest \<Rightarrow>
          (case prevOrphans (pool c) processHash of
             [] \<Rightarrow> process_orphans_loop env c rest
           | orphan # others \<Rightarrow>
               (case maybeAcceptBlock env (c\<lparr>pool := removeOrphanBlock (henv env) (pool c) orphan\<rparr>)
                       (obroadcast orphan) (oblock orphan) (opid orphan) (osequence orphan) of
                  (Inl e, c1) \<Rightarrow> Some (Inl e, c1)
                | (Inr res, c1) \<Rightarrow>
                    process_orphans_loop env c1
                      (processHash # rest @ [Hash (henv env) (oblock orphan)]))))"

definition ProcessOrphans :: "'tx chain_env \<Rightarrow> 'tx chain \<Rightarrow> bytes \<Rightarrow> ('tx, unit) chain_result option" where
  "ProcessOrphans env c h = process_orphans_loop env c [h]"

text \<open>Result: the block of the best chain, whether it is on the main chain, whether it is an orphan.\<close>

type_synonym 'tx process_result = "('tx, 'tx block option \<times> bool \<times> bool) chain_result option"

definition maybeAddBestChain ::
  "'tx chain_env \<Rightarrow> 'tx chain \<Rightarrow> bool \<Rightarrow> 'tx block \<Rightarrow> string \<Rightarrow> int \<Rightarrow> 'tx process_result" where
  "maybeAddBestChain env c bc b p sq =
     (let blockHash = Hash (henv env) b in
      if blockExists c blockHash then Some (Inl ErrBlockExist, c)
      else case maybeAcceptBlock env c bc b p sq of
        (Inl e, c1) \<Rightarrow> Some (Inl e, c1)
      | (Inr (blockdetail, isMainChain), c1) \<Rightarrow>
          (case ProcessOrphans env c1 blockHash of
             None \<Rightarrow> None
           | Some (Inl e, c2) \<Rightarrow> Some (Inl e, c2)
           | Some (Inr _, c2) \<Rightarrow> Some (Inr (blockdetail, isMainChain, False), c2)))"

definition ProcessDelParaChainBlock ::
  "'tx chain_env \<Rightarrow> 'tx chain \<Rightarrow> 'tx block \<Rightarrow> int \<Rightarrow> ('tx, 'tx block option \<times> bool \<times> bool) chain_result" where
  "ProcessDelParaChainBlock env c b sq =
     (case tip (bestChain c) of
        None \<Rightarrow> (Inl GoPanic, c)
      | Some tipnode \<Rightarrow>
          let blockHash = Hash (henv env) b in
          if blockHash \<noteq> nhash (hp c tipnode) then (Inl ErrBlockHashNoMatch, c)
          else case disconnectBlock env c tipnode b sq of
            (Inl e, c1) \<Rightarrow> (Inl e, c1)
          | (Inr _, c1) \<Rightarrow>
              let (hp', bi') = DelNode (hp c1) (bindex c1) blockHash
              in (Inr (None, True, False), c1\<lparr>hp := hp', bindex := bi'\<rparr>))"

definition ProcessBlock ::
  "'tx chain_env \<Rightarrow> 'tx chain \<Rightarrow> bool \<Rightarrow> 'tx block \<Rightarrow> string \<Rightarrow> bool \<Rightarrow> int \<Rightarrow> 'tx process_result" where
  "ProcessBlock env c bc b p addBlock sq =
     (let blockHash = Hash (henv env) b in
      if isclosed env then Some (Inl ErrIsClosed, c)
      else if Height b > 0 \<and> p = ''self'' \<and> tip (bestChain c) = None then Some (Inl GoPanic, c)
      else if Height b > 0 \<and> p = ''self'' \<and>
              Some (if addBlock then ParentHash b else blockHash) \<noteq> tip_hash c
      then Some (Inl ErrBlockHashNoMatch, c)
      else if \<not> addBlock then
        (if isParaChain env then Some (ProcessDelParaChainBlock env c b sq)
         else Some (Inl ErrNotSupport, c))
      else if blockExists c blockHash then
        (case LookupNode (bindex c) blockHash of
           None \<Rightarrow> Some (Inl ErrBlockExist, c)
         | Some node \<Rightarrow>
             (case errLog (hp c node) of
                None \<Rightarrow> Some (Inl ErrBlockExist, c)
              | Some err \<Rightarrow> Some (Inl ErrBlockExist, log_event (FaultPeer p (Height b) blockHash err) c)))
      else if IsKnownOrphan (pool c) blockHash \<and> \<not> blockExists c (ParentHash b) then
        Some (Inl ErrBlockExist, c)
      else
        let c = (if IsKnownOrphan (pool c) blockHash
                 then c\<lparr>pool := RemoveOrphanBlockByHash (henv env) (pool c) blockHash\<rparr> else c);
            prevHashExists = (if Height b = 0 then ParentHash b = replicate 32 0
                              else blockExists c (ParentHash b))
        in
        if \<not> prevHashExists then
          (case AddOrphanBlock (henv env) (maxOrphanBlocks env) (orphanNow env) (orphanOrder env)
                  (pool c) bc b p sq of
             Inl e \<Rightarrow> Some (Inl e, c)
           | Inr pl \<Rightarrow> Some (Inr (None, False, True), c\<lparr>pool := pl\<rparr>))
        else maybeAddBestChain env c bc b p sq)"

end
