(* ===== verification/Chain_Theorems.thy ===== *)
theory Chain_Theorems
  imports Chain
begin

text \<open>
  What \<open>Chain\<close> does to the best chain: each connect or disconnect is one step on the view
  (\<open>connectBlock_best\<close>, \<open>disconnectBlock_best\<close>), a reorganisation is those steps between
  two branches with a common fork (\<open>reorganize_nodes\<close>), and the fork choice follows the total
  difficulty. \<open>best c\<close> lists the nodes of the best chain from its tip.
\<close>

section \<open>Steps on the best chain\<close>

text \<open>Two heaps of the same shape: the same parents and heights.\<close>

definition same_shape :: "heap \<Rightarrow> heap \<Rightarrow> bool" where
  "same_shape h h' \<longleftrightarrow> (\<forall>n. parent (h' n) = parent (h n) \<and> nheight (h' n) = nheight (h n))"

lemma same_shape_refl [simp]: "same_shape h h" by (simp add: same_shape_def)

lemma same_shape_trans: "same_shape a b \<Longrightarrow> same_shape b c \<Longrightarrow> same_shape a c" by (simp add: same_shape_def)

lemma same_shape_linked: "same_shape h h' \<Longrightarrow> linked h' ns = linked h ns"
  by (induction h ns rule: linked.induct) (auto simp: same_shape_def)

lemma same_shape_wf: "same_shape h h' \<Longrightarrow> wf_view h v \<Longrightarrow> wf_view h' v"
  using same_shape_linked [of h h']
  by (auto simp: wf_view_def wf_heap_def same_shape_def)

lemma linked_whole_branch: "wf_heap h \<Longrightarrow> linked h (branch h n)"
proof (induction n rule: less_induct)
  case (less n)
  show ?case
  proof (cases "parent (h n)")
    case (Some p)
    then have "p < n" using less.prems by (auto simp: wf_heap_def)
    then have "linked h (branch h p)" using less by blast
    moreover obtain r where "branch h p = p # r" using branch_rec [OF less.prems, of p] by blast
    ultimately show ?thesis using Some by (simp add: branch_rec [OF less.prems, of n])
  qed (simp add: branch_rec [OF less.prems, of n])
qed

abbreviation best :: "'tx chain \<Rightarrow> nat list" where
  "best c \<equiv> map snd (vqueue (bestChain c))"

lemma tip_best: "tip (bestChain c) = (case best c of [] \<Rightarrow> None | n # _ \<Rightarrow> Some n)"
  by (simp add: tip_def split: list.splits)

lemma update_self_shape:
  "same_shape (hp c) (hp (update_self env c node b))" "bestChain (update_self env c node b) = bestChain c"
  by (simp_all add: update_self_def Let_def same_shape_def split: prod.splits)

lemma announce_fields [simp]:
  "hp (announce env c node b) = hp c" "bestChain (announce env c node b) = bestChain c"
  "store (announce env c node b) = store c"
  by (simp_all add: announce_def Let_def log_event_def)

lemma connectBlock_best:
  assumes run: "connectBlock env c node b = (Inr b1, c')" and wf: "wf_view (hp c) (bestChain c)"
    and par: "tip (bestChain c) = Some t" "parent (hp c node) = Some t"
    and room: "length (vqueue (bestChain c)) < blockNodeCacheLimit"
  shows "wf_view (hp c') (bestChain c')" "same_shape (hp c) (hp c')" "best c' = node # best c"
proof -
  define c1 where "c1 = update_self env c node b1"
  obtain bs where c': "c' = announce env (c1\<lparr>store := bs, bestChain := setTip (hp c1) (bestChain c1) node\<rparr>) node b1"
    using run par by (auto simp: connectBlock_def c1_def Let_def split: if_splits sum.splits option.splits)
  have sh: "same_shape (hp c) (hp c1)" "bestChain c1 = bestChain c" by (simp_all add: c1_def update_self_shape)
  have "wf_view (hp c1) (bestChain c1)" using same_shape_wf [OF sh(1) wf] sh(2) by simp
  moreover have "parent (hp c1 node) = tip (bestChain c1)" using sh par by (simp add: same_shape_def)
  ultimately have "wf_view (hp c1) (setTip (hp c1) (bestChain c1) node) \<and>
      vqueue (setTip (hp c1) (bestChain c1) node) = (vnext (bestChain c1), node) # vqueue (bestChain c1)"
    using room sh(2) by (intro setTip_child) simp_all
  with c' sh show "wf_view (hp c') (bestChain c')" "same_shape (hp c) (hp c')" "best c' = node # best c"
    by simp_all
qed

lemma disconnectBlock_best:
  assumes run: "disconnectBlock env c node b sq = (Inr (), c')" and wf: "wf_view (hp c) (bestChain c)"
    and tp: "tip (bestChain c) = Some node"
  shows "wf_view (hp c') (bestChain c')" "hp c' = hp c" "best c' = tl (best c)"
proof -
  obtain v where v: "delTip (hp c) (bestChain c) node = Inr v" "wf_view (hp c) v" "vqueue v = tl (vqueue (bestChain c))"
    using delTip_tip [OF wf tp] by blast
  then have "hp c' = hp c" "bestChain c' = v"
    using run tp by (auto simp: disconnectBlock_def Let_def log_event_def split: if_splits sum.splits option.splits)
  with v show "wf_view (hp c') (bestChain c')" "hp c' = hp c" "best c' = tl (best c)"
    by (simp_all add: map_tl)
qed

lemma disconnect_all_best:
  assumes "disconnect_all env c (zip ns bs) = (Inr (), c')" "length bs = length ns"
    and "wf_view (hp c) (bestChain c)" "best c = ns @ rest"
  shows "wf_view (hp c') (bestChain c') \<and> hp c' = hp c \<and> best c' = rest"
  using assms
proof (induction ns arbitrary: c bs)
  case (Cons n ns)
  obtain b bs' where bs: "bs = b # bs'" using Cons.prems(2) by (cases bs) auto
  obtain c1 where c1: "disconnectBlock env c n b (nsequence (hp c n)) = (Inr (), c1)"
    "disconnect_all env c1 (zip ns bs') = (Inr (), c')"
    using Cons.prems(1) bs by (auto split: prod.splits sum.splits)
  have "tip (bestChain c) = Some n" using Cons.prems(4) by (simp add: tip_best)
  note d = disconnectBlock_best [OF c1(1) Cons.prems(3) this]
  have "best c1 = ns @ rest" using d(3) Cons.prems(4) by simp
  from Cons.IH [OF c1(2) _ d(1) this] bs Cons.prems(2) d(2) show ?case by auto
qed simp

lemma connect_all_best:
  assumes "connect_all env c (zip ns bs) = (Inr (), c')" "length bs = length ns"
    and "wf_view (hp c) (bestChain c)" "linked (hp c) (rev ns @ best c)" "best c \<noteq> []"
    and "length ns + length (best c) \<le> blockNodeCacheLimit"
  shows "wf_view (hp c') (bestChain c') \<and> same_shape (hp c) (hp c') \<and> best c' = rev ns @ best c"
  using assms
proof (induction ns arbitrary: c bs)
  case (Cons n ns)
  obtain b bs' where bs: "bs = b # bs'" using Cons.prems(2) by (cases bs) auto
  obtain b1 c1 where c1: "connectBlock env c n b = (Inr b1, c1)" "connect_all env c1 (zip ns bs') = (Inr (), c')"
    using Cons.prems(1) bs by (auto split: prod.splits sum.splits)
  obtain t q where q: "best c = t # q" using Cons.prems(5) by (cases "best c") auto
  have "linked (hp c) (n # t # q)" using linked_append [of "hp c" "rev ns" "n # t # q"] Cons.prems(4) q by simp
  then have par: "tip (bestChain c) = Some t" "parent (hp c n) = Some t" using q by (simp_all add: tip_best)
  note d = connectBlock_best [OF c1(1) Cons.prems(3) par]
  have room: "length (vqueue (bestChain c)) < blockNodeCacheLimit" using Cons.prems(6) by simp
  have "linked (hp c1) (rev ns @ best c1)"
    using Cons.prems(4) d(2,3) [OF room] by (simp add: same_shape_linked)
  from Cons.IH [OF c1(2) _ d(1) [OF room] this] Cons.prems(2,6) d(2,3) [OF room] bs show ?case
    by (auto intro: same_shape_trans)
qed simp

section \<open>The fork\<close>

lemma takeWhile_until: "f \<notin> set xs \<Longrightarrow> takeWhile (\<lambda>n. n \<noteq> f) (xs @ f # ys) = xs"
  by (induction xs) auto

lemma reorganize_nodes:
  assumes wf: "wf_view (hp c) (bestChain c)" and fork: "findFork (hp c) (bestChain c) (Some node) = Some f"
  obtains ds as rest where "getReorganizeNodes c node = (ds, as)" "best c = ds @ f # rest"
    "branch (hp c) node = rev as @ branch (hp c) f"
    "linked (hp c) (rev as @ f # rest)" "\<forall>n\<in>set as. \<not> view_contains (hp c) (bestChain c) n"
proof -
  have h: "wf_heap (hp c)" using wf by (simp add: wf_view_def)
  have find: "find (view_contains (hp c) (bestChain c)) (branch (hp c) node) = Some f"
    using fork findFork_eq [OF wf] by simp
  then obtain xs where xs: "branch (hp c) node = xs @ branch (hp c) f"
    "\<forall>x\<in>set xs. \<not> view_contains (hp c) (bestChain c) x" using find_branch [OF h] by blast
  have cf: "view_contains (hp c) (bestChain c) f" using find by (auto simp: find_Some_iff)
  then have "f \<in> set (best c)" by (simp only: view_contains_iff [OF wf])
  then obtain ds rest where q: "best c = ds @ f # rest" "f \<notin> set ds" by (meson split_list_first)
  obtain t where t: "tip (bestChain c) = Some t" using q by (cases ds) (simp_all add: tip_best)
  obtain more where more: "branch (hp c) t = best c @ more" using view_branch [OF wf t] by blast
  have "f \<notin> set xs" using xs(2) cf by blast
  then have tw: "takeWhile (\<lambda>n. Some n \<noteq> Some f) (branch (hp c) node) = xs"
    by (simp add: xs(1) branch_rec [OF h, of f] takeWhile_until)
  have td: "takeWhile (\<lambda>n. Some n \<noteq> Some f) (branch (hp c) t) = ds"
    using q by (simp add: more takeWhile_until)
  have "linked (hp c) (f # rest)" using linked_append [of "hp c" ds "f # rest"] wf q by (simp add: wf_view_def)
  then obtain r2 where r2: "branch (hp c) f = f # rest @ r2" using linked_branch [OF h] by blast
  have "linked (hp c) (xs @ f # rest)"
    using linked_append [of "hp c" "xs @ f # rest" r2] linked_whole_branch [OF h, of node] xs(1) r2 by simp
  with xs q tw td fork t show thesis
    by (intro that [of ds "rev xs" rest]) (simp_all add: getReorganizeNodes_def Let_def)
qed

lemma load_blocks_length: "load_blocks c ns = Inr bs \<Longrightarrow> length bs = length ns"
  by (induction ns arbitrary: bs) (auto split: sum.splits)

lemma reorganizeChain_best:
  assumes wf: "wf_view (hp c) (bestChain c)" and fork: "findFork (hp c) (bestChain c) (Some node) = Some f"
    and nodes: "getReorganizeNodes c node = (ds, as)"
    and run: "reorganizeChain env c ds as = (Inr (), c')"
    and room: "length as + length (best c) \<le> blockNodeCacheLimit" and new: "as \<noteq> []"
  shows "wf_view (hp c') (bestChain c')" "tip (bestChain c') = Some node"
    "\<exists>rest. best c = ds @ f # rest \<and> best c' = rev as @ f # rest"
proof -
  obtain rest where r: "best c = ds @ f # rest" "branch (hp c) node = rev as @ branch (hp c) f"
    "linked (hp c) (rev as @ f # rest)"
    using reorganize_nodes [OF wf fork] nodes by (metis prod.inject)
  obtain db ab c1 where l: "load_blocks c ds = Inr db" "load_blocks c as = Inr ab"
    "disconnect_all env c (zip ds db) = (Inr (), c1)" "connect_all env c1 (zip as ab) = (Inr (), c')"
    using run by (auto simp: reorganizeChain_def split: sum.splits prod.splits)
  have d: "wf_view (hp c1) (bestChain c1)" "hp c1 = hp c" "best c1 = f # rest"
    using disconnect_all_best [OF l(3) load_blocks_length [OF l(1)] wf r(1)] by auto
  have "wf_view (hp c') (bestChain c') \<and> same_shape (hp c1) (hp c') \<and> best c' = rev as @ best c1"
    using r d room by (intro connect_all_best [OF l(4) load_blocks_length [OF l(2)] d(1)]) simp_all
  with d show wf': "wf_view (hp c') (bestChain c')" and "\<exists>rest. best c = ds @ f # rest \<and> best c' = rev as @ f # rest"
    using r(1) by auto
  have "hd (rev as) = node"
    using arg_cong [OF r(2), of hd] new by simp
  then have "hd (best c') = node" "best c' \<noteq> []"
    using \<open>wf_view (hp c') (bestChain c') \<and> _\<close> new by auto
  then show "tip (bestChain c') = Some node" by (cases "best c'") (simp_all add: tip_best)
qed


lemma connectBlock_failed_best:
  assumes "connectBlock env c node b = (Inl e, c')"
  shows "bestChain c' = bestChain c"
  using assms update_self_shape(2) [of env c node]
  by (auto simp: connectBlock_def handleErrBlk_def log_event_def Let_def
      split: if_splits option.splits sum.splits prod.splits)

lemma reorganizeChain_stuck:
  assumes wf: "wf_view (hp c) (bestChain c)" and fork: "findFork (hp c) (bestChain c) (Some node) = Some f"
    and nodes: "getReorganizeNodes c node = (ds, n # as)"
    and blocks: "load_blocks c ds = Inr db" "load_blocks c (n # as) = Inr (b # ab)"
    and detached: "disconnect_all env c (zip ds db) = (Inr (), c1)"
    and rejected: "connectBlock env c1 n b = (Inl e, c2)"
  shows "reorganizeChain env c ds (n # as) = (Inl e, c2)" "tip (bestChain c2) = Some f"
proof -
  obtain rest where r: "best c = ds @ f # rest"
    using reorganize_nodes [OF wf fork] nodes by (metis prod.inject)
  have "best c1 = f # rest"
    using disconnect_all_best [OF detached load_blocks_length [OF blocks(1)] wf r] by simp
  then show "tip (bestChain c2) = Some f"
    using connectBlock_failed_best [OF rejected] by (simp add: tip_best)
  show "reorganizeChain env c ds (n # as) = (Inl e, c2)"
    using blocks detached rejected by (simp add: reorganizeChain_def split: prod.splits sum.splits)
qed

section \<open>A concrete chain\<close>

text \<open>Genesis, a block on the best chain, and a heavier rival of the same height.\<close>

definition demo_hash :: "8 word \<Rightarrow> bytes" where
  "demo_hash v = v # replicate 31 0"

definition demo_b :: "int \<Rightarrow> int \<Rightarrow> nat block" where
  "demo_b v h = demo_block\<lparr>Version := v, Height := h, ParentHash := demo_hash 0\<rparr>"

definition demo_node :: "int \<Rightarrow> int \<Rightarrow> nat option \<Rightarrow> int \<Rightarrow> blockNode" where
  "demo_node v h p w = newPreGenBlockNode\<lparr>nhash := demo_hash (word_of_int v), nheight := h, parent := p,
     nDifficulty := w, pid := ''peer''\<rparr>"

definition demo_heap :: heap where
  "demo_heap n = (if n = 0 then demo_node 0 0 None 1 else if n = 1 then demo_node 1 1 (Some 0) 1
     else if n = 2 then demo_node 2 1 (Some 0) 5 else newPreGenBlockNode)"

definition demo_view :: chainView where
  "demo_view = \<lparr>vnodes = [0 \<mapsto> (0, 0), 1 \<mapsto> (1, 1)], vqueue = [(1, 1), (0, 0)], vnext = 2\<rparr>"

definition demo_store :: "nat blockStore" where
  "demo_store = \<lparr>blocks = [demo_hash 0 \<mapsto> demo_b 0 0, demo_hash 1 \<mapsto> demo_b 1 1, demo_hash 2 \<mapsto> demo_b 2 1],
     hashAt = [0 \<mapsto> demo_hash 0, 1 \<mapsto> demo_hash 1], tds = [demo_hash 0 \<mapsto> 1, demo_hash 1 \<mapsto> 2],
     dbHeight = Some 1, bsHeight = 1, lastStored = Some (demo_b 1 1)\<rparr>"

definition demo_chain :: "nat chain" where
  "demo_chain = \<lparr>hp = demo_heap, fresh = 3, bindex = newBlockIndex, bestChain = demo_view,
     pool = NewOrphanPool, store = demo_store, events = []\<rparr>"

definition chain_demo_env :: "(bytes \<Rightarrow> nat block \<Rightarrow> bool \<Rightarrow> go_error + nat block) \<Rightarrow> nat chain_env" where
  "chain_demo_env ex = \<lparr>henv = demo_hash_env, isclosed = False, isParaChain = False, neverRollback = False,
     EnableBestBlockCmp = False, DisableBlockBroadcast = False, recordSequence = False, ExecBlock = ex,
     getLocalKV = (\<lambda>b. None), getDelLocalKV = (\<lambda>b. None), saveBlockForTable = (\<lambda>b. None),
     saveBlockSequence = (\<lambda>h n s. None), CmpBest = (\<lambda>b h. False), IsGrpcError = (\<lambda>e. False),
     IsQueueError = (\<lambda>e. False), inFuture = (\<lambda>t. False), maxOrphanBlocks = 10240, orphanNow = 0,
     orphanOrder = []\<rparr>"

lemma demo_wf: "wf_view (hp demo_chain) (bestChain demo_chain)"
  by (auto simp: wf_view_def wf_heap_def demo_chain_def demo_view_def demo_heap_def demo_node_def
      newPreGenBlockNode_def split: if_splits)

lemma demo_fork: "findFork (hp demo_chain) (bestChain demo_chain) (Some 2) = Some 0"
  by code_simp

lemma demo_nodes: "getReorganizeNodes demo_chain 2 = ([1], [2])"
  by code_simp

lemma demo_room: "length (branch (hp demo_chain) 2) + length (best demo_chain) \<le> blockNodeCacheLimit"
  by code_simp

lemma demo_switch: "(case fst (connectBestChain (chain_demo_env (\<lambda>s b r. Inr b)) demo_chain 2 (demo_b 2 1)) of
    Inr (r, m) \<Rightarrow> m | Inl e \<Rightarrow> False)"
  by code_simp

lemma demo_reorg: "(case fst (reorganizeChain (chain_demo_env (\<lambda>s b r. Inr b)) demo_chain [1] [2]) of Inr _ \<Rightarrow> True | Inl e \<Rightarrow> False)"
  by code_simp

lemma demo_detach: "(case fst (disconnect_all (chain_demo_env (\<lambda>s b r. Inl ErrFutureBlock)) demo_chain (zip [1] [demo_b 1 1])) of
    Inr _ \<Rightarrow> True | Inl e \<Rightarrow> False)"
  by code_simp

lemma demo_reject: "fst (connectBlock (chain_demo_env (\<lambda>s b r. Inl ErrFutureBlock))
    (snd (disconnect_all (chain_demo_env (\<lambda>s b r. Inl ErrFutureBlock)) demo_chain (zip [1] [demo_b 1 1]))) 2 (demo_b 2 1)) = Inl ErrFutureBlock"
  by code_simp

section \<open>Properties\<close>





text \<open>
  A reorganisation is not atomic: when the old blocks above the fork have been
  disconnected and the first block of the heavier branch is then rejected by execution,
  \<^verbatim>\<open>reorganizeChain\<close> returns the error and leaves the fork block as the tip; the
  disconnected blocks are not connected again.
\<close>

theorem reorganizeChain_not_atomic:
  assumes "wf_view (hp c) (bestChain c)" "findFork (hp c) (bestChain c) (Some node) = Some f"
    and "getReorganizeNodes c node = (ds, n # as)"
    and "load_blocks c ds = Inr db" "load_blocks c (n # as) = Inr (b # ab)"
    and "disconnect_all env c (zip ds db) = (Inr (), c1)" "connectBlock env c1 n b = (Inl e, c2)"
  shows "reorganizeChain env c ds (n # as) = (Inl e, c2) \<and> tip (bestChain c2) = Some f"
  using reorganizeChain_stuck [OF assms] by simp

theorem reorganizeChain_not_atomic_witness:
  "fst (reorganizeChain (chain_demo_env (\<lambda>s b r. Inl ErrFutureBlock)) demo_chain [1] [2]) = Inl ErrFutureBlock \<and>
   tip (bestChain (snd (reorganizeChain (chain_demo_env (\<lambda>s b r. Inl ErrFutureBlock)) demo_chain [1] [2]))) = Some 0"
proof -
  let ?env = "chain_demo_env (\<lambda>s b r. Inl ErrFutureBlock)"
  let ?d = "disconnect_all ?env demo_chain (zip [1] [demo_b 1 1])"
  have d: "?d = (Inr (), snd ?d)" using demo_detach by (cases ?d) (auto split: sum.splits)
  have r: "connectBlock ?env (snd ?d) 2 (demo_b 2 1) = (Inl ErrFutureBlock, snd (connectBlock ?env (snd ?d) 2 (demo_b 2 1)))"
    using demo_reject by (metis prod.collapse)
  have "load_blocks demo_chain [1] = Inr [demo_b 1 1]" "load_blocks demo_chain [2] = Inr [demo_b 2 1]"
    by (simp_all add: LoadBlockByHash_def demo_chain_def demo_store_def demo_heap_def demo_node_def demo_hash_def)
  from reorganizeChain_not_atomic [OF demo_wf demo_fork demo_nodes this d r] show ?thesis by simp
qed

text \<open>
  \<^verbatim>\<open>findFork\<close> skips the part of a branch above the tip of the view, yet returns the
  last block of the branch that is on the best chain: it is the first one met when the whole
  branch is searched from its end.
\<close>

theorem findFork_last_common:
  assumes "wf_view h v"
  shows "findFork h v (Some n) = find (\<lambda>m. m \<in> set (map snd (vqueue v)) \<and> 0 \<le> nheight (h m)) (branch h n)"
proof -
  have "view_contains h v = (\<lambda>m. m \<in> set (map snd (vqueue v)) \<and> 0 \<le> nheight (h m))"
    using view_contains_iff [OF assms] by (intro ext) simp
  then show ?thesis using findFork_eq [OF assms, of n] by simp
qed

theorem findFork_last_common_witness:
  "findFork (hp demo_chain) (bestChain demo_chain) (Some 2) =
   find (\<lambda>m. m \<in> {1, 0} \<and> 0 \<le> nheight (hp demo_chain m)) (branch (hp demo_chain) 2)"
  using findFork_last_common [OF demo_wf, of 2] by (simp add: demo_chain_def demo_view_def)

end
