(* ===== verification/Transactions.thy ===== *)
theory Transactions
  imports Forks "HOL-Library.Char_ord" "HOL-Library.List_Lexorder"
begin

text \<open>
  Transactions and transaction groups, \<^verbatim>\<open>types/tx.go\<close> and \<^verbatim>\<open>types/sign.go\<close>:
  hashes, fees, expiry, the chaining of a group by its \<^verbatim>\<open>Header\<close> and \<^verbatim>\<open>Next\<close>
  hashes, the caching wrapper \<^verbatim>\<open>TransactionCache\<close> and the sorting of a block's
  transactions by chain. The protobuf encoding, the encoded size, SHA-256, signature checking and
  the address drivers are the fields of \<open>tx_env\<close>. A nilable slice or pointer is an
  option. A decoded group holds no nil pointer; the checks of a group, which look for one, take
  a list of options.
\<close>

unbundle bit_operations_syntax

section \<open>Data\<close>

record tx_signature =
  Ty :: "32 word"
  Pubkey :: bytes
  SigBytes :: bytes

record transaction =
  Execer :: string
  Payload :: bytes
  TxSignature :: "tx_signature option"
  Fee :: int
  Expire :: int
  Nonce :: int
  To :: string
  GroupCount :: int
  TxHeader :: "bytes option"
  Next :: "bytes option"
  ChainID :: int

record tx_env =
  EncodeTx :: "transaction \<Rightarrow> bytes"
  EncodeTxs :: "transaction list \<Rightarrow> bytes"
  DecodeTxs :: "bytes option \<Rightarrow> go_error + transaction list"
  SizeTx :: "transaction \<Rightarrow> int"
  TxSha256 :: "bytes \<Rightarrow> bytes"
  CheckSignature :: "bytes \<Rightarrow> string \<Rightarrow> tx_signature \<Rightarrow> int \<Rightarrow> bool"
  PubKeyToAddr :: "32 word \<Rightarrow> bytes \<Rightarrow> string"
  defaultAddressID :: "32 word"
  LowAllowPackHeight :: int
  HighAllowPackHeight :: int

definition bytes_equal :: "bytes option \<Rightarrow> bytes option \<Rightarrow> bool" where
  "bytes_equal a b \<longleftrightarrow> (case a of None \<Rightarrow> [] | Some x \<Rightarrow> x) = (case b of None \<Rightarrow> [] | Some y \<Rightarrow> y)"

definition MaxTxSize :: int where "MaxTxSize = 100000"
definition MaxTxGroupSize :: int where "MaxTxGroupSize = 20"
definition TxHeightFlag :: int where "TxHeightFlag = 2 ^ 62"
definition ExpireBound :: int where "ExpireBound = 1000000000"

section \<open>Signature types\<close>

text \<open>An \<^verbatim>\<open>int32\<close> holding masks and shifts is a \<open>32 word\<close> read as signed.\<close>

definition IsValidAddressID :: "32 word \<Rightarrow> bool" where
  "IsValidAddressID i \<longleftrightarrow> sint i \<ge> 0 \<and> sint i \<le> 7"

definition EncodeSignID :: "32 word \<Rightarrow> 32 word \<Rightarrow> 32 word \<Rightarrow> 32 word" where
  "EncodeSignID defaultID cryptoID addressID =
     (let a = (if \<not> IsValidAddressID addressID then defaultID else addressID)
      in push_bit 12 a OR cryptoID)"

definition IsEthSignID :: "32 word \<Rightarrow> 32 word \<Rightarrow> bool" where
  "IsEthSignID defaultID txSignID \<longleftrightarrow> txSignID = EncodeSignID defaultID 260 2"

definition ExtractAddressID :: "32 word \<Rightarrow> 32 word" where
  "ExtractAddressID signID = signed_drop_bit 12 (0x00007000 AND signID)"

definition ExtractCryptoID :: "32 word \<Rightarrow> 32 word" where
  "ExtractCryptoID signID = signID AND 0x3fff8fff"

definition sign_ty :: "transaction \<Rightarrow> 32 word" where
  "sign_ty tx = (case TxSignature tx of None \<Rightarrow> 0 | Some s \<Rightarrow> Ty s)"

definition From :: "tx_env \<Rightarrow> transaction \<Rightarrow> string" where
  "From env tx =
     PubKeyToAddr env (ExtractAddressID (sign_ty tx))
       (case TxSignature tx of None \<Rightarrow> [] | Some s \<Rightarrow> Pubkey s)"

section \<open>One transaction\<close>

definition CloneTx :: "transaction \<Rightarrow> transaction" where
  "CloneTx tx = \<lparr>Execer = Execer tx, Payload = Payload tx, TxSignature = TxSignature tx, Fee = Fee tx,
     Expire = Expire tx, Nonce = Nonce tx, To = To tx, GroupCount = GroupCount tx,
     TxHeader = TxHeader tx, Next = Next tx, ChainID = ChainID tx\<rparr>"

definition tx_Hash :: "tx_env \<Rightarrow> transaction \<Rightarrow> bytes" where
  "tx_Hash env tx = TxSha256 env (EncodeTx env ((CloneTx tx)\<lparr>TxSignature := None, TxHeader := None\<rparr>))"

definition FullHash :: "tx_env \<Rightarrow> transaction \<Rightarrow> bytes" where
  "FullHash env tx = TxSha256 env (EncodeTx env (CloneTx tx))"

definition checkSign :: "tx_env \<Rightarrow> transaction \<Rightarrow> int \<Rightarrow> bool" where
  "checkSign env tx blockHeight =
     (let data = EncodeTx env ((CloneTx tx)\<lparr>TxSignature := None\<rparr>)
      in case TxSignature tx of
           None \<Rightarrow> False
         | Some s \<Rightarrow> CheckSignature env data (Execer tx) s blockHeight)"

definition hex_digit :: "nat \<Rightarrow> char" where
  "hex_digit n = ''0123456789abcdef'' ! n"

definition hex_byte :: "8 word \<Rightarrow> string" where
  "hex_byte b = [hex_digit (unat b div 16), hex_digit (unat b mod 16)]"

definition CalcTxShortHash :: "bytes \<Rightarrow> string" where
  "CalcTxShortHash h = (if length h \<ge> 5 then concat (map hex_byte (take 5 h)) else [])"

definition GetRealFee :: "tx_env \<Rightarrow> transaction \<Rightarrow> int \<Rightarrow> go_error + int" where
  "GetRealFee env tx minFee =
     (let txSize = SizeTx env tx + (if TxSignature tx = None then 300 else 0)
      in if txSize > MaxTxSize then Inl ErrTxMsgSizeTooBig
         else Inr (i64 ((txSize div 1000 + 1) * minFee)))"

definition SetRealFee :: "tx_env \<Rightarrow> transaction \<Rightarrow> int \<Rightarrow> go_error + transaction" where
  "SetRealFee env tx minFee =
     (if Fee tx = 0 then
        (case GetRealFee env tx minFee of
           Inl e \<Rightarrow> Inl e
         | Inr fee \<Rightarrow> Inr (tx\<lparr>Fee := fee\<rparr>))
      else Inr tx)"

definition check :: "tx_env \<Rightarrow> OmnilinkConfig \<Rightarrow> int \<Rightarrow> int \<Rightarrow> int \<Rightarrow> transaction \<Rightarrow> go_error option" where
  "check env cfg height minfee maxFee tx =
     (if minfee = 0 then None
      else case GetRealFee env tx minfee of
        Inl e \<Rightarrow> Some e
      | Inr realFee \<Rightarrow>
          if Fee tx < realFee then Some ErrTxFeeTooLow
          else if Fee tx > maxFee \<and> maxFee > 0 \<and> IsFork (cfg_forks cfg) height ''ForkBlockCheck''
          then Some ErrTxFeeTooHigh
          else if ChainID tx \<noteq> chainID cfg then Some ErrTxChainID
          else None)"

definition GetTxHeight :: "OmnilinkConfig \<Rightarrow> int \<Rightarrow> int \<Rightarrow> int" where
  "GetTxHeight cfg valid height =
     (if isPara cfg then - 1
      else if IsEnableFork cfg height ''ForkTxHeight'' (IsEnable cfg ''TxHeight'') \<and> valid > TxHeightFlag
      then i64 (valid - TxHeightFlag)
      else - 1)"

definition isExpire :: "tx_env \<Rightarrow> OmnilinkConfig \<Rightarrow> int \<Rightarrow> int \<Rightarrow> transaction \<Rightarrow> bool" where
  "isExpire env cfg height blocktime tx =
     (let valid = Expire tx
      in if valid = 0 then False
         else
           let blocktime' = (if blocktime > 1000000000000 then blocktime div 1000 else blocktime)
           in if valid \<le> ExpireBound then valid \<le> height
              else
                let txHeight = GetTxHeight cfg valid height
                in if txHeight > 0 then
                     \<not> (i64 (txHeight - LowAllowPackHeight env) \<le> height \<and>
                        height \<le> i64 (txHeight + HighAllowPackHeight env))
                   else valid \<le> blocktime')"

text \<open>\<open>now\<close> is the clock in seconds; \<open>expire\<close> is a \<^verbatim>\<open>time.Duration\<close> in nanoseconds.\<close>

definition SetExpire :: "OmnilinkConfig \<Rightarrow> int \<Rightarrow> transaction \<Rightarrow> int \<Rightarrow> transaction" where
  "SetExpire cfg now tx expire =
     (if IsEnable cfg ''TxHeight'' \<and> expire > TxHeightFlag then tx\<lparr>Expire := expire\<rparr>
      else if expire > ExpireBound then
        let expire' = (if expire < 120 * 1000000000 then 120 * 1000000000 else expire)
        in tx\<lparr>Expire := i64 (now + expire' div 1000000000)\<rparr>
      else tx\<lparr>Expire := expire\<rparr>)"

section \<open>Groups\<close>

definition GetTxGroup :: "tx_env \<Rightarrow> transaction \<Rightarrow> go_error + transaction list option" where
  "GetTxGroup env tx =
     (if GroupCount tx < 0 \<or> GroupCount tx = 1 \<or> GroupCount tx > 20 then Inl ErrTxGroupCount
      else if GroupCount tx > 0 then
        (case DecodeTxs env (TxHeader tx) of Inl e \<Rightarrow> Inl e | Inr txs \<Rightarrow> Inr (Some txs))
      else if Next tx \<noteq> None \<or> TxHeader tx \<noteq> None then Inl ErrNomalTx
      else Inr None)"

text \<open>\<^verbatim>\<open>Transactions.Tx\<close>: the head carries the encoded group in its header.\<close>

definition group_Tx :: "tx_env \<Rightarrow> transaction list \<Rightarrow> transaction option" where
  "group_Tx env txs =
     (if length txs < 2 then None
      else Some ((CloneTx (hd txs))\<lparr>TxHeader := Some (EncodeTxs env txs)\<rparr>))"

definition group_CheckSign :: "tx_env \<Rightarrow> transaction list \<Rightarrow> int \<Rightarrow> bool" where
  "group_CheckSign env txs blockHeight \<longleftrightarrow> (\<forall>tx\<in>set txs. checkSign env tx blockHeight)"

definition group_IsExpire :: "tx_env \<Rightarrow> OmnilinkConfig \<Rightarrow> int \<Rightarrow> int \<Rightarrow> transaction list \<Rightarrow> bool" where
  "group_IsExpire env cfg height blocktime txs \<longleftrightarrow> (\<exists>tx\<in>set txs. isExpire env cfg height blocktime tx)"

text \<open>
  The loop of \<^verbatim>\<open>CreateTxGroup\<close> from the last transaction to the first, over
  the transactions, the sum of the fees, the least fee and the header. The transactions are
  distinct objects; on an error the half-built group is dropped.
\<close>

fun create_loop ::
  "tx_env \<Rightarrow> int \<Rightarrow> nat \<Rightarrow> transaction list \<Rightarrow> int \<Rightarrow> int \<Rightarrow> bytes \<Rightarrow>
   go_error + transaction list \<times> bytes" where
  "create_loop env feeRate 0 txs totalfee minfee header = Inr (txs, header)"
| "create_loop env feeRate (Suc i) txs totalfee minfee header =
     (let totalfee1 = i64 (totalfee + Fee (txs ! i));
          tx = (txs ! i)\<lparr>GroupCount := i32 (int (length txs)), TxHeader := Some header,
                 Fee := (if i = 0 then 2 ^ 62 else 0)\<rparr>
      in case GetRealFee env tx feeRate of
           Inl e \<Rightarrow> Inl e
         | Inr realfee \<Rightarrow>
             let minfee1 = i64 (minfee + realfee)
             in if i = 0 then
                  let totalfee2 = (if totalfee1 < minfee1 then minfee1 else totalfee1);
                      tx0 = tx\<lparr>Fee := totalfee2\<rparr>
                  in create_loop env feeRate i (txs[i := tx0]) totalfee2 minfee1 (tx_Hash env tx0)
                else
                  create_loop env feeRate i
                    (txs[i := tx, i - 1 := (txs ! (i - 1))\<lparr>Next := Some (tx_Hash env tx)\<rparr>])
                    totalfee1 minfee1 header)"

definition CreateTxGroup :: "tx_env \<Rightarrow> transaction list \<Rightarrow> int \<Rightarrow> go_error + transaction list" where
  "CreateTxGroup env txs feeRate =
     (if length txs < 2 then Inl ErrTxGroupCountLessThanTwo
      else case create_loop env feeRate (length txs) txs 0 0 (tx_Hash env (txs ! 0)) of
        Inl e \<Rightarrow> Inl e
      | Inr (txs', header) \<Rightarrow> Inr (map (\<lambda>tx. tx\<lparr>TxHeader := Some header\<rparr>) txs'))"

fun rebuilt_loop :: "tx_env \<Rightarrow> nat \<Rightarrow> transaction list \<Rightarrow> bytes \<Rightarrow> transaction list \<times> bytes" where
  "rebuilt_loop env 0 txs header = (txs, header)"
| "rebuilt_loop env (Suc i) txs header =
     (let tx = (txs ! i)\<lparr>TxHeader := Some header\<rparr>
      in if i = 0 then rebuilt_loop env i (txs[i := tx]) (tx_Hash env tx)
         else rebuilt_loop env i
                (txs[i := tx, i - 1 := (txs ! (i - 1))\<lparr>Next := Some (tx_Hash env tx)\<rparr>]) header)"

definition RebuiltGroup :: "tx_env \<Rightarrow> transaction list \<Rightarrow> go_error + transaction list" where
  "RebuiltGroup env txs =
     (if txs = [] then Inl GoPanic
      else
        let (txs', header) = rebuilt_loop env (length txs) txs (tx_Hash env (txs ! 0))
        in Inr (map (\<lambda>tx. tx\<lparr>TxHeader := Some header\<rparr>) txs'))"

text \<open>The checks of \<^verbatim>\<open>CheckWithFork\<close>, loop by loop.\<close>

fun check_each ::
  "tx_env \<Rightarrow> OmnilinkConfig \<Rightarrow> int \<Rightarrow> int \<Rightarrow> transaction option list \<Rightarrow> string list \<Rightarrow>
   go_error + string list" where
  "check_each env cfg height maxFee [] para = Inr para"
| "check_each env cfg height maxFee (None # txs) para = Inl ErrTxGroupEmpty"
| "check_each env cfg height maxFee (Some tx # txs) para =
     (case check env cfg height 0 maxFee tx of
        Some e \<Rightarrow> Inl e
      | None \<Rightarrow>
          check_each env cfg height maxFee txs
            (case GetParaExecTitleName (Execer tx) of None \<Rightarrow> para | Some t \<Rightarrow> List.insert t para))"

definition para_error :: "bool \<Rightarrow> string list \<Rightarrow> transaction list \<Rightarrow> go_error option" where
  "para_error paraFork para txs =
     (if paraFork then
        if length para > 1 then Some ErrTxGroupParaCount
        else if length para > 0 \<and> (\<exists>tx\<in>set txs. \<not> IsParaExecName (Execer tx))
        then Some ErrTxGroupParaMainMixed
        else None
      else None)"

fun sum_fees :: "tx_env \<Rightarrow> int \<Rightarrow> transaction list \<Rightarrow> int \<Rightarrow> go_error + int" where
  "sum_fees env minfee [] totalfee = Inr totalfee"
| "sum_fees env minfee (tx # txs) totalfee =
     (case GetRealFee env tx minfee of
        Inl e \<Rightarrow> Inl e
      | Inr fee \<Rightarrow> sum_fees env minfee txs (i64 (totalfee + fee)))"

definition link_error :: "tx_env \<Rightarrow> transaction list \<Rightarrow> nat \<Rightarrow> go_error option" where
  "link_error env txs i =
     (if i = 0 \<and> \<not> bytes_equal (Some (tx_Hash env (txs ! i))) (TxHeader (txs ! i)) then Some ErrTxGroupHeader
      else if i \<noteq> 0 \<and> \<not> bytes_equal (TxHeader (txs ! 0)) (TxHeader (txs ! i)) then Some ErrTxGroupHeader
      else if GroupCount (txs ! i) > MaxTxGroupSize then Some ErrTxGroupCountBigThanMaxSize
      else if GroupCount (txs ! i) \<noteq> i32 (int (length txs)) then Some ErrTxGroupCount
      else if i < length txs - 1 then
        (if \<not> bytes_equal (Next (txs ! i)) (Some (tx_Hash env (txs ! (i + 1)))) then Some ErrTxGroupNext
         else None)
      else if Next (txs ! i) \<noteq> None then Some ErrTxGroupNext
      else None)"

definition CheckWithFork ::
  "tx_env \<Rightarrow> OmnilinkConfig \<Rightarrow> bool \<Rightarrow> bool \<Rightarrow> int \<Rightarrow> int \<Rightarrow> int \<Rightarrow> transaction option list \<Rightarrow>
   go_error option" where
  "CheckWithFork env cfg checkFork paraFork height minfee maxFee grp =
     (if length grp < 2 then Some ErrTxGroupCountLessThanTwo
      else case check_each env cfg height maxFee grp [] of
        Inl e \<Rightarrow> Some e
      | Inr para \<Rightarrow>
          let txs = map the grp
          in case para_error paraFork para txs of
               Some e \<Rightarrow> Some e
             | None \<Rightarrow>
                 if \<exists>tx\<in>set (tl txs). Fee tx \<noteq> 0 then Some ErrTxGroupFeeNotZero
                 else case sum_fees env minfee txs 0 of
                   Inl e \<Rightarrow> Some e
                 | Inr totalfee \<Rightarrow>
                     if Fee (txs ! 0) < totalfee then Some ErrTxFeeTooLow
                     else if Fee (txs ! 0) > maxFee \<and> maxFee > 0 \<and> checkFork then Some ErrTxFeeTooHigh
                     else first_error (link_error env txs) [0..<length txs])"

definition group_Check ::
  "tx_env \<Rightarrow> OmnilinkConfig \<Rightarrow> int \<Rightarrow> int \<Rightarrow> int \<Rightarrow> transaction option list \<Rightarrow> go_error option" where
  "group_Check env cfg height minfee maxFee grp =
     CheckWithFork env cfg (IsFork (cfg_forks cfg) height ''ForkBlockCheck'')
       (IsFork (cfg_forks cfg) height ''ForkTxGroupPara'') height minfee maxFee grp"

definition tx_Check ::
  "tx_env \<Rightarrow> OmnilinkConfig \<Rightarrow> int \<Rightarrow> int \<Rightarrow> int \<Rightarrow> transaction \<Rightarrow> go_error option" where
  "tx_Check env cfg height minfee maxFee tx =
     (case GetTxGroup env tx of
        Inl e \<Rightarrow> Some e
      | Inr None \<Rightarrow> check env cfg height minfee maxFee tx
      | Inr (Some grp) \<Rightarrow> group_Check env cfg height minfee maxFee (map Some grp))"

definition IsExpire :: "tx_env \<Rightarrow> OmnilinkConfig \<Rightarrow> int \<Rightarrow> int \<Rightarrow> transaction \<Rightarrow> bool" where
  "IsExpire env cfg height blocktime tx =
     (case GetTxGroup env tx of
        Inr (Some grp) \<Rightarrow> group_IsExpire env cfg height blocktime grp
      | _ \<Rightarrow> isExpire env cfg height blocktime tx)"

definition GetTxFee :: "tx_env \<Rightarrow> transaction \<Rightarrow> int" where
  "GetTxFee env tx =
     (case GetTxGroup env tx of
        Inr (Some (tx0 # _)) \<Rightarrow> Fee tx0
      | _ \<Rightarrow> Fee tx)"

section \<open>TransactionCache\<close>

record TransactionCache =
  cached_tx :: transaction
  txGroup :: "transaction list option"
  cached_hash :: "bytes option"
  cached_size :: int
  signok :: int
  checkok :: "go_error option"
  checked :: bool

definition NewTransactionCache :: "transaction \<Rightarrow> TransactionCache" where
  "NewTransactionCache tx = \<lparr>cached_tx = tx, txGroup = None, cached_hash = None, cached_size = 0,
     signok = 0, checkok = None, checked = False\<rparr>"

definition cache_Hash :: "tx_env \<Rightarrow> TransactionCache \<Rightarrow> bytes \<times> TransactionCache" where
  "cache_Hash env c =
     (case cached_hash c of
        None \<Rightarrow> let h = tx_Hash env (cached_tx c) in (h, c\<lparr>cached_hash := Some h\<rparr>)
      | Some h \<Rightarrow> (h, c))"

definition cache_Size :: "tx_env \<Rightarrow> TransactionCache \<Rightarrow> int \<times> TransactionCache" where
  "cache_Size env c =
     (if cached_size c = 0 then let s = SizeTx env (cached_tx c) in (s, c\<lparr>cached_size := s\<rparr>)
      else (cached_size c, c))"

definition cache_GetTxGroup ::
  "tx_env \<Rightarrow> TransactionCache \<Rightarrow> (go_error + transaction list option) \<times> TransactionCache" where
  "cache_GetTxGroup env c =
     (case txGroup c of
        Some g \<Rightarrow> (Inr (Some g), c)
      | None \<Rightarrow>
          (case GetTxGroup env (cached_tx c) of
             Inl e \<Rightarrow> (Inl e, c\<lparr>txGroup := None\<rparr>)
           | Inr g \<Rightarrow> (Inr g, c\<lparr>txGroup := g\<rparr>)))"

definition cache_Check ::
  "tx_env \<Rightarrow> OmnilinkConfig \<Rightarrow> int \<Rightarrow> int \<Rightarrow> int \<Rightarrow> TransactionCache \<Rightarrow> go_error option \<times> TransactionCache" where
  "cache_Check env cfg height minfee maxFee c =
     (if \<not> checked c then
        let (r, c1) = cache_GetTxGroup env (c\<lparr>checked := True\<rparr>)
        in case r of
             Inl e \<Rightarrow> (Some e, c1\<lparr>checkok := Some e\<rparr>)
           | Inr None \<Rightarrow>
               let e = check env cfg height minfee maxFee (cached_tx c1) in (e, c1\<lparr>checkok := e\<rparr>)
           | Inr (Some txs) \<Rightarrow>
               let e = group_Check env cfg height minfee maxFee (map Some txs) in (e, c1\<lparr>checkok := e\<rparr>)
      else (checkok c, c))"

definition cache_GetTotalFee ::
  "tx_env \<Rightarrow> int \<Rightarrow> TransactionCache \<Rightarrow> (go_error + int) \<times> TransactionCache" where
  "cache_GetTotalFee env minFee c =
     (let (r, c1) = cache_GetTxGroup env c
      in case r of
           Inl e \<Rightarrow> (Inl e, c1\<lparr>checkok := Some e\<rparr>)
         | Inr None \<Rightarrow> (GetRealFee env (cached_tx c1) minFee, c1)
         | Inr (Some txs) \<Rightarrow> (sum_fees env minFee txs 0, c1))"

definition cache_CheckSign :: "tx_env \<Rightarrow> int \<Rightarrow> TransactionCache \<Rightarrow> bool \<times> TransactionCache" where
  "cache_CheckSign env blockHeight c =
     (if signok c = 0 then
        let (r, c1) = cache_GetTxGroup env (c\<lparr>signok := 2\<rparr>)
        in case r of
             Inl e \<Rightarrow> (False, c1)
           | Inr None \<Rightarrow>
               let ok = checkSign env (cached_tx c1) blockHeight
               in (ok, if ok then c1\<lparr>signok := 1\<rparr> else c1)
           | Inr (Some txs) \<Rightarrow>
               let ok = group_CheckSign env txs blockHeight
               in (ok, if ok then c1\<lparr>signok := 1\<rparr> else c1)
      else (signok c = 1, c))"

section \<open>Sorting the transactions of a block by chain\<close>

definition chain_title :: "transaction \<Rightarrow> string" where
  "chain_title tx =
     (case GetParaExecTitleName (Execer tx) of None \<Rightarrow> MainChainName | Some t \<Rightarrow> t)"

fun group_titles :: "(string \<times> transaction list) list \<Rightarrow> transaction list \<Rightarrow> (string \<times> transaction list) list" where
  "group_titles m [] = m"
| "group_titles m (tx # txs) =
     (case map_of m (chain_title tx) of
        Some ts \<Rightarrow> group_titles (AList.update (chain_title tx) (ts @ [tx]) m) txs
      | None \<Rightarrow> group_titles (AList.update (chain_title tx) [tx] m) txs)"

definition TransactionSort :: "transaction list \<Rightarrow> transaction list" where
  "TransactionSort rawtxs =
     (let txMap = group_titles [] rawtxs;
          newMp = sort (map fst txMap)
      in concat (map (\<lambda>v. case map_of txMap v of None \<Rightarrow> [] | Some ts \<Rightarrow> ts) newMp))"

end
