(* ===== verification/Transactions_Theorems.thy ===== *)
theory Transactions_Theorems
  imports Transactions "HOL-Library.Multiset"
begin

text \<open>
  What \<^verbatim>\<open>types/tx.go\<close> promises of transaction groups, expiry and sorting: the groups the
  code builds are the groups the code accepts.
\<close>

section \<open>Hash and fee of one transaction\<close>

lemma CloneTx_id [simp]: "CloneTx tx = tx"
  by (simp add: CloneTx_def)

lemma tx_Hash_header [simp]: "tx_Hash env (tx\<lparr>TxHeader := h\<rparr>) = tx_Hash env tx"
  by (simp add: tx_Hash_def)

lemma tx_Hash_signature [simp]: "tx_Hash env (tx\<lparr>TxSignature := s\<rparr>) = tx_Hash env tx"
  by (simp add: tx_Hash_def)

definition tsize :: "tx_env \<Rightarrow> transaction \<Rightarrow> int" where
  "tsize env tx = SizeTx env tx + (if TxSignature tx = None then 300 else 0)"

definition rfee :: "tx_env \<Rightarrow> int \<Rightarrow> transaction \<Rightarrow> int" where
  "rfee env r tx = (tsize env tx div 1000 + 1) * r"

text \<open>
  What the fee of a group relies on: sizes are not negative, a 32-byte header takes the same
  room whatever it is, and no fee takes more room than \<open>2 ^ 62\<close> does as a varint.
\<close>

definition size_laws :: "tx_env \<Rightarrow> bool" where
  "size_laws env \<longleftrightarrow>
     (\<forall>tx. 0 \<le> SizeTx env tx) \<and> (\<forall>d. length (TxSha256 env d) = 32) \<and>
     (\<forall>tx h h'. length h = length h' \<longrightarrow>
        SizeTx env (tx\<lparr>TxHeader := Some h\<rparr>) = SizeTx env (tx\<lparr>TxHeader := Some h'\<rparr>)) \<and>
     (\<forall>tx f. 0 \<le> f \<longrightarrow> SizeTx env (tx\<lparr>Fee := f\<rparr>) \<le> SizeTx env (tx\<lparr>Fee := 2 ^ 62\<rparr>))"

lemma tsize_nonneg: "size_laws env \<Longrightarrow> 0 \<le> tsize env tx"
  by (simp add: size_laws_def tsize_def)

lemma rfee_bounds:
  assumes "size_laws env" "tsize env tx \<le> MaxTxSize" "0 \<le> r"
  shows "0 \<le> rfee env r tx" "rfee env r tx \<le> 101 * r"
proof -
  have "0 \<le> tsize env tx div 1000" using tsize_nonneg [OF assms(1)] by (simp add: pos_imp_zdiv_nonneg_iff)
  moreover have "tsize env tx div 1000 \<le> 100" using assms(2) by (simp add: MaxTxSize_def)
  ultimately show "0 \<le> rfee env r tx" "rfee env r tx \<le> 101 * r"
    using assms(3) by (simp_all add: rfee_def mult_right_mono)
qed

lemma GetRealFee_rfee:
  "GetRealFee env tx r = (if tsize env tx > MaxTxSize then Inl ErrTxMsgSizeTooBig else Inr (i64 (rfee env r tx)))"
  by (simp add: GetRealFee_def tsize_def rfee_def Let_def)

lemma rfee_mono: "tsize env tx \<le> tsize env tx' \<Longrightarrow> 0 \<le> r \<Longrightarrow> rfee env r tx \<le> rfee env r tx'"
  by (simp add: rfee_def mult_right_mono zdiv_mono1)

section \<open>The loop of CreateTxGroup\<close>

definition priced :: "transaction list \<Rightarrow> nat \<Rightarrow> transaction" where
  "priced ts j = (if j = 0 then (ts ! 0)\<lparr>Fee := 2 ^ 62\<rparr> else ts ! j)"

lemma create_loop_Suc:
  assumes "create_loop env r (Suc i) ts tot mf h = Inr res" "0 < i" "i < length ts"
    and "size_laws env" "0 \<le> r" "0 \<le> mf" "mf + int (Suc i) * (101 * r) < 2 ^ 63"
  obtains tx where "tx = (ts ! i)\<lparr>GroupCount := i32 (int (length ts)), TxHeader := Some h, Fee := 0\<rparr>"
    "tsize env tx \<le> MaxTxSize"
    "create_loop env r i (ts[i := tx, i - 1 := (ts ! (i - 1))\<lparr>Next := Some (tx_Hash env tx)\<rparr>])
       (i64 (tot + Fee (ts ! i))) (mf + rfee env r tx) h = Inr res"
proof -
  define tx where "tx = (ts ! i)\<lparr>GroupCount := i32 (int (length ts)), TxHeader := Some h, Fee := 0\<rparr>"
  have ok: "tsize env tx \<le> MaxTxSize"
    using assms(1,2) by (auto simp: GetRealFee_rfee tx_def [symmetric] Let_def split: if_splits)
  have "0 \<le> rfee env r tx" "rfee env r tx \<le> 101 * r" using rfee_bounds [OF assms(4) ok assms(5)] .
  moreover have "mf + 101 * r < 2 ^ 63"
  proof -
    have "0 \<le> int i * (101 * r)" using assms(5) by simp
    moreover have "int (Suc i) * (101 * r) = 101 * r + int i * (101 * r)" by (simp add: algebra_simps)
    ultimately show ?thesis using assms(7) by linarith
  qed
  ultimately have "i64 (rfee env r tx) = rfee env r tx" "i64 (mf + rfee env r tx) = mf + rfee env r tx"
    using assms(6) by (auto intro!: i64_id i64_nonneg_range)
  then show ?thesis
    using that [OF tx_def ok] assms(1,2) ok
    by (simp add: GetRealFee_rfee tx_def [symmetric] Let_def)
qed

lemma create_loop_one:
  assumes "create_loop env r (Suc 0) ts tot mf h = Inr (ts', h')" "0 < length ts"
    and "size_laws env" "0 \<le> r" "0 \<le> mf" "mf + 101 * r < 2 ^ 63"
  shows "\<exists>f. ts' = ts[0 := (ts ! 0)\<lparr>GroupCount := i32 (int (length ts)), TxHeader := Some h, Fee := f\<rparr>] \<and>
    h' = tx_Hash env (ts' ! 0) \<and> tsize env (priced ts' 0) \<le> MaxTxSize \<and>
    mf + rfee env r (priced ts' 0) \<le> f"
proof -
  define tx where "tx = (ts ! 0)\<lparr>GroupCount := i32 (int (length ts)), TxHeader := Some h, Fee := 2 ^ 62\<rparr>"
  have ok: "tsize env tx \<le> MaxTxSize"
    using assms(1) by (auto simp: GetRealFee_rfee tx_def Let_def split: if_splits)
  have b: "0 \<le> rfee env r tx" "rfee env r tx \<le> 101 * r" using rfee_bounds [OF assms(3) ok assms(4)] .
  then have w: "i64 (rfee env r tx) = rfee env r tx" "i64 (mf + rfee env r tx) = mf + rfee env r tx"
    using assms(5,6) by (auto intro!: i64_id i64_nonneg_range)
  define f where "f = (if i64 (tot + Fee (ts ! 0)) < mf + rfee env r tx then mf + rfee env r tx
    else i64 (tot + Fee (ts ! 0)))"
  have res: "ts' = ts[0 := tx\<lparr>Fee := f\<rparr>]" "h' = tx_Hash env (tx\<lparr>Fee := f\<rparr>)"
    using assms(1) ok w by (auto simp: GetRealFee_rfee tx_def Let_def f_def)
  then have pr: "priced ts' 0 = tx" using assms(2) by (simp add: priced_def tx_def)
  show ?thesis
    using res pr ok assms(2) by (intro exI [of _ f]) (simp add: tx_def f_def)
qed

text \<open>What the loop leaves of the first \<open>k\<close> transactions.\<close>

definition group_built :: "tx_env \<Rightarrow> nat \<Rightarrow> transaction list \<Rightarrow> bytes \<Rightarrow> transaction list \<Rightarrow> bool" where
  "group_built env k ts h ts' \<longleftrightarrow>
     length ts' = length ts \<and> (\<forall>j. k \<le> j \<longrightarrow> j < length ts \<longrightarrow> ts' ! j = ts ! j) \<and>
     (\<forall>j<k. GroupCount (ts' ! j) = i32 (int (length ts)) \<and> TxHeader (ts' ! j) = Some h \<and>
        Execer (ts' ! j) = Execer (ts ! j) \<and> (0 < j \<longrightarrow> Fee (ts' ! j) = 0) \<and>
        tsize env (priced ts' j) \<le> MaxTxSize) \<and>
     (\<forall>j. Suc j < k \<longrightarrow> Next (ts' ! j) = Some (tx_Hash env (ts' ! Suc j))) \<and>
     Next (ts' ! (k - 1)) = Next (ts ! (k - 1))"

lemma create_loop_built:
  assumes "create_loop env r k ts tot mf h = Inr (ts', h')" "0 < k" "k \<le> length ts"
    and "size_laws env" "0 \<le> r" "0 \<le> mf" "mf + int k * (101 * r) < 2 ^ 63"
  shows "group_built env k ts h ts' \<and> h' = tx_Hash env (ts' ! 0) \<and>
    mf + (\<Sum>j<k. rfee env r (priced ts' j)) \<le> Fee (ts' ! 0)"
  using assms
proof (induction k arbitrary: ts tot mf)
  case (Suc i)
  show ?case
  proof (cases i)
    case 0
    have ne: "0 < length ts" and room: "mf + 101 * r < 2 ^ 63" using Suc.prems(3,7) 0 by auto
    obtain f where f: "ts' = ts[0 := (ts ! 0)\<lparr>GroupCount := i32 (int (length ts)), TxHeader := Some h, Fee := f\<rparr>]"
      "h' = tx_Hash env (ts' ! 0)" "tsize env (priced ts' 0) \<le> MaxTxSize" "mf + rfee env r (priced ts' 0) \<le> f"
      using create_loop_one [OF Suc.prems(1) [unfolded 0] ne Suc.prems(4,5,6) room] by blast
    moreover have "Fee (ts' ! 0) = f" using ne f(1) by simp
    ultimately show ?thesis using ne by (simp add: group_built_def 0)
  next
    case (Suc i')
    then have i: "0 < i" "i < length ts" using Suc.prems by simp_all
    obtain tx where tx: "tx = (ts ! i)\<lparr>GroupCount := i32 (int (length ts)), TxHeader := Some h, Fee := 0\<rparr>"
      and ok: "tsize env tx \<le> MaxTxSize"
      and loop: "create_loop env r i (ts[i := tx, i - 1 := (ts ! (i - 1))\<lparr>Next := Some (tx_Hash env tx)\<rparr>])
         (i64 (tot + Fee (ts ! i))) (mf + rfee env r tx) h = Inr (ts', h')"
      using create_loop_Suc [OF Suc.prems(1) i Suc.prems(4,5,6,7)] by blast
    let ?ts = "ts[i := tx, i - 1 := (ts ! (i - 1))\<lparr>Next := Some (tx_Hash env tx)\<rparr>]"
    note b = rfee_bounds [OF Suc.prems(4) ok Suc.prems(5)]
    have "mf + rfee env r tx + int i * (101 * r) < 2 ^ 63" "0 \<le> mf + rfee env r tx"
      using b Suc.prems(6,7) by (simp_all add: distrib_right)
    then have IH: "group_built env i ?ts h ts'" "h' = tx_Hash env (ts' ! 0)"
        "mf + rfee env r tx + (\<Sum>j<i. rfee env r (priced ts' j)) \<le> Fee (ts' ! 0)"
      using Suc.IH [OF loop i(1)] i(2) Suc.prems(4,5) by simp_all
    have at_i: "ts' ! i = tx" using IH(1) i by (simp add: group_built_def)
    have built: "group_built env (Suc i) ts h ts'"
      unfolding group_built_def
    proof (intro conjI allI impI)
      show "length ts' = length ts" using IH(1) by (simp add: group_built_def)
    next
      fix j assume "Suc i \<le> j" "j < length ts"
      then show "ts' ! j = ts ! j" using IH(1) by (simp add: group_built_def)
    next
      fix j assume "j < Suc i"
      then have "j = i \<or> j < i" by auto
      then show "GroupCount (ts' ! j) = i32 (int (length ts))" "TxHeader (ts' ! j) = Some h"
        "Execer (ts' ! j) = Execer (ts ! j)" "tsize env (priced ts' j) \<le> MaxTxSize"
        using IH(1) i ok at_i by (auto simp: group_built_def tx priced_def nth_list_update)
      assume "0 < j"
      then show "Fee (ts' ! j) = 0" using \<open>j = i \<or> j < i\<close> IH(1) at_i by (auto simp: group_built_def tx)
    next
      fix j assume "Suc j < Suc i"
      then show "Next (ts' ! j) = Some (tx_Hash env (ts' ! Suc j))"
        using IH(1) at_i i by (cases "Suc j = i") (auto simp: group_built_def)
    next
      show "Next (ts' ! (Suc i - 1)) = Next (ts ! (Suc i - 1))" using at_i by (simp add: tx)
    qed
    moreover have "priced ts' i = tx" using i at_i by (simp add: priced_def)
    ultimately show ?thesis using IH by simp
  qed
qed simp


section \<open>The checks\<close>

lemma check_no_minfee [simp]: "check env cfg height 0 maxFee tx = None"
  by (simp add: check_def)

definition add_title :: "transaction \<Rightarrow> string list \<Rightarrow> string list" where
  "add_title tx para =
     (case GetParaExecTitleName (Execer tx) of None \<Rightarrow> para | Some t \<Rightarrow> List.insert t para)"

lemma check_each_Some:
  "check_each env cfg height maxFee (map Some txs) para = Inr (fold add_title txs para)"
  by (induction txs arbitrary: para) (simp_all add: add_title_def)

definition one_chain :: "transaction list \<Rightarrow> bool" where
  "one_chain txs \<longleftrightarrow> (\<exists>c. \<forall>tx\<in>set txs. GetParaExecTitleName (Execer tx) = c)"

lemma one_chain_no_para_error:
  assumes "one_chain txs" shows "para_error pf (fold add_title txs []) txs = None"
proof -
  obtain c where c: "\<And>tx. tx \<in> set txs \<Longrightarrow> GetParaExecTitleName (Execer tx) = c"
    using assms by (auto simp: one_chain_def)
  show ?thesis
  proof (cases c)
    case None
    then have "fold add_title txs [] = []" using c by (induction txs) (auto simp: add_title_def)
    then show ?thesis by (simp add: para_error_def)
  next
    case (Some t)
    have "fold add_title ts para \<in> {[], [t]}" if "set ts \<subseteq> set txs" "para \<in> {[], [t]}" for ts para
      using that
    proof (induction ts arbitrary: para)
      case (Cons tx ts)
      then have "add_title tx para = [t]" using c [of tx] Some by (auto simp: add_title_def)
      moreover have "set ts \<subseteq> set txs" using \<open>set (tx # ts) \<subseteq> set txs\<close> by simp
      ultimately show ?case using Cons.IH [of "[t]"] by simp
    qed simp
    then have "length (fold add_title txs []) \<le> 1" by fastforce
    moreover have "IsParaExecName (Execer tx)" if "tx \<in> set txs" for tx
      using c [OF that] Some by (auto simp: GetParaExecTitleName_def split: if_splits)
    ultimately show ?thesis by (auto simp: para_error_def)
  qed
qed

lemma group_room:
  assumes "0 \<le> r" "r \<le> 2 ^ 50" "n \<le> 20" shows "0 + int n * (101 * r) < 2 ^ 63"
proof -
  have "int n * (101 * r) \<le> 20 * (101 * 2 ^ 50)" using assms by (intro mult_mono) auto
  also have "\<dots> < 2 ^ 63" by simp
  finally show ?thesis by simp
qed

lemma sum_fees_exact:
  assumes "size_laws env" "0 \<le> r" "\<forall>tx\<in>set ts. tsize env tx \<le> MaxTxSize"
    and "0 \<le> acc" "acc + int (length ts) * (101 * r) < 2 ^ 63"
  shows "sum_fees env r ts acc = Inr (acc + sum_list (map (rfee env r) ts))"
  using assms(3-5)
proof (induction ts arbitrary: acc)
  case (Cons tx ts)
  have b: "0 \<le> rfee env r tx" "rfee env r tx \<le> 101 * r"
    using rfee_bounds [OF assms(1) _ assms(2)] Cons.prems(1) by simp_all
  have "0 \<le> int (length ts) * (101 * r)" using assms(2) by simp
  moreover have room: "acc + 101 * r + int (length ts) * (101 * r) < 2 ^ 63"
    using Cons.prems(3) by (simp add: algebra_simps)
  ultimately have "acc + rfee env r tx < 2 ^ 63" using b by linarith
  then have w: "i64 (rfee env r tx) = rfee env r tx" "i64 (acc + rfee env r tx) = acc + rfee env r tx"
    using b Cons.prems(2) by (auto intro!: i64_id i64_nonneg_range)
  have "sum_fees env r ts (acc + rfee env r tx) = Inr (acc + rfee env r tx + sum_list (map (rfee env r) ts))"
    using b room Cons.prems by (intro Cons.IH) auto
  then show ?case using Cons.prems(1) w by (simp add: GetRealFee_rfee)
qed simp

lemma CheckWithFork_group:
  assumes "size_laws env" "0 \<le> r" "r \<le> 2 ^ 50" "one_chain txs" "2 \<le> length txs" "length txs \<le> 20"
    and "\<forall>tx\<in>set txs. tsize env tx \<le> MaxTxSize" "\<forall>j. 0 < j \<longrightarrow> j < length txs \<longrightarrow> Fee (txs ! j) = 0"
    and "sum_list (map (rfee env r) txs) \<le> Fee (txs ! 0)" "maxFee \<le> 0 \<or> Fee (txs ! 0) \<le> maxFee"
    and "\<forall>j<length txs. link_error env txs j = None"
  shows "CheckWithFork env cfg cf pf height r maxFee (map Some txs) = None"
proof -
  have sum: "sum_fees env r txs 0 = Inr (sum_list (map (rfee env r) txs))"
    using sum_fees_exact [OF assms(1,2,7) _ group_room [OF assms(2,3,6)]] by simp
  have "\<forall>tx\<in>set (tl txs). Fee tx = 0"
    using assms(5,8) by (auto simp: in_set_conv_nth nth_tl)
  moreover have "map the (map Some txs) = txs" by (simp add: comp_def)
  ultimately show ?thesis
    using assms(5,9-11) sum by (auto simp: CheckWithFork_def check_each_Some one_chain_no_para_error [OF assms(4)] Let_def)
qed

definition hash_linked :: "tx_env \<Rightarrow> transaction list \<Rightarrow> bool" where
  "hash_linked env txs \<longleftrightarrow>
     (\<forall>j<length txs. TxHeader (txs ! j) = Some (tx_Hash env (txs ! 0))) \<and>
     (\<forall>j. Suc j < length txs \<longrightarrow> Next (txs ! j) = Some (tx_Hash env (txs ! Suc j))) \<and>
     Next (last txs) = None"

lemma hash_linked_no_error:
  assumes "hash_linked env txs" "length txs \<le> 20"
    and "\<forall>tx\<in>set txs. GroupCount tx = int (length txs)"
  shows "\<forall>j<length txs. link_error env txs j = None"
proof (intro allI impI)
  fix j assume j: "j < length txs"
  have gc: "GroupCount (txs ! j) = int (length txs)" "i32 (int (length txs)) = int (length txs)"
    using assms(2,3) j by (auto simp: i32_id)
  have hd: "TxHeader (txs ! j) = Some (tx_Hash env (txs ! 0))" "TxHeader (txs ! 0) = Some (tx_Hash env (txs ! 0))"
    using assms(1) j unfolding hash_linked_def by fastforce+
  have nx: "Next (txs ! j) = (if j < length txs - 1 then Some (tx_Hash env (txs ! Suc j)) else None)"
  proof (cases "Suc j < length txs")
    case False
    then have "txs ! j = last txs" using j by (metis Suc_lessI diff_Suc_1 last_conv_nth less_nat_zero_code list.size(3))
    then show ?thesis using False assms(1) by (simp add: hash_linked_def)
  qed (use assms(1) in \<open>simp add: hash_linked_def\<close>)
  show "link_error env txs j = None"
    using gc hd nx assms(2) j by (cases "j = 0") (simp_all add: link_error_def bytes_equal_def MaxTxGroupSize_def)
qed

lemma tsize_header:
  assumes "size_laws env" "length h = length h'" "TxHeader tx = Some h"
  shows "tsize env (tx\<lparr>TxHeader := Some h'\<rparr>) = tsize env tx"
proof -
  have "SizeTx env (tx\<lparr>TxHeader := Some h'\<rparr>) = SizeTx env (tx\<lparr>TxHeader := Some h\<rparr>)"
    using assms(1,2) unfolding size_laws_def by metis
  moreover have "tx\<lparr>TxHeader := Some h\<rparr> = tx" using assms(3) by simp
  ultimately show ?thesis by (simp add: tsize_def)
qed

lemma tsize_priced:
  assumes "size_laws env" "0 \<le> Fee (ts ! 0)"
  shows "tsize env (ts ! j) \<le> tsize env (priced ts j)"
proof (cases "j = 0")
  case True
  have "SizeTx env ((ts ! 0)\<lparr>Fee := Fee (ts ! 0)\<rparr>) \<le> SizeTx env ((ts ! 0)\<lparr>Fee := 2 ^ 62\<rparr>)"
    using assms unfolding size_laws_def by blast
  then show ?thesis using True by (simp add: tsize_def priced_def)
qed (simp add: priced_def)

lemma CreateTxGroup_Inr:
  assumes "CreateTxGroup env txs r = Inr grp" "size_laws env" "length txs \<le> 20" "0 \<le> r" "r \<le> 2 ^ 50"
    and "Next (last txs) = None"
  shows "2 \<le> length txs \<and> length grp = length txs \<and> map Execer grp = map Execer txs \<and> hash_linked env grp \<and>
    (\<forall>tx\<in>set grp. GroupCount tx = int (length txs) \<and> tsize env tx \<le> MaxTxSize) \<and>
    (\<forall>j. 0 < j \<longrightarrow> j < length grp \<longrightarrow> Fee (grp ! j) = 0) \<and>
    sum_list (map (rfee env r) grp) \<le> Fee (grp ! 0)"
proof -
  let ?n = "length txs" and ?h = "tx_Hash env (txs ! 0)"
  have n: "2 \<le> ?n" using assms(1) by (auto simp: CreateTxGroup_def split: if_splits)
  obtain ts' h' where loop: "create_loop env r ?n txs 0 0 ?h = Inr (ts', h')"
    and grp: "grp = map (\<lambda>tx. tx\<lparr>TxHeader := Some h'\<rparr>) ts'"
    using assms(1) by (auto simp: CreateTxGroup_def split: if_splits sum.splits)
  have n': "0 < ?n" using n by linarith
  note room = group_room [OF assms(4,5,3)]
  have built: "group_built env ?n txs ?h ts'" and h': "h' = tx_Hash env (ts' ! 0)"
    and fee: "(\<Sum>j<?n. rfee env r (priced ts' j)) \<le> Fee (ts' ! 0)"
    using create_loop_built [OF loop n' order_refl assms(2,4) order_refl room] by simp_all
  have len: "length ts' = ?n" using built by (simp add: group_built_def)
  have at: "grp ! j = (ts' ! j)\<lparr>TxHeader := Some h'\<rparr>" if "j < ?n" for j using that len by (simp add: grp)
  have pos: "0 \<le> (\<Sum>j<?n. rfee env r (priced ts' j))"
    using built by (intro sum_nonneg rfee_bounds(1) [OF assms(2) _ assms(4)]) (simp add: group_built_def)
  have sz: "tsize env (grp ! j) \<le> tsize env (priced ts' j)" if "j < ?n" for j
  proof -
    have "tsize env (grp ! j) = tsize env (ts' ! j)"
      unfolding at [OF that]
    proof (rule tsize_header [OF assms(2)])
      show "length ?h = length h'" using assms(2) by (simp add: h' tx_Hash_def size_laws_def)
      show "TxHeader (ts' ! j) = Some ?h" using built that by (simp add: group_built_def)
    qed
    then show ?thesis using tsize_priced [OF assms(2), of ts' j] pos fee by simp
  qed
  have "sum_list (map (rfee env r) grp) = (\<Sum>j<?n. rfee env r (grp ! j))"
    by (simp add: sum_list_sum_nth grp len atLeast0LessThan)
  also have "\<dots> \<le> (\<Sum>j<?n. rfee env r (priced ts' j))"
    using sz assms(4) by (intro sum_mono rfee_mono) auto
  also have "\<dots> \<le> Fee (grp ! 0)" using fee at [OF n'] by simp
  finally have total: "sum_list (map (rfee env r) grp) \<le> Fee (grp ! 0)" .
  have each: "GroupCount (grp ! j) = int ?n \<and> tsize env (grp ! j) \<le> MaxTxSize" if "j < ?n" for j
    using sz [OF that] built that assms(3) at [OF that] by (auto simp: group_built_def i32_id)
  have "hash_linked env grp"
  proof -
    have ne: "grp \<noteq> []" "txs \<noteq> []" "length grp = ?n" using n' len by (auto simp: grp)
    have "Next (grp ! (?n - 1)) = None"
      using built at [of "?n - 1"] n' assms(6) ne last_conv_nth [of txs] by (simp add: group_built_def)
    then show ?thesis
      using built at at [OF n'] ne last_conv_nth [of grp]
      by (simp add: hash_linked_def group_built_def h')
  qed
  moreover have "map Execer grp = map Execer txs"
    using built at len by (intro nth_equalityI) (auto simp: group_built_def grp)
  ultimately show ?thesis
    using n total each built at len by (auto simp: grp in_set_conv_nth group_built_def)
qed

text \<open>
  C7. The groups the code builds are the groups the code accepts: a group made by
  \<^verbatim>\<open>CreateTxGroup\<close> of at most 20 transactions of one chain, packed into one transaction by
  \<^verbatim>\<open>Tx\<close>, unpacks to itself, keeps the hash of its head, and passes \<^verbatim>\<open>Check\<close> at
  the fee rate it was made for, at any height, unless its fee is above the allowed maximum.
\<close>

theorem CreateTxGroup_passes_Check:
  assumes "CreateTxGroup env txs rate = Inr grp" "size_laws env"
    and "DecodeTxs env (Some (EncodeTxs env grp)) = Inr grp"
    and "length txs \<le> 20" "Next (last txs) = None" "0 \<le> rate" "rate \<le> 2 ^ 50" "one_chain txs"
    and "maxFee \<le> 0 \<or> Fee (grp ! 0) \<le> maxFee"
  shows "\<exists>tx. group_Tx env grp = Some tx \<and> tx_Hash env tx = tx_Hash env (grp ! 0) \<and>
    GetTxGroup env tx = Inr (Some grp) \<and> tx_Check env cfg height rate maxFee tx = None"
proof -
  note built = CreateTxGroup_Inr [OF assms(1,2,4,6,7,5)]
  let ?tx = "(hd grp)\<lparr>TxHeader := Some (EncodeTxs env grp)\<rparr>"
  have ne: "grp \<noteq> []" using built by auto
  then have hd: "hd grp = grp ! 0" "hd grp \<in> set grp" by (simp_all add: hd_conv_nth)
  have gc: "GroupCount ?tx = int (length txs)" using built hd(2) by simp
  have unpack: "GetTxGroup env ?tx = Inr (Some grp)"
    using gc built assms(3,4) by (auto simp: GetTxGroup_def)
  have "one_chain grp"
  proof -
    obtain c where "\<forall>e\<in>set (map Execer txs). GetParaExecTitleName e = c"
      using assms(8) by (auto simp: one_chain_def)
    then have "\<forall>e\<in>set (map Execer grp). GetParaExecTitleName e = c" using built by metis
    then show ?thesis by (auto simp: one_chain_def)
  qed
  then have "CheckWithFork env cfg cf pf height rate maxFee (map Some grp) = None" for cf pf
    using built assms(4,6,7,9) hash_linked_no_error [of env grp]
    by (intro CheckWithFork_group [OF assms(2,6,7)]) auto
  then have "tx_Check env cfg height rate maxFee ?tx = None"
    by (simp add: tx_Check_def unpack group_Check_def)
  moreover have "group_Tx env grp = Some ?tx" using built by (simp add: group_Tx_def)
  ultimately show ?thesis using unpack hd by simp
qed

definition demo_tx :: "int \<Rightarrow> transaction" where
  "demo_tx n = \<lparr>Execer = ''coins'', Payload = [], TxSignature = None, Fee = 7, Expire = 0, Nonce = n,
     To = ''b'', GroupCount = 0, TxHeader = None, Next = None, ChainID = 3\<rparr>"

definition demo_sha :: "bytes \<Rightarrow> bytes" where
  "demo_sha d = take 32 (d @ replicate 32 0)"

definition demo_grp :: "transaction list" where
  "demo_grp =
     [(demo_tx 1)\<lparr>GroupCount := 2, Fee := 20, TxHeader := Some (demo_sha [1]), Next := Some (demo_sha [2])\<rparr>,
      (demo_tx 2)\<lparr>GroupCount := 2, Fee := 0, TxHeader := Some (demo_sha [1])\<rparr>]"

definition demo_tx_env :: tx_env where
  "demo_tx_env = \<lparr>EncodeTx = (\<lambda>tx. [word_of_int (Nonce tx)]), EncodeTxs = (\<lambda>txs. []),
     DecodeTxs = (\<lambda>d. Inr demo_grp), SizeTx = (\<lambda>tx. 200), TxSha256 = demo_sha,
     CheckSignature = (\<lambda>d e s h. True), PubKeyToAddr = (\<lambda>i k. ''addr''), defaultAddressID = 0,
     LowAllowPackHeight = 200, HighAllowPackHeight = 600\<rparr>"

lemma demo_created: "CreateTxGroup demo_tx_env [demo_tx 1, demo_tx 2] 10 = Inr demo_grp"
  by code_simp

lemma demo_size_laws: "size_laws demo_tx_env"
  by (auto simp: size_laws_def demo_tx_env_def demo_sha_def)

theorem CreateTxGroup_passes_Check_witness:
  "\<exists>tx. group_Tx demo_tx_env demo_grp = Some tx \<and> tx_Check demo_tx_env demo_cfg 5 10 1000 tx = None"
  using CreateTxGroup_passes_Check [OF demo_created demo_size_laws, of 1000 demo_cfg 5]
  by (auto simp: demo_tx_env_def demo_tx_def demo_grp_def one_chain_def)

section \<open>Rebuilding a group\<close>

definition group_relinked :: "tx_env \<Rightarrow> nat \<Rightarrow> transaction list \<Rightarrow> bytes \<Rightarrow> transaction list \<Rightarrow> bool" where
  "group_relinked env k ts h ts' \<longleftrightarrow>
     length ts' = length ts \<and> (\<forall>j. k \<le> j \<longrightarrow> j < length ts \<longrightarrow> ts' ! j = ts ! j) \<and>
     (\<forall>j<k. (ts' ! j)\<lparr>TxHeader := None, Next := None\<rparr> = (ts ! j)\<lparr>TxHeader := None, Next := None\<rparr>) \<and>
     (\<forall>j. Suc j < k \<longrightarrow> Next (ts' ! j) = Some (tx_Hash env (ts' ! Suc j))) \<and>
     Next (ts' ! (k - 1)) = Next (ts ! (k - 1))"

lemma rebuilt_loop_relinks:
  assumes "rebuilt_loop env k ts h = (ts', h')" "0 < k" "k \<le> length ts"
  shows "group_relinked env k ts h ts' \<and> h' = tx_Hash env (ts' ! 0)"
  using assms
proof (induction k arbitrary: ts)
  case (Suc i)
  define tx where "tx = (ts ! i)\<lparr>TxHeader := Some h\<rparr>"
  show ?case
  proof (cases "i = 0")
    case True
    then have "ts' = ts[0 := tx]" "h' = tx_Hash env tx" using Suc.prems(1) by (auto simp: tx_def)
    moreover have "0 < length ts" using Suc.prems(3) by linarith
    ultimately show ?thesis using True by (auto simp: group_relinked_def tx_def simp del: length_greater_0_conv)
  next
    case False
    let ?ts = "ts[i := tx, i - 1 := (ts ! (i - 1))\<lparr>Next := Some (tx_Hash env tx)\<rparr>]"
    have "rebuilt_loop env i ?ts h = (ts', h')" using Suc.prems(1) False by (simp add: tx_def Let_def)
    then have IH: "group_relinked env i ?ts h ts'" "h' = tx_Hash env (ts' ! 0)"
      using Suc.IH [of ?ts] False Suc.prems(3) by auto
    have at_i: "ts' ! i = tx" using IH(1) False Suc.prems(3) by (simp add: group_relinked_def)
    have "group_relinked env (Suc i) ts h ts'"
      unfolding group_relinked_def
    proof (intro conjI allI impI)
      show "length ts' = length ts" using IH(1) by (simp add: group_relinked_def)
    next
      fix j assume "Suc i \<le> j" "j < length ts"
      then show "ts' ! j = ts ! j" using IH(1) by (simp add: group_relinked_def)
    next
      fix j assume "j < Suc i"
      then have "j = i \<or> j = i - 1 \<or> j < i - 1" by auto
      then show "(ts' ! j)\<lparr>TxHeader := None, Next := None\<rparr> = (ts ! j)\<lparr>TxHeader := None, Next := None\<rparr>"
        using IH(1) at_i False Suc.prems(3) by (auto simp: group_relinked_def tx_def)
    next
      fix j assume "Suc j < Suc i"
      then show "Next (ts' ! j) = Some (tx_Hash env (ts' ! Suc j))"
        using IH(1) at_i Suc.prems(3) by (cases "Suc j = i") (auto simp: group_relinked_def)
    next
      show "Next (ts' ! (Suc i - 1)) = Next (ts ! (Suc i - 1))" using at_i by (simp add: tx_def)
    qed
    then show ?thesis using IH(2) by simp
  qed
qed simp

text \<open>
  \<^verbatim>\<open>RebuiltGroup\<close> repairs the hash chain of a group whose contents changed: every
  header is the hash of the first transaction, every \<^verbatim>\<open>Next\<close> the hash of the following one,
  so none of the link checks of \<^verbatim>\<open>CheckWithFork\<close> fails, and nothing but headers and
  \<^verbatim>\<open>Next\<close> fields is touched.
\<close>

theorem RebuiltGroup_relinks:
  assumes "2 \<le> length txs" "length txs \<le> 20" "\<forall>tx\<in>set txs. GroupCount tx = int (length txs)"
    and "Next (last txs) = None"
  shows "\<exists>grp. RebuiltGroup env txs = Inr grp \<and> first_error (link_error env grp) [0..<length grp] = None \<and>
    map (\<lambda>tx. tx\<lparr>TxHeader := None, Next := None\<rparr>) grp = map (\<lambda>tx. tx\<lparr>TxHeader := None, Next := None\<rparr>) txs"
proof -
  let ?n = "length txs"
  obtain ts' h' where loop: "rebuilt_loop env ?n txs (tx_Hash env (txs ! 0)) = (ts', h')" by fastforce
  define grp where "grp = map (\<lambda>tx. tx\<lparr>TxHeader := Some h'\<rparr>) ts'"
  have ne: "txs \<noteq> []" and n': "0 < ?n" using assms(1) by auto
  have res: "RebuiltGroup env txs = Inr grp" using ne loop by (simp add: RebuiltGroup_def grp_def)
  have re: "group_relinked env ?n txs (tx_Hash env (txs ! 0)) ts'" "h' = tx_Hash env (ts' ! 0)"
    using rebuilt_loop_relinks [OF loop n' order_refl] by auto
  have len: "length grp = ?n" using re(1) by (simp add: grp_def group_relinked_def)
  have at: "grp ! j = (ts' ! j)\<lparr>TxHeader := Some h'\<rparr>" if "j < ?n" for j
    using that len by (simp add: grp_def)
  have same: "map (\<lambda>tx. tx\<lparr>TxHeader := None, Next := None\<rparr>) grp = map (\<lambda>tx. tx\<lparr>TxHeader := None, Next := None\<rparr>) txs"
    using re(1) at len by (intro nth_equalityI) (auto simp: group_relinked_def)
  have gc: "\<forall>tx\<in>set grp. GroupCount tx = int (length grp)"
  proof
    fix tx assume "tx \<in> set grp"
    then obtain j where j: "j < ?n" "tx = grp ! j" using len by (auto simp: in_set_conv_nth)
    then have "tx\<lparr>TxHeader := None, Next := None\<rparr> = (txs ! j)\<lparr>TxHeader := None, Next := None\<rparr>"
      using arg_cong [OF same, of "\<lambda>l. l ! j"] len by simp
    from arg_cong [OF this, of GroupCount] show "GroupCount tx = int (length grp)"
      using assms(3) j len by simp
  qed
  have "hash_linked env grp"
  proof -
    have "Next (grp ! (?n - 1)) = None"
      using re(1) at [of "?n - 1"] n' assms(4) ne last_conv_nth [of txs] by (simp add: group_relinked_def)
    moreover have "grp \<noteq> []" using len ne by auto
    ultimately show ?thesis
      using re at at [OF n'] len last_conv_nth [of grp] by (simp add: hash_linked_def group_relinked_def)
  qed
  then have "\<forall>j<length grp. link_error env grp j = None"
    using gc assms(2) len by (intro hash_linked_no_error) simp_all
  then show ?thesis using res same by simp
qed

theorem RebuiltGroup_relinks_witness:
  "\<exists>grp. RebuiltGroup demo_tx_env [(demo_tx 1)\<lparr>GroupCount := 2\<rparr>, (demo_tx 2)\<lparr>GroupCount := 2\<rparr>] = Inr grp \<and>
     first_error (link_error demo_tx_env grp) [0..<length grp] = None"
  using RebuiltGroup_relinks [of "[(demo_tx 1)\<lparr>GroupCount := 2\<rparr>, (demo_tx 2)\<lparr>GroupCount := 2\<rparr>]" demo_tx_env]
  by (auto simp: demo_tx_def)

section \<open>The chain identifier\<close>

text \<open>
  The chain identifier is checked on single transactions only: a transaction that passes
  \<^verbatim>\<open>check\<close> with a fee rate carries the chain's identifier, but whether a group passes
  does not depend on the chain's identifier at all, since its members are checked with fee rate 0.
\<close>

theorem group_Check_ignores_chainID:
  "(minfee \<noteq> 0 \<and> check env cfg height minfee maxFee tx = None \<longrightarrow> ChainID tx = chainID cfg) \<and>
   group_Check env (cfg\<lparr>chainID := c\<rparr>) height minfee maxFee grp = group_Check env cfg height minfee maxFee grp"
proof -
  have "check_each env (cfg\<lparr>chainID := c\<rparr>) height maxFee g para = check_each env cfg height maxFee g para" for g para
    by (induction env cfg height maxFee g para rule: check_each.induct) simp_all
  then show ?thesis
    by (auto simp: group_Check_def CheckWithFork_def check_def split: sum.splits if_splits)
qed

theorem group_Check_ignores_chainID_witness:
  "ChainID (demo_tx 1\<lparr>Fee := 100\<rparr>) = chainID demo_cfg \<and>
   group_Check demo_tx_env (demo_cfg\<lparr>chainID := 99\<rparr>) 5 10 1000 (map Some demo_grp) = None"
proof -
  have "check demo_tx_env demo_cfg 5 10 1000 (demo_tx 1\<lparr>Fee := 100\<rparr>) = None" by code_simp
  moreover have "group_Check demo_tx_env demo_cfg 5 10 1000 (map Some demo_grp) = None" by code_simp
  ultimately show ?thesis
    using group_Check_ignores_chainID [of 10 demo_tx_env demo_cfg 5 1000 "demo_tx 1\<lparr>Fee := 100\<rparr>" 99 "map Some demo_grp"]
    by simp
qed

section \<open>Expiry\<close>

text \<open>
  A lifetime set with \<^verbatim>\<open>SetExpire\<close> is respected by \<^verbatim>\<open>IsExpire\<close>: a transaction
  given a duration of more than a second is expired exactly from the block time on that lies the
  duration, but at least two minutes, after now, whatever the height and whether transaction
  heights are enabled or not.
\<close>

theorem SetExpire_isExpire:
  assumes "ExpireBound < expire" "expire \<le> TxHeightFlag" "ExpireBound \<le> now" "now \<le> 2 ^ 40"
    and "0 \<le> blocktime" "blocktime \<le> 1000000000000"
  shows "isExpire env cfg height blocktime (SetExpire cfg now tx expire) \<longleftrightarrow>
    now + max 120 (expire div 1000000000) \<le> blocktime"
proof -
  let ?e = "(if expire < 120 * 1000000000 then 120 * 1000000000 else expire) div 1000000000"
  have e: "?e = max 120 (expire div 1000000000)" "0 \<le> ?e" "?e \<le> 2 ^ 40"
  proof -
    have "expire div 1000000000 \<le> 2 ^ 62 div 1000000000"
      using assms(2) unfolding TxHeightFlag_def by (rule zdiv_mono1) simp
    moreover have "120 \<le> expire div 1000000000" if "\<not> expire < 120 * 1000000000"
      using that by (intro le_div_int) auto
    moreover have "expire div 1000000000 \<le> 120" if "expire < 120 * 1000000000"
      using div_less_int [of 1000000000 expire 120] that by simp
    ultimately show "?e = max 120 (expire div 1000000000)" "0 \<le> ?e" "?e \<le> 2 ^ 40"
      by (auto simp: max_def)
  qed
  have "i64 (now + ?e) = now + ?e"
    using e assms(3,4) by (intro i64_id i64_nonneg_range) (auto simp: ExpireBound_def)
  then have set: "Expire (SetExpire cfg now tx expire) = now + ?e"
    using assms(1,2) by (simp add: SetExpire_def Let_def)
  have "GetTxHeight cfg (now + ?e) height \<le> 0"
    using e(3) assms(4) by (simp add: GetTxHeight_def TxHeightFlag_def)
  moreover have "now + ?e > ExpireBound" using e assms(3) by simp
  ultimately show ?thesis
    using assms(6) e(1) by (simp add: isExpire_def set Let_def ExpireBound_def)
qed

theorem SetExpire_isExpire_witness:
  "isExpire demo_tx_env demo_cfg 9 1700000120 (SetExpire demo_cfg 1700000000 (demo_tx 1) 2000000000) \<and>
   \<not> isExpire demo_tx_env demo_cfg 9 1700000119 (SetExpire demo_cfg 1700000000 (demo_tx 1) 2000000000)"
  using SetExpire_isExpire [of 2000000000 1700000000 1700000120 demo_tx_env demo_cfg 9 "demo_tx 1"]
    SetExpire_isExpire [of 2000000000 1700000000 1700000119 demo_tx_env demo_cfg 9 "demo_tx 1"]
  by (simp add: ExpireBound_def TxHeightFlag_def)

end
