(* ===== verification/List_Map.thy ===== *)
theory List_Map
  imports Omni_Prelude "HOL-Library.AList"
begin

text \<open>
  \<^verbatim>\<open>common/listmap\<close>: a doubly linked list whose elements are indexed by key, on which
  every cache of the mempool is built. A \<^verbatim>\<open>*list.Element\<close> is a number: \<open>lm_l\<close> is the
  list, \<open>lm_elem\<close> the values of the elements, \<open>lm_m\<close> the Go map from keys to elements and
  \<open>lm_next\<close> the next unused number. The interface its clients rely on is the locale
  \<open>keyed_list\<close>, stated over ordered association lists.
\<close>

section \<open>The code\<close>

record ('k, 'v) ListMap =
  lm_m :: "('k \<times> nat) list"
  lm_l :: "nat list"
  lm_elem :: "nat \<rightharpoonup> 'v"
  lm_next :: nat

definition lm_New :: "('k, 'v) ListMap" where
  "lm_New = \<lparr>lm_m = [], lm_l = [], lm_elem = Map.empty, lm_next = 0\<rparr>"

definition lm_Size :: "('k, 'v) ListMap \<Rightarrow> nat" where
  "lm_Size lm = length (lm_m lm)"

definition lm_Exist :: "('k, 'v) ListMap \<Rightarrow> 'k \<Rightarrow> bool" where
  "lm_Exist lm key \<longleftrightarrow> map_of (lm_m lm) key \<noteq> None"

definition lm_Value :: "('k, 'v) ListMap \<Rightarrow> nat \<Rightarrow> go_error + 'v" where
  "lm_Value lm elm = (case lm_elem lm elm of None \<Rightarrow> Inl GoPanic | Some v \<Rightarrow> Inr v)"

definition lm_GetItem :: "('k, 'v) ListMap \<Rightarrow> 'k \<Rightarrow> go_error + 'v" where
  "lm_GetItem lm key =
     (case map_of (lm_m lm) key of None \<Rightarrow> Inl ErrNotFound | Some item \<Rightarrow> lm_Value lm item)"

definition lm_Push :: "('k, 'v) ListMap \<Rightarrow> 'k \<Rightarrow> 'v \<Rightarrow> ('k, 'v) ListMap" where
  "lm_Push lm key value =
     (case map_of (lm_m lm) key of
        Some elm \<Rightarrow> lm\<lparr>lm_elem := (lm_elem lm)(elm \<mapsto> value)\<rparr>
      | None \<Rightarrow>
          let elm = lm_next lm
          in lm\<lparr>lm_l := lm_l lm @ [elm], lm_elem := (lm_elem lm)(elm \<mapsto> value),
               lm_next := Suc elm, lm_m := AList.update key elm (lm_m lm)\<rparr>)"

definition lm_GetTop :: "('k, 'v) ListMap \<Rightarrow> 'v option" where
  "lm_GetTop lm = (case lm_l lm of [] \<Rightarrow> None | elm # _ \<Rightarrow> lm_elem lm elm)"

definition lm_Remove :: "('k, 'v) ListMap \<Rightarrow> 'k \<Rightarrow> 'v option \<times> ('k, 'v) ListMap" where
  "lm_Remove lm key =
     (case map_of (lm_m lm) key of
        Some elm \<Rightarrow>
          (lm_elem lm elm, lm\<lparr>lm_l := remove1 elm (lm_l lm), lm_m := AList.delete key (lm_m lm)\<rparr>)
      | None \<Rightarrow> (None, lm))"

text \<open>
  The loop of \<^verbatim>\<open>Walk\<close>: the callback reads and writes state of the caller and says
  whether to go on.
\<close>

fun walk_loop :: "('s \<Rightarrow> 'v \<Rightarrow> bool \<times> 's) \<Rightarrow> 'v list \<Rightarrow> 's \<Rightarrow> 's" where
  "walk_loop cb [] s = s"
| "walk_loop cb (v # vs) s = (let (goon, s') = cb s v in if goon then walk_loop cb vs s' else s')"

definition lm_values :: "('k, 'v) ListMap \<Rightarrow> 'v list" where
  "lm_values lm = map (\<lambda>e. the (lm_elem lm e)) (lm_l lm)"

definition lm_Walk :: "('k, 'v) ListMap \<Rightarrow> ('s \<Rightarrow> 'v \<Rightarrow> bool \<times> 's) option \<Rightarrow> 's \<Rightarrow> 's" where
  "lm_Walk lm cb s = (case cb of None \<Rightarrow> s | Some f \<Rightarrow> walk_loop f (lm_values lm) s)"

lemma walk_loop_all: "(\<And>s v. fst (cb s v)) \<Longrightarrow> walk_loop cb vs s = fold (\<lambda>v s. snd (cb s v)) vs s"
  by (induction vs arbitrary: s) (auto split: prod.splits, metis fst_conv)

section \<open>The interface\<close>

text \<open>Ordered association lists: pushing replaces in place or appends, removing filters.\<close>

definition ol_push :: "'k \<Rightarrow> 'v \<Rightarrow> ('k \<times> 'v) list \<Rightarrow> ('k \<times> 'v) list" where
  "ol_push k v kvs =
     (if k \<in> fst ` set kvs then map (\<lambda>(k', v'). (k', if k' = k then v else v')) kvs else kvs @ [(k, v)])"

definition ol_remove :: "'k \<Rightarrow> ('k \<times> 'v) list \<Rightarrow> ('k \<times> 'v) list" where
  "ol_remove k kvs = filter (\<lambda>(k', _). k' \<noteq> k) kvs"

locale keyed_list =
  fixes kl_ok :: "'s \<Rightarrow> bool"
    and kl_abs :: "'s \<Rightarrow> ('k \<times> 'v) list"
    and kl_new :: 's
    and kl_size :: "'s \<Rightarrow> nat"
    and kl_get :: "'s \<Rightarrow> 'k \<Rightarrow> go_error + 'v"
    and kl_push :: "'s \<Rightarrow> 'k \<Rightarrow> 'v \<Rightarrow> 's"
    and kl_top :: "'s \<Rightarrow> 'v option"
    and kl_remove :: "'s \<Rightarrow> 'k \<Rightarrow> 'v option \<times> 's"
  assumes new: "kl_ok kl_new" "kl_abs kl_new = []"
    and keys: "kl_ok s \<Longrightarrow> distinct (map fst (kl_abs s))"
    and size: "kl_ok s \<Longrightarrow> kl_size s = length (kl_abs s)"
    and get: "kl_ok s \<Longrightarrow>
      kl_get s k = (case map_of (kl_abs s) k of None \<Rightarrow> Inl ErrNotFound | Some v \<Rightarrow> Inr v)"
    and push: "kl_ok s \<Longrightarrow> kl_ok (kl_push s k v)"
      "kl_ok s \<Longrightarrow> kl_abs (kl_push s k v) = ol_push k v (kl_abs s)"
    and top: "kl_ok s \<Longrightarrow> kl_top s = (case kl_abs s of [] \<Rightarrow> None | (k, v) # _ \<Rightarrow> Some v)"
    and remove: "kl_ok s \<Longrightarrow> kl_ok (snd (kl_remove s k))"
      "kl_ok s \<Longrightarrow> kl_abs (snd (kl_remove s k)) = ol_remove k (kl_abs s)"
      "kl_ok s \<Longrightarrow> fst (kl_remove s k) = map_of (kl_abs s) k"
begin

lemma get_push:
  assumes "kl_ok s"
  shows "kl_get (kl_push s k v) k' = (if k' = k then Inr v else kl_get s k')"
proof -
  have "map_of (ol_push k v kvs) k' = (if k' = k then Some v else map_of kvs k')" for kvs :: "('k \<times> 'v) list"
  proof (cases "k \<in> fst ` set kvs")
    case True
    have "map_of (map (\<lambda>(k', v'). (k', if k' = k then v else v')) kvs) k' =
        map_option (\<lambda>v'. if k' = k then v else v') (map_of kvs k')"
      by (induction kvs) auto
    moreover obtain b where "map_of kvs k = Some b"
      using True by (metis map_of_eq_None_iff not_None_eq)
    ultimately show ?thesis
      using True by (cases "k' = k") (simp_all add: ol_push_def option.map_ident)
  next
    case False
    moreover from this have "map_of kvs k = None" by (simp add: map_of_eq_None_iff)
    ultimately show ?thesis by (auto simp: ol_push_def map_add_def split: option.splits)
  qed
  then show ?thesis using assms by (simp add: get push)
qed

lemma get_remove:
  assumes "kl_ok s"
  shows "kl_get (snd (kl_remove s k)) k' = (if k' = k then Inl ErrNotFound else kl_get s k')"
proof -
  have "map_of (ol_remove k kvs) k' = (if k' = k then None else map_of kvs k')" for kvs :: "('k \<times> 'v) list"
    by (induction kvs) (auto simp: ol_remove_def)
  then show ?thesis using assms by (simp add: get remove)
qed

end

section \<open>ListMap provides the interface\<close>

definition lm_key :: "('k, 'v) ListMap \<Rightarrow> nat \<Rightarrow> 'k" where
  "lm_key lm e = the (map_of (map (\<lambda>(k, e). (e, k)) (lm_m lm)) e)"

definition lm_abs :: "('k, 'v) ListMap \<Rightarrow> ('k \<times> 'v) list" where
  "lm_abs lm = map (\<lambda>e. (lm_key lm e, the (lm_elem lm e))) (lm_l lm)"

definition lm_ok :: "('k, 'v) ListMap \<Rightarrow> bool" where
  "lm_ok lm \<longleftrightarrow>
     distinct (map fst (lm_m lm)) \<and> distinct (map snd (lm_m lm)) \<and> distinct (lm_l lm) \<and>
     set (lm_l lm) = snd ` set (lm_m lm) \<and>
     (\<forall>e\<in>set (lm_l lm). lm_elem lm e \<noteq> None \<and> e < lm_next lm)"

lemma map_of_swap:
  assumes "distinct (map snd m)" "(k, e) \<in> set m"
  shows "map_of (map (\<lambda>(k, e). (e, k)) m) e = Some k"
proof (rule map_of_is_SomeI)
  have "map fst (map (\<lambda>(k, e). (e, k)) m) = map snd m" by (induction m) auto
  then show "distinct (map fst (map (\<lambda>(k, e). (e, k)) m))" using assms(1) by (simp only:)
  show "(e, k) \<in> set (map (\<lambda>(k, e). (e, k)) m)" using assms(2) by force
qed

lemma lm_key_of:
  assumes "lm_ok lm" "(k, e) \<in> set (lm_m lm)" shows "lm_key lm e = k"
  using assms map_of_swap [of "lm_m lm" k e] by (simp add: lm_key_def lm_ok_def)

lemma lm_entry:
  assumes "lm_ok lm" "e \<in> set (lm_l lm)" shows "(lm_key lm e, e) \<in> set (lm_m lm)"
  using assms lm_key_of [OF assms(1)] by (force simp: lm_ok_def)

lemma lm_map_of:
  assumes "lm_ok lm"
  shows "map_of (lm_m lm) k = Some e \<longleftrightarrow> e \<in> set (lm_l lm) \<and> lm_key lm e = k"
proof
  assume "map_of (lm_m lm) k = Some e"
  then have "(k, e) \<in> set (lm_m lm)" by (rule map_of_SomeD)
  moreover from this have "e \<in> snd ` set (lm_m lm)" by force
  ultimately show "e \<in> set (lm_l lm) \<and> lm_key lm e = k"
    using assms lm_key_of [OF assms] by (simp add: lm_ok_def)
next
  assume "e \<in> set (lm_l lm) \<and> lm_key lm e = k"
  then show "map_of (lm_m lm) k = Some e"
    using assms lm_entry [OF assms] by (intro map_of_is_SomeI) (auto simp: lm_ok_def)
qed

lemma lm_abs_keys: "fst ` set (lm_abs lm) = lm_key lm ` set (lm_l lm)"
  by (force simp: lm_abs_def)

lemma lm_key_inj: "lm_ok lm \<Longrightarrow> inj_on (lm_key lm) (set (lm_l lm))"
  by (rule inj_onI) (metis lm_map_of option.inject)

lemma lm_abs_distinct: "lm_ok lm \<Longrightarrow> distinct (map fst (lm_abs lm))"
  using lm_key_inj [of lm] by (simp add: lm_abs_def comp_def distinct_map lm_ok_def)

lemma lm_map_of_None:
  "lm_ok lm \<Longrightarrow> map_of (lm_m lm) k = None \<longleftrightarrow> k \<notin> fst ` set (lm_abs lm)"
  using lm_map_of [of lm k] unfolding lm_abs_keys image_iff by (metis not_None_eq)

lemma lm_abs_map_of:
  assumes "lm_ok lm" "map_of (lm_m lm) k = Some e" shows "map_of (lm_abs lm) k = lm_elem lm e"
proof -
  have e: "e \<in> set (lm_l lm)" "lm_key lm e = k" using lm_map_of [OF assms(1), of k e] assms(2) by simp_all
  have "(lm_key lm e, the (lm_elem lm e)) \<in> set (lm_abs lm)"
    unfolding lm_abs_def set_map using e(1) by (rule image_eqI [rotated]) simp
  then have "(k, the (lm_elem lm e)) \<in> set (lm_abs lm)" unfolding e(2) .
  then have "map_of (lm_abs lm) k = Some (the (lm_elem lm e))"
    by (rule map_of_is_SomeI [OF lm_abs_distinct [OF assms(1)]])
  moreover have "lm_elem lm e \<noteq> None" using assms(1) e(1) by (simp add: lm_ok_def)
  ultimately show ?thesis by simp
qed


lemma lm_ok_New [simp]: "lm_ok lm_New" "lm_abs lm_New = []"
  by (simp_all add: lm_ok_def lm_New_def lm_abs_def)

lemma lm_Size_abs: "lm_ok lm \<Longrightarrow> lm_Size lm = length (lm_abs lm)"
  unfolding lm_Size_def lm_ok_def lm_abs_def
  by (metis distinct_card length_map list.set_map)

lemma lm_GetItem_abs:
  assumes "lm_ok lm"
  shows "lm_GetItem lm k = (case map_of (lm_abs lm) k of None \<Rightarrow> Inl ErrNotFound | Some v \<Rightarrow> Inr v)"
proof (cases "map_of (lm_m lm) k")
  case None
  then have "map_of (lm_abs lm) k = None" using lm_map_of_None [OF assms] by (simp add: map_of_eq_None_iff)
  with None show ?thesis by (simp add: lm_GetItem_def)
next
  case (Some e)
  then have "e \<in> set (lm_l lm)" using lm_map_of [OF assms] by blast
  then have "lm_elem lm e \<noteq> None" using assms by (simp add: lm_ok_def)
  then show ?thesis using Some lm_abs_map_of [OF assms Some] by (auto simp: lm_GetItem_def lm_Value_def)
qed

lemma lm_Push_replace:
  assumes "lm_ok lm" "map_of (lm_m lm) k = Some e"
  shows "lm_ok (lm_Push lm k v)" "lm_abs (lm_Push lm k v) = ol_push k v (lm_abs lm)"
proof -
  have push: "lm_Push lm k v = lm\<lparr>lm_elem := (lm_elem lm)(e \<mapsto> v)\<rparr>" using assms(2) by (simp add: lm_Push_def)
  show "lm_ok (lm_Push lm k v)" using assms(1) by (simp add: push lm_ok_def)
  have k: "k \<in> fst ` set (lm_abs lm)" using lm_map_of_None [OF assms(1), of k] assms(2) by simp
  have key: "lm_key (lm_Push lm k v) = lm_key lm" by (rule ext) (simp add: push lm_key_def)
  have same: "lm_key lm e' = k \<longleftrightarrow> e' = e" if "e' \<in> set (lm_l lm)" for e'
    using lm_map_of [OF assms(1), of k e'] assms(2) that by auto
  show "lm_abs (lm_Push lm k v) = ol_push k v (lm_abs lm)"
    unfolding lm_abs_def key using k same
    by (auto simp: ol_push_def push lm_abs_def)
qed

lemma AList_update_new: "k \<notin> fst ` set m \<Longrightarrow> AList.update k v m = m @ [(k, v)]"
  by (induction m) auto

lemma lm_Push_new:
  assumes "lm_ok lm" "map_of (lm_m lm) k = None"
  shows "lm_ok (lm_Push lm k v)" "lm_abs (lm_Push lm k v) = ol_push k v (lm_abs lm)"
proof -
  let ?n = "lm_next lm"
  have fresh: "k \<notin> fst ` set (lm_m lm)" using assms(2) by (simp add: map_of_eq_None_iff)
  have push: "lm_m (lm_Push lm k v) = lm_m lm @ [(k, ?n)]" "lm_l (lm_Push lm k v) = lm_l lm @ [?n]"
    "lm_elem (lm_Push lm k v) = (lm_elem lm)(?n \<mapsto> v)" "lm_next (lm_Push lm k v) = Suc ?n"
    using assms(2) AList_update_new [OF fresh] by (simp_all add: lm_Push_def Let_def)
  have less: "e < ?n" if "e \<in> set (lm_l lm)" for e using assms(1) that by (simp add: lm_ok_def)
  then have new: "?n \<notin> set (lm_l lm)" by blast
  show ok: "lm_ok (lm_Push lm k v)"
    using assms(1) fresh new less by (auto simp: lm_ok_def push less_Suc_eq)
  have key_new: "lm_key (lm_Push lm k v) ?n = k" by (rule lm_key_of [OF ok]) (simp add: push)
  have key_old: "lm_key (lm_Push lm k v) e = lm_key lm e" if "e \<in> set (lm_l lm)" for e
    by (rule lm_key_of [OF ok]) (simp add: push lm_entry [OF assms(1) that])
  have "k \<notin> fst ` set (lm_abs lm)" using lm_map_of_None [OF assms(1), of k] assms(2) by simp
  moreover have "map (\<lambda>e. (lm_key (lm_Push lm k v) e, the (((lm_elem lm)(?n \<mapsto> v)) e))) (lm_l lm) = lm_abs lm"
    unfolding lm_abs_def using key_old new by (intro map_cong) auto
  ultimately show "lm_abs (lm_Push lm k v) = ol_push k v (lm_abs lm)"
    by (simp add: lm_abs_def [of "lm_Push lm k v"] push key_new ol_push_def)
qed

lemma lm_Push_spec:
  assumes "lm_ok lm"
  shows "lm_ok (lm_Push lm k v)" "lm_abs (lm_Push lm k v) = ol_push k v (lm_abs lm)"
  using lm_Push_new [OF assms, of k v] lm_Push_replace [OF assms, of k _ v]
  by (cases "map_of (lm_m lm) k"; simp)+

lemma lm_GetTop_abs:
  assumes "lm_ok lm" shows "lm_GetTop lm = (case lm_abs lm of [] \<Rightarrow> None | (k, v) # _ \<Rightarrow> Some v)"
  using assms by (cases "lm_l lm") (auto simp: lm_GetTop_def lm_abs_def lm_ok_def)

lemma lm_Remove_found:
  assumes "lm_ok lm" "map_of (lm_m lm) k = Some e"
  shows "lm_ok (snd (lm_Remove lm k))" "lm_abs (snd (lm_Remove lm k)) = ol_remove k (lm_abs lm)"
proof -
  let ?r = "snd (lm_Remove lm k)"
  have rem: "lm_m ?r = AList.delete k (lm_m lm)" "lm_l ?r = filter (\<lambda>x. x \<noteq> e) (lm_l lm)"
    "lm_elem ?r = lm_elem lm" "lm_next ?r = lm_next lm"
    using assms by (simp_all add: lm_Remove_def distinct_remove1_removeAll removeAll_filter_not_eq lm_ok_def)
      (metis (mono_tags, lifting))
  have e: "e \<in> set (lm_l lm)" "lm_key lm e = k" using lm_map_of [OF assms(1), of k e] assms(2) by simp_all
  have m: "set (lm_m ?r) = {p \<in> set (lm_m lm). fst p \<noteq> k}" by (auto simp: rem AList.delete_eq)
  have same: "lm_key lm e' = k \<longleftrightarrow> e' = e" if "e' \<in> set (lm_l lm)" for e'
    using lm_map_of [OF assms(1), of k e'] assms(2) that by auto
  have els: "set (lm_l ?r) = snd ` set (lm_m ?r)"
  proof -
    have "x \<in> snd ` {p \<in> set (lm_m lm). fst p \<noteq> k}" if "x \<in> set (lm_l lm)" "x \<noteq> e" for x
      using lm_entry [OF assms(1) that(1)] same [OF that(1)] that(2) by force
    moreover have "x \<in> set (lm_l lm) \<and> x \<noteq> e" if "x \<in> snd ` {p \<in> set (lm_m lm). fst p \<noteq> k}" for x
    proof -
      from that obtain j where j: "(j, x) \<in> set (lm_m lm)" "j \<noteq> k" by force
      then show ?thesis using lm_key_of [OF assms(1) j(1)] e assms(1) by (force simp: lm_ok_def)
    qed
    ultimately show ?thesis unfolding m rem(2) by auto
  qed
  have "distinct (map fst (lm_m ?r))" "distinct (map snd (lm_m ?r))"
    using assms(1) by (simp_all add: rem lm_ok_def AList.delete_eq distinct_map_filter)
  moreover have "distinct (lm_l ?r)" "\<forall>x\<in>set (lm_l ?r). lm_elem ?r x \<noteq> None \<and> x < lm_next ?r"
    using assms(1) by (simp_all add: rem lm_ok_def)
  ultimately show ok: "lm_ok ?r" using els unfolding lm_ok_def [of ?r] by blast
  have key: "lm_key ?r e' = lm_key lm e'" if "e' \<in> set (lm_l lm)" "e' \<noteq> e" for e'
    using lm_entry [OF assms(1) that(1)] same [OF that(1)] that(2)
    by (intro lm_key_of [OF ok]) (simp add: m)
  have "lm_abs ?r = map (\<lambda>x. (lm_key lm x, the (lm_elem lm x))) (filter (\<lambda>x. lm_key lm x \<noteq> k) (lm_l lm))"
    unfolding lm_abs_def rem using key same by (intro map_cong filter_cong) auto
  then show "lm_abs ?r = ol_remove k (lm_abs lm)"
    by (simp add: ol_remove_def lm_abs_def filter_map comp_def)
qed

lemma ol_remove_absent: "k \<notin> fst ` set kvs \<Longrightarrow> ol_remove k kvs = kvs"
  by (induction kvs) (auto simp: ol_remove_def)

lemma lm_Remove_absent:
  assumes "lm_ok lm" "map_of (lm_m lm) k = None"
  shows "lm_Remove lm k = (None, lm)" "ol_remove k (lm_abs lm) = lm_abs lm" "map_of (lm_abs lm) k = None"
proof -
  show "lm_Remove lm k = (None, lm)" unfolding lm_Remove_def assms(2) by simp
  have "k \<notin> fst ` set (lm_abs lm)" using lm_map_of_None [OF assms(1), of k] assms(2) by simp
  then show "ol_remove k (lm_abs lm) = lm_abs lm" "map_of (lm_abs lm) k = None"
    by (simp_all add: ol_remove_absent map_of_eq_None_iff)
qed

lemma lm_Remove_spec:
  assumes "lm_ok lm"
  shows "lm_ok (snd (lm_Remove lm k))" "lm_abs (snd (lm_Remove lm k)) = ol_remove k (lm_abs lm)"
    "fst (lm_Remove lm k) = map_of (lm_abs lm) k"
proof -
  have "lm_ok (snd (lm_Remove lm k)) \<and> lm_abs (snd (lm_Remove lm k)) = ol_remove k (lm_abs lm) \<and>
    fst (lm_Remove lm k) = map_of (lm_abs lm) k"
  proof (cases "map_of (lm_m lm) k")
    case None
    show ?thesis using lm_Remove_absent [OF assms None] assms by simp
  next
    case (Some e)
    show ?thesis
      using lm_Remove_found [OF assms Some] lm_abs_map_of [OF assms Some] Some by (simp add: lm_Remove_def)
  qed
  then show "lm_ok (snd (lm_Remove lm k))" "lm_abs (snd (lm_Remove lm k)) = ol_remove k (lm_abs lm)"
    "fst (lm_Remove lm k) = map_of (lm_abs lm) k" by simp_all
qed

interpretation lmap: keyed_list lm_ok lm_abs lm_New lm_Size lm_GetItem lm_Push lm_GetTop lm_Remove
  by unfold_locales
    (simp_all add: lm_abs_distinct lm_Size_abs lm_GetItem_abs lm_Push_spec lm_GetTop_abs lm_Remove_spec)

lemma lm_Exist_abs: "lm_ok lm \<Longrightarrow> lm_Exist lm k \<longleftrightarrow> k \<in> fst ` set (lm_abs lm)"
  using lm_map_of_None [of lm k] by (simp add: lm_Exist_def)

lemma lm_values_abs: "lm_values lm = map snd (lm_abs lm)"
  by (simp add: lm_values_def lm_abs_def comp_def)

end
