(* ===== verification/Mempool.thy ===== *)
theory Mempool
  imports List_Map Transactions Blocks
begin

text \<open>
  The transaction pool, \<^verbatim>\<open>system/mempool\<close>: the queue (\<^verbatim>\<open>simplequeue.go\<close>), the
  index by account (\<^verbatim>\<open>accountindex.go\<close>), the latest transactions (\<^verbatim>\<open>lasttx.go\<close>), the
  index by short hash (\<^verbatim>\<open>shorthashtx.go\<close>), the cache that keeps the four together and the
  delayed transactions (\<^verbatim>\<open>cache.go\<close>), the operations of the pool (\<^verbatim>\<open>base.go\<close>) and the
  admission checks (\<^verbatim>\<open>check.go\<close>). Every operation runs under the pool's lock, so each
  is one step on the state. The clock is an argument \<open>now\<close>; what the pool asks other
  modules is in \<open>mem_env\<close>. The queue is the \<^verbatim>\<open>SimpleQueue\<close> of this package.
\<close>

section \<open>SimpleQueue\<close>

record Item =
  ItemValue :: transaction
  Priority :: int
  EnterTime :: int

record SubConfig =
  PoolCacheSize :: int
  ProperFee :: int

record SimpleQueue =
  txList :: "(bytes, Item) ListMap"
  q_subConfig :: SubConfig
  cacheBytes :: int

definition NewSimpleQueue :: "SubConfig \<Rightarrow> SimpleQueue" where
  "NewSimpleQueue cfg = \<lparr>txList = lm_New, q_subConfig = cfg, cacheBytes = 0\<rparr>"

definition q_Exist :: "SimpleQueue \<Rightarrow> bytes \<Rightarrow> bool" where
  "q_Exist q h = lm_Exist (txList q) h"

definition q_GetItem :: "SimpleQueue \<Rightarrow> bytes \<Rightarrow> go_error + Item" where
  "q_GetItem q h = lm_GetItem (txList q) h"

definition q_Push :: "tx_env \<Rightarrow> SimpleQueue \<Rightarrow> Item \<Rightarrow> go_error option \<times> SimpleQueue" where
  "q_Push env q item =
     (let h = tx_Hash env (ItemValue item)
      in if q_Exist q h then (Some ErrTxExist, q)
         else if int (lm_Size (txList q)) \<ge> PoolCacheSize (q_subConfig q) then (Some ErrMemFull, q)
         else (None, q\<lparr>txList := lm_Push (txList q) h item,
                      cacheBytes := i64 (cacheBytes q + SizeTx env (ItemValue item))\<rparr>))"

definition q_Remove :: "tx_env \<Rightarrow> SimpleQueue \<Rightarrow> bytes \<Rightarrow> go_error option \<times> SimpleQueue" where
  "q_Remove env q h =
     (case q_GetItem q h of
        Inl e \<Rightarrow> (Some e, q)
      | Inr item \<Rightarrow>
          (None, q\<lparr>txList := snd (lm_Remove (txList q) h),
                   cacheBytes := i64 (cacheBytes q - SizeTx env (ItemValue item))\<rparr>))"

definition q_Size :: "SimpleQueue \<Rightarrow> nat" where
  "q_Size q = lm_Size (txList q)"

definition q_Walk :: "SimpleQueue \<Rightarrow> int \<Rightarrow> ('s \<Rightarrow> Item \<Rightarrow> bool \<times> 's) \<Rightarrow> 's \<Rightarrow> 's" where
  "q_Walk q count cb s =
     fst (lm_Walk (txList q)
            (Some (\<lambda>(s, i) item.
               let (ok, s') = cb s item
               in if \<not> ok then (False, (s', i)) else (i + 1 \<noteq> count, (s', i + 1)))) (s, 0))"

section \<open>The index by account\<close>

record AccountTxIndex =
  maxperaccount :: int
  accMap :: "(string \<times> (bytes, transaction) ListMap) list"

definition NewAccountTxIndex :: "int \<Rightarrow> AccountTxIndex" where
  "NewAccountTxIndex n = \<lparr>maxperaccount = n, accMap = []\<rparr>"

definition TxNumOfAccount :: "AccountTxIndex \<Rightarrow> string \<Rightarrow> nat" where
  "TxNumOfAccount c addr = (case map_of (accMap c) addr of None \<Rightarrow> 0 | Some lm \<Rightarrow> lm_Size lm)"

text \<open>\<^verbatim>\<open>GetAccTxs\<close>: the transactions of the given accounts with their sender; the amount and
  the action name, which only serve display, are left out.\<close>

definition GetAccTxs :: "AccountTxIndex \<Rightarrow> string list \<Rightarrow> (transaction \<times> string) list" where
  "GetAccTxs c addrs =
     concat (map (\<lambda>addr. case map_of (accMap c) addr of
                           None \<Rightarrow> []
                         | Some lm \<Rightarrow> lm_Walk lm (Some (\<lambda>acc v. (True, acc @ [(v, addr)]))) []) addrs)"

definition acc_Remove :: "tx_env \<Rightarrow> AccountTxIndex \<Rightarrow> transaction \<Rightarrow> bytes \<Rightarrow> AccountTxIndex" where
  "acc_Remove env c tx h =
     (let addr = From env tx
      in case map_of (accMap c) addr of
           None \<Rightarrow> c
         | Some lm \<Rightarrow>
             let lm' = snd (lm_Remove lm h)
             in if lm_Size lm' = 0 then c\<lparr>accMap := AList.delete addr (accMap c)\<rparr>
                else c\<lparr>accMap := AList.update addr lm' (accMap c)\<rparr>)"

definition acc_Push :: "tx_env \<Rightarrow> AccountTxIndex \<Rightarrow> transaction \<Rightarrow> bytes \<Rightarrow> go_error option \<times> AccountTxIndex" where
  "acc_Push env c tx h =
     (let addr = From env tx;
          lm = (case map_of (accMap c) addr of None \<Rightarrow> lm_New | Some lm \<Rightarrow> lm);
          c1 = c\<lparr>accMap := AList.update addr lm (accMap c)\<rparr>
      in if int (lm_Size lm) \<ge> maxperaccount c then (Some ErrManyTx, c1)
         else (None, c1\<lparr>accMap := AList.update addr (lm_Push lm h tx) (accMap c1)\<rparr>))"

definition CanPush :: "tx_env \<Rightarrow> AccountTxIndex \<Rightarrow> transaction \<Rightarrow> bool" where
  "CanPush env c tx =
     (case map_of (accMap c) (From env tx) of
        None \<Rightarrow> True
      | Some item \<Rightarrow> int (lm_Size item) < maxperaccount c)"

section \<open>The latest transactions\<close>

record LastTxCache =
  last_max :: int
  last_l :: "(bytes, transaction) ListMap"

definition NewLastTxCache :: "int \<Rightarrow> LastTxCache" where
  "NewLastTxCache n = \<lparr>last_max = n, last_l = lm_New\<rparr>"

definition GetLatestTx :: "LastTxCache \<Rightarrow> transaction list" where
  "GetLatestTx c = lm_Walk (last_l c) (Some (\<lambda>acc v. (True, acc @ [v]))) []"

definition last_Remove :: "LastTxCache \<Rightarrow> bytes \<Rightarrow> LastTxCache" where
  "last_Remove c h = c\<lparr>last_l := snd (lm_Remove (last_l c) h)\<rparr>"

definition last_Push :: "tx_env \<Rightarrow> LastTxCache \<Rightarrow> transaction \<Rightarrow> bytes \<Rightarrow> LastTxCache" where
  "last_Push env c tx h =
     (let c1 = (if int (lm_Size (last_l c)) \<ge> last_max c then
                  case lm_GetTop (last_l c) of
                    None \<Rightarrow> c
                  | Some v \<Rightarrow> last_Remove c (tx_Hash env v)
                else c)
      in c1\<lparr>last_l := lm_Push (last_l c1) h tx\<rparr>)"

section \<open>The index by short hash\<close>

record SHashTxCache =
  shash_max :: int
  shash_l :: "(string, transaction) ListMap"

definition NewSHashTxCache :: "int \<Rightarrow> SHashTxCache" where
  "NewSHashTxCache n = \<lparr>shash_max = n, shash_l = lm_New\<rparr>"

definition GetSHashTxCache :: "SHashTxCache \<Rightarrow> string \<Rightarrow> transaction option" where
  "GetSHashTxCache c sHash = (case lm_GetItem (shash_l c) sHash of Inl _ \<Rightarrow> None | Inr tx \<Rightarrow> Some tx)"

definition shash_Remove :: "SHashTxCache \<Rightarrow> bytes \<Rightarrow> SHashTxCache" where
  "shash_Remove c h = c\<lparr>shash_l := snd (lm_Remove (shash_l c) (CalcTxShortHash h))\<rparr>"

definition shash_Exist :: "SHashTxCache \<Rightarrow> string \<Rightarrow> bool" where
  "shash_Exist c shash = lm_Exist (shash_l c) shash"

definition shash_Push :: "SHashTxCache \<Rightarrow> transaction \<Rightarrow> bytes \<Rightarrow> SHashTxCache" where
  "shash_Push c tx h =
     (let shash = CalcTxShortHash h
      in if shash_Exist c shash then c
         else if int (lm_Size (shash_l c)) \<ge> shash_max c then c
         else c\<lparr>shash_l := lm_Push (shash_l c) shash tx\<rparr>)"

section \<open>Delayed transactions\<close>

record delayTxCache =
  delay_size :: int
  delay_txs :: "(int \<times> transaction list) list"
  delay_hashes :: "(bytes \<times> int) list"

definition newDelayTxCache :: "int \<Rightarrow> delayTxCache" where
  "newDelayTxCache n = \<lparr>delay_size = n, delay_txs = [], delay_hashes = []\<rparr>"

definition addDelayTx :: "tx_env \<Rightarrow> delayTxCache \<Rightarrow> transaction option \<Rightarrow> int \<Rightarrow> go_error option \<times> delayTxCache" where
  "addDelayTx env c dtx endDelayTime =
     (case dtx of
        None \<Rightarrow> (Some ErrNilTransaction, c)
      | Some tx \<Rightarrow>
          if int (length (delay_hashes c)) \<ge> delay_size c then (Some ErrCacheOverFlow, c)
          else
            let txHash = tx_Hash env tx
            in if map_of (delay_hashes c) txHash \<noteq> None then (Some ErrDupTx, c)
               else
                 let l = (case map_of (delay_txs c) endDelayTime of None \<Rightarrow> [] | Some l \<Rightarrow> l)
                 in (None, c\<lparr>delay_hashes := AList.update txHash endDelayTime (delay_hashes c),
                            delay_txs := AList.update endDelayTime (l @ [tx]) (delay_txs c)\<rparr>))"

definition take_slot :: "int \<Rightarrow> (int \<times> transaction list) list \<times> transaction list \<Rightarrow>
    (int \<times> transaction list) list \<times> transaction list" where
  "take_slot t = (\<lambda>(m, delList). case map_of m t of
     None \<Rightarrow> (m, delList)
   | Some l \<Rightarrow> (AList.delete t m, delList @ l))"

text \<open>The loop over the block times runs from \<open>lastBlockTime + 1\<close> to \<open>currBlockTime\<close>.\<close>

definition delExpiredTxs :: "tx_env \<Rightarrow> delayTxCache \<Rightarrow> int \<Rightarrow> int \<Rightarrow> int \<Rightarrow> transaction list \<times> delayTxCache" where
  "delExpiredTxs env c lastBlockTime currBlockTime currBlockHeight =
     (if length (delay_hashes c) = 0 then ([], c)
      else
        let (m, delList) = fold take_slot ([lastBlockTime + 1..currBlockTime] @ [currBlockHeight]) (delay_txs c, [])
        in (delList, c\<lparr>delay_txs := m,
              delay_hashes := fold (\<lambda>tx. AList.delete (tx_Hash env tx)) delList (delay_hashes c)\<rparr>))"

definition delay_contains :: "delayTxCache \<Rightarrow> bytes \<Rightarrow> int \<times> bool" where
  "delay_contains c txHash =
     (case map_of (delay_hashes c) txHash of None \<Rightarrow> (0, False) | Some t \<Rightarrow> (t, True))"

section \<open>The cache\<close>

record txCache =
  AccountIndex :: AccountTxIndex
  LastCache :: LastTxCache
  qcache :: "SimpleQueue option"
  totalFee :: int
  SHashCache :: SHashTxCache
  delayCache :: delayTxCache

definition newCache :: "int \<Rightarrow> int \<Rightarrow> int \<Rightarrow> txCache" where
  "newCache maxTxPerAccount sizeLast poolCacheSize =
     \<lparr>AccountIndex = NewAccountTxIndex maxTxPerAccount, LastCache = NewLastTxCache sizeLast, qcache = None,
      totalFee = 0, SHashCache = NewSHashTxCache poolCacheSize,
      delayCache = newDelayTxCache (go_div poolCacheSize 2)\<rparr>"

definition SetQueueCache :: "txCache \<Rightarrow> SimpleQueue \<Rightarrow> txCache" where
  "SetQueueCache c q = c\<lparr>qcache := Some q\<rparr>"

text \<open>A call on a nil queue panics, which \<open>None\<close> stands for where there is no error result.\<close>

definition tc_Remove :: "tx_env \<Rightarrow> txCache \<Rightarrow> bytes \<Rightarrow> txCache option" where
  "tc_Remove env c h =
     (case qcache c of
        None \<Rightarrow> None
      | Some q \<Rightarrow>
          (case q_GetItem q h of
             Inl e \<Rightarrow> Some c
           | Inr item \<Rightarrow>
               let tx = ItemValue item; (err, q') = q_Remove env q h
               in Some (c\<lparr>qcache := Some q', AccountIndex := acc_Remove env (AccountIndex c) tx h,
                          LastCache := last_Remove (LastCache c) h,
                          totalFee := i64 (totalFee c - Fee tx),
                          SHashCache := shash_Remove (SHashCache c) h\<rparr>)))"

definition tc_Exist :: "txCache \<Rightarrow> bytes \<Rightarrow> bool" where
  "tc_Exist c h = (case qcache c of None \<Rightarrow> False | Some q \<Rightarrow> q_Exist q h)"

definition tc_Size :: "txCache \<Rightarrow> nat" where
  "tc_Size c = (case qcache c of None \<Rightarrow> 0 | Some q \<Rightarrow> q_Size q)"

definition tc_Walk :: "txCache \<Rightarrow> int \<Rightarrow> ('s \<Rightarrow> Item \<Rightarrow> bool \<times> 's) \<Rightarrow> 's \<Rightarrow> 's" where
  "tc_Walk c count cb s = (case qcache c of None \<Rightarrow> s | Some q \<Rightarrow> q_Walk q count cb s)"

fun tc_RemoveTxs :: "tx_env \<Rightarrow> txCache \<Rightarrow> bytes list \<Rightarrow> txCache option" where
  "tc_RemoveTxs env c [] = Some c"
| "tc_RemoveTxs env c (t # ts) = (case tc_Remove env c t of None \<Rightarrow> None | Some c' \<Rightarrow> tc_RemoveTxs env c' ts)"

definition tc_Push :: "tx_env \<Rightarrow> int \<Rightarrow> txCache \<Rightarrow> transaction \<Rightarrow> go_error option \<times> txCache" where
  "tc_Push env now c tx =
     (if \<not> CanPush env (AccountIndex c) tx then (Some ErrManyTx, c)
      else case qcache c of
        None \<Rightarrow> (Some GoPanic, c)
      | Some q \<Rightarrow>
          let item = \<lparr>ItemValue = tx, Priority = Fee tx, EnterTime = now\<rparr>;
              txHash = tx_Hash env tx
          in case q_Push env q item of
               (Some err, q') \<Rightarrow> (Some err, c\<lparr>qcache := Some q'\<rparr>)
             | (None, q') \<Rightarrow>
                 (case acc_Push env (AccountIndex c) tx txHash of
                    (Some err, a') \<Rightarrow> (Some err, c\<lparr>qcache := Some q', AccountIndex := a'\<rparr>)
                  | (None, a') \<Rightarrow>
                      (None, c\<lparr>qcache := Some q', AccountIndex := a',
                               LastCache := last_Push env (LastCache c) tx txHash,
                               totalFee := i64 (totalFee c + Fee tx),
                               SHashCache := shash_Push (SHashCache c) tx txHash\<rparr>)))"

definition mempoolExpiredInterval :: int where "mempoolExpiredInterval = 600"

definition isExpired :: "tx_env \<Rightarrow> OmnilinkConfig \<Rightarrow> int \<Rightarrow> Item \<Rightarrow> int \<Rightarrow> int \<Rightarrow> bool" where
  "isExpired env cfg now item height blockTime =
     (if i64 (now - EnterTime item) \<ge> mempoolExpiredInterval then True
      else IsExpire env cfg height blockTime (ItemValue item))"

definition removeExpiredTx :: "tx_env \<Rightarrow> OmnilinkConfig \<Rightarrow> int \<Rightarrow> txCache \<Rightarrow> int \<Rightarrow> int \<Rightarrow> txCache option" where
  "removeExpiredTx env cfg now c height blocktime =
     (case qcache c of
        None \<Rightarrow> None
      | Some q \<Rightarrow>
          let txs = q_Walk q 0 (\<lambda>acc item.
                      (True, if isExpired env cfg now item height blocktime
                             then acc @ [tx_Hash env (ItemValue item)] else acc)) []
          in if length txs > 0 then tc_RemoveTxs env c txs else Some c)"

definition getTxByHash :: "txCache \<Rightarrow> bytes \<Rightarrow> transaction option option" where
  "getTxByHash c h =
     (case qcache c of
        None \<Rightarrow> None
      | Some q \<Rightarrow> Some (case q_GetItem q h of Inl _ \<Rightarrow> None | Inr item \<Rightarrow> Some (ItemValue item)))"

end
