(* ===== verification/Mempool_Pool.thy ===== *)
theory Mempool_Pool
  imports Mempool
begin

text \<open>
  The pool itself: the operations of \<^verbatim>\<open>system/mempool/base.go\<close> and the admission checks of
  \<^verbatim>\<open>check.go\<close> over the cache. \<open>mem_env\<close> holds what other modules answer: the address
  check, the sender's nonce (an RPC to the EVM), the search for duplicates on the chain, the
  executor's check, and the limits read from the configuration.
\<close>

section \<open>State\<close>

record MempoolCfg =
  MaxTxNumPerAccount :: int
  MinTxFeeRate :: int
  MaxTxFeeRate :: int
  IsLevelFee :: bool
  EvmNonceCheck :: bool
  DisableExecCheck :: bool

record mem_env =
  txe :: tx_env
  mem_omni :: OmnilinkConfig
  CheckAddress :: "string \<Rightarrow> int \<Rightarrow> bool"
  IsForward2MainChainTx :: "transaction \<Rightarrow> bool"
  getCurrentNonce :: "string \<Rightarrow> int"
  CheckDupTx :: "transaction list \<Rightarrow> int \<Rightarrow> go_error + transaction list"
  checkTxListRemote :: "transaction \<Rightarrow> header option \<Rightarrow> go_error option"
  ActionName :: "transaction \<Rightarrow> string"
  GetMaxTxFee :: "int \<Rightarrow> int"
  MaxTxNumber :: "int \<Rightarrow> int"
  sender_order :: "string list \<Rightarrow> string list"
  delay_action :: "transaction \<Rightarrow> (transaction \<times> int \<times> int) option"

record Mempool =
  mem_header :: "header option"
  mem_cfg :: MempoolCfg
  mem_cache :: txCache
  currHeight :: int

text \<open>The protobuf getters answer 0 on a nil header.\<close>

definition header_height :: "Mempool \<Rightarrow> int" where
  "header_height mem = (case mem_header mem of None \<Rightarrow> 0 | Some h \<Rightarrow> hHeight h)"

definition header_time :: "Mempool \<Rightarrow> int" where
  "header_time mem = (case mem_header mem of None \<Rightarrow> 0 | Some h \<Rightarrow> hBlockTime h)"

definition mem_Height :: "Mempool \<Rightarrow> int" where
  "mem_Height mem = (case mem_header mem of None \<Rightarrow> - 1 | Some h \<Rightarrow> hHeight h)"

text \<open>\<^verbatim>\<open>NewMempool\<close> fills in the defaults; the queue is set by the plugin that creates it.\<close>

definition NewMempool :: "MempoolCfg \<Rightarrow> int \<Rightarrow> int \<Rightarrow> Mempool" where
  "NewMempool cfg maxTxLast poolCacheSize =
     (let cfg1 = (if MaxTxNumPerAccount cfg = 0 then cfg\<lparr>MaxTxNumPerAccount := 100\<rparr> else cfg);
          last1 = (if maxTxLast = 0 then 10 else maxTxLast);
          size1 = (if poolCacheSize = 0 then 10240 else poolCacheSize)
      in \<lparr>mem_header = None, mem_cfg = cfg1, mem_cache = newCache (MaxTxNumPerAccount cfg1) last1 size1, currHeight = 0\<rparr>)"

definition mem_SetQueueCache :: "Mempool \<Rightarrow> SimpleQueue \<Rightarrow> Mempool" where
  "mem_SetQueueCache mem q = mem\<lparr>mem_cache := SetQueueCache (mem_cache mem) q\<rparr>"

definition setHeader :: "Mempool \<Rightarrow> header \<Rightarrow> Mempool" where
  "setHeader mem h = mem\<lparr>currHeight := hHeight h, mem_header := Some h\<rparr>"

section \<open>Pushing and removing\<close>

definition PushTx :: "mem_env \<Rightarrow> int \<Rightarrow> Mempool \<Rightarrow> transaction \<Rightarrow> go_error option \<times> Mempool" where
  "PushTx env now mem tx =
     (let (err, c) = tc_Push (txe env) now (mem_cache mem) tx in (err, mem\<lparr>mem_cache := c\<rparr>))"

fun removeTxs :: "mem_env \<Rightarrow> Mempool \<Rightarrow> bytes list \<Rightarrow> Mempool option" where
  "removeTxs env mem [] = Some mem"
| "removeTxs env mem (h # hs) =
     (if tc_Exist (mem_cache mem) h then
        (case tc_Remove (txe env) (mem_cache mem) h of
           None \<Rightarrow> None
         | Some c \<Rightarrow> removeTxs env (mem\<lparr>mem_cache := c\<rparr>) hs)
      else removeTxs env mem hs)"

definition RemoveTxsOfBlock :: "mem_env \<Rightarrow> Mempool \<Rightarrow> transaction block \<Rightarrow> Mempool option" where
  "RemoveTxsOfBlock env mem b = removeTxs env mem (map (tx_Hash (txe env)) (Txs b))"

definition removeExpired :: "mem_env \<Rightarrow> int \<Rightarrow> Mempool \<Rightarrow> Mempool option" where
  "removeExpired env now mem =
     (case removeExpiredTx (txe env) (mem_omni env) now (mem_cache mem) (i64 (header_height mem + 1)) (header_time mem) of
        None \<Rightarrow> None
      | Some c \<Rightarrow> Some (mem\<lparr>mem_cache := c\<rparr>))"

section \<open>Choosing transactions for a block\<close>

text \<open>
  \<^verbatim>\<open>sortEthSignTyTx\<close>: per sender a map from nonces to transactions, the run of consecutive
  nonces from the sender's current one on. Go visits the senders in an arbitrary order,
  \<open>sender_order\<close>. A run uses each entry of the map at most once, so its number of entries
  is fuel enough.
\<close>

type_synonym nonce_map = "(int \<times> transaction) list"

fun collect_eth :: "mem_env \<Rightarrow> transaction list \<Rightarrow> transaction list \<Rightarrow> (string \<times> nonce_map) list \<Rightarrow>
    transaction list \<times> (string \<times> nonce_map) list" where
  "collect_eth env [] merge ethTxs = (merge, ethTxs)"
| "collect_eth env (tx # txs) merge ethTxs =
     (if IsEthSignID (defaultAddressID (txe env)) (sign_ty tx) \<and> \<not> IsParaExecName (Execer tx) then
        let frm = From (txe env) tx;
            m = (case map_of ethTxs frm of None \<Rightarrow> [] | Some m \<Rightarrow> m)
        in collect_eth env txs merge (AList.update frm (AList.update (Nonce tx) tx m) ethTxs)
      else collect_eth env txs (merge @ [tx]) ethTxs)"

fun nonce_run :: "nat \<Rightarrow> nonce_map \<Rightarrow> int \<Rightarrow> transaction list" where
  "nonce_run 0 m nonce = []"
| "nonce_run (Suc fuel) m nonce =
     (case map_of m nonce of
        None \<Rightarrow> []
      | Some tx \<Rightarrow> tx # nonce_run fuel m (i64 (nonce + 1)))"

definition sender_run :: "mem_env \<Rightarrow> (string \<times> nonce_map) list \<Rightarrow> string \<Rightarrow> transaction list" where
  "sender_run env ethTxs frm =
     (case map_of ethTxs frm of
        None \<Rightarrow> []
      | Some m \<Rightarrow> nonce_run (length m) m (getCurrentNonce env frm))"

definition sortEthSignTyTx :: "mem_env \<Rightarrow> transaction list \<Rightarrow> transaction list" where
  "sortEthSignTyTx env txs =
     (let (merge, ethTxs) = collect_eth env txs [] []
      in if length merge = length txs then txs
         else merge @ concat (map (sender_run env ethTxs) (sender_order env (map fst ethTxs))))"

definition filterTxList :: "mem_env \<Rightarrow> int \<Rightarrow> Mempool \<Rightarrow> int \<Rightarrow> bytes list \<Rightarrow> bool \<Rightarrow> transaction list" where
  "filterTxList env now mem count dupMap isAll =
     (let height = i64 (header_height mem + 1);
          blockTime = header_time mem;
          txs = tc_Walk (mem_cache mem) 0 (\<lambda>txs item.
                  if length dupMap > 0 \<and> tx_Hash (txe env) (ItemValue item) \<in> set dupMap then (True, txs)
                  else if isExpired (txe env) (mem_omni env) now item height blockTime \<and> \<not> isAll then (True, txs)
                  else
                    let txs' = txs @ [ItemValue item]
                    in (\<not> (count > 0 \<and> int (length txs') = count), txs')) []
      in if EvmNonceCheck (mem_cfg mem) \<and> IsFork (cfg_forks (mem_omni env)) (header_height mem) ''ForkCheckEthTxSort''
         then sortEthSignTyTx env txs else txs)"

definition getTxList :: "mem_env \<Rightarrow> int \<Rightarrow> Mempool \<Rightarrow> int \<Rightarrow> bytes list \<Rightarrow> transaction list" where
  "getTxList env now mem count hashes = filterTxList env now mem count hashes False"

section \<open>Fee rates\<close>

definition MaxBlockSize :: int where "MaxBlockSize = 20000000"

definition GetTotalCacheBytes :: "Mempool \<Rightarrow> int option" where
  "GetTotalCacheBytes mem = map_option cacheBytes (qcache (mem_cache mem))"

definition getCacheFeeRate :: "Mempool \<Rightarrow> int" where
  "getCacheFeeRate mem =
     (case qcache (mem_cache mem) of
        None \<Rightarrow> 0
      | Some q \<Rightarrow>
          let feeRate = ProperFee (q_subConfig q);
              unitFee = MinTxFeeRate (mem_cfg mem);
              feeRate = (if unitFee \<noteq> 0 \<and> go_mod feeRate unitFee > 0
                         then i64 (i64 (go_div feeRate unitFee + 1) * unitFee) else feeRate)
          in if feeRate > MaxTxFeeRate (mem_cfg mem) then MaxTxFeeRate (mem_cfg mem) else feeRate)"

definition getLevelFeeRate :: "mem_env \<Rightarrow> Mempool \<Rightarrow> int \<Rightarrow> int \<Rightarrow> int \<Rightarrow> int option" where
  "getLevelFeeRate env mem baseFeeRate appendCount appendSize =
     (case GetTotalCacheBytes mem of
        None \<Rightarrow> None
      | Some bytes \<Rightarrow>
          let sumByte = i64 (bytes + appendSize);
              maxTxNumber = MaxTxNumber env (mem_Height mem);
              memSize = int (tc_Size (mem_cache mem)) + appendCount;
              feeRate =
                (if sumByte \<ge> MaxBlockSize div 20 \<or> memSize \<ge> go_div maxTxNumber 2 then i64 (100 * baseFeeRate)
                 else if sumByte \<ge> MaxBlockSize div 100 \<or> memSize \<ge> go_div maxTxNumber 10 then i64 (10 * baseFeeRate)
                 else baseFeeRate)
          in Some (if feeRate > MaxTxFeeRate (mem_cfg mem) then MaxTxFeeRate (mem_cfg mem) else feeRate))"

definition GetProperFeeRate :: "mem_env \<Rightarrow> Mempool \<Rightarrow> (int \<times> int) option \<Rightarrow> int option" where
  "GetProperFeeRate env mem req =
     (let (txCount, txSize) = (case req of None \<Rightarrow> (20, 0) | Some (c, s) \<Rightarrow> if c = 0 then (20, 0) else (c, s));
          txSize = (if txSize = 0 then 10240 else txSize);
          feeRate = getCacheFeeRate mem
      in if IsLevelFee (mem_cfg mem) then
           (case getLevelFeeRate env mem (MinTxFeeRate (mem_cfg mem)) txCount txSize of
              None \<Rightarrow> None
            | Some levelFeeRate \<Rightarrow> Some (if levelFeeRate > feeRate then levelFeeRate else feeRate))
         else Some feeRate)"

section \<open>Admission\<close>

definition checkExpireValid :: "mem_env \<Rightarrow> int \<Rightarrow> Mempool \<Rightarrow> transaction \<Rightarrow> bool" where
  "checkExpireValid env now mem tx =
     (if IsExpire (txe env) (mem_omni env) (i64 (header_height mem + 1)) (header_time mem) tx then False
      else \<not> (Expire tx > 1000000000 \<and> Expire tx < i64 (now + 60)))"

definition CheckExpireValid :: "mem_env \<Rightarrow> int \<Rightarrow> Mempool \<Rightarrow> transaction \<Rightarrow> go_error option" where
  "CheckExpireValid env now mem tx =
     (if mem_header mem = None then Some ErrHeaderNotSet
      else if \<not> checkExpireValid env now mem tx then Some ErrTxExpire
      else None)"

definition checkTx :: "mem_env \<Rightarrow> int \<Rightarrow> Mempool \<Rightarrow> transaction \<Rightarrow> go_error option" where
  "checkTx env now mem tx =
     (if \<not> CheckAddress env (To tx) (currHeight mem) then Some ErrInvalidAddress
      else if int (TxNumOfAccount (AccountIndex (mem_cache mem)) (From (txe env) tx)) \<ge> MaxTxNumPerAccount (mem_cfg mem)
      then Some ErrManyTx
      else CheckExpireValid env now mem tx)"

definition checkLevelFee :: "mem_env \<Rightarrow> Mempool \<Rightarrow> TransactionCache \<Rightarrow> go_error option \<times> TransactionCache" where
  "checkLevelFee env mem c =
     (case getLevelFeeRate env mem (MinTxFeeRate (mem_cfg mem)) 0 0 of
        None \<Rightarrow> (Some GoPanic, c)
      | Some feeRate \<Rightarrow>
          (case cache_GetTotalFee (txe env) feeRate c of
             (Inl e, c1) \<Rightarrow> (Some e, c1)
           | (Inr totalfee, c1) \<Rightarrow> (if Fee (cached_tx c1) < totalfee then Some ErrTxFeeTooLow else None, c1)))"

definition checkTxs :: "mem_env \<Rightarrow> int \<Rightarrow> Mempool \<Rightarrow> transaction option \<Rightarrow> go_error option" where
  "checkTxs env now mem data =
     (case data of
        None \<Rightarrow> Some ErrEmptyTx
      | Some tx \<Rightarrow>
          if IsForward2MainChainTx env tx then None
          else
            let height = i64 (header_height mem + 1);
                (err, c1) = cache_Check (txe env) (mem_omni env) height (MinTxFeeRate (mem_cfg mem))
                              (GetMaxTxFee env height) (NewTransactionCache tx);
                (err, c2) = (if err = None \<and> IsLevelFee (mem_cfg mem) then checkLevelFee env mem c1 else (err, c1))
            in case err of
                 Some e \<Rightarrow> Some e
               | None \<Rightarrow>
                   (case fst (cache_GetTxGroup (txe env) c2) of
                      Inl e \<Rightarrow> Some e
                    | Inr None \<Rightarrow> checkTx env now mem tx
                    | Inr (Some txs) \<Rightarrow> first_error (checkTx env now mem) txs))"

text \<open>
  \<^verbatim>\<open>evmTxNonceCheck\<close>: sorting the sender's transactions before the search does not change
  whether one of them with another hash has the same nonce.
\<close>

definition evmTxNonceCheck :: "mem_env \<Rightarrow> Mempool \<Rightarrow> transaction \<Rightarrow> go_error option" where
  "evmTxNonceCheck env mem tx =
     (if \<not> IsEthSignID (defaultAddressID (txe env)) (sign_ty tx) then None
      else if Nonce tx < getCurrentNonce env (From (txe env) tx) then Some ErrLowNonce
      else
        let txs = map fst (GetAccTxs (AccountIndex (mem_cache mem)) [From (txe env) tx]) @ [tx]
        in if length txs > 1 then
             first_error (\<lambda>stx. if tx_Hash (txe env) stx = tx_Hash (txe env) tx then None
                                else if Nonce stx = Nonce tx then Some ErrDisableAcceleration
                                else None) (sort_key Nonce txs)
           else None)"

definition checkTxRemote :: "mem_env \<Rightarrow> int \<Rightarrow> Mempool \<Rightarrow> transaction \<Rightarrow> go_error option \<times> Mempool" where
  "checkTxRemote env now mem tx =
     (case GetTxGroup (txe env) tx of
        Inl e \<Rightarrow> (Some e, mem)
      | Inr tg \<Rightarrow>
          let tem = (case tg of None \<Rightarrow> [tx] | Some txs \<Rightarrow> txs)
          in if mem_header mem = None then (Some GoPanic, mem)
             else case CheckDupTx env tem (header_height mem) of
               Inl e \<Rightarrow> (Some e, mem)
             | Inr newtxs \<Rightarrow>
                 if length newtxs \<noteq> length tem then (Some ErrDupTx, mem)
                 else
                   (case (if DisableExecCheck (mem_cfg mem) then None
                          else checkTxListRemote env tx (mem_header mem)) of
                      Some e \<Rightarrow> (Some e, mem)
                    | None \<Rightarrow>
                        (case (if EvmNonceCheck (mem_cfg mem) then evmTxNonceCheck env mem tx else None) of
                           Some e \<Rightarrow> (Some e, mem)
                         | None \<Rightarrow> PushTx env now mem tx)))"

section \<open>Blocks rolled back\<close>

function del_block_loop :: "mem_env \<Rightarrow> int \<Rightarrow> Mempool \<Rightarrow> bool \<Rightarrow> transaction list \<Rightarrow> Mempool" where
  "del_block_loop env now mem isfirst [] = mem"
| "del_block_loop env now mem isfirst (tx # rest) =
     (if isfirst \<and> ActionName env tx = ''miner'' then del_block_loop env now mem False rest
      else
        let n = nat (GroupCount tx);
            isgroup = (n > 1 \<and> n \<le> length (tx # rest));
            tx' = (if isgroup then the (group_Tx (txe env) (take n (tx # rest))) else tx);
            rest' = (if isgroup then drop n (tx # rest) else rest);
            mem' =
              (if tx_Check (txe env) (mem_omni env) (header_height mem) (MinTxFeeRate (mem_cfg mem))
                    (GetMaxTxFee env (header_height mem)) tx' \<noteq> None then mem
               else if \<not> checkExpireValid env now mem tx' then mem
               else snd (PushTx env now mem tx'))
        in del_block_loop env now mem' False rest')"
  by pat_completeness auto

termination
  by (relation "measure (\<lambda>(env, now, mem, isfirst, txs). length txs)") (auto simp: Let_def)

definition mem_delBlock :: "mem_env \<Rightarrow> int \<Rightarrow> Mempool \<Rightarrow> transaction block \<Rightarrow> Mempool" where
  "mem_delBlock env now mem b = (if Txs b = [] then mem else del_block_loop env now mem True (Txs b))"

section \<open>Events\<close>

text \<open>\<^verbatim>\<open>addDelayTx\<close> of \<^verbatim>\<open>eventprocess.go\<close>: the delayed transactions a block commits.\<close>

definition delay_step :: "mem_env \<Rightarrow> transaction block \<Rightarrow> transaction \<Rightarrow> delayTxCache \<Rightarrow> delayTxCache" where
  "delay_step env b tx c =
     (case delay_action env tx of
        None \<Rightarrow> c
      | Some (dtx, relTime, relHeight) \<Rightarrow>
          let endDelayTime = (if relTime \<le> 0 then i64 (relHeight + Height b) else i64 (relTime + BlockTime b))
          in snd (addDelayTx (txe env) c (Some dtx) endDelayTime))"

definition mem_addDelayTx :: "mem_env \<Rightarrow> delayTxCache \<Rightarrow> transaction block \<Rightarrow> delayTxCache" where
  "mem_addDelayTx env c b = fold (delay_step env b) (Txs b) c"

text \<open>
  \<^verbatim>\<open>eventAddBlock\<close>: the state after a block was added, and the delayed transactions handed to
  \<^verbatim>\<open>pushDelayTxRoutine\<close>. \<open>None\<close> is the panic on a missing queue.
\<close>

definition eventAddBlock :: "mem_env \<Rightarrow> int \<Rightarrow> Mempool \<Rightarrow> transaction block \<Rightarrow> (transaction list \<times> Mempool) option" where
  "eventAddBlock env now mem b =
     (let height = mem_Height mem;
          lastTime = header_time mem;
          mem1 = (if Height b > height \<or> (Height b = 0 \<and> height = 0)
                  then setHeader mem (empty_header\<lparr>hBlockTime := BlockTime b, hHeight := Height b,
                         hStateHash := StateHash b\<rparr>)
                  else mem);
          cleaned =
            (if tc_Size (mem_cache mem1) > 0 then
               (case RemoveTxsOfBlock env mem1 b of None \<Rightarrow> None | Some mem2 \<Rightarrow> removeExpired env now mem2)
             else Some mem1)
      in case cleaned of
           None \<Rightarrow> None
         | Some mem3 \<Rightarrow>
             let d1 = mem_addDelayTx env (delayCache (mem_cache mem3)) b;
                 (delayTxList, d2) = delExpiredTxs (txe env) d1 lastTime (BlockTime b) (Height b)
             in Some (delayTxList, mem3\<lparr>mem_cache := (mem_cache mem3)\<lparr>delayCache := d2\<rparr>\<rparr>))"

text \<open>\<open>lastHeader\<close> is the answer of the blockchain module.\<close>

definition eventDelBlock :: "mem_env \<Rightarrow> int \<Rightarrow> header option \<Rightarrow> Mempool \<Rightarrow> transaction block \<Rightarrow> Mempool" where
  "eventDelBlock env now lastHeader mem b =
     (if Height b \<noteq> header_height mem then mem
      else case lastHeader of
        None \<Rightarrow> mem
      | Some h \<Rightarrow> mem_delBlock env now (setHeader mem h) b)"

text \<open>
  The way of a transaction into the pool: \<^verbatim>\<open>eventTx\<close>, then the pipeline of signature check
  and \<^verbatim>\<open>checkTxRemote\<close>. \<open>synced\<close> is the flag of \<^verbatim>\<open>getSync\<close>.
\<close>

definition mem_checkSign :: "mem_env \<Rightarrow> Mempool \<Rightarrow> TransactionCache \<Rightarrow> bool" where
  "mem_checkSign env mem c = fst (cache_CheckSign (txe env) (i64 (currHeight mem + 1)) c)"

definition eventTx :: "mem_env \<Rightarrow> int \<Rightarrow> bool \<Rightarrow> Mempool \<Rightarrow> transaction option \<Rightarrow> go_error option \<times> Mempool" where
  "eventTx env now synced mem data =
     (if \<not> synced then (Some ErrNotSync, mem)
      else case checkTxs env now mem data of
        Some e \<Rightarrow> (Some e, mem)
      | None \<Rightarrow>
          (case data of
             None \<Rightarrow> (Some ErrEmptyTx, mem)
           | Some tx \<Rightarrow>
               if \<not> mem_checkSign env mem (NewTransactionCache tx) then (Some ErrSign, mem)
               else checkTxRemote env now mem tx))"

text \<open>
  The other messages. A hash list names transactions by short hash or by full hash; an answer
  of \<open>None\<close> in the list is the nil transaction.
\<close>

definition RemoveTxs :: "mem_env \<Rightarrow> Mempool \<Rightarrow> bytes list \<Rightarrow> Mempool option" where
  "RemoveTxs env mem hashes = removeTxs env mem hashes"

definition eventDelTxList :: "mem_env \<Rightarrow> Mempool \<Rightarrow> bytes list \<Rightarrow> (go_error option \<times> Mempool) option" where
  "eventDelTxList env mem hashes =
     (if length hashes = 0 then Some (Some ErrSize, mem)
      else case RemoveTxs env mem hashes of None \<Rightarrow> None | Some mem' \<Rightarrow> Some (None, mem'))"

definition eventTxList :: "mem_env \<Rightarrow> int \<Rightarrow> Mempool \<Rightarrow> int \<Rightarrow> bytes list \<Rightarrow> go_error + transaction list" where
  "eventTxList env now mem count hashes =
     (if count \<le> 0 then Inl ErrSize else Inr (getTxList env now mem count hashes))"

definition eventGetMempool :: "mem_env \<Rightarrow> int \<Rightarrow> Mempool \<Rightarrow> bool option \<Rightarrow> transaction list" where
  "eventGetMempool env now mem data =
     (let isAll = (case data of None \<Rightarrow> False | Some a \<Rightarrow> a) in filterTxList env now mem 0 [] isAll)"

definition eventGetPendingSize :: "mem_env \<Rightarrow> int \<Rightarrow> Mempool \<Rightarrow> nat" where
  "eventGetPendingSize env now mem = length (filterTxList env now mem 0 [] True)"

definition getTxListByHash :: "Mempool \<Rightarrow> string list + bytes list \<Rightarrow> transaction option list option" where
  "getTxListByHash mem hashList =
     (case hashList of
        Inl shorts \<Rightarrow> Some (map (GetSHashTxCache (SHashCache (mem_cache mem))) shorts)
      | Inr hashes \<Rightarrow> those (map (getTxByHash (mem_cache mem)) hashes))"

definition eventAddDelayTx :: "mem_env \<Rightarrow> Mempool \<Rightarrow> (transaction option \<times> int) option \<Rightarrow> go_error option \<times> Mempool" where
  "eventAddDelayTx env mem data =
     (case data of
        None \<Rightarrow> (Some ErrInvalidParam, mem)
      | Some (tx, endDelayTime) \<Rightarrow>
          let (err, d) = addDelayTx (txe env) (delayCache (mem_cache mem)) tx endDelayTime
          in (err, mem\<lparr>mem_cache := (mem_cache mem)\<lparr>delayCache := d\<rparr>\<rparr>))"

definition eventCheckTxsExist :: "bool \<Rightarrow> Mempool \<Rightarrow> bytes list \<Rightarrow> bool list \<times> nat" where
  "eventCheckTxsExist synced mem hashes =
     (if synced then
        let flags = map (tc_Exist (mem_cache mem)) hashes in (flags, length (filter id flags))
      else ([], 0))"

end
