(* ===== verification/Mempool_Theorems.thy ===== *)
theory Mempool_Theorems
  imports Mempool_Pool Transactions_Theorems "HOL-Library.Sublist"
begin

text \<open>
  The caches of the pool agree: whatever is pushed, removed or expires, the index by account,
  the latest transactions, the index by short hash, the total fee and the byte count are
  functions of the queue. The laws of \<open>ListMap\<close> come from the interpretation \<open>lmap\<close> of
  the locale \<open>keyed_list\<close>.
\<close>

lemmas lm_laws = lmap.size lmap.get lmap.push lmap.top lmap.remove lmap.keys lm_Exist_abs

lemma ol_push_new: "k \<notin> fst ` set kvs \<Longrightarrow> ol_push k v kvs = kvs @ [(k, v)]"
  by (simp add: ol_push_def)

lemma ol_remove_keys: "fst ` set (ol_remove k kvs) = fst ` set kvs - {k}"
  by (force simp: ol_remove_def)

lemma i64_diff_left [simp]: "i64 (i64 x - y) = i64 (x - y)"
  using i64_add_left [of x "- y"] by simp

section \<open>The index by account\<close>

definition acc_lookup :: "AccountTxIndex \<Rightarrow> string \<Rightarrow> (bytes \<times> transaction) list" where
  "acc_lookup a addr = (case map_of (accMap a) addr of None \<Rightarrow> [] | Some lm \<Rightarrow> lm_abs lm)"

definition acc_ok :: "AccountTxIndex \<Rightarrow> bool" where
  "acc_ok a \<longleftrightarrow> (\<forall>addr lm. map_of (accMap a) addr = Some lm \<longrightarrow> lm_ok lm \<and> lm_abs lm \<noteq> [])"

lemma acc_lookup_at: "map_of (accMap a) addr = Some lm \<Longrightarrow> acc_lookup a addr = lm_abs lm"
  by (simp add: acc_lookup_def)

lemma TxNumOfAccount_lookup: "acc_ok a \<Longrightarrow> TxNumOfAccount a addr = length (acc_lookup a addr)"
  by (auto simp: TxNumOfAccount_def acc_lookup_def acc_ok_def lm_laws split: option.splits)

lemma CanPush_lookup:
  "acc_ok a \<Longrightarrow> 1 \<le> maxperaccount a \<Longrightarrow>
   CanPush env a tx \<longleftrightarrow> int (length (acc_lookup a (From env tx))) < maxperaccount a"
  by (auto simp: CanPush_def acc_lookup_def acc_ok_def lm_laws split: option.splits)

lemma acc_Push_spec:
  assumes "acc_ok a" "CanPush env a tx" "1 \<le> maxperaccount a"
    and "h \<notin> fst ` set (acc_lookup a (From env tx))"
  shows "\<exists>a'. acc_Push env a tx h = (None, a') \<and> acc_ok a' \<and> maxperaccount a' = maxperaccount a \<and>
    acc_lookup a' = (acc_lookup a)(From env tx := acc_lookup a (From env tx) @ [(h, tx)])"
proof -
  let ?f = "From env tx"
  define lm where "lm = (case map_of (accMap a) ?f of None \<Rightarrow> lm_New | Some lm \<Rightarrow> lm)"
  have lm: "lm_ok lm" "lm_abs lm = acc_lookup a ?f"
    using assms(1) by (auto simp: lm_def acc_lookup_def acc_ok_def split: option.splits)
  have room: "\<not> int (lm_Size lm) \<ge> maxperaccount a"
    using assms(2,3) by (auto simp: CanPush_def lm_def lm_Size_def lm_New_def split: option.splits)
  define a' where "a' = a\<lparr>accMap := AList.update ?f (lm_Push lm h tx) (AList.update ?f lm (accMap a))\<rparr>"
  have res: "acc_Push env a tx h = (None, a')"
    using room by (simp add: acc_Push_def lm_def [symmetric] a'_def Let_def)
  have m: "map_of (accMap a') = (map_of (accMap a))(?f \<mapsto> lm_Push lm h tx)"
    by (simp add: a'_def update_conv')
  have new: "lm_abs (lm_Push lm h tx) = acc_lookup a ?f @ [(h, tx)]"
    using lm assms(4) by (simp add: lm_laws ol_push_new)
  have "acc_ok a'"
    using assms(1) lm(1) new by (auto simp: acc_ok_def m lm_laws split: if_splits)
  moreover have "acc_lookup a' = (acc_lookup a)(?f := acc_lookup a ?f @ [(h, tx)])"
    using new by (auto simp: acc_lookup_def m)
  ultimately show ?thesis using res by (simp add: a'_def)
qed

lemma acc_Remove_spec:
  assumes "acc_ok a"
  shows "acc_ok (acc_Remove env a tx h) \<and> maxperaccount (acc_Remove env a tx h) = maxperaccount a \<and>
    acc_lookup (acc_Remove env a tx h) =
      (acc_lookup a)(From env tx := ol_remove h (acc_lookup a (From env tx)))"
proof (cases "map_of (accMap a) (From env tx)")
  case None
  then have "acc_Remove env a tx h = a" "acc_lookup a (From env tx) = []"
    unfolding acc_Remove_def acc_lookup_def Let_def None by simp_all
  then show ?thesis using assms by (simp add: ol_remove_def fun_upd_idem)
next
  case (Some lm)
  let ?f = "From env tx" and ?lm = "snd (lm_Remove lm h)"
  have lm: "lm_ok lm" "lm_abs lm = acc_lookup a ?f" using assms Some by (auto simp: acc_ok_def acc_lookup_def)
  then have lm': "lm_ok ?lm" "lm_abs ?lm = ol_remove h (acc_lookup a ?f)" by (simp_all add: lm_laws)
  show ?thesis
  proof (cases "lm_Size ?lm = 0")
    case True
    then have emp: "ol_remove h (acc_lookup a ?f) = []" using lm' by (simp add: lm_laws)
    have r: "acc_Remove env a tx h = a\<lparr>accMap := AList.delete ?f (accMap a)\<rparr>"
      unfolding acc_Remove_def Let_def Some using True by simp
    have m: "map_of (accMap (acc_Remove env a tx h)) = (map_of (accMap a))(?f := None)"
      by (simp add: r AList.delete_conv')
    have "acc_ok (acc_Remove env a tx h)" using assms by (auto simp: acc_ok_def m split: if_splits)
    moreover have "acc_lookup (acc_Remove env a tx h) = (acc_lookup a)(?f := ol_remove h (acc_lookup a ?f))"
      unfolding emp by (auto simp: acc_lookup_def [of "acc_Remove env a tx h"] m acc_lookup_def)
    ultimately show ?thesis by (simp add: r)
  next
    case False
    then have ne: "lm_abs ?lm \<noteq> []" using lm' by (simp add: lm_laws)
    have r: "acc_Remove env a tx h = a\<lparr>accMap := AList.update ?f ?lm (accMap a)\<rparr>"
      unfolding acc_Remove_def Let_def Some using False by simp
    have m: "map_of (accMap (acc_Remove env a tx h)) = (map_of (accMap a))(?f \<mapsto> ?lm)"
      by (simp add: r update_conv')
    have "acc_ok (acc_Remove env a tx h)" using assms lm'(1) ne by (auto simp: acc_ok_def m split: if_splits)
    moreover have "acc_lookup (acc_Remove env a tx h) = (acc_lookup a)(?f := ol_remove h (acc_lookup a ?f))"
      using lm'(2) by (auto simp: acc_lookup_def [of "acc_Remove env a tx h"] m acc_lookup_def)
    ultimately show ?thesis by (simp add: r)
  qed
qed

section \<open>The queue and the views\<close>

type_synonym queue_view = "(bytes \<times> Item) list"

definition tx_view :: "queue_view \<Rightarrow> (bytes \<times> transaction) list" where
  "tx_view Q = map (\<lambda>(h, it). (h, ItemValue it)) Q"

definition acc_view :: "tx_env \<Rightarrow> queue_view \<Rightarrow> string \<Rightarrow> (bytes \<times> transaction) list" where
  "acc_view env Q addr = filter (\<lambda>(h, tx). From env tx = addr) (tx_view Q)"

definition qview :: "txCache \<Rightarrow> queue_view" where
  "qview c = (case qcache c of None \<Rightarrow> [] | Some q \<Rightarrow> lm_abs (txList q))"

definition queue_ok :: "tx_env \<Rightarrow> SimpleQueue \<Rightarrow> bool" where
  "queue_ok env q \<longleftrightarrow>
     lm_ok (txList q) \<and> (\<forall>(h, it)\<in>set (lm_abs (txList q)). h = tx_Hash env (ItemValue it)) \<and>
     int (length (lm_abs (txList q))) \<le> max 0 (PoolCacheSize (q_subConfig q)) \<and>
     cacheBytes q = i64 (\<Sum>(h, it)\<leftarrow>lm_abs (txList q). SizeTx env (ItemValue it))"

definition cache_ok :: "tx_env \<Rightarrow> txCache \<Rightarrow> bool" where
  "cache_ok env c \<longleftrightarrow>
     (case qcache c of None \<Rightarrow> False | Some q \<Rightarrow> queue_ok env q) \<and>
     acc_ok (AccountIndex c) \<and> acc_lookup (AccountIndex c) = acc_view env (qview c) \<and>
     (\<forall>addr. int (length (acc_view env (qview c) addr)) \<le> maxperaccount (AccountIndex c)) \<and>
     lm_ok (last_l (LastCache c)) \<and> suffix (lm_abs (last_l (LastCache c))) (tx_view (qview c)) \<and>
     int (length (lm_abs (last_l (LastCache c)))) \<le> last_max (LastCache c) \<and>
     totalFee c = i64 (\<Sum>(h, it)\<leftarrow>qview c. Fee (ItemValue it)) \<and>
     lm_ok (shash_l (SHashCache c)) \<and>
     (\<forall>(s, tx)\<in>set (lm_abs (shash_l (SHashCache c))).
        \<exists>h. (h, tx) \<in> set (tx_view (qview c)) \<and> s = CalcTxShortHash h)"

lemma tx_view_simps [simp]:
  "tx_view [] = []" "tx_view (Q @ R) = tx_view Q @ tx_view R"
  "tx_view [(h, it)] = [(h, ItemValue it)]" "fst ` set (tx_view Q) = fst ` set Q"
  by (auto simp: tx_view_def) force+

lemma tx_view_remove: "tx_view (ol_remove h Q) = ol_remove h (tx_view Q)"
  by (induction Q) (auto simp: tx_view_def ol_remove_def)

lemma acc_view_append: "acc_view env (Q @ [(h, it)]) = (\<lambda>addr. acc_view env Q addr @
    (if From env (ItemValue it) = addr then [(h, ItemValue it)] else []))"
  by (auto simp: acc_view_def)

lemma acc_view_remove: "acc_view env (ol_remove h Q) addr = ol_remove h (acc_view env Q addr)"
  by (simp add: acc_view_def tx_view_remove) (simp add: ol_remove_def conj_commute split_def)

lemma acc_view_other:
  assumes "distinct (map fst Q)" "(h, it) \<in> set Q" "From env (ItemValue it) \<noteq> addr"
  shows "ol_remove h (acc_view env Q addr) = acc_view env Q addr"
proof (rule ol_remove_absent)
  have "tx = ItemValue it" if "(h, tx) \<in> set (tx_view Q)" for tx
    using that assms(1,2) by (auto simp: tx_view_def dest: map_of_is_SomeI)
      (metis eq_key_imp_eq_value)
  then show "h \<notin> fst ` set (acc_view env Q addr)" using assms(3) by (auto simp: acc_view_def)
qed

section \<open>Push and Remove keep the caches in agreement\<close>

lemma last_Push_spec:
  assumes "lm_ok (last_l l)" "suffix (lm_abs (last_l l)) V" "1 \<le> last_max l"
    and "int (length (lm_abs (last_l l))) \<le> last_max l"
    and keyed: "\<And>k v. (k, v) \<in> set V \<Longrightarrow> k = tx_Hash env v" and new: "h \<notin> fst ` set V"
  shows "lm_ok (last_l (last_Push env l tx h)) \<and> last_max (last_Push env l tx h) = last_max l \<and>
    suffix (lm_abs (last_l (last_Push env l tx h))) (V @ [(h, tx)]) \<and>
    int (length (lm_abs (last_l (last_Push env l tx h)))) \<le> last_max l"
proof -
  let ?L = "lm_abs (last_l l)"
  define l1 where "l1 = (if int (lm_Size (last_l l)) \<ge> last_max l then
    case lm_GetTop (last_l l) of None \<Rightarrow> l | Some v \<Rightarrow> last_Remove l (tx_Hash env v) else l)"
  have l1: "lm_ok (last_l l1) \<and> last_max l1 = last_max l \<and> suffix (lm_abs (last_l l1)) ?L \<and>
    int (length (lm_abs (last_l l1))) < last_max l"
  proof (cases "int (length ?L) \<ge> last_max l")
    case False
    then have "l1 = l" using assms(1) by (simp add: l1_def lm_laws)
    then show ?thesis using False assms(1) by simp
  next
    case True
    then obtain k v rest where L: "?L = (k, v) # rest" using assms(3) by (cases ?L) auto
    have k: "k = tx_Hash env v" using keyed L assms(2) by (metis list.set_intros(1) set_mono_suffix subsetD)
    have l1: "l1 = last_Remove l k" using True assms(1) L k by (simp add: l1_def lm_laws)
    have "k \<notin> fst ` set rest" using lmap.keys [OF assms(1)] L by simp
    then have "ol_remove k ?L = rest" using L ol_remove_absent [of k rest] by (simp add: ol_remove_def)
    then have "lm_abs (last_l l1) = rest" "lm_ok (last_l l1)" "last_max l1 = last_max l"
      using assms(1) by (simp_all add: l1 last_Remove_def lm_laws)
    then show ?thesis using L assms(4) by (simp add: suffix_Cons)
  qed
  then have suf: "suffix (lm_abs (last_l l1)) V" using assms(2) by (meson suffix_order.trans)
  then have "h \<notin> fst ` set (lm_abs (last_l l1))" using new by (meson image_mono set_mono_suffix subsetD)
  then have "lm_abs (lm_Push (last_l l1) h tx) = lm_abs (last_l l1) @ [(h, tx)]"
    using l1 by (simp add: lm_laws ol_push_new)
  moreover have "last_Push env l tx h = l1\<lparr>last_l := lm_Push (last_l l1) h tx\<rparr>"
    by (simp add: last_Push_def l1_def [symmetric] Let_def)
  ultimately show ?thesis using l1 suf by (auto simp: lm_laws suffix_def)
qed

lemma shash_Push_spec:
  assumes "lm_ok (shash_l c)"
  shows "lm_ok (shash_l (shash_Push c tx h)) \<and>
    set (lm_abs (shash_l (shash_Push c tx h))) \<subseteq> insert (CalcTxShortHash h, tx) (set (lm_abs (shash_l c)))"
  using assms by (auto simp: shash_Push_def shash_Exist_def Let_def lm_laws ol_push_def)

lemma qcache_upd [simp]: "qcache c = Some q \<Longrightarrow> c\<lparr>qcache := Some q\<rparr> = c"
  by simp

lemma cache_okD:
  assumes "cache_ok env c"
  obtains q where "qcache c = Some q" "queue_ok env q" "qview c = lm_abs (txList q)"
    "distinct (map fst (qview c))" "\<forall>k v. (k, v) \<in> set (tx_view (qview c)) \<longrightarrow> k = tx_Hash env v"
proof -
  obtain q where q: "qcache c = Some q" "queue_ok env q"
    using assms by (auto simp: cache_ok_def split: option.splits)
  have v: "qview c = lm_abs (txList q)" by (simp add: qview_def q)
  have "distinct (map fst (qview c))" unfolding v using q(2) by (simp add: queue_ok_def lmap.keys)
  moreover have "k = tx_Hash env w" if "(k, w) \<in> set (tx_view (qview c))" for k w
    using that q(2) unfolding v by (auto simp: queue_ok_def tx_view_def)
  ultimately show ?thesis using that q v by blast
qed

lemma q_Push_spec:
  assumes "queue_ok env q"
  shows "q_Push env q item =
    (if tx_Hash env (ItemValue item) \<in> fst ` set (lm_abs (txList q)) then (Some ErrTxExist, q)
     else if int (length (lm_abs (txList q))) \<ge> PoolCacheSize (q_subConfig q) then (Some ErrMemFull, q)
     else (None, snd (q_Push env q item)))"
  using assms by (simp add: q_Push_def q_Exist_def queue_ok_def lm_laws Let_def)

lemma q_Push_ok:
  assumes "queue_ok env q" "q_Push env q item = (None, q')"
  shows "queue_ok env q' \<and> q_subConfig q' = q_subConfig q \<and>
    lm_abs (txList q') = lm_abs (txList q) @ [(tx_Hash env (ItemValue item), item)]"
proof -
  let ?h = "tx_Hash env (ItemValue item)"
  have lm: "lm_ok (txList q)" using assms(1) by (simp add: queue_ok_def)
  have new: "?h \<notin> fst ` set (lm_abs (txList q))" and room: "int (length (lm_abs (txList q))) < PoolCacheSize (q_subConfig q)"
    and q': "q' = q\<lparr>txList := lm_Push (txList q) ?h item, cacheBytes := i64 (cacheBytes q + SizeTx env (ItemValue item))\<rparr>"
    using assms(2) lm by (auto simp: q_Push_def q_Exist_def lm_laws Let_def split: if_splits)
  have abs: "lm_abs (txList q') = lm_abs (txList q) @ [(?h, item)]"
    using lm new by (simp add: q' lm_laws ol_push_new)
  show ?thesis
    using assms(1) room lm unfolding queue_ok_def abs by (auto simp: q' lm_laws)
qed

text \<open>The four answers of \<^verbatim>\<open>Push\<close>.\<close>

lemma tc_Push_cases:
  assumes ok: "cache_ok env c" and lim: "1 \<le> maxperaccount (AccountIndex c)" "1 \<le> last_max (LastCache c)"
    and q: "qcache c = Some q"
  shows "if int (length (acc_view env (qview c) (From env tx))) \<ge> maxperaccount (AccountIndex c)
      then tc_Push env now c tx = (Some ErrManyTx, c)
    else if tx_Hash env tx \<in> fst ` set (qview c) then tc_Push env now c tx = (Some ErrTxExist, c)
    else if int (length (qview c)) \<ge> PoolCacheSize (q_subConfig q) then tc_Push env now c tx = (Some ErrMemFull, c)
    else \<exists>c' q'. tc_Push env now c tx = (None, c') \<and> cache_ok env c' \<and> qcache c' = Some q' \<and>
      q_subConfig q' = q_subConfig q \<and> maxperaccount (AccountIndex c') = maxperaccount (AccountIndex c) \<and>
      last_max (LastCache c') = last_max (LastCache c) \<and>
      qview c' = qview c @ [(tx_Hash env tx, \<lparr>ItemValue = tx, Priority = Fee tx, EnterTime = now\<rparr>)]"
proof -
  let ?h = "tx_Hash env tx" and ?it = "\<lparr>ItemValue = tx, Priority = Fee tx, EnterTime = now\<rparr>"
  let ?Q = "qview c" and ?a = "AccountIndex c" and ?l = "LastCache c"
  have acc: "acc_ok ?a" "acc_lookup ?a = acc_view env ?Q" using ok by (simp_all add: cache_ok_def)
  have qok: "queue_ok env q" and Q: "lm_abs (txList q) = ?Q"
    using ok q by (simp_all add: cache_ok_def qview_def)
  have keyed: "\<And>k v. (k, v) \<in> set (tx_view ?Q) \<Longrightarrow> k = tx_Hash env v" using cache_okD [OF ok] by blast
  have can: "CanPush env ?a tx \<longleftrightarrow> int (length (acc_view env ?Q (From env tx))) < maxperaccount ?a"
    using CanPush_lookup [OF acc(1) lim(1)] acc(2) by simp
  consider "\<not> CanPush env ?a tx" | "CanPush env ?a tx" "?h \<in> fst ` set ?Q"
    | "CanPush env ?a tx" "?h \<notin> fst ` set ?Q" "int (length ?Q) \<ge> PoolCacheSize (q_subConfig q)"
    | "CanPush env ?a tx" "?h \<notin> fst ` set ?Q" "\<not> int (length ?Q) \<ge> PoolCacheSize (q_subConfig q)"
    by blast
  then show ?thesis
  proof cases
    case 1 then show ?thesis using can by (simp add: tc_Push_def)
  next
    case 2
    then show ?thesis using can q q_Push_spec [OF qok, of ?it] Q by (simp add: tc_Push_def Let_def)
  next
    case 3
    then show ?thesis using can q q_Push_spec [OF qok, of ?it] Q by (simp add: tc_Push_def Let_def)
  next
    case 4
    define q' where "q' = snd (q_Push env q ?it)"
    have pq: "q_Push env q ?it = (None, q')"
      using q_Push_spec [OF qok, of ?it] 4 Q by (simp add: q'_def)
    have q': "queue_ok env q'" "q_subConfig q' = q_subConfig q" "lm_abs (txList q') = ?Q @ [(?h, ?it)]"
      using q_Push_ok [OF qok pq] Q by simp_all
    have "?h \<notin> fst ` set (acc_lookup ?a (From env tx))"
      using 4(2) unfolding acc(2) acc_view_def by (force simp: tx_view_def image_iff)
    then obtain a' where a': "acc_Push env ?a tx ?h = (None, a')" "acc_ok a'" "maxperaccount a' = maxperaccount ?a"
      "acc_lookup a' = (acc_lookup ?a)(From env tx := acc_lookup ?a (From env tx) @ [(?h, tx)])"
      using acc_Push_spec [OF acc(1) 4(1) lim(1)] by blast
    define c' where "c' = c\<lparr>qcache := Some q', AccountIndex := a', LastCache := last_Push env ?l tx ?h,
      totalFee := i64 (totalFee c + Fee tx), SHashCache := shash_Push (SHashCache c) tx ?h\<rparr>"
    have res: "tc_Push env now c tx = (None, c')"
      using 4(1) q pq a'(1) by (simp add: tc_Push_def Let_def c'_def)
    have view: "qview c' = ?Q @ [(?h, ?it)]" by (simp add: qview_def c'_def q'(3))
    have lookup: "acc_lookup a' = acc_view env (qview c')"
      unfolding a'(4) acc(2) view acc_view_append by auto
    have bound: "int (length (acc_view env (qview c') addr)) \<le> maxperaccount ?a" for addr
      using ok 4(1) can unfolding view acc_view_append by (auto simp: cache_ok_def)
    note last = last_Push_spec [of ?l "tx_view ?Q" env ?h tx]
    have Lc: "LastCache c' = last_Push env ?l tx ?h" by (simp add: c'_def)
    have tv: "tx_view (qview c') = tx_view ?Q @ [(?h, tx)]" by (simp add: view)
    have last': "lm_ok (last_l (LastCache c'))" "last_max (LastCache c') = last_max ?l"
      "suffix (lm_abs (last_l (LastCache c'))) (tx_view (qview c'))"
      "int (length (lm_abs (last_l (LastCache c')))) \<le> last_max ?l"
      unfolding Lc tv using last ok lim(2) keyed 4(2) by (simp_all add: cache_ok_def del: suffix_snoc)
    note push_sh = shash_Push_spec [of "SHashCache c" tx ?h]
    have sh: "lm_ok (shash_l (SHashCache c'))" using push_sh ok by (simp add: cache_ok_def c'_def)
    have "\<exists>k. (k, w) \<in> set (tx_view (qview c')) \<and> s = CalcTxShortHash k"
      if "(s, w) \<in> set (lm_abs (shash_l (SHashCache c')))" for s w
    proof -
      have "(s, w) = (CalcTxShortHash ?h, tx) \<or> (s, w) \<in> set (lm_abs (shash_l (SHashCache c)))"
        using that push_sh ok by (auto simp: cache_ok_def c'_def)
      then show ?thesis
      proof
        assume "(s, w) = (CalcTxShortHash ?h, tx)" then show ?thesis unfolding tv by auto
      next
        assume "(s, w) \<in> set (lm_abs (shash_l (SHashCache c)))"
        then show ?thesis using ok unfolding tv cache_ok_def by fastforce
      qed
    qed
    then have sh': "\<forall>(s, w)\<in>set (lm_abs (shash_l (SHashCache c'))). \<exists>k. (k, w) \<in> set (tx_view (qview c')) \<and> s = CalcTxShortHash k"
      by blast
    have "totalFee c' = i64 (\<Sum>(h, it)\<leftarrow>qview c'. Fee (ItemValue it))"
      unfolding view using ok by (simp add: c'_def cache_ok_def)
    then have "cache_ok env c'"
      using q'(1) a'(2,3) lookup bound last' sh sh' by (simp add: cache_ok_def c'_def)
    then show ?thesis
      using 4 can res view q'(2) a'(3) last'(2) by (auto simp: c'_def)
  qed
qed


lemma suffix_ol_remove: "suffix xs ys \<Longrightarrow> suffix (ol_remove h xs) (ol_remove h ys)"
  by (auto simp: suffix_def ol_remove_def)

lemma sum_ol_remove:
  fixes f :: "'k \<times> 'v \<Rightarrow> int"
  assumes "distinct (map fst Q)" "(h, v) \<in> set Q"
  shows "sum_list (map f (ol_remove h Q)) = sum_list (map f Q) - f (h, v)"
  using assms
proof (induction Q)
  case (Cons x Q)
  show ?case
  proof (cases "fst x = h")
    case True
    then have "x = (h, v)" using Cons.prems by (auto simp: image_iff)
    moreover have "h \<notin> fst ` set Q" using Cons.prems(1) True by auto
    ultimately show ?thesis using ol_remove_absent [of h Q] by (simp add: ol_remove_def)
  next
    case False
    then have "(h, v) \<in> set Q" using Cons.prems(2) by auto
    then show ?thesis using Cons False by (cases x) (simp add: ol_remove_def)
  qed
qed simp

lemma q_Remove_ok:
  assumes "queue_ok env q" "(h, it) \<in> set (lm_abs (txList q))"
  shows "\<exists>q'. q_Remove env q h = (None, q') \<and> queue_ok env q' \<and> q_subConfig q' = q_subConfig q \<and>
    lm_abs (txList q') = ol_remove h (lm_abs (txList q))"
proof -
  have lm: "lm_ok (txList q)" using assms(1) by (simp add: queue_ok_def)
  have get: "q_GetItem q h = Inr it"
    using map_of_is_SomeI [OF lmap.keys [OF lm] assms(2)] by (simp add: q_GetItem_def lmap.get [OF lm])
  define q' where "q' = q\<lparr>txList := snd (lm_Remove (txList q) h), cacheBytes := i64 (cacheBytes q - SizeTx env (ItemValue it))\<rparr>"
  have abs: "lm_abs (txList q') = ol_remove h (lm_abs (txList q))" using lm by (simp add: q'_def lm_laws)
  have "int (length (ol_remove h (lm_abs (txList q)))) \<le> max 0 (PoolCacheSize (q_subConfig q))"
    using assms(1) length_filter_le [of _ "lm_abs (txList q)"] unfolding queue_ok_def ol_remove_def
    by (meson dual_order.trans of_nat_mono)
  moreover have "cacheBytes q' = i64 (\<Sum>(h, it)\<leftarrow>ol_remove h (lm_abs (txList q)). SizeTx env (ItemValue it))"
    using sum_ol_remove [OF lmap.keys [OF lm] assms(2), of "\<lambda>(h, it). SizeTx env (ItemValue it)"] assms(1)
    by (simp add: q'_def queue_ok_def)
  moreover have "\<forall>(k, i)\<in>set (ol_remove h (lm_abs (txList q))). k = tx_Hash env (ItemValue i)"
    using assms(1) by (auto simp: queue_ok_def ol_remove_def)
  ultimately have "queue_ok env q'" using lm unfolding queue_ok_def abs by (simp add: q'_def lm_laws)
  moreover have "q_Remove env q h = (None, q')" by (simp add: q_Remove_def get q'_def)
  ultimately show ?thesis using abs by (simp add: q'_def)
qed

definition same_limits :: "txCache \<Rightarrow> txCache \<Rightarrow> bool" where
  "same_limits c c' \<longleftrightarrow> maxperaccount (AccountIndex c') = maxperaccount (AccountIndex c) \<and>
     last_max (LastCache c') = last_max (LastCache c) \<and>
     map_option q_subConfig (qcache c') = map_option q_subConfig (qcache c)"

lemma same_limits_refl [simp]: "same_limits c c"
  by (simp add: same_limits_def)

lemma same_limits_trans: "same_limits a b \<Longrightarrow> same_limits b c \<Longrightarrow> same_limits a c"
  by (simp add: same_limits_def)

lemma tc_Remove_spec:
  assumes ok: "cache_ok env c"
  shows "\<exists>c'. tc_Remove env c h = Some c' \<and> cache_ok env c' \<and> same_limits c c' \<and> qview c' = ol_remove h (qview c)"
proof -
  let ?Q = "qview c" and ?a = "AccountIndex c"
  obtain q where q: "qcache c = Some q" "queue_ok env q" and Q: "?Q = lm_abs (txList q)"
    and dist: "distinct (map fst ?Q)"
    by (rule cache_okD [OF ok])
  have lm: "lm_ok (txList q)" using q(2) by (simp add: queue_ok_def)
  show ?thesis
  proof (cases "map_of ?Q h")
    case None
    then have "q_GetItem q h = Inl ErrNotFound" using Q by (simp add: q_GetItem_def lmap.get [OF lm])
    moreover have "ol_remove h ?Q = ?Q" using None by (intro ol_remove_absent) (simp add: map_of_eq_None_iff)
    ultimately show ?thesis using ok q(1) by (simp add: tc_Remove_def)
  next
    case (Some it)
    then have mem: "(h, it) \<in> set ?Q" by (rule map_of_SomeD)
    then obtain q' where q': "q_Remove env q h = (None, q')" "queue_ok env q'" "q_subConfig q' = q_subConfig q"
      "lm_abs (txList q') = ol_remove h ?Q" using q_Remove_ok [OF q(2)] Q by auto
    have get: "q_GetItem q h = Inr it" using Some Q by (simp add: q_GetItem_def lmap.get [OF lm])
    define c' where "c' = c\<lparr>qcache := Some q', AccountIndex := acc_Remove env ?a (ItemValue it) h,
      LastCache := last_Remove (LastCache c) h, totalFee := i64 (totalFee c - Fee (ItemValue it)),
      SHashCache := shash_Remove (SHashCache c) h\<rparr>"
    have res: "tc_Remove env c h = Some c'" using q(1) get q'(1) by (simp add: tc_Remove_def c'_def Let_def)
    have view: "qview c' = ol_remove h ?Q" by (simp add: qview_def c'_def q'(4))
    have acc: "acc_ok ?a" "acc_lookup ?a = acc_view env ?Q" using ok by (simp_all add: cache_ok_def)
    note rem = acc_Remove_spec [OF acc(1), of env "ItemValue it" h]
    have lookup: "acc_lookup (AccountIndex c') = acc_view env (qview c')"
    proof
      fix addr
      show "acc_lookup (AccountIndex c') addr = acc_view env (qview c') addr"
        using rem acc_view_other [OF dist mem, of env addr]
        by (simp add: c'_def acc(2) view [unfolded c'_def] acc_view_remove)
    qed
    have bound: "int (length (acc_view env (qview c') addr)) \<le> maxperaccount ?a" for addr
    proof -
      have "length (acc_view env (qview c') addr) \<le> length (acc_view env ?Q addr)"
        unfolding view acc_view_remove by (simp add: ol_remove_def)
      moreover have "int (length (acc_view env ?Q addr)) \<le> maxperaccount ?a" using ok by (simp add: cache_ok_def)
      ultimately show ?thesis by linarith
    qed
    have last: "lm_ok (last_l (LastCache c'))" "lm_abs (last_l (LastCache c')) = ol_remove h (lm_abs (last_l (LastCache c)))"
      using ok by (simp_all add: cache_ok_def c'_def last_Remove_def lm_laws)
    have suf: "suffix (lm_abs (last_l (LastCache c'))) (tx_view (qview c'))"
      unfolding last(2) view tx_view_remove using ok by (intro suffix_ol_remove) (simp add: cache_ok_def)
    have len: "int (length (lm_abs (last_l (LastCache c')))) \<le> last_max (LastCache c)"
    proof -
      have "length (lm_abs (last_l (LastCache c'))) \<le> length (lm_abs (last_l (LastCache c)))"
        unfolding last(2) ol_remove_def by (rule length_filter_le)
      then show ?thesis using ok unfolding cache_ok_def by linarith
    qed
    have fee: "totalFee c' = i64 (\<Sum>(h, it)\<leftarrow>qview c'. Fee (ItemValue it))"
      using sum_ol_remove [OF dist mem, of "\<lambda>(h, it). Fee (ItemValue it)"] ok unfolding view
      by (simp add: cache_ok_def c'_def)
    have sh: "lm_ok (shash_l (SHashCache c'))"
      "lm_abs (shash_l (SHashCache c')) = ol_remove (CalcTxShortHash h) (lm_abs (shash_l (SHashCache c)))"
      using ok by (simp_all add: cache_ok_def c'_def shash_Remove_def lm_laws)
    have sh': "\<forall>(s, w)\<in>set (lm_abs (shash_l (SHashCache c'))). \<exists>k. (k, w) \<in> set (tx_view (qview c')) \<and> s = CalcTxShortHash k"
      using ok unfolding sh(2) view tx_view_remove by (fastforce simp: cache_ok_def ol_remove_def)
    have "cache_ok env c'"
      using q'(2) rem lookup bound last(1) suf len fee sh(1) sh'
      by (simp add: cache_ok_def c'_def last_Remove_def)
    moreover have "same_limits c c'"
      using rem q(1) q'(3) by (simp add: same_limits_def c'_def last_Remove_def)
    ultimately show ?thesis using res view by blast
  qed
qed

lemma tc_RemoveTxs_spec:
  "cache_ok env c \<Longrightarrow> \<exists>c'. tc_RemoveTxs env c hs = Some c' \<and> cache_ok env c' \<and> same_limits c c' \<and>
     qview c' = filter (\<lambda>(h, it). h \<notin> set hs) (qview c)"
proof (induction hs arbitrary: c)
  case (Cons h hs)
  obtain c1 where c1: "tc_Remove env c h = Some c1" "cache_ok env c1" "same_limits c c1" "qview c1 = ol_remove h (qview c)"
    using tc_Remove_spec [OF Cons.prems] by blast
  obtain c2 where c2: "tc_RemoveTxs env c1 hs = Some c2" "cache_ok env c2" "same_limits c1 c2"
    "qview c2 = filter (\<lambda>(h, it). h \<notin> set hs) (qview c1)"
    using Cons.IH [OF c1(2)] by blast
  have "qview c2 = filter (\<lambda>(k, it). k \<notin> set (h # hs)) (qview c)"
    unfolding c2(4) c1(4) ol_remove_def filter_filter by (rule filter_cong) auto
  then show ?case using c1 c2 same_limits_trans by auto
qed (auto simp: case_prod_beta)


section \<open>Walking the queue\<close>

lemma walk_loop_fold:
  assumes "\<And>s v. fst (cb s v)" "0 \<le> i"
  shows "walk_loop (\<lambda>(s, i) v. let (ok, s') = cb s v in if \<not> ok then (False, (s', i)) else (i + 1 \<noteq> 0, (s', i + 1)))
    vs (s, i :: int) = (fold (\<lambda>v s. snd (cb s v)) vs s, i + int (length vs))"
  using assms(2)
proof (induction vs arbitrary: s i)
  case (Cons v vs)
  obtain s' where "cb s v = (True, s')" using assms(1) [of s v] by (cases "cb s v") auto
  then show ?case using Cons.IH [of "i + 1" s'] Cons.prems by (simp add: Let_def)
qed simp

lemma q_Walk_all:
  assumes "\<And>s v. fst (cb s v)"
  shows "q_Walk q 0 cb s = fold (\<lambda>v s. snd (cb s v)) (map snd (lm_abs (txList q))) s"
  using walk_loop_fold [of cb 0 "map snd (lm_abs (txList q))" s, OF assms]
  by (simp add: q_Walk_def lm_Walk_def lm_values_abs)

lemma fold_collect: "fold (\<lambda>v acc. acc @ [f v]) vs acc = acc @ map f vs"
  by (induction vs arbitrary: acc) auto

lemma fold_collect_if:
  "fold (\<lambda>v acc. if P v then acc @ [f v] else acc) vs acc = acc @ map f (filter P vs)"
  by (induction vs arbitrary: acc) auto

lemma lm_Walk_collect: "lm_Walk lm (Some (\<lambda>acc v. (True, acc @ [f v]))) [] = map f (map snd (lm_abs lm))"
  by (simp add: lm_Walk_def lm_values_abs walk_loop_all fold_collect)

lemma removeExpiredTx_spec:
  assumes ok: "cache_ok env c"
  shows "\<exists>c'. removeExpiredTx env cfg now c height bt = Some c' \<and> cache_ok env c' \<and> same_limits c c' \<and>
    qview c' = filter (\<lambda>(h, it). \<not> isExpired env cfg now it height bt) (qview c)"
proof -
  obtain q where q: "qcache c = Some q" "queue_ok env q" "qview c = lm_abs (txList q)"
    and dist: "distinct (map fst (qview c))" by (rule cache_okD [OF ok])
  define old where "old = map (\<lambda>it. tx_Hash env (ItemValue it))
    (filter (\<lambda>it. isExpired env cfg now it height bt) (map snd (qview c)))"
  have walk: "q_Walk q 0 (\<lambda>acc item. (True, if isExpired env cfg now item height bt
      then acc @ [tx_Hash env (ItemValue item)] else acc)) [] = old"
    by (simp add: q_Walk_all q(3) [symmetric] fold_collect_if old_def)
  have hash: "h = tx_Hash env (ItemValue it)" if "(h, it) \<in> set (qview c)" for h it
    using that q(2,3) by (auto simp: queue_ok_def)
  have "h \<in> set old \<longleftrightarrow> isExpired env cfg now it height bt" if m: "(h, it) \<in> set (qview c)" for h it
  proof
    assume "h \<in> set old"
    then obtain k it' where "(k, it') \<in> set (qview c)" "isExpired env cfg now it' height bt" "h = tx_Hash env (ItemValue it')"
      by (auto simp: old_def)
    moreover from this have "k = h" using hash by blast
    ultimately show "isExpired env cfg now it height bt" using dist m by (metis eq_key_imp_eq_value)
  next
    assume "isExpired env cfg now it height bt"
    then show "h \<in> set old" using m hash [OF m] by (force simp: old_def)
  qed
  then have same: "filter (\<lambda>(h, it). h \<notin> set old) (qview c) = filter (\<lambda>(h, it). \<not> isExpired env cfg now it height bt) (qview c)"
    by (intro filter_cong) auto
  have "tc_RemoveTxs env c [] = Some c" by simp
  then have "removeExpiredTx env cfg now c height bt = tc_RemoveTxs env c old"
    unfolding removeExpiredTx_def q(1) by (cases "old = []") (simp_all add: Let_def walk)
  then show ?thesis using tc_RemoveTxs_spec [OF ok, of old] same by simp
qed

section \<open>Reachable caches\<close>

inductive pool_reach :: "tx_env \<Rightarrow> txCache \<Rightarrow> bool" for env where
  pool_init: "1 \<le> maxTxPerAccount \<Longrightarrow> 1 \<le> sizeLast \<Longrightarrow>
    pool_reach env (SetQueueCache (newCache maxTxPerAccount sizeLast poolSize) (NewSimpleQueue sub))"
| pool_push: "pool_reach env c \<Longrightarrow> pool_reach env (snd (tc_Push env now c tx))"
| pool_remove: "pool_reach env c \<Longrightarrow> tc_Remove env c h = Some c' \<Longrightarrow> pool_reach env c'"
| pool_expire: "pool_reach env c \<Longrightarrow> removeExpiredTx env cfg now c height bt = Some c' \<Longrightarrow> pool_reach env c'"
| pool_delay: "pool_reach env c \<Longrightarrow> pool_reach env (c\<lparr>delayCache := d\<rparr>)"

lemma pool_reach_ok:
  "pool_reach env c \<Longrightarrow> cache_ok env c \<and> 1 \<le> maxperaccount (AccountIndex c) \<and> 1 \<le> last_max (LastCache c)"
proof (induction rule: pool_reach.induct)
  case (pool_init m n p sub)
  then show ?case
    by (simp add: cache_ok_def SetQueueCache_def newCache_def NewSimpleQueue_def queue_ok_def qview_def
        NewAccountTxIndex_def NewLastTxCache_def NewSHashTxCache_def acc_ok_def acc_lookup_def acc_view_def
        fun_eq_iff i64_def)
next
  case (pool_push c now tx)
  then obtain q where q: "qcache c = Some q" using cache_okD by blast
  show ?case
    using tc_Push_cases [of env c q tx now] pool_push.IH q by (auto split: if_splits)
next
  case (pool_remove c h c')
  then show ?case using tc_Remove_spec [of env c h] by (auto simp: same_limits_def)
next
  case (pool_expire c cfg now height bt c')
  then show ?case using removeExpiredTx_spec [of env c cfg now height bt] by (auto simp: same_limits_def)
next
  case (pool_delay c d)
  then show ?case by (simp add: cache_ok_def qview_def)
qed

text \<open>
  C32. The pool's indexes agree with its queue in every reachable state: no account has more
  transactions than allowed, and the number and list of an account's transactions are those of the
  queue; the queue holds at most \<^verbatim>\<open>PoolCacheSize\<close> transactions under their own hashes,
  none twice; the latest transactions are the end of the queue; the total fee and the byte count
  are those of the queue; and a short hash finds only a queued transaction with that hash.
\<close>

theorem pool_reach_agree:
  assumes "pool_reach env c"
  shows "\<exists>q. qcache c = Some q \<and> distinct (map fst (qview c)) \<and>
    (\<forall>(h, it)\<in>set (qview c). h = tx_Hash env (ItemValue it)) \<and>
    tc_Size c = length (qview c) \<and> int (tc_Size c) \<le> max 0 (PoolCacheSize (q_subConfig q)) \<and>
    cacheBytes q = i64 (\<Sum>(h, it)\<leftarrow>qview c. SizeTx env (ItemValue it)) \<and>
    totalFee c = i64 (\<Sum>(h, it)\<leftarrow>qview c. Fee (ItemValue it)) \<and>
    (\<forall>addr. int (TxNumOfAccount (AccountIndex c) addr) \<le> maxperaccount (AccountIndex c) \<and>
       GetAccTxs (AccountIndex c) [addr] =
         map (\<lambda>(h, tx). (tx, addr)) (filter (\<lambda>(h, tx). From env tx = addr) (tx_view (qview c)))) \<and>
    suffix (GetLatestTx (LastCache c)) (map snd (tx_view (qview c))) \<and>
    (\<forall>s tx. GetSHashTxCache (SHashCache c) s = Some tx \<longrightarrow>
       tx \<in> snd ` set (tx_view (qview c)) \<and> s = CalcTxShortHash (tx_Hash env tx))"
proof -
  have ok: "cache_ok env c" using pool_reach_ok [OF assms] by simp
  obtain q where q: "qcache c = Some q" "queue_ok env q" "qview c = lm_abs (txList q)"
    and dist: "distinct (map fst (qview c))"
    and keyed: "\<forall>k v. (k, v) \<in> set (tx_view (qview c)) \<longrightarrow> k = tx_Hash env v" by (rule cache_okD [OF ok])
  have size: "tc_Size c = length (qview c)"
    using q by (simp add: tc_Size_def q_Size_def queue_ok_def lm_laws)
  have acc: "acc_ok (AccountIndex c)" "acc_lookup (AccountIndex c) = acc_view env (qview c)"
    using ok by (simp_all add: cache_ok_def)
  have txs: "GetAccTxs (AccountIndex c) [addr] =
      map (\<lambda>(h, tx). (tx, addr)) (filter (\<lambda>(h, tx). From env tx = addr) (tx_view (qview c)))" for addr
    using fun_cong [OF acc(2), of addr]
    by (auto simp: GetAccTxs_def acc_lookup_def acc_view_def lm_Walk_collect comp_def split_def split: option.splits)
  have num: "int (TxNumOfAccount (AccountIndex c) addr) \<le> maxperaccount (AccountIndex c)" for addr
    using ok by (simp add: TxNumOfAccount_lookup [OF acc(1)] acc(2) cache_ok_def)
  have latest: "suffix (GetLatestTx (LastCache c)) (map snd (tx_view (qview c)))"
    using ok lm_Walk_collect [of "last_l (LastCache c)" "\<lambda>v. v"]
    by (auto simp: cache_ok_def GetLatestTx_def suffix_def)
  have short: "tx \<in> snd ` set (tx_view (qview c)) \<and> s = CalcTxShortHash (tx_Hash env tx)"
    if "GetSHashTxCache (SHashCache c) s = Some tx" for s tx
  proof -
    have lm: "lm_ok (shash_l (SHashCache c))" using ok by (simp add: cache_ok_def)
    then have "(s, tx) \<in> set (lm_abs (shash_l (SHashCache c)))"
      using that by (auto simp: GetSHashTxCache_def lmap.get [OF lm] dest: map_of_SomeD split: option.splits sum.splits)
    then obtain h where "(h, tx) \<in> set (tx_view (qview c))" "s = CalcTxShortHash h"
      using ok unfolding cache_ok_def by blast
    then show ?thesis using keyed by force
  qed
  have "int (tc_Size c) \<le> max 0 (PoolCacheSize (q_subConfig q))"
    "cacheBytes q = i64 (\<Sum>(h, it)\<leftarrow>qview c. SizeTx env (ItemValue it))"
    "\<forall>(h, it)\<in>set (qview c). h = tx_Hash env (ItemValue it)"
    using q(2) unfolding size q(3) by (simp_all add: queue_ok_def)
  moreover have "totalFee c = i64 (\<Sum>(h, it)\<leftarrow>qview c. Fee (ItemValue it))" using ok by (simp add: cache_ok_def)
  ultimately show ?thesis using q(1) dist size txs num latest short by blast
qed

definition demo_pool0 :: txCache where
  "demo_pool0 = SetQueueCache (newCache 2 10 8) (NewSimpleQueue \<lparr>PoolCacheSize = 8, ProperFee = 1\<rparr>)"

definition demo_pool :: txCache where
  "demo_pool = snd (tc_Push demo_tx_env 1700000000 demo_pool0 (demo_tx 1))"

lemma demo_pool0_reach: "pool_reach demo_tx_env demo_pool0"
  unfolding demo_pool0_def by (rule pool_init) simp_all

lemma demo_pool_reach: "pool_reach demo_tx_env demo_pool"
  unfolding demo_pool_def by (rule pool_push [OF demo_pool0_reach])

theorem pool_reach_agree_witness:
  "\<exists>q. qcache demo_pool = Some q \<and> distinct (map fst (qview demo_pool)) \<and>
     totalFee demo_pool = i64 (\<Sum>(h, it)\<leftarrow>qview demo_pool. Fee (ItemValue it)) \<and>
     int (TxNumOfAccount (AccountIndex demo_pool) ''addr'') \<le> maxperaccount (AccountIndex demo_pool)"
  using pool_reach_agree [OF demo_pool_reach] by blast

lemma tc_Exist_qview: "cache_ok env c \<Longrightarrow> tc_Exist c h \<longleftrightarrow> h \<in> fst ` set (qview c)"
  by (erule cache_okD) (simp add: tc_Exist_def q_Exist_def queue_ok_def lm_laws)

lemma tc_Size_qview: "cache_ok env c \<Longrightarrow> tc_Size c = length (qview c)"
  by (erule cache_okD) (simp add: tc_Size_def q_Size_def queue_ok_def lm_laws)

lemma TxNum_qview: "cache_ok env c \<Longrightarrow> TxNumOfAccount (AccountIndex c) addr = length (acc_view env (qview c) addr)"
  by (simp add: cache_ok_def TxNumOfAccount_lookup)

lemma cache_ok_totalFee: "cache_ok env c \<Longrightarrow> totalFee c = i64 (\<Sum>(h, it)\<leftarrow>qview c. Fee (ItemValue it))"
  by (simp add: cache_ok_def)

text \<open>
  The answers of \<^verbatim>\<open>Push\<close> in every reachable state: a full account is refused with
  \<open>ErrManyTx\<close>, a queued transaction with \<open>ErrTxExist\<close>, a full pool with \<open>ErrMemFull\<close>, and a
  refusal changes nothing; otherwise the transaction joins the end of the queue, and removing
  it again restores the queue and the total fee.
\<close>

theorem tc_Push_answers:
  assumes "pool_reach env c" "qcache c = Some q" "tc_Push env now c tx = (r, c')"
  shows "r = (if int (TxNumOfAccount (AccountIndex c) (From env tx)) \<ge> maxperaccount (AccountIndex c) then Some ErrManyTx
     else if tc_Exist c (tx_Hash env tx) then Some ErrTxExist
     else if int (tc_Size c) \<ge> PoolCacheSize (q_subConfig q) then Some ErrMemFull else None) \<and>
    (r \<noteq> None \<longrightarrow> c' = c) \<and>
    (r = None \<longrightarrow> qview c' = qview c @ [(tx_Hash env tx, \<lparr>ItemValue = tx, Priority = Fee tx, EnterTime = now\<rparr>)] \<and>
       (\<exists>c''. tc_Remove env c' (tx_Hash env tx) = Some c'' \<and> qview c'' = qview c \<and> totalFee c'' = totalFee c))"
proof -
  have ok: "cache_ok env c" and lim: "1 \<le> maxperaccount (AccountIndex c)" "1 \<le> last_max (LastCache c)"
    using pool_reach_ok [OF assms(1)] by simp_all
  have undo: "\<exists>c''. tc_Remove env c1 (tx_Hash env tx) = Some c'' \<and> qview c'' = qview c \<and> totalFee c'' = totalFee c"
    if "cache_ok env c1" "qview c1 = qview c @ [(tx_Hash env tx, it)]" "tx_Hash env tx \<notin> fst ` set (qview c)" for c1 it
  proof -
    obtain c'' where c'': "tc_Remove env c1 (tx_Hash env tx) = Some c''" "cache_ok env c''"
      "qview c'' = ol_remove (tx_Hash env tx) (qview c1)"
      using tc_Remove_spec [OF \<open>cache_ok env c1\<close>, of "tx_Hash env tx"] by blast
    have "qview c'' = qview c"
      using c''(3) \<open>qview c1 = _\<close> ol_remove_absent [OF \<open>tx_Hash env tx \<notin> _\<close>] by (simp add: ol_remove_def)
    then show ?thesis using c'' cache_ok_totalFee [OF ok] cache_ok_totalFee [OF c''(2)] by simp
  qed
  show ?thesis
    using tc_Push_cases [OF ok lim assms(2), of tx now] assms(3) undo
    by (auto simp: TxNum_qview [OF ok] tc_Exist_qview [OF ok] tc_Size_qview [OF ok] split: if_splits)
qed

theorem tc_Push_answers_witness:
  "\<exists>c''. tc_Remove demo_tx_env demo_pool (tx_Hash demo_tx_env (demo_tx 1)) = Some c'' \<and> qview c'' = qview demo_pool0"
proof -
  have "tc_Push demo_tx_env 1700000000 demo_pool0 (demo_tx 1) = (None, demo_pool)"
    unfolding demo_pool_def by (rule prod_eqI) (simp_all, code_simp)
  then show ?thesis
    using tc_Push_answers [OF demo_pool0_reach, of "NewSimpleQueue \<lparr>PoolCacheSize = 8, ProperFee = 1\<rparr>" 1700000000 "demo_tx 1" None demo_pool]
    by (auto simp: demo_pool0_def SetQueueCache_def)
qed

text \<open>
  Expiry removes exactly the expired: from a reachable cache \<^verbatim>\<open>removeExpiredTx\<close> takes
  the transactions that have been in the pool for ten minutes or whose own lifetime has passed at
  the next block, keeps the others in order, and does not panic.
\<close>

theorem removeExpiredTx_exact:
  assumes "pool_reach env c"
  shows "\<exists>c'. removeExpiredTx env cfg now c height bt = Some c' \<and>
    qview c' = filter (\<lambda>(h, it). \<not> (600 \<le> i64 (now - EnterTime it) \<or> IsExpire env cfg height bt (ItemValue it))) (qview c)"
  using removeExpiredTx_spec [of env c cfg now height bt] pool_reach_ok [OF assms]
  by (auto simp: isExpired_def mempoolExpiredInterval_def intro!: filter_cong)

theorem removeExpiredTx_exact_witness:
  "\<exists>c'. removeExpiredTx demo_tx_env demo_cfg 1700000600 demo_pool 5 0 = Some c' \<and> qview c' = []"
proof -
  have "filter (\<lambda>(h, it). \<not> (600 \<le> i64 (1700000600 - EnterTime it) \<or> IsExpire demo_tx_env demo_cfg 5 0 (ItemValue it)))
    (qview demo_pool) = []" by code_simp
  then show ?thesis using removeExpiredTx_exact [OF demo_pool_reach, of demo_cfg 1700000600 5 0] by auto
qed

end
