(* ===== verification/Mempool_Events.thy ===== *)
theory Mempool_Events
  imports Mempool_Theorems
begin

text \<open>
  What the events of the pool promise: which transactions are let in, what a new block takes
  out, and when a delayed transaction is released.
\<close>

section \<open>The caching wrapper\<close>

definition tcache_ok :: "tx_env \<Rightarrow> transaction \<Rightarrow> TransactionCache \<Rightarrow> bool" where
  "tcache_ok env tx c \<longleftrightarrow> cached_tx c = tx \<and> (txGroup c = None \<or> GetTxGroup env tx = Inr (txGroup c))"

lemma tcache_ok_New [simp]: "tcache_ok env tx (NewTransactionCache tx)"
  by (simp add: tcache_ok_def NewTransactionCache_def)

lemma cache_GetTxGroup_ok:
  assumes "tcache_ok env tx c" "cache_GetTxGroup env c = (r, c')"
  shows "r = GetTxGroup env tx \<and> tcache_ok env tx c' \<and> signok c' = signok c \<and> checked c' = checked c"
  using assms by (auto simp: tcache_ok_def cache_GetTxGroup_def split: option.splits sum.splits)

lemma cache_Check_fresh:
  assumes "cache_Check env cfg height minfee maxFee (NewTransactionCache tx) = (r, c')"
  shows "r = tx_Check env cfg height minfee maxFee tx \<and> tcache_ok env tx c' \<and>
    checked c' \<and> checkok c' = r"
proof -
  obtain g c1 where g: "cache_GetTxGroup env ((NewTransactionCache tx)\<lparr>checked := True\<rparr>) = (g, c1)" by fastforce
  have "tcache_ok env tx ((NewTransactionCache tx)\<lparr>checked := True\<rparr>)"
    by (simp add: tcache_ok_def NewTransactionCache_def)
  note c1 = cache_GetTxGroup_ok [OF this g]
  have "checked (NewTransactionCache tx) = False" by (simp add: NewTransactionCache_def)
  with assms g c1 show ?thesis
    by (auto simp: cache_Check_def tx_Check_def tcache_ok_def Let_def split: sum.splits option.splits)
qed

text \<open>
  The cached check is the check: the first \<^verbatim>\<open>TransactionCache.Check\<close> answers what
  \<^verbatim>\<open>Transaction.Check\<close> answers, and every later one repeats that answer, even for another
  height, fee rate, maximum or configuration.
\<close>

theorem cache_Check_once:
  assumes "cache_Check env cfg height minfee maxFee (NewTransactionCache tx) = (r, c)"
  shows "r = tx_Check env cfg height minfee maxFee tx \<and> cache_Check env' cfg' height' minfee' maxFee' c = (r, c)"
  using cache_Check_fresh [OF assms] by (simp add: cache_Check_def)

theorem cache_Check_once_witness:
  "\<exists>c. cache_Check demo_tx_env demo_cfg 5 10 1000 (NewTransactionCache (demo_tx 1)) = (Some ErrTxFeeTooLow, c) \<and>
     cache_Check demo_tx_env demo_cfg 5 0 1000 c = (Some ErrTxFeeTooLow, c)"
proof -
  obtain r c where rc: "cache_Check demo_tx_env demo_cfg 5 10 1000 (NewTransactionCache (demo_tx 1)) = (r, c)"
    by fastforce
  have "tx_Check demo_tx_env demo_cfg 5 10 1000 (demo_tx 1) = Some ErrTxFeeTooLow" by code_simp
  then show ?thesis using cache_Check_once [OF rc, of demo_tx_env demo_cfg 5 0 1000] rc by auto
qed

lemma cache_GetTotalFee_ok:
  assumes "tcache_ok env tx c" "cache_GetTotalFee env m c = (r, c')" shows "tcache_ok env tx c'"
proof -
  obtain g c1 where g: "cache_GetTxGroup env c = (g, c1)" by fastforce
  from cache_GetTxGroup_ok [OF assms(1) g] assms(2) g show ?thesis
    by (auto simp: cache_GetTotalFee_def tcache_ok_def split: sum.splits option.splits)
qed

definition members :: "tx_env \<Rightarrow> transaction \<Rightarrow> transaction list" where
  "members env tx = (case GetTxGroup env tx of Inr (Some txs) \<Rightarrow> txs | _ \<Rightarrow> [tx])"

lemma cache_CheckSign_fresh:
  "fst (cache_CheckSign env height (NewTransactionCache tx)) \<longleftrightarrow>
   (\<exists>g. GetTxGroup env tx = Inr g) \<and> (\<forall>t\<in>set (members env tx). checkSign env t height)"
proof -
  obtain g c1 where g: "cache_GetTxGroup env ((NewTransactionCache tx)\<lparr>signok := 2\<rparr>) = (g, c1)" by fastforce
  have "tcache_ok env tx ((NewTransactionCache tx)\<lparr>signok := 2\<rparr>)"
    by (simp add: tcache_ok_def NewTransactionCache_def)
  note c1 = cache_GetTxGroup_ok [OF this g]
  have "signok (NewTransactionCache tx) = 0" by (simp add: NewTransactionCache_def)
  with g c1 show ?thesis
    by (auto simp: cache_CheckSign_def members_def tcache_ok_def group_CheckSign_def Let_def split: sum.splits option.splits)
qed

section \<open>Admission\<close>

lemma checkTxs_None:
  assumes "checkTxs env now mem (Some tx) = None" "\<not> IsForward2MainChainTx env tx"
  shows "tx_Check (txe env) (mem_omni env) (i64 (header_height mem + 1)) (MinTxFeeRate (mem_cfg mem))
      (GetMaxTxFee env (i64 (header_height mem + 1))) tx = None \<and>
    (\<forall>t\<in>set (members (txe env) tx). checkTx env now mem t = None)"
proof -
  let ?h = "i64 (header_height mem + 1)"
  obtain r c1 where r: "cache_Check (txe env) (mem_omni env) ?h (MinTxFeeRate (mem_cfg mem)) (GetMaxTxFee env ?h)
      (NewTransactionCache tx) = (r, c1)" by fastforce
  note c1 = cache_Check_fresh [OF r]
  define res where "res = (if r = None \<and> IsLevelFee (mem_cfg mem) then checkLevelFee env mem c1 else (r, c1))"
  obtain e c2 where e: "res = (e, c2)" by fastforce
  have c2: "tcache_ok (txe env) tx c2" "e = None \<Longrightarrow> r = None"
    using e c1 by (auto simp: res_def checkLevelFee_def split: if_splits option.splits prod.splits sum.splits
        intro: cache_GetTotalFee_ok)
  obtain g c3 where g: "cache_GetTxGroup (txe env) c2 = (g, c3)" by fastforce
  have gg: "g = GetTxGroup (txe env) tx" using cache_GetTxGroup_ok [OF c2(1) g] by simp
  have ans: "checkTxs env now mem (Some tx) =
      (case e of Some e \<Rightarrow> Some e
       | None \<Rightarrow> (case g of Inl e \<Rightarrow> Some e | Inr None \<Rightarrow> checkTx env now mem tx
                  | Inr (Some txs) \<Rightarrow> first_error (checkTx env now mem) txs))"
    using assms(2) r e [unfolded res_def] g by (cases e) (simp_all add: checkTxs_def Let_def)
  then have "e = None" using assms(1) by (auto split: option.splits)
  then show ?thesis
    using ans assms(1) c1 c2(2) gg by (auto simp: members_def eq_commute [of None "first_error f xs" for f xs] split: sum.splits option.splits)
qed

lemma PushTx_None:
  assumes "pool_reach (txe env) (mem_cache mem)" "PushTx env now mem tx = (None, mem')"
  shows "pool_reach (txe env) (mem_cache mem') \<and> mem' = mem\<lparr>mem_cache := mem_cache mem'\<rparr> \<and>
    tc_Exist (mem_cache mem') (tx_Hash (txe env) tx) \<and>
    qview (mem_cache mem') = qview (mem_cache mem) @
      [(tx_Hash (txe env) tx, \<lparr>ItemValue = tx, Priority = Fee tx, EnterTime = now\<rparr>)]"
proof -
  obtain r c' where p: "tc_Push (txe env) now (mem_cache mem) tx = (r, c')" by fastforce
  have mem': "r = None" "mem' = mem\<lparr>mem_cache := c'\<rparr>" using assms(2) p by (simp_all add: PushTx_def)
  have reach: "pool_reach (txe env) c'" using pool_push [OF assms(1), of now tx] p by simp
  note ok = pool_reach_ok [OF assms(1)]
  obtain q where q: "qcache (mem_cache mem) = Some q" using ok cache_okD by blast
  have "qview c' = qview (mem_cache mem) @ [(tx_Hash (txe env) tx, \<lparr>ItemValue = tx, Priority = Fee tx, EnterTime = now\<rparr>)]"
    using tc_Push_cases [of "txe env" "mem_cache mem" q tx now] ok q p mem'(1) by (auto split: if_splits)
  then show ?thesis using reach mem' tc_Exist_qview [of "txe env" c'] pool_reach_ok [OF reach] by auto
qed

lemma PushTx_error:
  assumes "pool_reach (txe env) (mem_cache mem)" "PushTx env now mem tx = (Some e, mem')"
  shows "mem' = mem"
proof -
  obtain r c' where p: "tc_Push (txe env) now (mem_cache mem) tx = (r, c')" by fastforce
  note ok = pool_reach_ok [OF assms(1)]
  obtain q where q: "qcache (mem_cache mem) = Some q" using ok cache_okD by blast
  have "c' = mem_cache mem"
    using tc_Push_cases [of "txe env" "mem_cache mem" q tx now] ok q p assms(2) by (auto simp: PushTx_def split: if_splits)
  then show ?thesis using assms(2) p by (simp add: PushTx_def)
qed

lemma GetAccTxs_view:
  assumes "pool_reach env c"
  shows "map fst (GetAccTxs (AccountIndex c) [addr]) = map snd (acc_view env (qview c) addr)"
proof -
  have ok: "acc_lookup (AccountIndex c) = acc_view env (qview c)"
    using pool_reach_ok [OF assms] by (simp add: cache_ok_def)
  show ?thesis using fun_cong [OF ok, of addr]
    by (auto simp: GetAccTxs_def acc_lookup_def lm_Walk_collect comp_def split: option.splits)
qed

lemma evmTxNonceCheck_None:
  assumes "pool_reach (txe env) (mem_cache mem)" "evmTxNonceCheck env mem tx = None"
    and "IsEthSignID (defaultAddressID (txe env)) (sign_ty tx)"
  shows "getCurrentNonce env (From (txe env) tx) \<le> Nonce tx \<and>
    (\<forall>(h, it)\<in>set (qview (mem_cache mem)). From (txe env) (ItemValue it) = From (txe env) tx \<longrightarrow>
       Nonce (ItemValue it) = Nonce tx \<longrightarrow> h = tx_Hash (txe env) tx)"
proof -
  let ?Q = "qview (mem_cache mem)"
  define old where "old = map snd (acc_view (txe env) ?Q (From (txe env) tx))"
  have acc: "map fst (GetAccTxs (AccountIndex (mem_cache mem)) [From (txe env) tx]) = old"
    using GetAccTxs_view [OF assms(1)] by (simp add: old_def)
  have clash: "Nonce t \<noteq> Nonce tx \<or> tx_Hash (txe env) t = tx_Hash (txe env) tx" if "t \<in> set old" for t
  proof -
    from that have "length (old @ [tx]) > 1" by (cases old) auto
    then have "first_error (\<lambda>stx. if tx_Hash (txe env) stx = tx_Hash (txe env) tx then None
        else if Nonce stx = Nonce tx then Some ErrDisableAcceleration else None) (sort_key Nonce (old @ [tx])) = None"
      using assms(2,3) acc by (auto simp: evmTxNonceCheck_def Let_def split: if_splits)
    then show ?thesis using that by (auto split: if_splits)
  qed
  obtain q where hash: "\<forall>k v. (k, v) \<in> set (tx_view ?Q) \<longrightarrow> k = tx_Hash (txe env) v"
    using pool_reach_ok [OF assms(1)] cache_okD by blast
  have "h = tx_Hash (txe env) tx"
    if "(h, it) \<in> set ?Q" "From (txe env) (ItemValue it) = From (txe env) tx" "Nonce (ItemValue it) = Nonce tx" for h it
  proof -
    have v: "(h, ItemValue it) \<in> set (tx_view ?Q)" using that(1) by (force simp: tx_view_def)
    then have "ItemValue it \<in> set old" using that(2) by (force simp: old_def acc_view_def)
    then show ?thesis using clash that(3) hash v by metis
  qed
  then show ?thesis using assms(2,3) by (auto simp: evmTxNonceCheck_def split: if_splits)
qed


definition demo_mem_env :: mem_env where
  "demo_mem_env = \<lparr>txe = demo_tx_env, mem_omni = demo_cfg, CheckAddress = (\<lambda>a h. True),
     IsForward2MainChainTx = (\<lambda>tx. False), getCurrentNonce = (\<lambda>a. 0), CheckDupTx = (\<lambda>txs h. Inr txs),
     checkTxListRemote = (\<lambda>tx h. None), ActionName = (\<lambda>tx. ''transfer''), GetMaxTxFee = (\<lambda>h. 1000),
     MaxTxNumber = (\<lambda>h. 100), sender_order = (\<lambda>l. l), delay_action = (\<lambda>tx. None)\<rparr>"

definition demo_mempool :: Mempool where
  "demo_mempool = \<lparr>mem_header = Some (empty_header\<lparr>hHeight := 4\<rparr>),
     mem_cfg = \<lparr>MaxTxNumPerAccount = 2, MinTxFeeRate = 7, MaxTxFeeRate = 100, IsLevelFee = False,
       EvmNonceCheck = False, DisableExecCheck = False\<rparr>,
     mem_cache = demo_pool0, currHeight = 4\<rparr>"

definition demo_signed :: transaction where
  "demo_signed = (demo_tx 9)\<lparr>TxSignature := Some \<lparr>Ty = 1, Pubkey = [1], SigBytes = [2]\<rparr>\<rparr>"

lemma demo_mempool_reach: "pool_reach (txe demo_mem_env) (mem_cache demo_mempool)"
  using demo_pool0_reach by (simp add: demo_mem_env_def demo_mempool_def)


section \<open>A new block\<close>

lemma removeTxs_spec:
  "pool_reach (txe env) (mem_cache mem) \<Longrightarrow>
   \<exists>c'. removeTxs env mem hs = Some (mem\<lparr>mem_cache := c'\<rparr>) \<and> pool_reach (txe env) c' \<and>
     qview c' = filter (\<lambda>(h, it). h \<notin> set hs) (qview (mem_cache mem))"
proof (induction hs arbitrary: mem)
  case (Cons h hs)
  have ok: "cache_ok (txe env) (mem_cache mem)" using pool_reach_ok [OF Cons.prems] by simp
  obtain c1 where c1: "tc_Remove (txe env) (mem_cache mem) h = Some c1" "qview c1 = ol_remove h (qview (mem_cache mem))"
    using tc_Remove_spec [OF ok] by blast
  define c2 where "c2 = (if tc_Exist (mem_cache mem) h then c1 else mem_cache mem)"
  have c2: "pool_reach (txe env) c2" "qview c2 = ol_remove h (qview (mem_cache mem))"
    using pool_remove [OF Cons.prems c1(1)] Cons.prems c1(2) ol_remove_absent [of h "qview (mem_cache mem)"]
    by (auto simp: c2_def tc_Exist_qview [OF ok])
  have step: "removeTxs env mem (h # hs) = removeTxs env (mem\<lparr>mem_cache := c2\<rparr>) hs"
    using c1(1) by (simp add: c2_def)
  have "pool_reach (txe env) (mem_cache (mem\<lparr>mem_cache := c2\<rparr>))" using c2(1) by simp
  from Cons.IH [OF this] obtain c' where
    c': "removeTxs env (mem\<lparr>mem_cache := c2\<rparr>) hs = Some (mem\<lparr>mem_cache := c'\<rparr>)" "pool_reach (txe env) c'"
      "qview c' = filter (\<lambda>(h, it). h \<notin> set hs) (qview c2)" by auto
  have "qview c' = filter (\<lambda>(k, it). k \<notin> set (h # hs)) (qview (mem_cache mem))"
    unfolding c'(3) c2(2) ol_remove_def filter_filter by (rule filter_cong) auto
  then show ?case using step c' by auto
next
  case Nil
  then show ?case by (intro exI [of _ "mem_cache mem"]) (simp add: case_prod_beta)
qed

lemma removeExpired_spec:
  assumes "pool_reach (txe env) (mem_cache mem)"
  shows "\<exists>c'. removeExpired env now mem = Some (mem\<lparr>mem_cache := c'\<rparr>) \<and> pool_reach (txe env) c' \<and>
    qview c' = filter (\<lambda>(h, it). \<not> isExpired (txe env) (mem_omni env) now it (i64 (header_height mem + 1)) (header_time mem))
      (qview (mem_cache mem))"
proof -
  have ok: "cache_ok (txe env) (mem_cache mem)" using pool_reach_ok [OF assms] by simp
  obtain c' where c': "removeExpiredTx (txe env) (mem_omni env) now (mem_cache mem) (i64 (header_height mem + 1)) (header_time mem) = Some c'"
    "qview c' = filter (\<lambda>(h, it). \<not> isExpired (txe env) (mem_omni env) now it (i64 (header_height mem + 1)) (header_time mem))
      (qview (mem_cache mem))"
    using removeExpiredTx_spec [OF ok] by blast
  then show ?thesis using pool_expire [OF assms c'(1)] by (intro exI [of _ c']) (simp add: removeExpired_def)
qed

text \<open>
  A new block cleans the pool: \<^verbatim>\<open>eventAddBlock\<close> on a reachable pool never panics, moves the
  header forward, and leaves exactly the queued transactions that are not in the block and not
  expired for the block after it, in their order, in a pool that is again reachable.
\<close>

theorem eventAddBlock_cleans:
  assumes reach: "pool_reach (txe env) (mem_cache mem)"
  shows "\<exists>l mem'. eventAddBlock env now mem b = Some (l, mem') \<and> pool_reach (txe env) (mem_cache mem') \<and>
    header_height mem' = (if Height b > mem_Height mem \<or> (Height b = 0 \<and> mem_Height mem = 0)
                          then Height b else header_height mem) \<and>
    qview (mem_cache mem') =
      filter (\<lambda>(h, it). h \<notin> tx_Hash (txe env) ` set (Txs b) \<and>
                \<not> isExpired (txe env) (mem_omni env) now it (i64 (header_height mem' + 1)) (header_time mem'))
        (qview (mem_cache mem))"
proof -
  define mem1 where "mem1 = (if Height b > mem_Height mem \<or> (Height b = 0 \<and> mem_Height mem = 0)
    then setHeader mem (empty_header\<lparr>hBlockTime := BlockTime b, hHeight := Height b, hStateHash := StateHash b\<rparr>) else mem)"
  have mem1: "mem_cache mem1 = mem_cache mem" by (simp add: mem1_def setHeader_def)
  let ?keep = "\<lambda>(h, it). h \<notin> tx_Hash (txe env) ` set (Txs b) \<and>
    \<not> isExpired (txe env) (mem_omni env) now it (i64 (header_height mem1 + 1)) (header_time mem1)"
  define cleaned where "cleaned = (if tc_Size (mem_cache mem1) > 0 then
      (case RemoveTxsOfBlock env mem1 b of None \<Rightarrow> None | Some mem2 \<Rightarrow> removeExpired env now mem2)
    else Some mem1)"
  have "\<exists>c3. cleaned = Some (mem1\<lparr>mem_cache := c3\<rparr>) \<and> pool_reach (txe env) c3 \<and> qview c3 = filter ?keep (qview (mem_cache mem))"
  proof (cases "tc_Size (mem_cache mem1) > 0")
    case True
    obtain c2 where c2: "RemoveTxsOfBlock env mem1 b = Some (mem1\<lparr>mem_cache := c2\<rparr>)" "pool_reach (txe env) c2"
      "qview c2 = filter (\<lambda>(h, it). h \<notin> set (map (tx_Hash (txe env)) (Txs b))) (qview (mem_cache mem))"
      using removeTxs_spec [of env mem1 "map (tx_Hash (txe env)) (Txs b)"] reach
      unfolding RemoveTxsOfBlock_def mem1 by blast
    have "pool_reach (txe env) (mem_cache (mem1\<lparr>mem_cache := c2\<rparr>))" using c2(2) by simp
    from removeExpired_spec [OF this, of now] obtain c3 where
      c3: "removeExpired env now (mem1\<lparr>mem_cache := c2\<rparr>) = Some (mem1\<lparr>mem_cache := c3\<rparr>)" "pool_reach (txe env) c3"
        "qview c3 = filter (\<lambda>(h, it). \<not> isExpired (txe env) (mem_omni env) now it (i64 (header_height mem1 + 1)) (header_time mem1)) (qview c2)"
      by (auto simp: header_height_def header_time_def)
    have "qview c3 = filter ?keep (qview (mem_cache mem))"
      unfolding c3(3) c2(3) filter_filter by (rule filter_cong) auto
    then show ?thesis using True c2(1) c3(1,2) by (auto simp: cleaned_def)
  next
    case False
    then have "qview (mem_cache mem) = []"
      using tc_Size_qview [of "txe env" "mem_cache mem"] pool_reach_ok [OF reach] by (simp add: mem1)
    then show ?thesis using False reach mem1 by (auto simp: cleaned_def intro!: exI [of _ "mem_cache mem"])
  qed
  then obtain c3 where c3: "cleaned = Some (mem1\<lparr>mem_cache := c3\<rparr>)" "pool_reach (txe env) c3"
    "qview c3 = filter ?keep (qview (mem_cache mem))" by blast
  obtain l d2 where d2: "delExpiredTxs (txe env) (mem_addDelayTx env (delayCache c3) b) (header_time mem) (BlockTime b) (Height b) = (l, d2)"
    by fastforce
  define mem' where "mem' = mem1\<lparr>mem_cache := c3\<lparr>delayCache := d2\<rparr>\<rparr>"
  have ev: "eventAddBlock env now mem b = Some (l, mem')"
  proof -
    have "eventAddBlock env now mem b = (case cleaned of
           None \<Rightarrow> None
         | Some mem3 \<Rightarrow>
             let d1 = mem_addDelayTx env (delayCache (mem_cache mem3)) b;
                 (delayTxList, d2) = delExpiredTxs (txe env) d1 (header_time mem) (BlockTime b) (Height b)
             in Some (delayTxList, mem3\<lparr>mem_cache := (mem_cache mem3)\<lparr>delayCache := d2\<rparr>\<rparr>))"
      unfolding eventAddBlock_def Let_def mem1_def cleaned_def ..
    then show ?thesis using c3(1) d2 by (simp add: mem'_def)
  qed
  have hd: "header_height mem' = header_height mem1" "header_time mem' = header_time mem1"
    by (simp_all add: mem'_def header_height_def header_time_def)
  have "header_height mem1 = (if Height b > mem_Height mem \<or> (Height b = 0 \<and> mem_Height mem = 0)
      then Height b else header_height mem)"
    by (simp add: mem1_def setHeader_def header_height_def)
  moreover have "qview (mem_cache mem') = filter ?keep (qview (mem_cache mem))"
    using c3(3) by (simp add: mem'_def qview_def)
  moreover have "pool_reach (txe env) (mem_cache mem')" using pool_delay [OF c3(2)] by (simp add: mem'_def)
  ultimately show ?thesis using ev hd by auto
qed

theorem eventAddBlock_cleans_witness:
  "\<exists>l mem'. eventAddBlock demo_mem_env 1700000001 (demo_mempool\<lparr>mem_cache := demo_pool\<rparr>)
     \<lparr>Version = 0, ParentHash = [], TxHash = [], StateHash = [], Height = 5, BlockTime = 0,
      Difficulty = 0, MainHash = [], MainHeight = 0, Signature = None, Txs = [demo_tx 1]\<rparr> = Some (l, mem') \<and>
     header_height mem' = 5 \<and> qview (mem_cache mem') = []"
proof -
  let ?b = "\<lparr>Version = 0, ParentHash = [], TxHash = [], StateHash = [], Height = 5, BlockTime = 0,
      Difficulty = 0, MainHash = [], MainHeight = 0, Signature = None, Txs = [demo_tx 1]\<rparr>"
  let ?mem = "demo_mempool\<lparr>mem_cache := demo_pool\<rparr>"
  have reach: "pool_reach (txe demo_mem_env) (mem_cache ?mem)" using demo_pool_reach by (simp add: demo_mem_env_def)
  have "map fst (qview demo_pool) = [tx_Hash demo_tx_env (demo_tx 1)]" by code_simp
  then obtain it where Q: "qview (mem_cache ?mem) = [(tx_Hash demo_tx_env (demo_tx 1), it)]" by auto
  have t: "txe demo_mem_env = demo_tx_env" by (simp add: demo_mem_env_def)
  have h: "mem_Height ?mem = 4" by (simp add: mem_Height_def demo_mempool_def)
  show ?thesis
    using eventAddBlock_cleans [OF reach, of 1700000001 ?b] unfolding Q t h by auto
qed

section \<open>Delayed transactions\<close>

definition pending :: "(int \<times> transaction list) list \<Rightarrow> (int \<times> transaction) list" where
  "pending m = concat (map (\<lambda>(t, l). map (Pair t) l) m)"

definition delay_ok :: "tx_env \<Rightarrow> delayTxCache \<Rightarrow> bool" where
  "delay_ok env c \<longleftrightarrow>
     distinct (map fst (delay_txs c)) \<and> distinct (map fst (delay_hashes c)) \<and>
     distinct (map (\<lambda>(t, tx). tx_Hash env tx) (pending (delay_txs c))) \<and>
     (\<forall>h t. (h, t) \<in> set (delay_hashes c) \<longleftrightarrow> (\<exists>tx. (t, tx) \<in> set (pending (delay_txs c)) \<and> h = tx_Hash env tx))"

lemma pending_simps [simp]:
  "pending [] = []" "pending ((t, l) # m) = map (Pair t) l @ pending m"
  by (simp_all add: pending_def)

lemma pending_filter: "pending (filter (\<lambda>(t, _). P t) m) = filter (\<lambda>(t, _). P t) (pending m)"
  by (induction m) (auto simp: filter_map comp_def)

lemma mset_pending_update:
  "distinct (map fst m) \<Longrightarrow>
   mset (pending (AList.update t ((case map_of m t of None \<Rightarrow> [] | Some l \<Rightarrow> l) @ [tx]) m)) =
   mset (pending m) + {#(t, tx)#}"
proof (induction m)
  case (Cons x m)
  obtain t' l where x: "x = (t', l)" by fastforce
  have "map_of m t' = None" using Cons.prems x by (simp add: map_of_eq_None_iff)
  then show ?case using Cons x by (auto simp: add_ac)
qed simp

lemma map_of_split_slot:
  "distinct (map fst m) \<Longrightarrow> map_of m t = Some l \<Longrightarrow>
   mset (pending m) = mset (map (Pair t) l) + mset (pending (AList.delete t m))"
proof (induction m)
  case (Cons x m)
  obtain t' l' where x: "x = (t', l')" by fastforce
  show ?case
  proof (cases "t' = t")
    case True
    then have "t \<notin> fst ` set m" using Cons.prems(1) x by simp
    then show ?thesis using True Cons.prems(2) x by simp
  next
    case False
    then show ?thesis using Cons x by (simp add: add_ac)
  qed
qed simp

lemma take_slot_None: "map_of m t = None \<Longrightarrow> take_slot t (m, d) = (m, d)"
  unfolding take_slot_def by simp

lemma take_slot_Some: "map_of m t = Some l \<Longrightarrow> take_slot t (m, d) = (AList.delete t m, d @ l)"
  unfolding take_slot_def by simp

lemma take_slot_fold:
  "distinct (map fst m) \<Longrightarrow> fold take_slot ts (m, d) = (m', d') \<Longrightarrow>
   m' = filter (\<lambda>(t, _). t \<notin> set ts) m \<and>
   mset d' = mset d + image_mset snd (filter_mset (\<lambda>(t, _). t \<in> set ts) (mset (pending m)))"
proof (induction ts arbitrary: m d)
  case (Cons t ts)
  show ?case
  proof (cases "map_of m t")
    case None
    then have t: "t \<notin> fst ` set m" by (simp add: map_of_eq_None_iff)
    have "fold take_slot ts (m, d) = (m', d')" using Cons.prems(2) take_slot_None [OF None] by simp
    then have IH: "m' = filter (\<lambda>(t, _). t \<notin> set ts) m"
      "mset d' = mset d + image_mset snd (filter_mset (\<lambda>(t, _). t \<in> set ts) (mset (pending m)))"
      using Cons.IH [OF Cons.prems(1)] by blast+
    have "t' \<noteq> t" if "(t', tx) \<in> set (pending m)" for t' tx
      using that t by (force simp: pending_def)
    then have "filter_mset (\<lambda>(t', _). t' \<in> set (t # ts)) (mset (pending m)) = filter_mset (\<lambda>(t', _). t' \<in> set ts) (mset (pending m))"
      by (intro filter_mset_cong) auto
    moreover have "filter (\<lambda>(t', _). t' \<notin> set ts) m = filter (\<lambda>(t', _). t' \<notin> set (t # ts)) m"
      using t by (intro filter_cong) force+
    ultimately show ?thesis using IH by simp
  next
    case (Some l)
    let ?m = "AList.delete t m"
    have "fold take_slot ts (?m, d @ l) = (m', d')" using Cons.prems(2) take_slot_Some [OF Some] by simp
    moreover have "distinct (map fst ?m)" using Cons.prems(1) by (rule AList.distinct_delete)
    ultimately have IH: "m' = filter (\<lambda>(t, _). t \<notin> set ts) ?m"
      "mset d' = mset (d @ l) + image_mset snd (filter_mset (\<lambda>(t, _). t \<in> set ts) (mset (pending ?m)))"
      using Cons.IH by blast+
    have "filter (\<lambda>(t', _). t' \<notin> set ts) ?m = filter (\<lambda>(t', _). t' \<notin> set (t # ts)) m"
      unfolding AList.delete_eq filter_filter by (rule filter_cong) auto
    moreover have "t' \<noteq> t" if "(t', tx) \<in> set (pending ?m)" for t' tx
      using that by (auto simp: pending_def AList.delete_eq)
    then have "filter_mset (\<lambda>(t', _). t' \<in> set (t # ts)) (mset (pending ?m)) = filter_mset (\<lambda>(t', _). t' \<in> set ts) (mset (pending ?m))"
      by (intro filter_mset_cong) auto
    moreover have "image_mset snd (filter_mset (\<lambda>(t', _). t' \<in> set (t # ts)) (mset (map (Pair t) l))) = mset l"
      by (induction l) auto
    ultimately show ?thesis
      using IH map_of_split_slot [OF Cons.prems(1) Some] by (simp add: add_ac)
  qed
qed (simp add: case_prod_beta)

lemma fold_delete_hashes:
  "fold (\<lambda>tx. AList.delete (tx_Hash env tx)) l m = filter (\<lambda>(h, _). h \<notin> tx_Hash env ` set l) m"
proof (induction l arbitrary: m)
  case (Cons tx l)
  have "filter (\<lambda>(h, _). h \<notin> tx_Hash env ` set l) (AList.delete (tx_Hash env tx) m) =
      filter (\<lambda>(h, _). h \<notin> tx_Hash env ` set (tx # l)) m"
    unfolding AList.delete_eq filter_filter by (rule filter_cong) auto
  then show ?case using Cons by simp
qed (simp add: case_prod_beta)

lemma delay_ok_hash_unique:
  assumes "delay_ok env c" "(t, tx) \<in> set (pending (delay_txs c))" "(t', tx') \<in> set (pending (delay_txs c))"
    and "tx_Hash env tx = tx_Hash env tx'"
  shows "t = t' \<and> tx = tx'"
proof -
  have "inj_on (\<lambda>(t, tx). tx_Hash env tx) (set (pending (delay_txs c)))"
    using assms(1) by (simp add: delay_ok_def distinct_map)
  from inj_onD [OF this _ assms(2,3)] assms(4) show ?thesis by simp
qed

lemma delay_contains_pending:
  assumes "delay_ok env c"
  shows "delay_contains c h = (t, True) \<longleftrightarrow> (\<exists>tx. (t, tx) \<in> set (pending (delay_txs c)) \<and> h = tx_Hash env tx)"
proof -
  have "distinct (map fst (delay_hashes c))" using assms by (simp add: delay_ok_def)
  then have "map_of (delay_hashes c) h = Some t \<longleftrightarrow> (h, t) \<in> set (delay_hashes c)"
    by (rule map_of_eq_Some_iff)
  moreover have "delay_contains c h = (t, True) \<longleftrightarrow> map_of (delay_hashes c) h = Some t"
    by (simp add: delay_contains_def split: option.splits)
  ultimately show ?thesis using assms by (simp add: delay_ok_def)
qed

lemma addDelayTx_ok:
  assumes "delay_ok env c" shows "delay_ok env (snd (addDelayTx env c dtx t))"
proof -
  consider "snd (addDelayTx env c dtx t) = c" | tx where "dtx = Some tx" "map_of (delay_hashes c) (tx_Hash env tx) = None"
    "snd (addDelayTx env c dtx t) = c\<lparr>delay_hashes := AList.update (tx_Hash env tx) t (delay_hashes c),
       delay_txs := AList.update t ((case map_of (delay_txs c) t of None \<Rightarrow> [] | Some l \<Rightarrow> l) @ [tx]) (delay_txs c)\<rparr>"
    by (cases dtx; cases "map_of (delay_hashes c) (tx_Hash env (the dtx))";
        cases "delay_size c \<le> int (length (delay_hashes c))")
      (auto simp: addDelayTx_def Let_def)
  then show ?thesis
  proof cases
    case 1
    then show ?thesis using assms by simp
  next
    case (2 tx)
    let ?h = "tx_Hash env tx" and ?c = "snd (addDelayTx env c dtx t)"
    have new: "?h \<notin> fst ` set (delay_hashes c)" using 2(2) by (simp add: map_of_eq_None_iff)
    have P: "mset (pending (delay_txs ?c)) = mset (pending (delay_txs c)) + {#(t, tx)#}"
      using assms mset_pending_update [of "delay_txs c" t tx] 2(3) by (simp add: delay_ok_def)
    then have S: "set (pending (delay_txs ?c)) = insert (t, tx) (set (pending (delay_txs c)))"
      by (metis Un_insert_right add_mset_add_single set_mset_add_mset_insert set_mset_mset sup_bot.right_neutral)
    have fresh: "?h \<notin> (\<lambda>(t, tx). tx_Hash env tx) ` set (pending (delay_txs c))"
    proof
      assume "?h \<in> (\<lambda>(t, tx). tx_Hash env tx) ` set (pending (delay_txs c))"
      then obtain t' tx' where "(t', tx') \<in> set (pending (delay_txs c))" "?h = tx_Hash env tx'" by auto
      then have "(?h, t') \<in> set (delay_hashes c)" using assms unfolding delay_ok_def by blast
      then show False using new by force
    qed
    have "mset (map (\<lambda>(t, tx). tx_Hash env tx) (pending (delay_txs ?c))) =
        mset (?h # map (\<lambda>(t, tx). tx_Hash env tx) (pending (delay_txs c)))"
      unfolding mset_map P by simp
    moreover have "distinct (?h # map (\<lambda>(t, tx). tx_Hash env tx) (pending (delay_txs c)))"
      using assms fresh by (simp add: delay_ok_def)
    ultimately have "distinct (map (\<lambda>(t, tx). tx_Hash env tx) (pending (delay_txs ?c)))"
      using mset_eq_imp_distinct_iff by blast
    moreover have "delay_hashes ?c = delay_hashes c @ [(?h, t)]" using 2(3) AList_update_new [OF new] by simp
    moreover have "distinct (map fst (delay_txs ?c))"
      using AList.distinct_update [of "delay_txs c" t] assms by (simp add: 2(3) delay_ok_def)
    ultimately show ?thesis
      using assms new S unfolding delay_ok_def by auto
  qed
qed

lemma delExpiredTxs_spec:
  assumes ok: "delay_ok env c" and del: "delExpiredTxs env c t0 t1 height = (l, c')"
  shows "delay_ok env c' \<and> distinct l \<and>
    set l = {tx. \<exists>t. (t, tx) \<in> set (pending (delay_txs c)) \<and> (t0 < t \<and> t \<le> t1 \<or> t = height)} \<and>
    (\<forall>t tx. (t, tx) \<in> set (pending (delay_txs c')) \<longleftrightarrow>
       (t, tx) \<in> set (pending (delay_txs c)) \<and> \<not> (t0 < t \<and> t \<le> t1 \<or> t = height)) \<and>
    (\<forall>h t. delay_contains c' h = (t, True) \<longleftrightarrow> (\<exists>tx. (t, tx) \<in> set (pending (delay_txs c')) \<and> h = tx_Hash env tx))"
proof (cases "delay_hashes c = []")
  case True
  then have "set (pending (delay_txs c)) = {}" using ok unfolding delay_ok_def
    by (metis all_not_in_conv empty_set surj_pair)
  then show ?thesis using ok del True delay_contains_pending [OF ok] by (auto simp: delExpiredTxs_def)
next
  case False
  let ?ts = "[t0 + 1..t1] @ [height]" and ?P = "pending (delay_txs c)"
  define due where "due t \<longleftrightarrow> (t0 < t \<and> t \<le> t1 \<or> t = height)" for t
  have ts: "t \<in> set ?ts \<longleftrightarrow> due t" for t by (auto simp: due_def)
  obtain m where m: "fold take_slot ?ts (delay_txs c, []) = (m, l)"
    and c': "c' = c\<lparr>delay_txs := m, delay_hashes := filter (\<lambda>(h, _). h \<notin> tx_Hash env ` set l) (delay_hashes c)\<rparr>"
    using del False by (auto simp: delExpiredTxs_def fold_delete_hashes split: prod.splits)
  have "distinct (map fst (delay_txs c))" using ok by (simp add: delay_ok_def)
  from take_slot_fold [OF this m] have
    mm: "m = filter (\<lambda>(t, _). \<not> due t) (delay_txs c)" and
    ml: "mset l = image_mset snd (filter_mset (\<lambda>(t, _). due t) (mset ?P))" by (simp_all only: ts) simp
  have P': "pending (delay_txs c') = filter (\<lambda>(t, _). \<not> due t) ?P" by (simp add: c' mm pending_filter)
  have same: "mset l = mset (map snd (filter (\<lambda>(t, _). due t) ?P))" using ml by simp
  have "distinct (map (\<lambda>(t, tx). tx_Hash env tx) (filter (\<lambda>(t, _). due t) ?P))"
    using ok by (simp add: delay_ok_def distinct_map_filter)
  moreover have "map (\<lambda>(t, tx). tx_Hash env tx) xs = map (tx_Hash env) (map snd xs)" for xs :: "(int \<times> transaction) list"
    by (induction xs) auto
  ultimately have "distinct (map (tx_Hash env) (map snd (filter (\<lambda>(t, _). due t) ?P)))" by (simp only:)
  then have "distinct (map snd (filter (\<lambda>(t, _). due t) ?P))" by (rule distinct_map [THEN iffD1, THEN conjunct1])
  then have l: "distinct l" "set l = snd ` set (filter (\<lambda>(t, _). due t) ?P)"
    using mset_eq_imp_distinct_iff [OF same] mset_eq_setD [OF same] by simp_all
  have gone: "tx_Hash env tx \<in> tx_Hash env ` set l \<longleftrightarrow> due t" if "(t, tx) \<in> set ?P" for t tx
  proof
    assume "tx_Hash env tx \<in> tx_Hash env ` set l"
    then obtain t' tx' where "(t', tx') \<in> set ?P" "due t'" "tx_Hash env tx = tx_Hash env tx'" unfolding l(2) by auto
    then show "due t" using delay_ok_hash_unique [OF ok that] by simp
  next
    assume "due t"
    then show "tx_Hash env tx \<in> tx_Hash env ` set l" using that unfolding l(2) by (auto intro!: imageI image_eqI [where x = "(t, tx)"])
  qed
  have ok': "delay_ok env c'"
    unfolding delay_ok_def
  proof (intro conjI allI)
    show "distinct (map fst (delay_txs c'))" "distinct (map fst (delay_hashes c'))"
      using ok by (simp_all add: c' mm delay_ok_def distinct_map_filter)
    show "distinct (map (\<lambda>(t, tx). tx_Hash env tx) (pending (delay_txs c')))"
      unfolding P' using ok by (simp add: delay_ok_def distinct_map_filter)
    fix h t
    have "(h, t) \<in> set (delay_hashes c) \<longleftrightarrow> (\<exists>tx. (t, tx) \<in> set ?P \<and> h = tx_Hash env tx)"
      using ok by (simp add: delay_ok_def)
    then show "(h, t) \<in> set (delay_hashes c') \<longleftrightarrow> (\<exists>tx. (t, tx) \<in> set (pending (delay_txs c')) \<and> h = tx_Hash env tx)"
      unfolding P' using gone by (auto simp: c')
  qed
  have "set l = {tx. \<exists>t. (t, tx) \<in> set ?P \<and> due t}" unfolding l(2) by force
  moreover have "(t, tx) \<in> set (pending (delay_txs c')) \<longleftrightarrow> (t, tx) \<in> set ?P \<and> \<not> due t" for t tx
    unfolding P' by simp
  ultimately show ?thesis
    using ok' l(1) delay_contains_pending [OF ok'] by (simp add: due_def)
qed

text \<open>
  Delayed transactions are released once and on time: in a cache that files each of them
  under its hash and time, \<^verbatim>\<open>delExpiredTxs\<close> hands out, each once, exactly the transactions whose
  time lies after the last block's time and not after this one's, or is this block's height; it
  keeps the others, stays well filed, and afterwards \<^verbatim>\<open>contains\<close> knows exactly the kept ones.
\<close>

theorem delExpiredTxs_releases:
  assumes ok: "delay_ok env c" and del: "delExpiredTxs env c t0 t1 height = (l, c')"
  shows "delay_ok env c' \<and> distinct l \<and>
    set l = {tx. \<exists>t. (t, tx) \<in> set (pending (delay_txs c)) \<and> (t0 < t \<and> t \<le> t1 \<or> t = height)} \<and>
    (\<forall>t tx. (t, tx) \<in> set (pending (delay_txs c')) \<longleftrightarrow>
       (t, tx) \<in> set (pending (delay_txs c)) \<and> \<not> (t0 < t \<and> t \<le> t1 \<or> t = height)) \<and>
    (\<forall>h t. delay_contains c' h = (t, True) \<longleftrightarrow> (\<exists>tx. (t, tx) \<in> set (pending (delay_txs c')) \<and> h = tx_Hash env tx))"
  by (rule delExpiredTxs_spec [OF assms])

theorem delExpiredTxs_releases_witness:
  "\<exists>c'. delExpiredTxs demo_tx_env (snd (addDelayTx demo_tx_env (newDelayTxCache 4) (Some (demo_tx 1)) 12)) 10 12 3 = ([demo_tx 1], c')"
proof -
  let ?c = "snd (addDelayTx demo_tx_env (newDelayTxCache 4) (Some (demo_tx 1)) 12)"
  have "delay_ok demo_tx_env (newDelayTxCache 4)" by (simp add: delay_ok_def newDelayTxCache_def)
  then have ok: "delay_ok demo_tx_env ?c" by (rule addDelayTx_ok)
  obtain l c' where del: "delExpiredTxs demo_tx_env ?c 10 12 3 = (l, c')" by fastforce
  have "pending (delay_txs ?c) = [(12, demo_tx 1)]" by (simp add: addDelayTx_def newDelayTxCache_def)
  then have "set l = {demo_tx 1}" "distinct l" using delExpiredTxs_releases [OF ok del] by auto
  then have "l = [demo_tx 1]" by (cases l) (auto, metis distinct.simps(2) list.set_intros(1) neq_Nil_conv singletonD subsetD)
  then show ?thesis using del by blast
qed

end
