(* ===== verification/Mempool_Machine.thy ===== *)
theory Mempool_Machine
  imports Mempool_Events
begin

text \<open>
  The mempool as a state machine: the message loop \<^verbatim>\<open>eventProcess\<close> of
  \<^verbatim>\<open>eventprocess.go\<close>, the ticker of \<^verbatim>\<open>removeBlockedTxs\<close> and the arrival of the first header,
  and the invariant that every run keeps.
\<close>

section \<open>Messages and answers\<close>

datatype mem_msg =
    EventTx "transaction option"
  | EventGetMempool "bool option"
  | EventGetPendingSize
  | EventTxList int "bytes list"
  | EventDelTxList "bytes list"
  | EventAddBlock "transaction block"
  | EventGetMempoolSize
  | EventGetLastMempool
  | EventDelBlock "header option" "transaction block"
  | EventGetAddrTxs "string list"
  | EventGetProperFee "(int \<times> int) option"
  | EventTxListByHash "string list + bytes list"
  | EventCheckTxsExist "bytes list"
  | EventAddDelayTx "(transaction option \<times> int) option"

datatype mem_reply =
    NoReply
  | ReplyErr "go_error option"
  | ReplyTxs "transaction list"
  | ReplyOptTxs "transaction option list"
  | ReplySize nat
  | ReplyDetails "(transaction \<times> string) list"
  | ReplyFee int
  | ReplyFlags "bool list" nat
  | Delayed "transaction list"

definition as_reply :: "'e + transaction list \<Rightarrow> ('e \<Rightarrow> mem_reply) \<Rightarrow> mem_reply" where
  "as_reply r f = (case r of Inl e \<Rightarrow> f e | Inr txs \<Rightarrow> ReplyTxs txs)"

text \<open>
  One turn of the loop. \<open>None\<close> is a panic, \<open>Delayed\<close> the transactions sent to
  \<^verbatim>\<open>pushDelayTxRoutine\<close>. The pipeline behind \<^verbatim>\<open>eventTx\<close> is taken as part of its turn.
\<close>

fun eventProcess :: "mem_env \<Rightarrow> int \<Rightarrow> bool \<Rightarrow> Mempool \<Rightarrow> mem_msg \<Rightarrow> (mem_reply \<times> Mempool) option" where
  "eventProcess env now synced mem (EventTx data) =
     (case eventTx env now synced mem data of
        (Some GoPanic, mem') \<Rightarrow> None
      | (err, mem') \<Rightarrow> Some (ReplyErr err, mem'))"
| "eventProcess env now synced mem (EventGetMempool isAll) = Some (ReplyTxs (eventGetMempool env now mem isAll), mem)"
| "eventProcess env now synced mem EventGetPendingSize = Some (ReplySize (eventGetPendingSize env now mem), mem)"
| "eventProcess env now synced mem (EventTxList n hashes) =
     Some (as_reply (eventTxList env now mem n hashes) (\<lambda>e. ReplyErr (Some e)), mem)"
| "eventProcess env now synced mem (EventDelTxList hashes) =
     (case eventDelTxList env mem hashes of None \<Rightarrow> None | Some (err, mem') \<Rightarrow> Some (ReplyErr err, mem'))"
| "eventProcess env now synced mem (EventAddBlock b) =
     (case eventAddBlock env now mem b of None \<Rightarrow> None | Some (l, mem') \<Rightarrow> Some (if length l = 0 then NoReply else Delayed l, mem'))"
| "eventProcess env now synced mem EventGetMempoolSize = Some (ReplySize (tc_Size (mem_cache mem)), mem)"
| "eventProcess env now synced mem EventGetLastMempool = Some (ReplyTxs (GetLatestTx (LastCache (mem_cache mem))), mem)"
| "eventProcess env now synced mem (EventDelBlock lastHeader b) = Some (NoReply, eventDelBlock env now lastHeader mem b)"
| "eventProcess env now synced mem (EventGetAddrTxs addrs) =
     Some (ReplyDetails (GetAccTxs (AccountIndex (mem_cache mem)) addrs), mem)"
| "eventProcess env now synced mem (EventGetProperFee req) =
     (case GetProperFeeRate env mem req of None \<Rightarrow> None | Some fee \<Rightarrow> Some (ReplyFee fee, mem))"
| "eventProcess env now synced mem (EventTxListByHash l) =
     (case getTxListByHash mem l of None \<Rightarrow> None | Some txs \<Rightarrow> Some (ReplyOptTxs txs, mem))"
| "eventProcess env now synced mem (EventCheckTxsExist hashes) =
     (let (flags, n) = eventCheckTxsExist synced mem hashes in Some (ReplyFlags flags n, mem))"
| "eventProcess env now synced mem (EventAddDelayTx data) =
     (let (err, mem') = eventAddDelayTx env mem data in Some (ReplyErr err, mem'))"

section \<open>Runs\<close>

text \<open>A run starts with a configured pool whose queue is set, and mixes messages with ticks.\<close>

inductive mem_run :: "mem_env \<Rightarrow> Mempool \<Rightarrow> bool" for env where
  run_start: "0 \<le> MaxTxNumPerAccount cfg \<Longrightarrow> 0 \<le> maxTxLast \<Longrightarrow>
    mem_run env (mem_SetQueueCache (NewMempool cfg maxTxLast sz) (NewSimpleQueue sub))"
| run_header: "mem_run env mem \<Longrightarrow> mem_run env (setHeader mem h)"
| run_event: "mem_run env mem \<Longrightarrow> eventProcess env now synced mem msg = Some (r, mem') \<Longrightarrow> mem_run env mem'"
| run_tick: "mem_run env mem \<Longrightarrow> removeExpired env now mem = Some mem' \<Longrightarrow> mem_run env mem'"

definition mem_ok :: "mem_env \<Rightarrow> Mempool \<Rightarrow> bool" where
  "mem_ok env mem \<longleftrightarrow> pool_reach (txe env) (mem_cache mem) \<and> delay_ok (txe env) (delayCache (mem_cache mem))"

text \<open>Every operation on the queue leaves the delayed transactions alone.\<close>

lemma tc_Push_delay: "delayCache (snd (tc_Push env now c tx)) = delayCache c"
  by (auto simp: tc_Push_def Let_def split: option.splits prod.splits sum.splits if_splits)

lemma tc_Remove_delay: "tc_Remove env c h = Some c' \<Longrightarrow> delayCache c' = delayCache c"
  by (auto simp: tc_Remove_def Let_def split: option.splits prod.splits sum.splits if_splits)

lemma tc_RemoveTxs_delay: "tc_RemoveTxs env c hs = Some c' \<Longrightarrow> delayCache c' = delayCache c"
  by (induction hs arbitrary: c) (auto split: option.splits dest: tc_Remove_delay)

lemma removeTxs_delay: "removeTxs env mem hs = Some mem' \<Longrightarrow> delayCache (mem_cache mem') = delayCache (mem_cache mem)"
  by (induction hs arbitrary: mem) (force split: option.splits if_splits dest: tc_Remove_delay)+

lemma removeExpired_delay:
  "removeExpired env now mem = Some mem' \<Longrightarrow> delayCache (mem_cache mem') = delayCache (mem_cache mem)"
  by (auto simp: removeExpired_def removeExpiredTx_def Let_def split: option.splits if_splits dest: tc_RemoveTxs_delay)

lemma mem_ok_PushTx: "mem_ok env mem \<Longrightarrow> mem_ok env (snd (PushTx env now mem tx))"
  by (auto simp: mem_ok_def PushTx_def case_prod_beta tc_Push_delay intro: pool_push)

lemma mem_ok_removeTxs:
  assumes "mem_ok env mem"
  shows "\<exists>mem'. removeTxs env mem hs = Some mem' \<and> mem_ok env mem'"
  using removeTxs_spec [of env mem hs] removeTxs_delay [of env mem hs] assms by (fastforce simp: mem_ok_def)

lemma mem_ok_removeExpired:
  assumes "mem_ok env mem"
  shows "\<exists>mem'. removeExpired env now mem = Some mem' \<and> mem_ok env mem'"
  using removeExpired_spec [of env mem now] removeExpired_delay [of env now mem] assms by (fastforce simp: mem_ok_def)

lemma mem_ok_setHeader [simp]: "mem_ok env (setHeader mem h) \<longleftrightarrow> mem_ok env mem"
  by (simp add: mem_ok_def setHeader_def)

lemma mem_ok_eventTx: "mem_ok env mem \<Longrightarrow> mem_ok env (snd (eventTx env now synced mem data))"
  using mem_ok_PushTx [of env mem now]
  by (auto simp: eventTx_def checkTxRemote_def Let_def split: option.splits sum.splits)

lemma mem_ok_del_block: "mem_ok env mem \<Longrightarrow> mem_ok env (del_block_loop env now mem f txs)"
  by (induction env now mem f txs rule: del_block_loop.induct) (simp_all add: Let_def mem_ok_PushTx)

lemma mem_ok_eventDelBlock: "mem_ok env mem \<Longrightarrow> mem_ok env (eventDelBlock env now h mem b)"
  by (simp add: eventDelBlock_def mem_delBlock_def mem_ok_del_block split: option.splits)

lemma delay_ok_block: "delay_ok (txe env) c \<Longrightarrow> delay_ok (txe env) (mem_addDelayTx env c b)"
  unfolding mem_addDelayTx_def
  by (rule fold_invariant [where P = "delay_ok (txe env)" and Q = "\<lambda>_. True"])
    (auto simp: delay_step_def addDelayTx_ok split: option.splits)

lemma mem_ok_eventAddBlock:
  assumes ok: "mem_ok env mem"
  shows "\<exists>l mem'. eventAddBlock env now mem b = Some (l, mem') \<and> mem_ok env mem'"
proof -
  define mem1 where "mem1 = (if Height b > mem_Height mem \<or> (Height b = 0 \<and> mem_Height mem = 0)
    then setHeader mem (empty_header\<lparr>hBlockTime := BlockTime b, hHeight := Height b, hStateHash := StateHash b\<rparr>) else mem)"
  define cleaned where "cleaned = (if tc_Size (mem_cache mem1) > 0 then
      (case RemoveTxsOfBlock env mem1 b of None \<Rightarrow> None | Some mem2 \<Rightarrow> removeExpired env now mem2)
    else Some mem1)"
  have "mem_ok env mem1" using ok by (simp add: mem1_def)
  moreover obtain mem2 where mem2: "RemoveTxsOfBlock env mem1 b = Some mem2" "mem_ok env mem2"
    using mem_ok_removeTxs [OF calculation] unfolding RemoveTxsOfBlock_def by blast
  ultimately obtain mem3 where mem3: "cleaned = Some mem3" "mem_ok env mem3"
    using mem_ok_removeExpired [OF mem2(2), of now] by (cases "tc_Size (mem_cache mem1) > 0") (auto simp: cleaned_def)
  obtain l d2 where d2: "delExpiredTxs (txe env) (mem_addDelayTx env (delayCache (mem_cache mem3)) b)
      (header_time mem) (BlockTime b) (Height b) = (l, d2)" by fastforce
  have "delay_ok (txe env) d2"
    using delExpiredTxs_spec [OF delay_ok_block d2] mem3(2) by (simp add: mem_ok_def)
  then have "mem_ok env (mem3\<lparr>mem_cache := (mem_cache mem3)\<lparr>delayCache := d2\<rparr>\<rparr>)"
    using mem3(2) pool_delay by (simp add: mem_ok_def)
  moreover have "eventAddBlock env now mem b = Some (l, mem3\<lparr>mem_cache := (mem_cache mem3)\<lparr>delayCache := d2\<rparr>\<rparr>)"
    unfolding eventAddBlock_def Let_def mem1_def [symmetric] cleaned_def [symmetric]
    by (simp add: mem3(1) d2)
  ultimately show ?thesis by blast
qed

lemma mem_ok_qcache: "mem_ok env mem \<Longrightarrow> \<exists>q. qcache (mem_cache mem) = Some q"
  using pool_reach_ok cache_okD by (metis mem_ok_def)

lemma those_map_Some: "(\<And>x. x \<in> set xs \<Longrightarrow> f x \<noteq> None) \<Longrightarrow> those (map f xs) \<noteq> None"
  by (induction xs) (auto split: option.splits)

text \<open>
  One turn on a well-formed pool: only a transaction whose check panics stops the loop, and the
  pool stays well formed.
\<close>

lemma eventProcess_ok:
  assumes ok: "mem_ok env mem"
  shows "case eventProcess env now synced mem msg of
      None \<Rightarrow> \<exists>data. msg = EventTx data \<and> fst (eventTx env now synced mem data) = Some GoPanic
    | Some (r, mem') \<Rightarrow> mem_ok env mem'"
proof (cases msg)
  case (EventTx data)
  then show ?thesis
    using mem_ok_eventTx [OF ok, of now synced data]
    by (auto split: prod.splits option.splits go_error.splits)
next
  case (EventDelTxList hashes)
  then show ?thesis
    using mem_ok_removeTxs [OF ok, of hashes] ok by (auto simp: eventDelTxList_def RemoveTxs_def)
next
  case (EventAddBlock b)
  then show ?thesis using mem_ok_eventAddBlock [OF ok, of now b] by auto
next
  case (EventDelBlock h b)
  then show ?thesis using mem_ok_eventDelBlock [OF ok] by simp
next
  case (EventGetProperFee req)
  then show ?thesis using mem_ok_qcache [OF ok] ok
    by (auto simp: GetProperFeeRate_def getLevelFeeRate_def GetTotalCacheBytes_def Let_def case_prod_beta split: option.splits)
next
  case (EventTxListByHash l)
  obtain q where "qcache (mem_cache mem) = Some q" using mem_ok_qcache [OF ok] by blast
  then have "getTxListByHash mem l \<noteq> None"
    using those_map_Some [of _ "getTxByHash (mem_cache mem)"]
    by (cases l) (simp_all add: getTxListByHash_def getTxByHash_def)
  then show ?thesis using EventTxListByHash ok by auto
next
  case (EventAddDelayTx data)
  have "mem_ok env (snd (eventAddDelayTx env mem data))"
    using ok addDelayTx_ok
    by (auto simp: eventAddDelayTx_def mem_ok_def Let_def case_prod_beta intro: pool_delay split: option.split)
  then show ?thesis using EventAddDelayTx by (simp add: case_prod_beta)
qed (use ok in \<open>auto split: prod.splits\<close>)

lemma mem_run_ok: "mem_run env mem \<Longrightarrow> mem_ok env mem"
proof (induction rule: mem_run.induct)
  case (run_start cfg maxTxLast sz sub)
  then show ?case
    by (auto simp: mem_ok_def mem_SetQueueCache_def NewMempool_def Let_def intro!: pool_init)
      (auto simp: SetQueueCache_def newCache_def newDelayTxCache_def delay_ok_def)
next
  case (run_event mem now synced msg r mem')
  then show ?case using eventProcess_ok [where env = env and mem = mem and now = now and synced = synced and msg = msg] by simp
next
  case (run_tick mem now mem')
  then show ?case using mem_ok_removeExpired [of env mem now] by auto
qed simp

text \<open>
  C26. However messages, headers and ticks arrive, the mempool keeps its books: in every state of
  a run the cache is one that pushes, removals and expiry reach (so its indexes agree with its
  queue), and the delayed transactions are filed once each under hash and time; a tick does not
  panic, and the next message is answered without a panic unless it is a transaction whose own
  check panics.
\<close>

theorem mem_run_safe:
  assumes "mem_run env mem"
  shows "pool_reach (txe env) (mem_cache mem) \<and> delay_ok (txe env) (delayCache (mem_cache mem)) \<and>
    (\<exists>mem'. removeExpired env now mem = Some mem') \<and>
    (eventProcess env now synced mem msg = None \<longrightarrow>
       (\<exists>data. msg = EventTx data \<and> fst (eventTx env now synced mem data) = Some GoPanic))"
  using mem_run_ok [OF assms] eventProcess_ok [OF mem_run_ok [OF assms], where now = now and synced = synced and msg = msg]
    mem_ok_removeExpired [OF mem_run_ok [OF assms], of now]
  by (auto simp: mem_ok_def)

theorem mem_run_safe_witness:
  "\<exists>r mem1. eventProcess demo_mem_env 1700000000 True demo_mempool (EventTx (Some demo_signed)) = Some (r, mem1) \<and>
     pool_reach demo_tx_env (mem_cache mem1) \<and>
     eventProcess demo_mem_env 1700000001 True mem1 (EventGetProperFee None) \<noteq> None"
proof -
  have run: "mem_run demo_mem_env (setHeader (mem_SetQueueCache
      (NewMempool (mem_cfg demo_mempool) 10 8) (NewSimpleQueue \<lparr>PoolCacheSize = 8, ProperFee = 1\<rparr>)) (empty_header\<lparr>hHeight := 4\<rparr>))"
    by (intro run_header run_start) (simp_all add: demo_mempool_def)
  moreover have "setHeader (mem_SetQueueCache
      (NewMempool (mem_cfg demo_mempool) 10 8) (NewSimpleQueue \<lparr>PoolCacheSize = 8, ProperFee = 1\<rparr>)) (empty_header\<lparr>hHeight := 4\<rparr>)
    = demo_mempool"
    by (simp add: setHeader_def mem_SetQueueCache_def NewMempool_def demo_mempool_def demo_pool0_def empty_header_def)
  ultimately have run0: "mem_run demo_mem_env demo_mempool" by simp
  have "fst (eventTx demo_mem_env 1700000000 True demo_mempool (Some demo_signed)) = None" by code_simp
  then have "eventProcess demo_mem_env 1700000000 True demo_mempool (EventTx (Some demo_signed)) =
      Some (ReplyErr None, snd (eventTx demo_mem_env 1700000000 True demo_mempool (Some demo_signed)))"
    by (auto split: prod.splits)
  then obtain r mem1 where ev: "eventProcess demo_mem_env 1700000000 True demo_mempool (EventTx (Some demo_signed)) = Some (r, mem1)"
    by blast
  have "mem_run demo_mem_env mem1" by (rule run_event [OF run0 ev])
  from mem_run_safe [OF this, where now = 1700000001 and synced = True and msg = "EventGetProperFee None"] ev show ?thesis
    by (auto simp: demo_mem_env_def simp del: eventProcess.simps)
qed

end
