(* ===== verification/Block_Sections.thy ===== *)
theory Block_Sections
  imports Merkle_Theorems Transactions_Theorems
begin

text \<open>
  How \<^verbatim>\<open>TransactionSort\<close> of \<^verbatim>\<open>types/tx.go\<close> prepares a block for the per-chain Merkle
  roots of \<^verbatim>\<open>common/merkle/merkle.go\<close>: the sort is the stable sort by chain, and on a
  sorted block each chain becomes one section that holds exactly its transactions.
\<close>

section \<open>The sort is stable\<close>

definition slot :: "(string \<times> transaction list) list \<Rightarrow> string \<Rightarrow> transaction list" where
  "slot m t = (case map_of m t of None \<Rightarrow> [] | Some ts \<Rightarrow> ts)"

lemma group_titles_spec:
  "distinct (map fst m) \<Longrightarrow>
   distinct (map fst (group_titles m txs)) \<and> fst ` set (group_titles m txs) = fst ` set m \<union> chain_title ` set txs \<and>
   (\<forall>t. slot (group_titles m txs) t = slot m t @ filter (\<lambda>tx. chain_title tx = t) txs)"
proof (induction m txs rule: group_titles.induct)
  case (2 m tx txs)
  let ?t = "chain_title tx"
  define m' where "m' = AList.update ?t (slot m ?t @ [tx]) m"
  have step: "group_titles m (tx # txs) = group_titles m' txs"
    by (simp add: m'_def slot_def split: option.split)
  have m': "distinct (map fst m')" "fst ` set m' = insert ?t (fst ` set m)"
    "slot m' t = (if t = ?t then slot m ?t @ [tx] else slot m t)" for t
    using AList.distinct_update [OF "2.prems"]
    by (simp_all add: m'_def slot_def AList.update_conv' dom_update flip: dom_map_of_conv_image_fst)
  have "distinct (map fst (group_titles m' txs)) \<and> fst ` set (group_titles m' txs) = fst ` set m' \<union> chain_title ` set txs \<and>
   (\<forall>t. slot (group_titles m' txs) t = slot m' t @ filter (\<lambda>tx. chain_title tx = t) txs)"
    using 2 m'(1) by (cases "map_of m ?t") (simp_all add: m'_def slot_def)
  then show ?case unfolding step m'(2,3) by auto
qed simp

definition titles :: "transaction list \<Rightarrow> string list" where
  "titles txs = sorted_list_of_set (chain_title ` set txs)"

definition section_of :: "transaction list \<Rightarrow> string \<Rightarrow> transaction list" where
  "section_of txs t = filter (\<lambda>tx. chain_title tx = t) txs"

lemma titles_props [simp]:
  "set (titles txs) = chain_title ` set txs" "distinct (titles txs)" "sorted (titles txs)"
  by (simp_all add: titles_def)

lemma TransactionSort_sections: "TransactionSort txs = concat (map (section_of txs) (titles txs))"
proof -
  note spec = group_titles_spec [of "[]" txs, simplified]
  have "sort (map fst (group_titles [] txs)) = titles txs"
    using spec by (intro sorted_distinct_set_unique) (simp_all add: distinct_sort)
  moreover have "slot (group_titles [] txs) = section_of txs"
    using spec by (auto simp: section_of_def slot_def [of "[]"])
  ultimately show ?thesis by (simp add: TransactionSort_def Let_def flip: slot_def)
qed

lemma mset_sections: "distinct ts \<Longrightarrow> mset (concat (map (section_of txs) ts)) = filter_mset (\<lambda>tx. chain_title tx \<in> set ts) (mset txs)"
proof (induction ts)
  case (Cons t ts)
  have "filter_mset (\<lambda>tx. chain_title tx = t \<or> chain_title tx \<in> set ts) (mset txs) =
      filter_mset (\<lambda>tx. chain_title tx = t) (mset txs) + filter_mset (\<lambda>tx. chain_title tx \<in> set ts) (mset txs)"
    using Cons.prems by (induction txs) auto
  then show ?case using Cons by (simp add: section_of_def)
qed simp

lemma sorted_sections: "sorted ts \<Longrightarrow> sorted (map chain_title (concat (map (section_of txs) ts)))"
  by (induction ts) (auto simp: sorted_append section_of_def intro!: sorted_map_same)

lemma filter_section: "filter (\<lambda>tx. t = chain_title tx) (section_of txs u) = (if u = t then section_of txs t else [])"
  by (induction txs) (auto simp: section_of_def)

lemma filter_sections:
  "distinct ts \<Longrightarrow> filter (\<lambda>tx. t = chain_title tx) (concat (map (section_of txs) ts)) = (if t \<in> set ts then section_of txs t else [])"
  by (induction ts) (auto simp: filter_section)

lemma TransactionSort_sorts: "TransactionSort txs = sort_key chain_title txs"
proof -
  let ?s = "concat (map (section_of txs) (titles txs))"
  have "mset ?s = mset txs"
    unfolding mset_sections [OF titles_props(2)] by (simp add: filter_mset_eq_conv)
  moreover have "filter (\<lambda>tx. k = chain_title tx) ?s = filter (\<lambda>tx. k = chain_title tx) txs" for k
  proof (cases "k \<in> chain_title ` set txs")
    case False
    then show ?thesis by (auto simp: filter_sections intro!: filter_False [symmetric])
  qed (auto simp: filter_sections section_of_def eq_commute)
  ultimately show ?thesis
    unfolding TransactionSort_sections
    by (intro properties_for_sort_key [symmetric]) (simp_all add: sorted_sections)
qed

text \<open>
  \<^verbatim>\<open>TransactionSort\<close>, which gathers a block's transactions in a map per chain and walks the
  sorted keys, is the stable sort by chain title: nothing is lost or doubled, and the order inside
  a chain, which nonces and groups rely on, is kept.
\<close>

theorem TransactionSort_stable: "TransactionSort txs = sort_key chain_title txs"
  by (rule TransactionSort_sorts)

section \<open>One section per chain\<close>

lemma title_loop_prefix: "title_loop seen s = Some t \<Longrightarrow> \<exists>u. t = seen @ u"
  by (induction seen s rule: title_loop.induct) (auto split: if_splits)

lemma para_title_prefix: "GetParaExecTitleName e = Some t \<Longrightarrow> \<exists>u. t = ''user.p.'' @ u"
  using title_loop_prefix [of ParaKeyX] by (auto simp: GetParaExecTitleName_def ParaKeyX_def split: if_splits)

lemma para_title_above: "GetParaExecTitleName e = Some t \<Longrightarrow> MainChainName < t \<and> t \<noteq> [] \<and> t \<noteq> MainChainName"
  using para_title_prefix by (fastforce simp: MainChainName_def less_char_def)

lemma chain_title_main: "chain_title tx = MainChainName \<longleftrightarrow> GetParaExecTitleName (Execer tx) = None"
  by (auto simp: chain_title_def dest: para_title_above split: option.splits)

lemma chain_title_para:
  "chain_title tx = t \<Longrightarrow> t \<noteq> MainChainName \<Longrightarrow> GetParaExecTitleName (Execer tx) = Some t \<and> MainChainName < t \<and> t \<noteq> []"
  by (auto simp: chain_title_def dest: para_title_above split: option.splits)

lemma para_titles: "t \<in> set (titles txs) \<Longrightarrow> t \<noteq> MainChainName \<Longrightarrow> MainChainName < t \<and> t \<noteq> []"
  using chain_title_para [OF refl] by auto

lemma titles_cases:
  obtains "MainChainName \<notin> set (titles txs)"
  | ts where "titles txs = MainChainName # ts" "MainChainName \<notin> set ts"
proof (cases "MainChainName \<in> set (titles txs)")
  case True
  have above: "MainChainName \<le> t" if "t \<in> set (titles txs)" for t
    using para_titles [OF that] by (cases "t = MainChainName") auto
  obtain t ts where tts: "titles txs = t # ts" using True by (cases "titles txs") auto
  have "t \<le> MainChainName" using True titles_props(3) [of txs] unfolding tts by auto
  then have "t = MainChainName" using above [of t] tts by simp
  then show ?thesis using that(2) tts titles_props(2) [of txs] by simp
qed (use that(1) in blast)

text \<open>The sections of titles \<open>ts\<close> laid out from index \<open>i\<close> on.\<close>

fun layout :: "transaction list \<Rightarrow> nat \<Rightarrow> string list \<Rightarrow> childchain list" where
  "layout txs i [] = []"
| "layout txs i (t # ts) = new_child t (i32 (int i)) # layout txs (i + length (section_of txs t)) ts"

lemma map_Title_layout [simp]: "map Title (layout txs i ts) = ts"
  by (induction ts arbitrary: i) (simp_all add: new_child_def)

lemma find_chains_none:
  "\<forall>tx\<in>set g. GetParaExecTitleName (Execer tx) = None \<Longrightarrow> 0 < i \<Longrightarrow>
   find_chains Execer i f (g @ r) = find_chains Execer (i + length g) f r"
  by (induction g arbitrary: i) auto

lemma find_chains_same:
  "\<forall>tx\<in>set g. GetParaExecTitleName (Execer tx) = Some t \<Longrightarrow> t \<noteq> [] \<Longrightarrow>
   find_chains Execer i t (g @ r) = find_chains Execer (i + length g) t r"
  by (induction g arbitrary: i) auto

lemma find_chains_layout:
  assumes "distinct ts" "set ts \<subseteq> set (titles txs) - {MainChainName}" "f \<notin> set ts"
  shows "find_chains Execer i f (concat (map (section_of txs) ts)) = layout txs i ts"
  using assms
proof (induction ts arbitrary: i f)
  case (Cons t ts)
  have sec: "\<forall>tx\<in>set (section_of txs t). GetParaExecTitleName (Execer tx) = Some t" "t \<noteq> []" "section_of txs t \<noteq> []"
    using Cons.prems chain_title_para by (auto simp: section_of_def filter_empty_conv)
  then obtain tx g where g: "section_of txs t = tx # g" by (cases "section_of txs t") auto
  have "find_chains Execer i f (concat (map (section_of txs) (t # ts))) =
      new_child t (i32 (int i)) # find_chains Execer (Suc i) t (g @ concat (map (section_of txs) ts))"
    using sec(1) Cons.prems(3) by (auto simp: g)
  also have "find_chains Execer (Suc i) t (g @ concat (map (section_of txs) ts)) =
      find_chains Execer (Suc i + length g) t (concat (map (section_of txs) ts))"
    using sec(1,2) by (intro find_chains_same) (simp_all add: g)
  also have "\<dots> = layout txs (Suc i + length g) ts" using Cons.prems by (intro Cons.IH) auto
  finally show ?case by (simp add: g)
qed simp

lemma find_chains_sorted: "find_chains Execer 0 [] (TransactionSort txs) = layout txs 0 (titles txs)"
proof (cases rule: titles_cases [of txs])
  case 1
  then show ?thesis unfolding TransactionSort_sections
    using para_titles [of "[]" txs] by (intro find_chains_layout) (auto simp: MainChainName_def)
next
  case (2 ts)
  have ts: "distinct ts" "set ts \<subseteq> set (titles txs) - {MainChainName}"
    using 2 titles_props(2) [of txs] by auto
  have sec: "\<forall>tx\<in>set (section_of txs MainChainName). GetParaExecTitleName (Execer tx) = None"
    by (auto simp: section_of_def chain_title_main)
  have "MainChainName \<in> set (titles txs)" by (simp add: 2(1))
  then obtain tx g where g: "section_of txs MainChainName = tx # g"
    by (cases "section_of txs MainChainName") (auto simp: section_of_def filter_empty_conv)
  have "find_chains Execer 0 [] (TransactionSort txs) =
      new_child MainChainName 0 # find_chains Execer (Suc 0) [] (g @ concat (map (section_of txs) ts))"
    using sec unfolding TransactionSort_sections 2(1) by (simp add: g)
  also have "find_chains Execer (Suc 0) [] (g @ concat (map (section_of txs) ts)) =
      find_chains Execer (Suc 0 + length g) [] (concat (map (section_of txs) ts))"
    using sec by (intro find_chains_none) (simp_all add: g)
  also have "\<dots> = layout txs (Suc 0 + length g) ts"
    using ts para_titles [of "[]" txs] by (intro find_chains_layout) (auto simp: MainChainName_def)
  finally show ?thesis by (simp add: 2(1) g i32_def)
qed

lemma set_counts_layout:
  assumes "all = pre @ concat (map (section_of txs) ts)" "length pre = i" "length all < 2 ^ 31"
  shows "map Title (set_counts (length all) (layout txs i ts)) = ts \<and>
    (\<forall>c\<in>set (set_counts (length all) (layout txs i ts)). sub_txs all c = section_of txs (Title c))"
  using assms
proof (induction ts arbitrary: pre i)
  case (Cons t ts)
  let ?s = "section_of txs t"
  have i: "i32 (int i) = int i" "i32 (int (i + length ?s)) = int (i + length ?s)"
    using Cons.prems by (auto intro!: i32_id)
  show ?case
  proof (cases ts)
    case Nil
    have "i32 (int (length all)) = int (length all)" using Cons.prems by (intro i32_id) auto
    moreover have "i32 (int (length all) - int i) = int (length ?s)"
      using Cons.prems Nil by (subst i32_id) auto
    ultimately show ?thesis using Nil i Cons.prems by (simp add: new_child_def sub_txs_def)
  next
    case (Cons u us)
    have "map Title (set_counts (length all) (layout txs (i + length ?s) ts)) = ts \<and>
      (\<forall>c\<in>set (set_counts (length all) (layout txs (i + length ?s) ts)). sub_txs all c = section_of txs (Title c))"
      using Cons.prems by (intro Cons.IH [of "pre @ ?s"]) auto
    moreover have "i32 (int (i + length ?s) - int i) = int (length ?s)"
      using Cons.prems by (subst i32_id) auto
    ultimately show ?thesis using Cons i Cons.prems by (simp add: new_child_def sub_txs_def)
  qed
qed simp

lemma child_roots_sections:
  "child_roots env fullhash txs cs = Inr cs' \<Longrightarrow>
   map Title cs' = map Title cs \<and> map (sub_txs txs) cs' = map (sub_txs txs) cs"
  by (induction cs arbitrary: cs') (auto simp: sub_txs_def split: sum.splits)

text \<open>
  C34. On a block sorted by \<^verbatim>\<open>TransactionSort\<close>, \<^verbatim>\<open>calcMultiLayerMerkleInfo\<close> finds each
  chain once: the titles it returns are the distinct chain titles of the block in order, the main
  chain first, and the slice of each is exactly the block's transactions of that chain, in their
  original order. So a parallel chain that proves a transaction against its section root misses
  none of its own and sees no other's.
\<close>

theorem sorted_block_sections:
  assumes "length txs < 2 ^ 31"
    and "calcMultiLayerMerkleInfo env Execer fullhash (TransactionSort txs) = Inr (root, cchains)"
  shows "map Title cchains = sorted_list_of_set (chain_title ` set txs) \<and>
    (\<forall>c\<in>set cchains. sub_txs (TransactionSort txs) c = filter (\<lambda>tx. chain_title tx = Title c) txs)"
proof -
  let ?s = "TransactionSort txs" and ?cs = "layout txs 0 (titles txs)"
  have len: "length ?s = length txs" by (metis TransactionSort_sorts length_sort)
  show ?thesis
  proof (cases "titles txs")
    case Nil
    then have "txs = []" using titles_props(1) [of txs] by simp
    then show ?thesis using assms(2) by (simp add: calcMultiLayerMerkleInfo_def TransactionSort_def)
  next
    case t: (Cons t ts)
    then have ne: "txs \<noteq> []" using titles_props(1) [of txs] by auto
    show ?thesis
    proof (cases ts)
      case Nil
      have s: "?s = section_of txs t" by (simp add: TransactionSort_sections t Nil)
      have "i32 (int (length txs)) = int (length txs)" "i32 0 = 0" using assms(1) by (simp_all add: i32_id)
      then have "map Title cchains = [t] \<and> (\<forall>c\<in>set cchains. sub_txs ?s c = ?s)"
        using assms(2) ne len t Nil
        by (auto simp: calcMultiLayerMerkleInfo_def find_chains_sorted new_child_def sub_txs_def split: sum.splits)
      then show ?thesis using t Nil s by (auto simp: titles_def section_of_def)
    next
      case (Cons u us)
      have "child_roots env fullhash ?s (set_counts (length ?s) ?cs) = Inr cchains"
        using assms(2) ne len t Cons
        by (auto simp: calcMultiLayerMerkleInfo_def find_chains_sorted split: sum.splits option.splits)
      note cr = child_roots_sections [OF this]
      have lay: "map Title (set_counts (length ?s) ?cs) = titles txs \<and>
        (\<forall>c\<in>set (set_counts (length ?s) ?cs). sub_txs ?s c = section_of txs (Title c))"
        using assms(1) by (intro set_counts_layout [of _ "[]"]) (simp_all add: TransactionSort_sections len [unfolded TransactionSort_sections])
      have "map (sub_txs ?s) (set_counts (length ?s) ?cs) = map (section_of txs) (map Title (set_counts (length ?s) ?cs))"
        unfolding map_map comp_def using lay by (intro map_cong refl) blast
      then have "map (sub_txs ?s) cchains = map (section_of txs) (map Title cchains)" using cr by (simp only:)
      then have "\<forall>c\<in>set cchains. sub_txs ?s c = section_of txs (Title c)" by simp
      then show ?thesis using cr lay by (simp add: titles_def section_of_def)
    qed
  qed
qed

definition para_tx :: "int \<Rightarrow> transaction" where
  "para_tx n = (demo_tx n)\<lparr>Execer := ''user.p.a.coins''\<rparr>"

theorem sorted_block_sections_witness:
  "\<exists>root cchains. calcMultiLayerMerkleInfo demo_merkle_env Execer (\<lambda>tx. replicate 32 0)
      (TransactionSort [para_tx 1, demo_tx 2, para_tx 3]) = Inr (root, cchains) \<and> map Title cchains = [''main'', ''user.p.a.'']"
proof -
  let ?l = "[para_tx 1, demo_tx 2, para_tx 3]"
  have "isl (calcMultiLayerMerkleInfo demo_merkle_env Execer (\<lambda>tx. replicate 32 0) (TransactionSort ?l)) = False"
    by code_simp
  then obtain root cchains where
    r: "calcMultiLayerMerkleInfo demo_merkle_env Execer (\<lambda>tx. replicate 32 0) (TransactionSort ?l) = Inr (root, cchains)"
    by (metis isl_def old.sum.exhaust surj_pair)
  have "chain_title ` set ?l = {''main'', ''user.p.a.''}"
    by (simp add: chain_title_def para_tx_def demo_tx_def GetParaExecTitleName_def IsParaExecName_def ParaKeyX_def MainChainName_def insert_commute)
  moreover have "sorted_list_of_set {''main'', ''user.p.a.''} = [''main'', ''user.p.a.'']"
    by (simp add: less_char_def)
  ultimately show ?thesis
    using sorted_block_sections [OF _ r] r by auto
qed

end
