(* ===== verification/Mavl.thy ===== *)
theory Mavl
  imports Omni_Prelude "HOL-Library.List_Lexorder" "HOL-Library.Word" "HOL-Library.Monad_Syntax"
begin

text \<open>
  The Merkle AVL tree of the state store, \<^verbatim>\<open>system/store/mavl/db\<close>: \<^verbatim>\<open>node.go\<close>,
  \<^verbatim>\<open>proof.go\<close> and the trees and the node database of \<^verbatim>\<open>tree.go\<close>.

  \<^item> A \<^verbatim>\<open>Node\<close> is a record of its plain fields and two optional pointers to children in
    memory; a missing pointer means that the child is in the database under its hash. The code
    copies a node before it changes it, so a node is a value here. \<^verbatim>\<open>parentNode\<close> serves
    pruning only and is left out.
  \<^item> The database maps a hash to a decoded \<^verbatim>\<open>StoreNode\<close>; its cache of nodes and the
    memory tree return what the database holds and are left out, as are pruning and the set of
    orphans, which nothing reads.
  \<^item> \<open>None\<close> is a panic, or a recursion that does not return: the recursive functions follow
    pointers and hashes and are \<open>partial_function\<close>s, so that their termination is proved.
  \<^item> \<open>Encode4\<close> is the protobuf encoding of two byte strings and two integers under the field
    numbers 1 to 4, which \<^verbatim>\<open>LeafNode\<close> and \<^verbatim>\<open>InnerNode\<close> share.
\<close>

section \<open>Nodes and hashes\<close>

record mavl_env =
  Sha256 :: "bytes \<Rightarrow> bytes"
  Encode4 :: "bytes \<Rightarrow> bytes \<Rightarrow> int \<Rightarrow> int \<Rightarrow> bytes"
  EnableMavlPrefix :: bool
  EnableMVCC :: bool

record node_data =
  n_key :: bytes
  n_value :: bytes
  n_height :: int
  n_size :: int
  n_hash :: "bytes option"
  n_leftHash :: "bytes option"
  n_rightHash :: "bytes option"
  n_persisted :: bool

datatype mnode = Node (info: node_data) (leftNode: "mnode option") (rightNode: "mnode option")

record store_node =
  sKey :: bytes
  sValue :: bytes
  sLeftHash :: "bytes option"
  sRightHash :: "bytes option"
  sHeight :: int
  sSize :: int

type_synonym ndb = "bytes \<rightharpoonup> store_node"

definition LeafNode_Hash :: "mavl_env \<Rightarrow> bytes \<Rightarrow> bytes \<Rightarrow> int \<Rightarrow> int \<Rightarrow> bytes" where
  "LeafNode_Hash env k v h s = Sha256 env (Encode4 env k v h s)"

definition hash_tail :: "bytes \<Rightarrow> bytes" where
  "hash_tail h = (if length h > 32 then drop (length h - 32) h else h)"

definition InnerNode_Hash :: "mavl_env \<Rightarrow> bytes \<Rightarrow> bytes \<Rightarrow> int \<Rightarrow> int \<Rightarrow> bytes" where
  "InnerNode_Hash env lh rh h s = Sha256 env (Encode4 env (hash_tail lh) (hash_tail rh) h s)"

definition NewNode :: "bytes \<Rightarrow> bytes \<Rightarrow> mnode" where
  "NewNode k v = Node \<lparr>n_key = k, n_value = v, n_height = 0, n_size = 1, n_hash = None,
     n_leftHash = None, n_rightHash = None, n_persisted = False\<rparr> None None"

definition MakeNode :: "store_node \<Rightarrow> mnode" where
  "MakeNode sn = Node \<lparr>n_key = sKey sn, n_value = (if sHeight sn = 0 then sValue sn else []),
     n_height = sHeight sn, n_size = sSize sn, n_hash = None,
     n_leftHash = (if sHeight sn = 0 then None else sLeftHash sn),
     n_rightHash = (if sHeight sn = 0 then None else sRightHash sn), n_persisted = False\<rparr> None None"

definition GetNode :: "ndb \<Rightarrow> bytes option \<Rightarrow> mnode option" where
  "GetNode db hash =
     (case hash of
        None \<Rightarrow> None
      | Some h \<Rightarrow>
          (case db h of
             None \<Rightarrow> None
           | Some sn \<Rightarrow>
               (case MakeNode sn of Node d l r \<Rightarrow> Some (Node (d\<lparr>n_hash := Some h, n_persisted := True\<rparr>) l r))))"

definition node_copy :: "mnode \<Rightarrow> mnode option" where
  "node_copy n =
     (if n_height (info n) = 0 then None
      else Some (Node ((info n)\<lparr>n_value := [], n_hash := None, n_persisted := False\<rparr>) (leftNode n) (rightNode n)))"

definition getLeftNode :: "ndb \<Rightarrow> mnode \<Rightarrow> mnode option" where
  "getLeftNode db n = (case leftNode n of Some l \<Rightarrow> Some l | None \<Rightarrow> GetNode db (n_leftHash (info n)))"

definition getRightNode :: "ndb \<Rightarrow> mnode \<Rightarrow> mnode option" where
  "getRightNode db n = (case rightNode n of Some r \<Rightarrow> Some r | None \<Rightarrow> GetNode db (n_rightHash (info n)))"

definition set_left :: "mnode \<Rightarrow> bytes option \<Rightarrow> mnode option \<Rightarrow> mnode" where
  "set_left n h c = Node ((info n)\<lparr>n_leftHash := h\<rparr>) c (rightNode n)"

definition set_right :: "mnode \<Rightarrow> bytes option \<Rightarrow> mnode option \<Rightarrow> mnode" where
  "set_right n h c = Node ((info n)\<lparr>n_rightHash := h\<rparr>) (leftNode n) c"

section \<open>Lookup\<close>

partial_function (option) node_has :: "ndb \<Rightarrow> mnode \<Rightarrow> bytes \<Rightarrow> bool option" where
  "node_has db n k =
     (if n_key (info n) = k then Some True
      else if n_height (info n) = 0 then Some False
      else if k < n_key (info n) then do { l \<leftarrow> getLeftNode db n; node_has db l k }
      else do { r \<leftarrow> getRightNode db n; node_has db r k })"

text \<open>The index of the leaf, and the value where the key exists.\<close>

partial_function (option) node_get :: "ndb \<Rightarrow> mnode \<Rightarrow> bytes \<Rightarrow> (int \<times> bytes option) option" where
  "node_get db n k =
     (if n_height (info n) = 0 then
        Some (if n_key (info n) = k then (0, Some (n_value (info n)))
              else if n_key (info n) < k then (1, None) else (0, None))
      else if k < n_key (info n) then do { l \<leftarrow> getLeftNode db n; node_get db l k }
      else do {
        r \<leftarrow> getRightNode db n;
        (index, v) \<leftarrow> node_get db r k;
        Some (i32 (index + i32 (n_size (info n) - n_size (info r))), v)
      })"

partial_function (option) node_getHash :: "ndb \<Rightarrow> mnode \<Rightarrow> bytes \<Rightarrow> (int \<times> bytes option \<times> bool) option" where
  "node_getHash db n k =
     (if n_height (info n) = 0 then
        Some (if n_key (info n) = k then (0, n_hash (info n), True)
              else if n_key (info n) < k then (1, None, False) else (0, None, False))
      else if k < n_key (info n) then do { l \<leftarrow> getLeftNode db n; node_getHash db l k }
      else do {
        r \<leftarrow> getRightNode db n;
        (index, h, ex) \<leftarrow> node_getHash db r k;
        Some (i32 (index + i32 (n_size (info n) - n_size (info r))), h, ex)
      })"

partial_function (option) node_getByIndex :: "ndb \<Rightarrow> mnode \<Rightarrow> int \<Rightarrow> (bytes \<times> bytes) option" where
  "node_getByIndex db n index =
     (if n_height (info n) = 0 then
        (if index = 0 then Some (n_key (info n), n_value (info n)) else None)
      else do {
        l \<leftarrow> getLeftNode db n;
        if index < n_size (info l) then node_getByIndex db l index
        else do { r \<leftarrow> getRightNode db n; node_getByIndex db r (i32 (index - n_size (info l))) }
      })"

section \<open>Balance\<close>

definition calcHeightAndSize :: "ndb \<Rightarrow> mnode \<Rightarrow> mnode option" where
  "calcHeightAndSize db n = do {
     l \<leftarrow> getLeftNode db n;
     r \<leftarrow> getRightNode db n;
     Some (Node ((info n)\<lparr>n_height := i32 (max (n_height (info l)) (n_height (info r)) + 1),
                          n_size := i32 (n_size (info l) + n_size (info r))\<rparr>) (leftNode n) (rightNode n))
   }"

definition calcBalance :: "ndb \<Rightarrow> mnode \<Rightarrow> int option" where
  "calcBalance db n = do {
     l \<leftarrow> getLeftNode db n;
     r \<leftarrow> getRightNode db n;
     Some (n_height (info l) - n_height (info r))
   }"

definition rotateRight :: "ndb \<Rightarrow> mnode \<Rightarrow> mnode option" where
  "rotateRight db n0 = do {
     n \<leftarrow> node_copy n0;
     l \<leftarrow> getLeftNode db n;
     l1 \<leftarrow> node_copy l;
     n1 \<leftarrow> calcHeightAndSize db (set_left n (n_rightHash (info l1)) (rightNode l1));
     calcHeightAndSize db (set_right l1 (n_hash (info n)) (Some n1))
   }"

definition rotateLeft :: "ndb \<Rightarrow> mnode \<Rightarrow> mnode option" where
  "rotateLeft db n0 = do {
     n \<leftarrow> node_copy n0;
     r \<leftarrow> getRightNode db n;
     r1 \<leftarrow> node_copy r;
     n1 \<leftarrow> calcHeightAndSize db (set_right n (n_leftHash (info r1)) (leftNode r1));
     calcHeightAndSize db (set_left r1 (n_hash (info n)) (Some n1))
   }"

definition balance :: "ndb \<Rightarrow> mnode \<Rightarrow> mnode option" where
  "balance db n =
     (if n_persisted (info n) then None
      else do {
        bal \<leftarrow> calcBalance db n;
        if bal > 1 then do {
          l \<leftarrow> getLeftNode db n;
          lbal \<leftarrow> calcBalance db l;
          if lbal \<ge> 0 then rotateRight db n
          else do { l1 \<leftarrow> rotateLeft db l; rotateRight db (set_left n None (Some l1)) }
        }
        else if bal < - 1 then do {
          r \<leftarrow> getRightNode db n;
          rbal \<leftarrow> calcBalance db r;
          if rbal \<le> 0 then rotateLeft db n
          else do { r1 \<leftarrow> rotateRight db r; rotateLeft db (set_right n None (Some r1)) }
        }
        else Some n
      })"

section \<open>Setting and removing\<close>

definition fork_leaf :: "bytes \<Rightarrow> mnode \<Rightarrow> mnode \<Rightarrow> mnode" where
  "fork_leaf k l r = Node \<lparr>n_key = k, n_value = [], n_height = 1, n_size = 2, n_hash = None,
     n_leftHash = None, n_rightHash = None, n_persisted = False\<rparr> (Some l) (Some r)"

partial_function (option) node_set :: "ndb \<Rightarrow> mnode \<Rightarrow> bytes \<Rightarrow> bytes \<Rightarrow> (mnode \<times> bool) option" where
  "node_set db n k v =
     (if n_height (info n) = 0 then
        Some (if k < n_key (info n) then (fork_leaf (n_key (info n)) (NewNode k v) n, False)
              else if k = n_key (info n) then (NewNode k v, True)
              else (fork_leaf k n (NewNode k v), False))
      else do {
        n1 \<leftarrow> node_copy n;
        (n2, updated) \<leftarrow>
          (if k < n_key (info n1) then do {
             l \<leftarrow> getLeftNode db n1;
             (l', u) \<leftarrow> node_set db l k v;
             Some (set_left n1 None (Some l'), u)
           } else do {
             r \<leftarrow> getRightNode db n1;
             (r', u) \<leftarrow> node_set db r k v;
             Some (set_right n1 None (Some r'), u)
           });
        if updated then Some (n2, True)
        else do { n3 \<leftarrow> calcHeightAndSize db n2; n4 \<leftarrow> balance db n3; Some (n4, False) }
      })"

text \<open>
  What replaces the node (hash and pointer, both nil when a leaf is gone), the new least key
  where it changed, and the removed value; the inner \<open>None\<close> says that nothing was removed.
\<close>

type_synonym removal = "(bytes option \<times> mnode option \<times> bytes option \<times> bytes) option"

partial_function (option) node_remove :: "ndb \<Rightarrow> mnode \<Rightarrow> bytes \<Rightarrow> removal option" where
  "node_remove db n k =
     (if n_height (info n) = 0 then
        Some (if k = n_key (info n) then Some (None, None, None, n_value (info n)) else None)
      else if k < n_key (info n) then do {
        l \<leftarrow> getLeftNode db n;
        res \<leftarrow> node_remove db l k;
        (case res of
           None \<Rightarrow> Some None
         | Some (newHash, newNode, newKey, v) \<Rightarrow>
             if newHash = None \<and> newNode = None
             then Some (Some (n_rightHash (info n), rightNode n, Some (n_key (info n)), v))
             else do {
               n1 \<leftarrow> node_copy n;
               n2 \<leftarrow> calcHeightAndSize db (set_left n1 newHash newNode);
               n3 \<leftarrow> balance db n2;
               Some (Some (n_hash (info n3), Some n3, newKey, v))
             })
      }
      else do {
        r \<leftarrow> getRightNode db n;
        res \<leftarrow> node_remove db r k;
        (case res of
           None \<Rightarrow> Some None
         | Some (newHash, newNode, newKey, v) \<Rightarrow>
             if newHash = None \<and> newNode = None
             then Some (Some (n_leftHash (info n), leftNode n, None, v))
             else do {
               n1 \<leftarrow> node_copy n;
               let n1' = (case newKey of None \<Rightarrow> n1 | Some q \<Rightarrow> Node ((info n1)\<lparr>n_key := q\<rparr>) (leftNode n1) (rightNode n1));
               n2 \<leftarrow> calcHeightAndSize db (set_right n1' newHash newNode);
               n3 \<leftarrow> balance db n2;
               Some (Some (n_hash (info n3), Some n3, None, v))
             })
      })"

section \<open>Hashing and saving\<close>

fun dec_digits :: "nat \<Rightarrow> bytes" where
  "dec_digits n = (if n < 10 then [of_nat (48 + n)] else dec_digits (n div 10) @ [of_nat (48 + n mod 10)])"

declare dec_digits.simps [simp del]

text \<open>The format \<^verbatim>\<open>%010d\<close>.\<close>

definition pad10 :: "int \<Rightarrow> bytes" where
  "pad10 x =
     (let d = dec_digits (nat \<bar>x\<bar>)
      in if x < 0 then 45 # replicate (9 - length d) 48 @ d else replicate (10 - length d) 48 @ d)"

definition leafNodePrefix :: bytes where "leafNodePrefix = [95, 109, 98, 95]"
definition hashNodePrefix :: bytes where "hashNodePrefix = [95, 109, 104, 95]"

definition genPrefixHashKey :: "int \<Rightarrow> int \<Rightarrow> bytes" where
  "genPrefixHashKey h blockHeight =
     (if h = 0 then leafNodePrefix else hashNodePrefix) @ 45 # pad10 blockHeight @ [45]"

definition add_prefix :: "mavl_env \<Rightarrow> int \<Rightarrow> int \<Rightarrow> int \<Rightarrow> bytes \<Rightarrow> bytes" where
  "add_prefix env rootHeight blockHeight h hash =
     (if EnableMavlPrefix env \<and> h \<noteq> rootHeight then genPrefixHashKey h blockHeight @ hash else hash)"

text \<open>
  \<^verbatim>\<open>Hash\<close> stores hashes in the node and its children in memory, so it returns the node
  too. \<open>rootHeight\<close> is \<^verbatim>\<open>t.root.height\<close>.
\<close>

fun node_Hash :: "mavl_env \<Rightarrow> int \<Rightarrow> int \<Rightarrow> mnode \<Rightarrow> (bytes \<times> mnode) option" where
  "node_Hash env rootHeight blockHeight (Node d l r) =
     (case n_hash d of
        Some h \<Rightarrow> Some (h, Node d l r)
      | None \<Rightarrow>
          if n_height d = 0 then
            (let h = add_prefix env rootHeight blockHeight 0 (LeafNode_Hash env (n_key d) (n_value d) (n_height d) (n_size d))
             in Some (h, Node (d\<lparr>n_hash := Some h\<rparr>) l r))
          else
            (case (case l of
                     None \<Rightarrow> Some (n_leftHash d, None)
                   | Some ln \<Rightarrow> map_option (\<lambda>(h, ln'). (Some h, Some ln')) (node_Hash env rootHeight blockHeight ln)) of
               None \<Rightarrow> None
             | Some (None, _) \<Rightarrow> None
             | Some (Some lh, l') \<Rightarrow>
                 (case (case r of
                          None \<Rightarrow> Some (n_rightHash d, None)
                        | Some rn \<Rightarrow> map_option (\<lambda>(h, rn'). (Some h, Some rn')) (node_Hash env rootHeight blockHeight rn)) of
                    None \<Rightarrow> None
                  | Some (None, _) \<Rightarrow> None
                  | Some (Some rh, r') \<Rightarrow>
                      let h = add_prefix env rootHeight blockHeight (n_height d)
                                (InnerNode_Hash env lh rh (n_height d) (n_size d))
                      in Some (h, Node (d\<lparr>n_leftHash := Some lh, n_rightHash := Some rh, n_hash := Some h\<rparr>) l' r'))))"

definition storeNode :: "mavl_env \<Rightarrow> node_data \<Rightarrow> store_node option" where
  "storeNode env d =
     (if n_height d = 0 then
        Some \<lparr>sKey = n_key d, sValue = (if EnableMVCC env then [] else n_value d), sLeftHash = None,
              sRightHash = None, sHeight = n_height d, sSize = n_size d\<rparr>
      else
        (case (n_leftHash d, n_rightHash d) of
           (Some lh, Some rh) \<Rightarrow>
             Some \<lparr>sKey = n_key d, sValue = [], sLeftHash = Some lh, sRightHash = Some rh,
                   sHeight = n_height d, sSize = n_size d\<rparr>
         | _ \<Rightarrow> None))"

text \<open>
  \<^verbatim>\<open>save\<close>: the number of nodes saved, the writes of the batch in order, and the node, now
  persisted and without children in memory.
\<close>

partial_function (option) node_save ::
  "mavl_env \<Rightarrow> int \<Rightarrow> int \<Rightarrow> mnode \<Rightarrow> (int \<times> (bytes \<times> store_node) list \<times> mnode) option" where
  "node_save env rootHeight blockHeight n = do {
     n1 \<leftarrow> (if n_hash (info n) = None then map_option snd (node_Hash env rootHeight blockHeight n) else Some n);
     if n_persisted (info n1) then Some (0, [], n1)
     else do {
       (cl, wl) \<leftarrow> (case leftNode n1 of
                      None \<Rightarrow> Some (0, [])
                    | Some l \<Rightarrow> do { (c, w, l') \<leftarrow> node_save env rootHeight blockHeight l; Some (c, w) });
       (cr, wr) \<leftarrow> (case rightNode n1 of
                      None \<Rightarrow> Some (0, [])
                    | Some r \<Rightarrow> do { (c, w, r') \<leftarrow> node_save env rootHeight blockHeight r; Some (c, w) });
       h \<leftarrow> n_hash (info n1);
       sn \<leftarrow> storeNode env (info n1);
       Some (i64 (cl + cr + 1), wl @ wr @ [(h, sn)], Node ((info n1)\<lparr>n_persisted := True\<rparr>) None None)
     }
   }"

definition write_batch :: "(bytes \<times> store_node) list \<Rightarrow> ndb \<Rightarrow> ndb" where
  "write_batch ws db = fold (\<lambda>(h, sn) m. m(h \<mapsto> sn)) ws db"

section \<open>Trees\<close>

record Tree =
  t_root :: "mnode option"
  t_batch :: bool
  t_blockHeight :: int

definition NewTree :: Tree where
  "NewTree = \<lparr>t_root = None, t_batch = True, t_blockHeight = 0\<rparr>"

definition emptyRoot :: bytes where "emptyRoot = replicate 32 0"

definition Tree_Load :: "ndb \<Rightarrow> Tree \<Rightarrow> bytes option \<Rightarrow> go_error + Tree" where
  "Tree_Load db t hash =
     (case hash of
        None \<Rightarrow> Inr t
      | Some h \<Rightarrow>
          if h \<noteq> emptyRoot then
            (case GetNode db (Some h) of
               None \<Rightarrow> Inl ErrNodeNotExist
             | Some n \<Rightarrow> Inr (t\<lparr>t_root := Some n\<rparr>))
          else Inr t)"

definition Tree_Size :: "Tree \<Rightarrow> int" where
  "Tree_Size t = (case t_root t of None \<Rightarrow> 0 | Some n \<Rightarrow> n_size (info n))"

definition Tree_Height :: "Tree \<Rightarrow> int" where
  "Tree_Height t = (case t_root t of None \<Rightarrow> 0 | Some n \<Rightarrow> n_height (info n))"

definition Tree_Has :: "ndb \<Rightarrow> Tree \<Rightarrow> bytes \<Rightarrow> bool option" where
  "Tree_Has db t k = (case t_root t of None \<Rightarrow> Some False | Some n \<Rightarrow> node_has db n k)"

definition Tree_Set :: "ndb \<Rightarrow> Tree \<Rightarrow> bytes \<Rightarrow> bytes \<Rightarrow> (Tree \<times> bool) option" where
  "Tree_Set db t k v =
     (case t_root t of
        None \<Rightarrow> Some (t\<lparr>t_root := Some (NewNode k v)\<rparr>, False)
      | Some n \<Rightarrow> map_option (\<lambda>(n', u). (t\<lparr>t_root := Some n'\<rparr>, u)) (node_set db n k v))"

definition Tree_Get :: "ndb \<Rightarrow> Tree \<Rightarrow> bytes \<Rightarrow> (int \<times> bytes option) option" where
  "Tree_Get db t k = (case t_root t of None \<Rightarrow> Some (0, None) | Some n \<Rightarrow> node_get db n k)"

definition Tree_GetHash :: "ndb \<Rightarrow> Tree \<Rightarrow> bytes \<Rightarrow> (int \<times> bytes option \<times> bool) option" where
  "Tree_GetHash db t k = (case t_root t of None \<Rightarrow> Some (0, None, False) | Some n \<Rightarrow> node_getHash db n k)"

definition Tree_GetByIndex :: "ndb \<Rightarrow> Tree \<Rightarrow> int \<Rightarrow> (bytes \<times> bytes) option option" where
  "Tree_GetByIndex db t i =
     (case t_root t of None \<Rightarrow> Some None | Some n \<Rightarrow> map_option Some (node_getByIndex db n i))"

definition Tree_Hash :: "mavl_env \<Rightarrow> Tree \<Rightarrow> (bytes option \<times> Tree) option" where
  "Tree_Hash env t =
     (case t_root t of
        None \<Rightarrow> Some (None, t)
      | Some n \<Rightarrow>
          map_option (\<lambda>(h, n'). (Some h, t\<lparr>t_root := Some n'\<rparr>)) (node_Hash env (n_height (info n)) (t_blockHeight t) n))"

text \<open>\<^verbatim>\<open>Save\<close> commits the batch; a tree can commit once, its batch is nil afterwards.\<close>

definition Tree_Save :: "mavl_env \<Rightarrow> ndb \<Rightarrow> Tree \<Rightarrow> (bytes option \<times> ndb \<times> Tree) option" where
  "Tree_Save env db t =
     (case t_root t of
        None \<Rightarrow> Some (None, db, t)
      | Some n \<Rightarrow> do {
          (c, ws, n') \<leftarrow> node_save env (n_height (info n)) (t_blockHeight t) n;
          if t_batch t then Some (n_hash (info n'), write_batch ws db, t\<lparr>t_root := Some n', t_batch := False\<rparr>) else None
        })"

definition Tree_Remove :: "ndb \<Rightarrow> Tree \<Rightarrow> bytes \<Rightarrow> (bytes option \<times> Tree) option" where
  "Tree_Remove db t k =
     (case t_root t of
        None \<Rightarrow> Some (None, t)
      | Some n \<Rightarrow> do {
          res \<leftarrow> node_remove db n k;
          (case res of
             None \<Rightarrow> Some (None, t)
           | Some (newRootHash, newRoot, newKey, v) \<Rightarrow>
               if newRoot = None \<and> newRootHash \<noteq> None then do {
                 root \<leftarrow> GetNode db newRootHash;
                 Some (Some v, t\<lparr>t_root := Some root\<rparr>)
               }
               else Some (Some v, t\<lparr>t_root := newRoot\<rparr>))
        })"

section \<open>Range scans\<close>

partial_function (option) traverseInRange ::
  "ndb \<Rightarrow> bytes option \<Rightarrow> bytes option \<Rightarrow> bool \<Rightarrow> bool \<Rightarrow> (mnode \<Rightarrow> 's \<Rightarrow> bool \<times> 's) \<Rightarrow> mnode \<Rightarrow> 's \<Rightarrow> (bool \<times> 's) option" where
  "traverseInRange db start endk ascending inclusive cb n s = (
     let afterStart = (case start of None \<Rightarrow> True | Some k \<Rightarrow> k \<le> n_key (info n));
         beforeEnd = (case endk of None \<Rightarrow> True | Some k \<Rightarrow> if inclusive then n_key (info n) \<le> k else n_key (info n) < k);
         (stop, s1) = (if afterStart \<and> beforeEnd then cb n s else (False, s))
     in if stop then Some (stop, s1)
        else if n_height (info n) = 0 then Some (stop, s1)
        else if ascending then do {
          (stop, s2) \<leftarrow> (if afterStart then do { l \<leftarrow> getLeftNode db n; traverseInRange db start endk ascending inclusive cb l s1 }
                          else Some (False, s1));
          if stop then Some (stop, s2)
          else (if beforeEnd then do { r \<leftarrow> getRightNode db n; traverseInRange db start endk ascending inclusive cb r s2 }
                          else Some (False, s2))
        }
        else do {
          (stop, s2) \<leftarrow> (if beforeEnd then do { r \<leftarrow> getRightNode db n; traverseInRange db start endk ascending inclusive cb r s1 }
                          else Some (False, s1));
          if stop then Some (stop, s2)
          else (if afterStart then do { l \<leftarrow> getLeftNode db n; traverseInRange db start endk ascending inclusive cb l s2 }
                          else Some (False, s2))
        })"

definition leaf_cb :: "(bytes \<Rightarrow> bytes \<Rightarrow> 's \<Rightarrow> bool \<times> 's) \<Rightarrow> mnode \<Rightarrow> 's \<Rightarrow> bool \<times> 's" where
  "leaf_cb fn n s = (if n_height (info n) = 0 then fn (n_key (info n)) (n_value (info n)) s else (False, s))"

definition IterateRange ::
  "ndb \<Rightarrow> Tree \<Rightarrow> bytes option \<Rightarrow> bytes option \<Rightarrow> bool \<Rightarrow> (bytes \<Rightarrow> bytes \<Rightarrow> 's \<Rightarrow> bool \<times> 's) \<Rightarrow> 's \<Rightarrow> (bool \<times> 's) option" where
  "IterateRange db t start endk ascending fn s =
     (case t_root t of None \<Rightarrow> Some (False, s) | Some n \<Rightarrow> traverseInRange db start endk ascending False (leaf_cb fn) n s)"

definition IterateRangeInclusive ::
  "ndb \<Rightarrow> Tree \<Rightarrow> bytes option \<Rightarrow> bytes option \<Rightarrow> bool \<Rightarrow> (bytes \<Rightarrow> bytes \<Rightarrow> 's \<Rightarrow> bool \<times> 's) \<Rightarrow> 's \<Rightarrow> (bool \<times> 's) option" where
  "IterateRangeInclusive db t start endk ascending fn s =
     (case t_root t of None \<Rightarrow> Some (False, s) | Some n \<Rightarrow> traverseInRange db start endk ascending True (leaf_cb fn) n s)"

definition Iterate :: "ndb \<Rightarrow> Tree \<Rightarrow> (bytes \<Rightarrow> bytes \<Rightarrow> 's \<Rightarrow> bool \<times> 's) \<Rightarrow> 's \<Rightarrow> (bool \<times> 's) option" where
  "Iterate db t fn s =
     (case t_root t of None \<Rightarrow> Some (False, s) | Some n \<Rightarrow> traverseInRange db None None True False (leaf_cb fn) n s)"

section \<open>Proofs of inclusion\<close>

record InnerNode =
  iLeftHash :: "bytes option"
  iRightHash :: "bytes option"
  iHeight :: int
  iSize :: int

record Proof =
  p_LeafHash :: bytes
  p_InnerNodes :: "InnerNode list"
  p_RootHash :: bytes

definition go_bytes :: "bytes option \<Rightarrow> bytes" where
  "go_bytes b = (case b of None \<Rightarrow> [] | Some x \<Rightarrow> x)"

definition InnerNodeProofHash :: "mavl_env \<Rightarrow> bytes \<Rightarrow> InnerNode \<Rightarrow> bytes" where
  "InnerNodeProofHash env childHash b =
     (if length (go_bytes (iLeftHash b)) = 0
      then InnerNode_Hash env childHash (go_bytes (iRightHash b)) (iHeight b) (iSize b)
      else InnerNode_Hash env (go_bytes (iLeftHash b)) childHash (iHeight b) (iSize b))"

text \<open>\<open>Some None\<close>: the key is not in the tree. The inner nodes come from the leaf upwards.\<close>

partial_function (option) node_constructProof ::
  "ndb \<Rightarrow> mnode \<Rightarrow> bytes \<Rightarrow> (bytes \<times> bytes option \<times> InnerNode list) option option" where
  "node_constructProof db n k =
     (if n_height (info n) = 0 then
        Some (if n_key (info n) = k then Some (n_value (info n), n_hash (info n), []) else None)
      else if k < n_key (info n) then do {
        l \<leftarrow> getLeftNode db n;
        res \<leftarrow> node_constructProof db l k;
        (case res of
           None \<Rightarrow> Some None
         | Some (v, lh, inners) \<Rightarrow> do {
             r \<leftarrow> getRightNode db n;
             Some (Some (v, lh, inners @ [\<lparr>iLeftHash = None, iRightHash = n_hash (info r),
               iHeight = n_height (info n), iSize = n_size (info n)\<rparr>]))
           })
      }
      else do {
        r \<leftarrow> getRightNode db n;
        res \<leftarrow> node_constructProof db r k;
        (case res of
           None \<Rightarrow> Some None
         | Some (v, lh, inners) \<Rightarrow> do {
             l \<leftarrow> getLeftNode db n;
             Some (Some (v, lh, inners @ [\<lparr>iLeftHash = n_hash (info l), iRightHash = None,
               iHeight = n_height (info n), iSize = n_size (info n)\<rparr>]))
           })
      })"

definition ConstructProof :: "mavl_env \<Rightarrow> ndb \<Rightarrow> Tree \<Rightarrow> bytes \<Rightarrow> ((bytes \<times> Proof) option \<times> Tree) option" where
  "ConstructProof env db t k =
     (case t_root t of
        None \<Rightarrow> Some (None, t)
      | Some n \<Rightarrow> do {
          (rootHash, n') \<leftarrow> node_Hash env (n_height (info n)) (t_blockHeight t) n;
          res \<leftarrow> node_constructProof db n' k;
          Some (map_option (\<lambda>(v, lh, inners).
                  (v, \<lparr>p_LeafHash = go_bytes lh, p_InnerNodes = inners, p_RootHash = rootHash\<rparr>)) res,
                t\<lparr>t_root := Some n'\<rparr>)
        })"

definition Verify :: "mavl_env \<Rightarrow> Proof \<Rightarrow> bytes \<Rightarrow> bytes \<Rightarrow> bytes \<Rightarrow> bool" where
  "Verify env proof k v root \<longleftrightarrow>
     p_RootHash proof = root \<and>
     (let leafHash = LeafNode_Hash env k v 0 1
      in leafHash = hash_tail (p_LeafHash proof) \<and>
         p_RootHash proof = fold (\<lambda>b h. InnerNodeProofHash env h b) (p_InnerNodes proof) leafHash)"

text \<open>
  \<^verbatim>\<open>VerifyKVPairProof\<close> rebuilds the leaf hash itself. \<open>data\<close> is the decoded proof, \<open>None\<close>
  where it does not decode: the error is logged, and the nil proof is then dereferenced.
\<close>

definition VerifyKVPairProof :: "mavl_env \<Rightarrow> bytes \<Rightarrow> bytes \<Rightarrow> bytes \<Rightarrow> InnerNode list option \<Rightarrow> bool option" where
  "VerifyKVPairProof env root k v data =
     (case data of
        None \<Rightarrow> None
      | Some inners \<Rightarrow>
          Some (Verify env \<lparr>p_LeafHash = LeafNode_Hash env k v 0 1, p_InnerNodes = inners, p_RootHash = root\<rparr> k v root))"

end
