(* ===== verification/Mavl_Store.thy ===== *)
theory Mavl_Store
  imports Mavl
begin

text \<open>
  The store on top of the trees, \<^verbatim>\<open>system/store/mavl/mavl.go\<close> and the functions on a
  database in \<^verbatim>\<open>db/tree.go\<close>: every state is named by the root hash of its tree. A block is
  executed on a tree in memory, kept under its root hash in \<^verbatim>\<open>trees\<close> until a commit writes it.

  As in \<open>Mavl\<close>, an outer \<open>None\<close> is a panic. An entry \<open>Some None\<close> of \<open>ms_trees\<close> is the nil a
  block without changes leaves.
\<close>

section \<open>A database of trees\<close>

primrec set_all :: "ndb \<Rightarrow> (bytes \<times> bytes) list \<Rightarrow> Tree \<Rightarrow> Tree option" where
  "set_all db [] t = Some t"
| "set_all db (kv # kvs) t = do { (t', u) \<leftarrow> Tree_Set db t (fst kv) (snd kv); set_all db kvs t' }"

primrec get_all :: "ndb \<Rightarrow> Tree \<Rightarrow> bytes list \<Rightarrow> bytes option list option" where
  "get_all db t [] = Some []"
| "get_all db t (k # ks) = do { (i, v) \<leftarrow> Tree_Get db t k; vs \<leftarrow> get_all db t ks; Some (v # vs) }"

primrec remove_all :: "ndb \<Rightarrow> bytes list \<Rightarrow> Tree \<Rightarrow> (bytes option list \<times> Tree) option" where
  "remove_all db [] t = Some ([], t)"
| "remove_all db (k # ks) t = do { (v, t1) \<leftarrow> Tree_Remove db t k; (vs, t2) \<leftarrow> remove_all db ks t1; Some (v # vs, t2) }"

definition tree_at :: "int \<Rightarrow> Tree" where
  "tree_at height = NewTree\<lparr>t_blockHeight := height\<rparr>"

definition SetKVPair ::
  "mavl_env \<Rightarrow> ndb \<Rightarrow> bytes option \<Rightarrow> int \<Rightarrow> (bytes \<times> bytes) list \<Rightarrow> ((go_error + bytes option) \<times> ndb) option" where
  "SetKVPair env db stateHash height kvs =
     (case Tree_Load db (tree_at height) stateHash of
        Inl e \<Rightarrow> Some (Inl e, db)
      | Inr t \<Rightarrow> do {
          t1 \<leftarrow> set_all db kvs t;
          (root, db', t2) \<leftarrow> Tree_Save env db t1;
          Some (Inr root, db')
        })"

definition GetKVPair :: "ndb \<Rightarrow> bytes option \<Rightarrow> bytes list \<Rightarrow> (bytes option list \<times> go_error option) option" where
  "GetKVPair db stateHash ks =
     (case Tree_Load db NewTree stateHash of
        Inl e \<Rightarrow> Some (map (\<lambda>_. None) ks, Some e)
      | Inr t \<Rightarrow> do { vs \<leftarrow> get_all db t ks; Some (vs, None) })"

definition DelKVPair ::
  "mavl_env \<Rightarrow> ndb \<Rightarrow> bytes option \<Rightarrow> bytes list \<Rightarrow> ((go_error + bytes option \<times> bytes option list) \<times> ndb) option" where
  "DelKVPair env db stateHash ks =
     (case Tree_Load db NewTree stateHash of
        Inl e \<Rightarrow> Some (Inl e, db)
      | Inr t \<Rightarrow> do {
          (vs, t1) \<leftarrow> remove_all db ks t;
          (root, db', t2) \<leftarrow> Tree_Save env db t1;
          Some (Inr (root, vs), db')
        })"

text \<open>The proof of a key travels as its inner nodes; \<open>None\<close> where the key is not in the tree.\<close>

definition Tree_Proof :: "mavl_env \<Rightarrow> ndb \<Rightarrow> Tree \<Rightarrow> bytes \<Rightarrow> (bytes \<times> InnerNode list) option option" where
  "Tree_Proof env db t k = map_option (\<lambda>(res, t'). map_option (\<lambda>(v, p). (v, p_InnerNodes p)) res) (ConstructProof env db t k)"

definition GetKVPairProof ::
  "mavl_env \<Rightarrow> ndb \<Rightarrow> bytes option \<Rightarrow> bytes \<Rightarrow> (go_error + InnerNode list option) option" where
  "GetKVPairProof env db root k =
     (case Tree_Load db NewTree root of
        Inl e \<Rightarrow> Some (Inl e)
      | Inr t \<Rightarrow> map_option (\<lambda>res. Inr (map_option snd res)) (Tree_Proof env db t k))"

definition IterateRangeByStateHash ::
  "ndb \<Rightarrow> bytes option \<Rightarrow> bytes option \<Rightarrow> bytes option \<Rightarrow> bool \<Rightarrow> (bytes \<Rightarrow> bytes \<Rightarrow> 's \<Rightarrow> bool \<times> 's) \<Rightarrow> 's \<Rightarrow> 's option" where
  "IterateRangeByStateHash db stateHash start endk ascending fn s =
     (case Tree_Load db NewTree stateHash of
        Inl e \<Rightarrow> Some s
      | Inr t \<Rightarrow> map_option snd (IterateRange db t start endk ascending fn s))"

section \<open>The store\<close>

record mavl_store =
  ms_db :: ndb
  ms_trees :: "bytes \<rightharpoonup> Tree option"

definition Store_Set ::
  "mavl_env \<Rightarrow> mavl_store \<Rightarrow> bytes option \<Rightarrow> int \<Rightarrow> (bytes \<times> bytes) list \<Rightarrow> ((go_error + bytes option) \<times> mavl_store) option" where
  "Store_Set env s stateHash height kvs =
     map_option (\<lambda>(res, db'). (res, s\<lparr>ms_db := db'\<rparr>)) (SetKVPair env (ms_db s) stateHash height kvs)"

definition Store_Get :: "mavl_store \<Rightarrow> bytes option \<Rightarrow> bytes list \<Rightarrow> bytes option list option" where
  "Store_Get s stateHash ks =
     (case (case ms_trees s (go_bytes stateHash) of
              Some (Some t) \<Rightarrow> Inr t
            | _ \<Rightarrow> Tree_Load (ms_db s) NewTree stateHash) of
        Inl e \<Rightarrow> Some (map (\<lambda>_. None) ks)
      | Inr t \<Rightarrow> get_all (ms_db s) t ks)"

text \<open>What \<^verbatim>\<open>MemSet\<close> and \<^verbatim>\<open>MemSetUpgrade\<close> share: the tree with the changes, and its hash.\<close>

definition mem_tree ::
  "mavl_env \<Rightarrow> mavl_store \<Rightarrow> bytes option \<Rightarrow> int \<Rightarrow> (bytes \<times> bytes) list \<Rightarrow> (go_error + bytes option \<times> Tree) option" where
  "mem_tree env s stateHash height kvs =
     (case Tree_Load (ms_db s) (tree_at height) stateHash of
        Inl e \<Rightarrow> Some (Inl e)
      | Inr t \<Rightarrow> do {
          t1 \<leftarrow> set_all (ms_db s) kvs t;
          (h, t2) \<leftarrow> Tree_Hash env t1;
          Some (Inr (h, t2))
        })"

definition keep_tree :: "bytes option \<Rightarrow> Tree option \<Rightarrow> mavl_store \<Rightarrow> mavl_store" where
  "keep_tree h t s = s\<lparr>ms_trees := (ms_trees s)(go_bytes h \<mapsto> t)\<rparr>"

definition drop_tree :: "bytes option \<Rightarrow> mavl_store \<Rightarrow> mavl_store" where
  "drop_tree h s = s\<lparr>ms_trees := (ms_trees s)(go_bytes h := None)\<rparr>"

definition Store_MemSet ::
  "mavl_env \<Rightarrow> mavl_store \<Rightarrow> bytes option \<Rightarrow> int \<Rightarrow> (bytes \<times> bytes) list \<Rightarrow> ((go_error + bytes option) \<times> mavl_store) option" where
  "Store_MemSet env s stateHash height kvs =
     (if kvs = [] then Some (Inr stateHash, keep_tree stateHash None s)
      else
        map_option (\<lambda>res. case res of
            Inl e \<Rightarrow> (Inl e, s)
          | Inr (h, t) \<Rightarrow> (Inr h, keep_tree h (Some t) s))
          (mem_tree env s stateHash height kvs))"

definition Store_MemSetUpgrade ::
  "mavl_env \<Rightarrow> mavl_store \<Rightarrow> bytes option \<Rightarrow> int \<Rightarrow> (bytes \<times> bytes) list \<Rightarrow> ((go_error + bytes option) \<times> mavl_store) option" where
  "Store_MemSetUpgrade env s stateHash height kvs =
     (if kvs = [] then Some (Inr stateHash, keep_tree stateHash None s)
      else
        map_option (\<lambda>res. case res of Inl e \<Rightarrow> (Inl e, s) | Inr (h, t) \<Rightarrow> (Inr h, s))
          (mem_tree env s stateHash height kvs))"

definition Store_Commit :: "mavl_env \<Rightarrow> mavl_store \<Rightarrow> bytes option \<Rightarrow> ((go_error + bytes option) \<times> mavl_store) option" where
  "Store_Commit env s h =
     (case ms_trees s (go_bytes h) of
        None \<Rightarrow> Some (Inl ErrHashNotFound, s)
      | Some None \<Rightarrow> Some (Inr h, drop_tree h s)
      | Some (Some t) \<Rightarrow> do {
          (root, db', t') \<leftarrow> Tree_Save env (ms_db s) t;
          (if root = None then Some (Inl ErrDataBaseDamage, s\<lparr>ms_db := db'\<rparr>)
           else Some (Inr h, drop_tree h (s\<lparr>ms_db := db'\<rparr>)))
        })"

definition Store_CommitUpgrade :: "bytes option \<Rightarrow> go_error + bytes option" where
  "Store_CommitUpgrade h = Inr h"

definition Store_Rollback :: "mavl_store \<Rightarrow> bytes option \<Rightarrow> (go_error + bytes option) \<times> mavl_store" where
  "Store_Rollback s h =
     (if ms_trees s (go_bytes h) = None then (Inl ErrHashNotFound, s) else (Inr h, drop_tree h s))"

section \<open>Messages\<close>

text \<open>
  \<^verbatim>\<open>processMessage\<close> of \<^verbatim>\<open>system/store/base.go\<close>: which operation a message runs. Each runs
  in a goroutine of its own; the model runs one at a time. The replies of an operation without
  a root hash are an error.
\<close>

datatype store_msg =
    EventStoreSet "bytes option" int "(bytes \<times> bytes) list"
  | EventStoreGet "bytes option" "bytes list"
  | EventStoreMemSet "bytes option" int "(bytes \<times> bytes) list" bool
  | EventStoreCommit "bytes option" bool
  | EventStoreRollback "bytes option"
  | EventStoreDel
  | EventStoreOther

datatype mavl_reply = ReplyHash "bytes option" | ReplyValues "bytes option list" | ReplyErr go_error

definition hash_reply :: "go_error + bytes option \<Rightarrow> mavl_reply" where
  "hash_reply res = (case res of Inl e \<Rightarrow> ReplyErr e | Inr h \<Rightarrow> ReplyHash h)"

definition processMessage :: "mavl_env \<Rightarrow> mavl_store \<Rightarrow> store_msg \<Rightarrow> (mavl_reply \<times> mavl_store) option" where
  "processMessage env s msg =
     (case msg of
        EventStoreSet sh height kvs \<Rightarrow> map_option (\<lambda>(res, s'). (hash_reply res, s')) (Store_Set env s sh height kvs)
      | EventStoreGet sh ks \<Rightarrow> map_option (\<lambda>vs. (ReplyValues vs, s)) (Store_Get s sh ks)
      | EventStoreMemSet sh height kvs upgrade \<Rightarrow>
          map_option (\<lambda>(res, s'). (hash_reply res, s'))
            (if upgrade then Store_MemSetUpgrade env s sh height kvs else Store_MemSet env s sh height kvs)
      | EventStoreCommit h upgrade \<Rightarrow>
          map_option (\<lambda>(res, s'). (case res of
              Inr (Some r) \<Rightarrow> ReplyHash (Some r)
            | _ \<Rightarrow> ReplyErr ErrHashNotFound, s'))
            (if upgrade then Some (Store_CommitUpgrade h, s) else Store_Commit env s h)
      | EventStoreRollback h \<Rightarrow>
          (case Store_Rollback s h of
             (Inl e, s') \<Rightarrow> Some (ReplyErr ErrHashNotFound, s')
           | (Inr r, s') \<Rightarrow> Some (ReplyHash r, s'))
      | EventStoreDel \<Rightarrow> Some (ReplyHash None, s)
      | EventStoreOther \<Rightarrow> Some (ReplyErr ErrActionNotSupport, s))"

end
