(* ===== verification/Mavl_Tree.thy ===== *)
theory Mavl_Tree
  imports Omni_Prelude "HOL-Library.List_Lexorder" "HOL-Library.Word"
begin

text \<open>
  The specification of the state tree: a balanced search tree with the data in its leaves, as a
  plain datatype without hashes, sizes or a database. An inner node carries the least key of its
  right subtree. The operations of \<^verbatim>\<open>system/store/mavl/db\<close> are proved to implement the ones
  here, and the ones here to implement updates of a sorted list of keys and values.
\<close>

section \<open>Trees\<close>

datatype atree = Tip bytes bytes | Bin bytes atree atree

fun ht :: "atree \<Rightarrow> nat" where
  "ht (Tip k v) = 0"
| "ht (Bin k l r) = Suc (max (ht l) (ht r))"

fun sz :: "atree \<Rightarrow> nat" where
  "sz (Tip k v) = 1"
| "sz (Bin k l r) = sz l + sz r"

fun inorder :: "atree \<Rightarrow> (bytes \<times> bytes) list" where
  "inorder (Tip k v) = [(k, v)]"
| "inorder (Bin k l r) = inorder l @ inorder r"

fun minkey :: "atree \<Rightarrow> bytes" where
  "minkey (Tip k v) = k"
| "minkey (Bin k l r) = minkey l"

fun avl :: "atree \<Rightarrow> bool" where
  "avl (Tip k v) \<longleftrightarrow> True"
| "avl (Bin k l r) \<longleftrightarrow> ht l \<le> Suc (ht r) \<and> ht r \<le> Suc (ht l) \<and> avl l \<and> avl r"

fun keyed :: "atree \<Rightarrow> bool" where
  "keyed (Tip k v) \<longleftrightarrow> True"
| "keyed (Bin k l r) \<longleftrightarrow> k = minkey r \<and> keyed l \<and> keyed r"

abbreviation keys :: "atree \<Rightarrow> bytes list" where
  "keys t \<equiv> map fst (inorder t)"

definition tree_ok :: "atree \<Rightarrow> bool" where
  "tree_ok t \<longleftrightarrow> avl t \<and> keyed t \<and> sorted_wrt (<) (keys t)"

lemma inorder_ne [simp]: "inorder t \<noteq> []" by (induction t) auto

lemma hd_inorder: "hd (keys t) = minkey t" by (induction t) (auto simp: hd_append)

lemma minkey_in: "minkey t \<in> set (keys t)" by (induction t) auto

lemma length_inorder [simp]: "length (inorder t) = sz t" by (induction t) auto

lemma ht_less_sz: "ht t < sz t" by (induction t) auto

lemma sz_pos [simp]: "0 < sz t" using ht_less_sz [of t] by simp

lemma minkey_least: "sorted_wrt (<) (keys t) \<Longrightarrow> k \<in> set (keys t) \<Longrightarrow> minkey t \<le> k"
  using hd_inorder [of t] by (cases "inorder t") (auto simp: less_imp_le)

text \<open>Balanced trees are shallow: a tree of height \<open>h\<close> has at least \<open>2 ^ (h div 2)\<close> leaves.\<close>

lemma avl_shallow: "avl t \<Longrightarrow> 2 ^ (ht t div 2) \<le> sz t"
proof (induction t rule: measure_induct_rule [of ht])
  case (less t)
  show ?case
  proof (cases "ht t < 2")
    case True
    then have "(2 :: nat) ^ (ht t div 2) = 1" by simp
    then show ?thesis using sz_pos [of t] by linarith
  next
    case False
    then obtain k l r where t: "t = Bin k l r" by (cases t) auto
    obtain h where h: "ht t = Suc (Suc h)" using False le_Suc_ex [of 2 "ht t"] by auto
    have "h \<le> ht l" "h \<le> ht r" using less.prems h by (auto simp: t max_def split: if_splits)
    have sub: "2 ^ (h div 2) \<le> sz u" if "u = l \<or> u = r" for u
    proof -
      have "h div 2 \<le> ht u div 2" using that \<open>h \<le> ht l\<close> \<open>h \<le> ht r\<close> by (auto intro: div_le_mono)
      then have "(2 :: nat) ^ (h div 2) \<le> 2 ^ (ht u div 2)" by (rule power_increasing) simp
      also have "\<dots> \<le> sz u" using less that by (auto simp: t)
      finally show ?thesis .
    qed
    show ?thesis using h sub [of l] sub [of r] by (simp add: t)
  qed
qed

section \<open>Balancing\<close>

fun rot_right :: "atree \<Rightarrow> atree" where
  "rot_right (Bin k (Bin lk ll lr) r) = Bin lk ll (Bin k lr r)"
| "rot_right t = t"

fun rot_left :: "atree \<Rightarrow> atree" where
  "rot_left (Bin k l (Bin rk rl rr)) = Bin rk (Bin k l rl) rr"
| "rot_left t = t"

fun tilt :: "atree \<Rightarrow> int" where
  "tilt (Tip k v) = 0"
| "tilt (Bin k l r) = int (ht l) - int (ht r)"

fun rebalance :: "atree \<Rightarrow> atree" where
  "rebalance (Bin k l r) =
     (if int (ht l) - int (ht r) > 1 then
        (if tilt l \<ge> 0 then rot_right (Bin k l r) else rot_right (Bin k (rot_left l) r))
      else if int (ht l) - int (ht r) < - 1 then
        (if tilt r \<le> 0 then rot_left (Bin k l r) else rot_left (Bin k l (rot_right r)))
      else Bin k l r)"
| "rebalance t = t"

lemma inorder_rot [simp]: "inorder (rot_right t) = inorder t" "inorder (rot_left t) = inorder t"
  by (cases t rule: rot_right.cases; simp) (cases t rule: rot_left.cases; simp)

lemma minkey_rot [simp]: "minkey (rot_right t) = minkey t" "minkey (rot_left t) = minkey t"
  by (cases t rule: rot_right.cases; simp) (cases t rule: rot_left.cases; simp)

lemma keyed_rot [simp]: "keyed t \<Longrightarrow> keyed (rot_right t)" "keyed t \<Longrightarrow> keyed (rot_left t)"
  by (cases t rule: rot_right.cases; simp) (cases t rule: rot_left.cases; simp)

lemma rebalance_simps [simp]:
  "inorder (rebalance t) = inorder t" "minkey (rebalance t) = minkey t" "sz (rebalance t) = sz t"
proof -
  show io: "inorder (rebalance t) = inorder t" by (cases t) (simp_all add: Let_def)
  show "minkey (rebalance t) = minkey t" using io hd_inorder by metis
  show "sz (rebalance t) = sz t" using io length_inorder by metis
qed

lemma keyed_rebalance: "keyed t \<Longrightarrow> keyed (rebalance t)"
  by (cases t) auto

text \<open>The two sides of \<^verbatim>\<open>balance\<close>, one per direction.\<close>

lemma rebalance_left:
  assumes "avl l" "avl r" "ht l = ht r + 2"
  shows "avl (rebalance (Bin k l r)) \<and> ht (rebalance (Bin k l r)) \<in> {ht l, Suc (ht l)}"
proof -
  obtain lk ll lr where l: "l = Bin lk ll lr" using assms(3) by (cases l) auto
  show ?thesis
  proof (cases "ht lr \<le> ht ll")
    case True
    then show ?thesis using assms by (auto simp: l max_def split: if_splits)
  next
    case False
    then obtain mk ml mr where "lr = Bin mk ml mr" by (cases lr) auto
    then show ?thesis using assms False by (auto simp: l max_def split: if_splits)
  qed
qed

lemma rebalance_right:
  assumes "avl l" "avl r" "ht r = ht l + 2"
  shows "avl (rebalance (Bin k l r)) \<and> ht (rebalance (Bin k l r)) \<in> {ht r, Suc (ht r)}"
proof -
  obtain rk rl rr where r: "r = Bin rk rl rr" using assms(3) by (cases r) auto
  show ?thesis
  proof (cases "ht rl \<le> ht rr")
    case True
    then show ?thesis using assms by (auto simp: r max_def split: if_splits)
  next
    case False
    then obtain mk ml mr where "rl = Bin mk ml mr" by (cases rl) auto
    then show ?thesis using assms False by (auto simp: r max_def split: if_splits)
  qed
qed

lemma rebalance_avl:
  assumes "avl l" "avl r" "ht l \<le> ht r + 2" "ht r \<le> ht l + 2"
  shows "avl (rebalance (Bin k l r)) \<and>
    ht (rebalance (Bin k l r)) \<in> {max (ht l) (ht r), Suc (max (ht l) (ht r))} \<and>
    (ht l \<le> Suc (ht r) \<longrightarrow> ht r \<le> Suc (ht l) \<longrightarrow> rebalance (Bin k l r) = Bin k l r)"
proof -
  consider "ht l = ht r + 2" | "ht r = ht l + 2" | "ht l \<le> Suc (ht r)" "ht r \<le> Suc (ht l)" using assms(3,4) by linarith
  then show ?thesis
  proof cases
    case 1
    then show ?thesis using rebalance_left [OF assms(1,2) 1, of k] by (auto simp del: rebalance.simps)
  next
    case 2
    then show ?thesis using rebalance_right [OF assms(1,2) 2, of k] by (auto simp del: rebalance.simps)
  next
    case 3
    then have "rebalance (Bin k l r) = Bin k l r" by auto
    then show ?thesis using 3 assms(1,2) by (simp del: rebalance.simps)
  qed
qed

declare rebalance.simps [simp del]

section \<open>Sorted lists of keys and values\<close>

definition kv_set :: "bytes \<Rightarrow> bytes \<Rightarrow> (bytes \<times> bytes) list \<Rightarrow> (bytes \<times> bytes) list" where
  "kv_set k v xs = filter (\<lambda>x. fst x < k) xs @ (k, v) # filter (\<lambda>x. k < fst x) xs"

definition kv_del :: "bytes \<Rightarrow> (bytes \<times> bytes) list \<Rightarrow> (bytes \<times> bytes) list" where
  "kv_del k xs = filter (\<lambda>x. fst x \<noteq> k) xs"

lemma sorted_kv_set: "sorted_wrt (<) (map fst xs) \<Longrightarrow> sorted_wrt (<) (map fst (kv_set k v xs))"
  by (auto simp: kv_set_def sorted_wrt_append sorted_wrt_map sorted_wrt_filter)

lemma sorted_kv_del: "sorted_wrt (<) (map fst xs) \<Longrightarrow> sorted_wrt (<) (map fst (kv_del k xs))"
  by (simp add: kv_del_def sorted_wrt_map sorted_wrt_filter)

lemma length_kv_set: "length (kv_set k v xs) \<le> Suc (length xs)"
  by (induction xs) (auto simp: kv_set_def)

definition kv_sets :: "(bytes \<times> bytes) list \<Rightarrow> (bytes \<times> bytes) list \<Rightarrow> (bytes \<times> bytes) list" where
  "kv_sets kvs xs = fold (\<lambda>kv. kv_set (fst kv) (snd kv)) kvs xs"

lemma kv_sets_simps [simp]: "kv_sets [] xs = xs" "kv_sets (kv # kvs) xs = kv_sets kvs (kv_set (fst kv) (snd kv) xs)"
  by (simp_all add: kv_sets_def)

lemma length_kv_sets: "length (kv_sets kvs xs) \<le> length xs + length kvs"
proof (induction kvs arbitrary: xs)
  case (Cons kv kvs)
  have "length (kv_sets kvs (kv_set (fst kv) (snd kv) xs)) \<le> length (kv_set (fst kv) (snd kv) xs) + length kvs" by (rule Cons)
  then show ?case using length_kv_set [of "fst kv" "snd kv" xs] by simp
qed simp

lemma map_of_kv_set: "sorted_wrt (<) (map fst xs) \<Longrightarrow> map_of (kv_set k v xs) = (map_of xs)(k \<mapsto> v)"
proof
  fix q assume s: "sorted_wrt (<) (map fst xs)"
  have f: "map_of (filter (\<lambda>x. P (fst x)) xs) q = (if P q then map_of xs q else None)" for P
    by (induction xs) auto
  show "map_of (kv_set k v xs) q = ((map_of xs)(k \<mapsto> v)) q"
    using f [of "\<lambda>x. x < k"] f [of "\<lambda>x. k < x"]
    by (auto simp: kv_set_def map_add_def split: option.splits)
qed

lemma map_of_kv_sets: "sorted_wrt (<) (map fst xs) \<Longrightarrow> map_of (kv_sets kvs xs) = fold (\<lambda>kv m. m(fst kv \<mapsto> snd kv)) kvs (map_of xs)"
  by (induction kvs arbitrary: xs) (simp_all add: map_of_kv_set sorted_kv_set)

lemma map_of_kv_del: "map_of (kv_del k xs) = (map_of xs)(k := None)"
  by (rule ext, induction xs) (auto simp: kv_del_def)

lemma kv_set_append:
  "\<forall>x\<in>set xs. fst x < q \<Longrightarrow> \<forall>y\<in>set ys. q \<le> fst y \<Longrightarrow>
   kv_set k v (xs @ ys) = (if k < q then kv_set k v xs @ ys else xs @ kv_set k v ys)"
proof (cases "k < q")
  assume xs: "\<forall>x\<in>set xs. fst x < q" and ys: "\<forall>y\<in>set ys. q \<le> fst y"
  {
    case True
    then have "filter (\<lambda>x. fst x < k) ys = []" "filter (\<lambda>x. k < fst x) ys = ys"
      using ys by (auto simp: filter_empty_conv filter_id_conv)
    then show ?thesis using True by (simp add: kv_set_def)
  next
    case False
    then have "filter (\<lambda>x. k < fst x) xs = []" "filter (\<lambda>x. fst x < k) xs = xs"
      using xs by (auto simp: filter_empty_conv filter_id_conv)
    then show ?thesis using False by (simp add: kv_set_def)
  }
qed

lemma kv_del_append:
  "\<forall>x\<in>set xs. fst x < q \<Longrightarrow> \<forall>y\<in>set ys. q \<le> fst y \<Longrightarrow>
   kv_del k (xs @ ys) = (if k < q then kv_del k xs @ ys else xs @ kv_del k ys)"
  by (auto simp: kv_del_def intro!: filter_True)

lemma sorted_parts:
  assumes "sorted_wrt (<) (keys (Bin k l r))" "keyed (Bin k l r)"
  shows "\<forall>x\<in>set (inorder l). fst x < k" "\<forall>x\<in>set (inorder r). k \<le> fst x"
    "sorted_wrt (<) (keys l)" "sorted_wrt (<) (keys r)"
proof -
  show s: "sorted_wrt (<) (keys l)" "sorted_wrt (<) (keys r)" using assms(1) by (simp_all add: sorted_wrt_append)
  show "\<forall>x\<in>set (inorder l). fst x < k" using assms minkey_in [of r] by (force simp: sorted_wrt_append)
  show "\<forall>x\<in>set (inorder r). k \<le> fst x" using assms(2) minkey_least [OF s(2)] by auto
qed

section \<open>Setting and removing\<close>

fun aset :: "bytes \<Rightarrow> bytes \<Rightarrow> atree \<Rightarrow> atree \<times> bool" where
  "aset k v (Tip k' v') =
     (if k < k' then (Bin k' (Tip k v) (Tip k' v'), False)
      else if k = k' then (Tip k v, True)
      else (Bin k (Tip k' v') (Tip k v), False))"
| "aset k v (Bin q l r) =
     (if k < q then (let (l', u) = aset k v l in (if u then Bin q l' r else rebalance (Bin q l' r), u))
      else (let (r', u) = aset k v r in (if u then Bin q l r' else rebalance (Bin q l r'), u)))"

fun aremove :: "bytes \<Rightarrow> atree \<Rightarrow> (atree option \<times> bytes option \<times> bytes) option" where
  "aremove k (Tip k' v') = (if k = k' then Some (None, None, v') else None)"
| "aremove k (Bin q l r) =
     (if k < q then
        (case aremove k l of
           None \<Rightarrow> None
         | Some (None, newKey, v) \<Rightarrow> Some (Some r, Some q, v)
         | Some (Some l', newKey, v) \<Rightarrow> Some (Some (rebalance (Bin q l' r)), newKey, v))
      else
        (case aremove k r of
           None \<Rightarrow> None
         | Some (None, newKey, v) \<Rightarrow> Some (Some l, None, v)
         | Some (Some r', newKey, v) \<Rightarrow>
             Some (Some (rebalance (Bin (case newKey of None \<Rightarrow> q | Some q' \<Rightarrow> q') l r')), None, v)))"

lemma aset_same: "aset k v t = (t', True) \<Longrightarrow> ht t' = ht t \<and> sz t' = sz t \<and> minkey t' = minkey t"
  by (induction k v t arbitrary: t' rule: aset.induct) (auto split: if_splits prod.splits)

lemma aset_inorder:
  "keyed t \<Longrightarrow> sorted_wrt (<) (keys t) \<Longrightarrow>
   inorder (fst (aset k v t)) = kv_set k v (inorder t) \<and> (snd (aset k v t) \<longleftrightarrow> k \<in> set (keys t))"
proof (induction k v t rule: aset.induct)
  case (1 k v k' v')
  then show ?case by (auto simp: kv_set_def)
next
  case (2 k v q l r)
  note p = sorted_parts [OF "2.prems"(2,1)]
  show ?case
    using 2 p by (cases "k < q") (auto simp: kv_set_append [OF p(1,2)] split: prod.splits)
qed

lemma aset_minkey: "minkey (fst (aset k v t)) = (if snd (aset k v t) then minkey t else minkey (fst (aset k v t)))"
  using aset_same [of k v t] by (cases "aset k v t") auto

lemma aset_keyed:
  "keyed t \<Longrightarrow> sorted_wrt (<) (keys t) \<Longrightarrow> keyed (fst (aset k v t))"
proof (induction k v t rule: aset.induct)
  case (2 k v q l r)
  note p = sorted_parts [OF "2.prems"(2,1)]
  show ?case
  proof (cases "k < q")
    case True
    then show ?thesis using 2 p(3) by (auto split: prod.splits intro: keyed_rebalance)
  next
    case False
    have "minkey (fst (aset k v r)) = q"
    proof -
      have "minkey (fst (aset k v r)) = hd (map fst (kv_set k v (inorder r)))"
        using aset_inorder [of r k v] "2.prems"(1) p(4) hd_inorder by (metis keyed.simps(2))
      also have "\<dots> = q"
        using False p(2) "2.prems"(1) hd_inorder [of r] p(4)
        by (cases "inorder r") (auto simp: kv_set_def not_less filter_empty_conv less_imp_le antisym_conv1)
      finally show ?thesis .
    qed
    then show ?thesis using False 2 p(4) by (auto split: prod.splits intro: keyed_rebalance)
  qed
qed auto

lemma aset_avl: "avl t \<Longrightarrow> avl (fst (aset k v t)) \<and> ht (fst (aset k v t)) \<in> {ht t, Suc (ht t)}"
proof (induction k v t rule: aset.induct)
  case (2 k v q l r)
  show ?case
  proof (cases "k < q")
    case True
    obtain l' u where l': "aset k v l = (l', u)" by fastforce
    then have ih: "avl l'" "ht l' \<in> {ht l, Suc (ht l)}" "u \<Longrightarrow> ht l' = ht l"
      using 2 True aset_same [of k v l l'] by auto
    show ?thesis
    proof (cases u)
      case False
      have "avl (rebalance (Bin q l' r)) \<and> ht (rebalance (Bin q l' r)) \<in> {max (ht l') (ht r), Suc (max (ht l') (ht r))} \<and>
        (ht l' \<le> Suc (ht r) \<longrightarrow> ht r \<le> Suc (ht l') \<longrightarrow> rebalance (Bin q l' r) = Bin q l' r)"
        using ih "2.prems" by (intro rebalance_avl) auto
      then show ?thesis using True False l' ih "2.prems" by (fastforce simp: max_def)
    qed (use True l' ih 2 in auto)
  next
    case False
    obtain r' u where r': "aset k v r = (r', u)" by fastforce
    then have ih: "avl r'" "ht r' \<in> {ht r, Suc (ht r)}" "u \<Longrightarrow> ht r' = ht r"
      using 2 False aset_same [of k v r r'] by auto
    show ?thesis
    proof (cases u)
      case no: False
      have "avl (rebalance (Bin q l r')) \<and> ht (rebalance (Bin q l r')) \<in> {max (ht l) (ht r'), Suc (max (ht l) (ht r'))} \<and>
        (ht l \<le> Suc (ht r') \<longrightarrow> ht r' \<le> Suc (ht l) \<longrightarrow> rebalance (Bin q l r') = Bin q l r')"
        using ih "2.prems" by (intro rebalance_avl) auto
      then show ?thesis using False no r' ih "2.prems" by (fastforce simp: max_def)
    qed (use False r' ih 2 in auto)
  qed
qed auto

text \<open>Removing: what is left, the removed value, and the least key after it.\<close>

lemma aremove_inorder:
  "keyed t \<Longrightarrow> sorted_wrt (<) (keys t) \<Longrightarrow>
   case aremove k t of
     None \<Rightarrow> k \<notin> set (keys t)
   | Some (t', newKey, v) \<Rightarrow> map_of (inorder t) k = Some v \<and>
       (case t' of None \<Rightarrow> kv_del k (inorder t) = [] | Some u \<Rightarrow> inorder u = kv_del k (inorder t))"
proof (induction k t rule: aremove.induct)
  case (1 k k' v')
  then show ?case by (auto simp: kv_del_def)
next
  case (2 k q l r)
  note p = sorted_parts [OF "2.prems"(2,1)]
  show ?case
  proof (cases "k < q")
    case True
    have ih: "case aremove k l of None \<Rightarrow> k \<notin> set (keys l)
      | Some (t', newKey, v) \<Rightarrow> map_of (inorder l) k = Some v \<and>
       (case t' of None \<Rightarrow> kv_del k (inorder l) = [] | Some u \<Rightarrow> inorder u = kv_del k (inorder l))"
      using 2 p(3) True by simp
    have "k \<notin> set (keys r)" using p(2) True by force
    moreover from this have "map_of (inorder r) k = None" by (simp add: map_of_eq_None_iff)
    ultimately show ?thesis using ih True
      by (auto simp: kv_del_append [OF p(1,2)] map_add_def split: option.splits)
  next
    case False
    have ih: "case aremove k r of None \<Rightarrow> k \<notin> set (keys r)
      | Some (t', newKey, v) \<Rightarrow> map_of (inorder r) k = Some v \<and>
       (case t' of None \<Rightarrow> kv_del k (inorder r) = [] | Some u \<Rightarrow> inorder u = kv_del k (inorder r))"
      using 2 p(4) False by simp
    have "k \<notin> set (keys l)" using p(1) False by force
    moreover from this have "map_of (inorder l) k = None" by (simp add: map_of_eq_None_iff)
    ultimately show ?thesis using ih False
      by (auto simp: kv_del_append [OF p(1,2)] map_add_def split: option.splits)
  qed
qed

lemma aremove_minkey:
  "keyed t \<Longrightarrow> aremove k t = Some (Some t', newKey, v) \<Longrightarrow>
   minkey t' = (case newKey of None \<Rightarrow> minkey t | Some q \<Rightarrow> q)"
proof (induction k t arbitrary: t' newKey v rule: aremove.induct)
  case (2 k q l r)
  show ?case
  proof (cases "k < q")
    case True
    with 2 show ?thesis by (cases "aremove k l") (auto split: option.splits)
  next
    case False
    with 2 show ?thesis by (cases "aremove k r") (auto split: option.splits)
  qed
qed (simp split: if_splits)

lemma aremove_keyed: "keyed t \<Longrightarrow> aremove k t = Some (Some t', newKey, v) \<Longrightarrow> keyed t'"
proof (induction k t arbitrary: t' newKey v rule: aremove.induct)
  case (2 k q l r)
  show ?case
  proof (cases "k < q")
    case True
    then show ?thesis using 2 by (auto split: option.splits intro!: keyed_rebalance)
  next
    case False
    then show ?thesis using 2 aremove_minkey [of r k]
      by (auto split: option.splits intro!: keyed_rebalance)
  qed
qed (auto split: if_splits)

lemma aremove_avl:
  "avl t \<Longrightarrow> aremove k t = Some (t', newKey, v) \<Longrightarrow>
   case t' of None \<Rightarrow> ht t = 0 | Some u \<Rightarrow> avl u \<and> ht t \<in> {ht u, Suc (ht u)} \<and> sz t = Suc (sz u)"
proof (induction k t arbitrary: t' newKey v rule: aremove.induct)
  case (2 k q l r)
  show ?case
  proof (cases "k < q")
    case True
    then obtain l' nk v' where l': "aremove k l = Some (l', nk, v')" using "2.prems"(2) by (auto split: option.splits)
    have ih: "case l' of None \<Rightarrow> ht l = 0 | Some u \<Rightarrow> avl u \<and> ht l \<in> {ht u, Suc (ht u)} \<and> sz l = Suc (sz u)"
      using "2.IH"(1) [OF True _ l'] "2.prems"(1) by simp
    show ?thesis
    proof (cases l')
      case None
      then have "l' = None" "ht l = 0" "sz l = 1" using ih by (auto, cases l, auto)
      then show ?thesis using True l' "2.prems" by (auto simp: max_def)
    next
      case (Some u)
      then have u: "avl u" "ht l \<in> {ht u, Suc (ht u)}" "sz l = Suc (sz u)" using ih by auto
      have "avl (rebalance (Bin q u r)) \<and> ht (rebalance (Bin q u r)) \<in> {max (ht u) (ht r), Suc (max (ht u) (ht r))} \<and>
        (ht u \<le> Suc (ht r) \<longrightarrow> ht r \<le> Suc (ht u) \<longrightarrow> rebalance (Bin q u r) = Bin q u r)"
        using u "2.prems" by (intro rebalance_avl) auto
      then show ?thesis using True Some l' u "2.prems" by (fastforce simp: max_def)
    qed
  next
    case False
    then obtain r' nk v' where r': "aremove k r = Some (r', nk, v')" using "2.prems"(2) by (auto split: option.splits)
    have ih: "case r' of None \<Rightarrow> ht r = 0 | Some u \<Rightarrow> avl u \<and> ht r \<in> {ht u, Suc (ht u)} \<and> sz r = Suc (sz u)"
      using "2.IH"(2) [OF False _ r'] "2.prems"(1) by simp
    show ?thesis
    proof (cases r')
      case None
      then have "r' = None" "ht r = 0" "sz r = 1" using ih by (auto, cases r, auto)
      then show ?thesis using False r' "2.prems" by (auto simp: max_def)
    next
      case (Some u)
      let ?q = "case nk of None \<Rightarrow> q | Some q' \<Rightarrow> q'"
      have u: "avl u" "ht r \<in> {ht u, Suc (ht u)}" "sz r = Suc (sz u)" using ih Some by auto
      have "avl (rebalance (Bin ?q l u)) \<and> ht (rebalance (Bin ?q l u)) \<in> {max (ht l) (ht u), Suc (max (ht l) (ht u))} \<and>
        (ht l \<le> Suc (ht u) \<longrightarrow> ht u \<le> Suc (ht l) \<longrightarrow> rebalance (Bin ?q l u) = Bin ?q l u)"
        using u "2.prems" by (intro rebalance_avl) auto
      then show ?thesis using False Some r' u "2.prems" by (fastforce simp: max_def)
    qed
  qed
qed (auto split: if_splits)

text \<open>The operations keep a tree well formed and act on its sorted list.\<close>

lemma aset_ok:
  assumes "tree_ok t" "aset k v t = (t', u)"
  shows "tree_ok t' \<and> inorder t' = kv_set k v (inorder t) \<and> (u \<longleftrightarrow> k \<in> set (keys t))"
  using assms aset_inorder [of t k v] aset_keyed [of t k v] aset_avl [of t k v] sorted_kv_set [of "inorder t" k v]
  by (simp add: tree_ok_def)

lemma aremove_ok:
  assumes "tree_ok t" "aremove k t = Some (Some t', newKey, v)"
  shows "tree_ok t' \<and> inorder t' = kv_del k (inorder t) \<and> map_of (inorder t) k = Some v"
  using assms aremove_inorder [of t k] aremove_keyed [of t k] aremove_avl [of t k] sorted_kv_del [of "inorder t" k]
  by (auto simp: tree_ok_def)

end
