(* ===== verification/Mavl_Theorems.thy ===== *)
theory Mavl_Theorems
  imports Mavl Mavl_Tree
begin

text \<open>
  The tree of nodes, hashes and database records implements the plain tree of \<open>Mavl_Tree\<close>:
  \<open>rep\<close> relates a node to the tree it stands for, whose children may be in memory or in the
  database, and every operation of \<open>Mavl\<close> commutes with it and does not panic.
\<close>

section \<open>What a node stands for\<close>

fun ahash :: "mavl_env \<Rightarrow> atree \<Rightarrow> bytes" where
  "ahash env (Tip k v) = LeafNode_Hash env k v 0 1"
| "ahash env (Bin k l r) = InnerNode_Hash env (ahash env l) (ahash env r) (int (ht (Bin k l r))) (int (sz (Bin k l r)))"

fun store_of :: "mavl_env \<Rightarrow> atree \<Rightarrow> store_node" where
  "store_of env (Tip k v) = \<lparr>sKey = k, sValue = v, sLeftHash = None, sRightHash = None, sHeight = 0, sSize = 1\<rparr>"
| "store_of env (Bin k l r) = \<lparr>sKey = k, sValue = [], sLeftHash = Some (ahash env l), sRightHash = Some (ahash env r),
     sHeight = int (ht (Bin k l r)), sSize = int (sz (Bin k l r))\<rparr>"

fun subtrees :: "atree \<Rightarrow> atree set" where
  "subtrees (Tip k v) = {Tip k v}"
| "subtrees (Bin k l r) = insert (Bin k l r) (subtrees l \<union> subtrees r)"

definition in_store :: "mavl_env \<Rightarrow> ndb \<Rightarrow> atree \<Rightarrow> bool" where
  "in_store env db t \<longleftrightarrow> (\<forall>s\<in>subtrees t. db (ahash env s) = Some (store_of env s))"

lemma self_subtree [simp]: "t \<in> subtrees t" by (cases t) simp_all

lemma in_store_Bin: "in_store env db (Bin k l r) \<longleftrightarrow>
    db (ahash env (Bin k l r)) = Some (store_of env (Bin k l r)) \<and> in_store env db l \<and> in_store env db r"
  by (auto simp: in_store_def simp del: ahash.simps store_of.simps)

lemma in_store_mono: "in_store env db t \<Longrightarrow> db \<subseteq>\<^sub>m db' \<Longrightarrow> in_store env db' t"
  by (auto simp: in_store_def map_le_def dom_def)

definition hash_ok :: "mavl_env \<Rightarrow> ndb \<Rightarrow> atree \<Rightarrow> mnode \<Rightarrow> bool" where
  "hash_ok env db t n \<longleftrightarrow> n_hash (info n) \<in> {None, Some (ahash env t)} \<and>
     (n_persisted (info n) \<longrightarrow> n_hash (info n) = Some (ahash env t) \<and> in_store env db t)"

definition hashed_kid :: "mnode option \<Rightarrow> bool" where
  "hashed_kid c \<longleftrightarrow> (case c of None \<Rightarrow> True | Some n \<Rightarrow> n_hash (info n) \<noteq> None)"

lemma hashed_kid_simps [simp]: "hashed_kid None" "hashed_kid (Some n) \<longleftrightarrow> n_hash (info n) \<noteq> None"
  by (simp_all add: hashed_kid_def)

primrec rep :: "mavl_env \<Rightarrow> ndb \<Rightarrow> atree \<Rightarrow> mnode \<Rightarrow> bool" where
  "rep env db (Tip k v) n \<longleftrightarrow> n_height (info n) = 0 \<and> n_size (info n) = 1 \<and> n_key (info n) = k \<and>
     n_value (info n) = v \<and> leftNode n = None \<and> rightNode n = None \<and> hash_ok env db (Tip k v) n"
| "rep env db (Bin k l r) n \<longleftrightarrow> n_height (info n) = int (ht (Bin k l r)) \<and> n_size (info n) = int (sz (Bin k l r)) \<and>
     n_key (info n) = k \<and> hash_ok env db (Bin k l r) n \<and>
     (case leftNode n of Some c \<Rightarrow> rep env db l c | None \<Rightarrow> n_leftHash (info n) = Some (ahash env l) \<and> in_store env db l) \<and>
     (case rightNode n of Some c \<Rightarrow> rep env db r c | None \<Rightarrow> n_rightHash (info n) = Some (ahash env r) \<and> in_store env db r) \<and>
     (n_hash (info n) \<noteq> None \<longrightarrow> n_leftHash (info n) = Some (ahash env l) \<and> n_rightHash (info n) = Some (ahash env r) \<and>
        hashed_kid (leftNode n) \<and> hashed_kid (rightNode n))"

definition kid :: "mavl_env \<Rightarrow> ndb \<Rightarrow> atree \<Rightarrow> bytes option \<Rightarrow> mnode option \<Rightarrow> bool" where
  "kid env db t h c \<longleftrightarrow> (case c of Some n \<Rightarrow> rep env db t n | None \<Rightarrow> h = Some (ahash env t) \<and> in_store env db t)"

lemma rep_Bin: "rep env db (Bin k l r) n \<longleftrightarrow>
    n_height (info n) = int (ht (Bin k l r)) \<and> n_size (info n) = int (sz (Bin k l r)) \<and> n_key (info n) = k \<and>
    hash_ok env db (Bin k l r) n \<and> kid env db l (n_leftHash (info n)) (leftNode n) \<and>
    kid env db r (n_rightHash (info n)) (rightNode n) \<and>
    (n_hash (info n) \<noteq> None \<longrightarrow> n_leftHash (info n) = Some (ahash env l) \<and> n_rightHash (info n) = Some (ahash env r) \<and>
       hashed_kid (leftNode n) \<and> hashed_kid (rightNode n))"
  by (simp add: kid_def)

declare rep.simps(2) [simp del]

lemma rep_fields: "rep env db t n \<Longrightarrow> n_height (info n) = int (ht t) \<and> n_size (info n) = int (sz t) \<and> hash_ok env db t n"
  by (cases t) (auto simp: rep_Bin)

lemma rep_height0: "rep env db t n \<Longrightarrow> n_height (info n) = 0 \<longleftrightarrow> (\<exists>k v. t = Tip k v)"
  by (cases t) (auto simp: rep_Bin)

lemma GetNode_rep:
  assumes "in_store env db t"
  shows "\<exists>n. GetNode db (Some (ahash env t)) = Some n \<and> rep env db t n \<and> n_persisted (info n)"
proof (cases t)
  case (Tip k v)
  then show ?thesis using assms by (simp add: in_store_def GetNode_def MakeNode_def hash_ok_def)
next
  case (Bin k l r)
  have db: "db (ahash env t) = Some (store_of env t)" "in_store env db l" "in_store env db r"
    using assms by (auto simp: Bin in_store_Bin)
  let ?n = "Node \<lparr>n_key = k, n_value = [], n_height = int (ht t), n_size = int (sz t), n_hash = Some (ahash env t),
     n_leftHash = Some (ahash env l), n_rightHash = Some (ahash env r), n_persisted = True\<rparr> None None"
  have "GetNode db (Some (ahash env t)) = Some ?n"
    using db(1) by (simp add: GetNode_def MakeNode_def Bin del: ahash.simps)
  moreover have "rep env db t ?n"
    using assms db(2,3) by (simp add: Bin rep_Bin kid_def hash_ok_def del: ahash.simps)
  ultimately show ?thesis by auto
qed

lemma getLeft_kid:
  "kid env db l (n_leftHash (info n)) (leftNode n) \<Longrightarrow> \<exists>c. getLeftNode db n = Some c \<and> rep env db l c"
  using GetNode_rep [of env db l] by (auto simp: kid_def getLeftNode_def split: option.splits)

lemma getRight_kid:
  "kid env db r (n_rightHash (info n)) (rightNode n) \<Longrightarrow> \<exists>c. getRightNode db n = Some c \<and> rep env db r c"
  using GetNode_rep [of env db r] by (auto simp: kid_def getRightNode_def split: option.splits)

lemma rep_kids:
  assumes "rep env db (Bin k l r) n"
  obtains cl cr where "getLeftNode db n = Some cl" "rep env db l cl" "getRightNode db n = Some cr" "rep env db r cr"
  using assms getLeft_kid [of env db l n] getRight_kid [of env db r n] unfolding rep_Bin by blast

section \<open>Lookup\<close>

definition rank :: "bytes \<Rightarrow> atree \<Rightarrow> nat" where
  "rank k t = length (filter (\<lambda>x. fst x < k) (inorder t))"

lemma rank_le: "rank k t \<le> sz t" unfolding rank_def using length_filter_le [of _ "inorder t"] by simp

lemma rank_Bin:
  assumes "sorted_wrt (<) (keys (Bin q l r))" "keyed (Bin q l r)"
  shows "rank k (Bin q l r) = (if k < q then rank k l else sz l + rank k r)"
proof (cases "k < q")
  case True
  then have "filter (\<lambda>x. fst x < k) (inorder r) = []" using sorted_parts(2) [OF assms] by (force simp: filter_empty_conv)
  then show ?thesis using True by (simp add: rank_def)
next
  case False
  then have "filter (\<lambda>x. fst x < k) (inorder l) = inorder l" using sorted_parts(1) [OF assms] by (force simp: filter_id_conv)
  then show ?thesis using False by (simp add: rank_def)
qed

lemma map_of_Bin:
  assumes "sorted_wrt (<) (keys (Bin q l r))" "keyed (Bin q l r)"
  shows "map_of (inorder (Bin q l r)) k = (if k < q then map_of (inorder l) k else map_of (inorder r) k)"
proof (cases "k < q")
  case True
  then have "map_of (inorder r) k = None" using sorted_parts(2) [OF assms] by (force simp: map_of_eq_None_iff)
  then show ?thesis using True by (simp add: map_add_def split: option.split)
next
  case False
  then have "map_of (inorder l) k = None" using sorted_parts(1) [OF assms] by (force simp: map_of_eq_None_iff)
  then show ?thesis using False by (simp add: map_add_def split: option.split)
qed

lemma node_get_rep:
  "rep env db t n \<Longrightarrow> keyed t \<Longrightarrow> sorted_wrt (<) (keys t) \<Longrightarrow> sz t < 2 ^ 31 \<Longrightarrow>
   node_get db n k = Some (int (rank k t), map_of (inorder t) k)"
proof (induction t arbitrary: n)
  case (Tip k' v')
  then show ?case by (subst node_get.simps) (auto simp: rank_def)
next
  case (Bin q l r)
  note p = sorted_parts [OF Bin.prems(3,2)]
  have h: "n_height (info n) \<noteq> 0" "n_key (info n) = q" "n_size (info n) = int (sz l + sz r)"
    using Bin.prems(1) by (simp_all add: rep_Bin)
  obtain cl cr where c: "getLeftNode db n = Some cl" "rep env db l cl" "getRightNode db n = Some cr" "rep env db r cr"
    using rep_kids [OF Bin.prems(1)] .
  show ?case
  proof (cases "k < q")
    case True
    then show ?thesis
      using h c Bin.IH(1) [OF c(2)] Bin.prems p rank_Bin [OF Bin.prems(3,2), of k] map_of_Bin [OF Bin.prems(3,2), of k]
      by (subst node_get.simps) simp
  next
    case False
    have "i32 (n_size (info n) - n_size (info cr)) = int (sz l)"
      using h(3) rep_fields [OF c(4)] Bin.prems(4) by (simp add: i32_id)
    moreover have "i32 (int (rank k r) + int (sz l)) = int (sz l + rank k r)"
      using rank_le [of k r] Bin.prems(4) by (subst i32_id) auto
    ultimately show ?thesis
      using False h c Bin.IH(2) [OF c(4)] Bin.prems p rank_Bin [OF Bin.prems(3,2), of k] map_of_Bin [OF Bin.prems(3,2), of k]
      by (subst node_get.simps) simp
  qed
qed

lemma node_has_rep:
  "rep env db t n \<Longrightarrow> keyed t \<Longrightarrow> sorted_wrt (<) (keys t) \<Longrightarrow> node_has db n k = Some (k \<in> set (keys t))"
proof (induction t arbitrary: n)
  case (Tip k' v')
  then show ?case by (subst node_has.simps) auto
next
  case (Bin q l r)
  note p = sorted_parts [OF Bin.prems(3,2)]
  have h: "n_height (info n) \<noteq> 0" "n_key (info n) = q" using Bin.prems(1) by (simp_all add: rep_Bin)
  obtain cl cr where c: "getLeftNode db n = Some cl" "rep env db l cl" "getRightNode db n = Some cr" "rep env db r cr"
    using rep_kids [OF Bin.prems(1)] .
  have q: "q \<in> set (keys r)" using Bin.prems(2) minkey_in by simp
  consider "k = q" | "k < q" | "q < k" by fastforce
  then show ?case
  proof cases
    case 1
    then show ?thesis using h q by (subst node_has.simps) auto
  next
    case 2
    moreover from this have "k \<notin> set (keys r)" using p(2) by force
    ultimately show ?thesis using h c Bin.IH(1) [OF c(2)] Bin.prems p by (subst node_has.simps) auto
  next
    case 3
    moreover from this have "k \<notin> set (keys l)" using p(1) by force
    ultimately show ?thesis using h c Bin.IH(2) [OF c(4)] Bin.prems p by (subst node_has.simps) auto
  qed
qed

lemma node_getByIndex_rep:
  "rep env db t n \<Longrightarrow> sz t < 2 ^ 31 \<Longrightarrow> i < sz t \<Longrightarrow> node_getByIndex db n (int i) = Some (inorder t ! i)"
proof (induction t arbitrary: n i)
  case (Tip k' v')
  then show ?case by (subst node_getByIndex.simps) auto
next
  case (Bin q l r)
  obtain cl cr where c: "getLeftNode db n = Some cl" "rep env db l cl" "getRightNode db n = Some cr" "rep env db r cr"
    using rep_kids [OF Bin.prems(1)] .
  have h: "n_height (info n) \<noteq> 0" "n_size (info cl) = int (sz l)" using Bin.prems(1) rep_fields [OF c(2)] by (simp_all add: rep_Bin)
  show ?case
  proof (cases "i < sz l")
    case True
    then show ?thesis using h c Bin.IH(1) [OF c(2)] Bin.prems by (subst node_getByIndex.simps) (simp add: nth_append)
  next
    case False
    moreover have "i32 (int i - int (sz l)) = int (i - sz l)" using False Bin.prems by (subst i32_id) auto
    ultimately show ?thesis using h c Bin.IH(2) [OF c(4), of "i - sz l"] Bin.prems
      by (subst node_getByIndex.simps) (auto simp: nth_append)
  qed
qed

section \<open>Balance\<close>

text \<open>
  \<open>inner_node_ok\<close> is a copied inner node whose height and size are not yet recalculated;
  \<open>fresh\<close> a node without hash that is not persisted.
\<close>

definition fresh :: "mnode \<Rightarrow> bool" where
  "fresh n \<longleftrightarrow> n_hash (info n) = None \<and> \<not> n_persisted (info n)"

definition inner_ok :: "mavl_env \<Rightarrow> ndb \<Rightarrow> bytes \<Rightarrow> atree \<Rightarrow> atree \<Rightarrow> mnode \<Rightarrow> bool" where
  "inner_ok env db k l r n \<longleftrightarrow> n_key (info n) = k \<and> n_height (info n) \<noteq> 0 \<and> fresh n \<and>
     kid env db l (n_leftHash (info n)) (leftNode n) \<and> kid env db r (n_rightHash (info n)) (rightNode n)"

lemma kid_node [simp]: "kid env db t h (Some n) \<longleftrightarrow> rep env db t n" by (simp add: kid_def)

lemma set_left_simps [simp]:
  "info (set_left n h c) = (info n)\<lparr>n_leftHash := h\<rparr>" "leftNode (set_left n h c) = c" "rightNode (set_left n h c) = rightNode n"
  "info (set_right n h c) = (info n)\<lparr>n_rightHash := h\<rparr>" "leftNode (set_right n h c) = leftNode n" "rightNode (set_right n h c) = c"
  by (simp_all add: set_left_def set_right_def)

lemma inner_ok_getters:
  assumes "inner_ok env db k l r n"
  obtains cl cr where "getLeftNode db n = Some cl" "rep env db l cl" "getRightNode db n = Some cr" "rep env db r cr"
  using assms getLeft_kid [of env db l n] getRight_kid [of env db r n] unfolding inner_ok_def by blast

lemma copy_ok:
  assumes "rep env db (Bin k l r) n"
  shows "\<exists>n'. node_copy n = Some n' \<and> inner_ok env db k l r n' \<and> n_key (info n') = n_key (info n)"
  using assms by (auto simp: rep_Bin node_copy_def inner_ok_def fresh_def)

lemma copy_inner_ok:
  assumes "inner_ok env db k l r n" shows "\<exists>n'. node_copy n = Some n' \<and> inner_ok env db k l r n'"
  using assms by (auto simp: node_copy_def inner_ok_def fresh_def)

lemma calc_ok:
  assumes "inner_ok env db k l r n" "sz l + sz r < 2 ^ 31"
  shows "\<exists>n'. calcHeightAndSize db n = Some n' \<and> rep env db (Bin k l r) n' \<and> fresh n'"
proof -
  obtain cl cr where c: "getLeftNode db n = Some cl" "rep env db l cl" "getRightNode db n = Some cr" "rep env db r cr"
    using inner_ok_getters [OF assms(1)] .
  have "ht l < sz l" "ht r < sz r" by (rule ht_less_sz)+
  then have "i32 (max (int (ht l)) (int (ht r)) + 1) = int (Suc (max (ht l) (ht r)))"
    "i32 (int (sz l) + int (sz r)) = int (sz l + sz r)" using assms(2) by (subst i32_id; simp)+
  then show ?thesis
    using assms(1) c rep_fields [OF c(2)] rep_fields [OF c(4)]
    by (auto simp: calcHeightAndSize_def rep_Bin inner_ok_def fresh_def hash_ok_def)
qed

lemma inner_ok_rep: "rep env db (Bin k l r) n \<Longrightarrow> fresh n \<Longrightarrow> inner_ok env db k l r n"
  by (auto simp: rep_Bin inner_ok_def)

lemma rotateRight_ok:
  assumes "inner_ok env db k (Bin lk ll lr) r n" "sz ll + sz lr + sz r < 2 ^ 31"
  shows "\<exists>n'. rotateRight db n = Some n' \<and> rep env db (rot_right (Bin k (Bin lk ll lr) r)) n' \<and> fresh n'"
proof -
  obtain n1 where n1: "node_copy n = Some n1" "inner_ok env db k (Bin lk ll lr) r n1" using copy_inner_ok [OF assms(1)] by blast
  obtain cl cr where c: "getLeftNode db n1 = Some cl" "rep env db (Bin lk ll lr) cl" using inner_ok_getters [OF n1(2)] by metis
  obtain l1 where l1: "node_copy cl = Some l1" "inner_ok env db lk ll lr l1" using copy_ok [OF c(2)] by blast
  have "inner_ok env db k lr r (set_left n1 (n_rightHash (info l1)) (rightNode l1))"
    using n1(2) l1(2) by (simp add: inner_ok_def fresh_def)
  with calc_ok [OF this] assms(2) obtain n2 where
    n2: "calcHeightAndSize db (set_left n1 (n_rightHash (info l1)) (rightNode l1)) = Some n2" "rep env db (Bin k lr r) n2" by auto
  have "inner_ok env db lk ll (Bin k lr r) (set_right l1 (n_hash (info n1)) (Some n2))"
    using l1(2) n2(2) by (simp add: inner_ok_def fresh_def)
  with calc_ok [OF this] assms(2) obtain n3 where
    "calcHeightAndSize db (set_right l1 (n_hash (info n1)) (Some n2)) = Some n3" "rep env db (Bin lk ll (Bin k lr r)) n3" "fresh n3"
    by auto
  then show ?thesis using n1 c l1 n2 by (simp add: rotateRight_def)
qed

lemma rotateLeft_ok:
  assumes "inner_ok env db k l (Bin rk rl rr) n" "sz l + sz rl + sz rr < 2 ^ 31"
  shows "\<exists>n'. rotateLeft db n = Some n' \<and> rep env db (rot_left (Bin k l (Bin rk rl rr))) n' \<and> fresh n'"
proof -
  obtain n1 where n1: "node_copy n = Some n1" "inner_ok env db k l (Bin rk rl rr) n1" using copy_inner_ok [OF assms(1)] by blast
  obtain cr where c: "getRightNode db n1 = Some cr" "rep env db (Bin rk rl rr) cr" using inner_ok_getters [OF n1(2)] by metis
  obtain r1 where r1: "node_copy cr = Some r1" "inner_ok env db rk rl rr r1" using copy_ok [OF c(2)] by blast
  have "inner_ok env db k l rl (set_right n1 (n_leftHash (info r1)) (leftNode r1))"
    using n1(2) r1(2) by (simp add: inner_ok_def fresh_def)
  with calc_ok [OF this] assms(2) obtain n2 where
    n2: "calcHeightAndSize db (set_right n1 (n_leftHash (info r1)) (leftNode r1)) = Some n2" "rep env db (Bin k l rl) n2" by auto
  have "inner_ok env db rk (Bin k l rl) rr (set_left r1 (n_hash (info n1)) (Some n2))"
    using r1(2) n2(2) by (simp add: inner_ok_def fresh_def)
  with calc_ok [OF this] assms(2) obtain n3 where
    "calcHeightAndSize db (set_left r1 (n_hash (info n1)) (Some n2)) = Some n3" "rep env db (Bin rk (Bin k l rl) rr) n3" "fresh n3"
    by auto
  then show ?thesis using n1 c r1 n2 by (simp add: rotateLeft_def)
qed

lemma rep_inner: "rep env db (Bin k l r) n \<Longrightarrow> \<exists>n'. node_copy n = Some n' \<and> inner_ok env db k l r n'"
  using copy_ok by blast

text \<open>The rotation of a child starts with a copy, so it may be persisted.\<close>

lemma rotate_copy: "node_copy n = Some n' \<Longrightarrow> rotateRight db n = rotateRight db n' \<and> rotateLeft db n = rotateLeft db n'"
  by (auto simp: rotateRight_def rotateLeft_def node_copy_def split: if_splits)

lemma rotateLeft_rep:
  assumes "rep env db (Bin k l (Bin rk rl rr)) n" "sz l + sz rl + sz rr < 2 ^ 31"
  shows "\<exists>n'. rotateLeft db n = Some n' \<and> rep env db (rot_left (Bin k l (Bin rk rl rr))) n'"
proof -
  obtain n1 where n1: "node_copy n = Some n1" "inner_ok env db k l (Bin rk rl rr) n1" using rep_inner [OF assms(1)] by blast
  obtain n' where "rotateLeft db n1 = Some n'" "rep env db (rot_left (Bin k l (Bin rk rl rr))) n'"
    using rotateLeft_ok [OF n1(2) assms(2)] by blast
  then show ?thesis using rotate_copy [OF n1(1), of db] by simp
qed

lemma rotateRight_rep:
  assumes "rep env db (Bin k (Bin lk ll lr) r) n" "sz ll + sz lr + sz r < 2 ^ 31"
  shows "\<exists>n'. rotateRight db n = Some n' \<and> rep env db (rot_right (Bin k (Bin lk ll lr) r)) n'"
proof -
  obtain n1 where n1: "node_copy n = Some n1" "inner_ok env db k (Bin lk ll lr) r n1" using rep_inner [OF assms(1)] by blast
  obtain n' where "rotateRight db n1 = Some n'" "rep env db (rot_right (Bin k (Bin lk ll lr) r)) n'"
    using rotateRight_ok [OF n1(2) assms(2)] by blast
  then show ?thesis using rotate_copy [OF n1(1), of db] by simp
qed

lemma calcBalance_rep:
  assumes "rep env db (Bin k l r) n" shows "calcBalance db n = Some (tilt (Bin k l r))"
proof -
  obtain cl cr where c: "getLeftNode db n = Some cl" "rep env db l cl" "getRightNode db n = Some cr" "rep env db r cr"
    using rep_kids [OF assms] .
  then show ?thesis using rep_fields [OF c(2)] rep_fields [OF c(4)] by (simp add: calcBalance_def)
qed

lemma balance_ok:
  assumes "rep env db (Bin k l r) n" "fresh n" "sz l + sz r < 2 ^ 31"
  shows "\<exists>n'. balance db n = Some n' \<and> rep env db (rebalance (Bin k l r)) n' \<and> fresh n'"
proof -
  have inner: "inner_ok env db k l r n" using inner_ok_rep [OF assms(1,2)] .
  obtain cl cr where c: "getLeftNode db n = Some cl" "rep env db l cl" "getRightNode db n = Some cr" "rep env db r cr"
    using rep_kids [OF assms(1)] .
  have bal: "calcBalance db n = Some (int (ht l) - int (ht r))" using calcBalance_rep [OF assms(1)] by simp
  have np: "\<not> n_persisted (info n)" using assms(2) by (simp add: fresh_def)
  consider (left) "int (ht l) - int (ht r) > 1" | (right) "int (ht l) - int (ht r) < - 1"
    | (none) "\<not> int (ht l) - int (ht r) > 1" "\<not> int (ht l) - int (ht r) < - 1" by blast
  then show ?thesis
  proof cases
    case left
    then obtain lk ll lr where l: "l = Bin lk ll lr" by (cases l) auto
    have lb: "calcBalance db cl = Some (tilt l)" using calcBalance_rep c(2) l by blast
    show ?thesis
    proof (cases "tilt l \<ge> 0")
      case True
      then show ?thesis
        using left bal np c(1) lb rotateRight_ok [OF inner [unfolded l]] assms(3)
        by (auto simp: balance_def rebalance.simps l)
    next
      case False
      then obtain mk ml mr where lr: "lr = Bin mk ml mr" using l by (cases lr) auto
      obtain l1 where l1: "rotateLeft db cl = Some l1" "rep env db (rot_left l) l1"
        using rotateLeft_rep [of env db lk ll mk ml mr cl] c(2) assms(3) by (auto simp: l lr)
      have "inner_ok env db k (rot_left l) r (set_left n None (Some l1))"
        using inner l1(2) by (simp add: inner_ok_def fresh_def)
      then show ?thesis
        using False left bal np c(1) lb l1(1) rotateRight_ok [of env db k mk "Bin lk ll ml" mr r "set_left n None (Some l1)"] assms(3)
        by (auto simp: balance_def rebalance.simps l lr)
    qed
  next
    case right
    then obtain rk rl rr where r: "r = Bin rk rl rr" by (cases r) auto
    have rb: "calcBalance db cr = Some (tilt r)" using calcBalance_rep c(4) r by blast
    show ?thesis
    proof (cases "tilt r \<le> 0")
      case True
      then show ?thesis
        using right bal np c(3) rb rotateLeft_ok [OF inner [unfolded r]] assms(3)
        by (auto simp: balance_def rebalance.simps r)
    next
      case False
      then obtain mk ml mr where rl: "rl = Bin mk ml mr" using r by (cases rl) auto
      obtain r1 where r1: "rotateRight db cr = Some r1" "rep env db (rot_right r) r1"
        using rotateRight_rep [of env db rk mk ml mr rr cr] c(4) assms(3) by (auto simp: r rl)
      have "inner_ok env db k l (rot_right r) (set_right n None (Some r1))"
        using inner r1(2) by (simp add: inner_ok_def fresh_def)
      then show ?thesis
        using False right bal np c(3) rb r1(1) rotateLeft_ok [of env db k l mk ml "Bin rk mr rr" "set_right n None (Some r1)"] assms(3)
        by (auto simp: balance_def rebalance.simps r rl)
    qed
  next
    case none
    then show ?thesis using bal np assms(1,2) by (simp add: balance_def rebalance.simps)
  qed
qed

end
