(* ===== verification/Mavl_Update.thy ===== *)
theory Mavl_Update
  imports Mavl_Theorems
begin

text \<open>
  Setting and removing a key of the state tree: \<open>node_set\<close> and \<open>node_remove\<close> return, without
  a panic, a node that stands for the tree the specification computes.
\<close>

section \<open>Setting\<close>

lemma aset_sz: "sz (fst (aset k v t)) = (if snd (aset k v t) then sz t else Suc (sz t))"
  by (induction k v t rule: aset.induct) (auto split: prod.splits)

lemma copy_fields:
  assumes "rep env db (Bin q l r) n"
  obtains n1 where "node_copy n = Some n1" "inner_ok env db q l r n1" "n_key (info n1) = q"
    "n_height (info n1) = int (ht (Bin q l r))" "n_size (info n1) = int (sz (Bin q l r))"
proof -
  obtain n1 where n1: "node_copy n = Some n1" "inner_ok env db q l r n1" using copy_ok [OF assms] by blast
  moreover have "n_key (info n1) = q" using n1(2) by (simp add: inner_ok_def)
  moreover have "n_height (info n1) = n_height (info n)" "n_size (info n1) = n_size (info n)"
    using n1(1) by (auto simp: node_copy_def split: if_splits)
  ultimately show ?thesis using that rep_fields [OF assms] by metis
qed

lemma inner_ok_set_left: "inner_ok env db q l r n \<Longrightarrow> kid env db l' h c \<Longrightarrow> inner_ok env db q l' r (set_left n h c)"
  by (simp add: inner_ok_def fresh_def)

lemma inner_ok_set_right: "inner_ok env db q l r n \<Longrightarrow> kid env db r' h c \<Longrightarrow> inner_ok env db q l r' (set_right n h c)"
  by (simp add: inner_ok_def fresh_def)

lemma recalculated:
  assumes "inner_ok env db q l r n" "sz l + sz r < 2 ^ 31"
  obtains n1 n2 where "calcHeightAndSize db n = Some n1" "balance db n1 = Some n2"
    "rep env db (rebalance (Bin q l r)) n2" "fresh n2"
proof -
  obtain n1 where n1: "calcHeightAndSize db n = Some n1" "rep env db (Bin q l r) n1" "fresh n1"
    using calc_ok [OF assms] by blast
  then show ?thesis using balance_ok [OF n1(2,3) assms(2)] that by blast
qed

lemma inner_ok_sized:
  "inner_ok env db q l r n \<Longrightarrow> n_height (info n) = int (ht (Bin q l r)) \<Longrightarrow> n_size (info n) = int (sz (Bin q l r)) \<Longrightarrow>
   rep env db (Bin q l r) n"
  by (simp add: rep_Bin inner_ok_def fresh_def hash_ok_def)

lemma rep_NewNode [simp]: "rep env db (Tip k v) (NewNode k v)"
  by (simp add: NewNode_def hash_ok_def)

lemma new_node_hash [simp]: "n_hash (info (NewNode k v)) = None" "n_hash (info (fork_leaf k l r)) = None"
  by (simp_all add: NewNode_def fork_leaf_def)

lemma rep_fork:
  "rep env db l nl \<Longrightarrow> rep env db r nr \<Longrightarrow> ht l = 0 \<Longrightarrow> ht r = 0 \<Longrightarrow> rep env db (Bin k l r) (fork_leaf k nl nr)"
  by (cases l; cases r) (simp_all add: fork_leaf_def rep_Bin hash_ok_def)

lemma node_set_rep:
  "rep env db t n \<Longrightarrow> sz t + 1 < 2 ^ 31 \<Longrightarrow>
   \<exists>n'. node_set db n k v = Some (n', snd (aset k v t)) \<and> rep env db (fst (aset k v t)) n' \<and> n_hash (info n') = None"
proof (induction t arbitrary: n)
  case (Tip k' v')
  have h: "n_height (info n) = 0" "n_key (info n) = k'" using Tip by simp_all
  note f = rep_fork [OF rep_NewNode Tip.prems(1), of k v k'] rep_fork [OF Tip.prems(1) rep_NewNode, of k v k]
  show ?case using h f by (subst node_set.simps) (simp del: rep.simps)
next
  case (Bin q l r)
  obtain n1 where n1: "node_copy n = Some n1" "inner_ok env db q l r n1" "n_key (info n1) = q"
    "n_height (info n1) = int (ht (Bin q l r))" "n_size (info n1) = int (sz (Bin q l r))"
    using copy_fields [OF Bin.prems(1)] .
  obtain cl cr where c: "getLeftNode db n1 = Some cl" "rep env db l cl" "getRightNode db n1 = Some cr" "rep env db r cr"
    using inner_ok_getters [OF n1(2)] .
  have h: "n_height (info n) \<noteq> 0" using rep_fields [OF Bin.prems(1)] by simp
  show ?case
  proof (cases "k < q")
    case True
    obtain l' u where a: "aset k v l = (l', u)" by fastforce
    obtain nl where nl: "node_set db cl k v = Some (nl, u)" "rep env db l' nl"
      using Bin.IH(1) [OF c(2)] Bin.prems(2) a by auto
    have ok: "inner_ok env db q l' r (set_left n1 None (Some nl))"
      using inner_ok_set_left [OF n1(2), of l' None "Some nl"] nl(2) by simp
    show ?thesis
    proof (cases u)
      case up: True
      have "rep env db (Bin q l' r) (set_left n1 None (Some nl))"
        using aset_same [of k v l l'] a up n1(4,5) by (intro inner_ok_sized [OF ok]) simp_all
      moreover have "n_hash (info (set_left n1 None (Some nl))) = None" using ok by (simp add: inner_ok_def fresh_def)
      ultimately show ?thesis using True h n1(1,3) c(1) nl(1) a up by (subst node_set.simps) simp
    next
      case no: False
      have "sz l' + sz r < 2 ^ 31" using aset_sz [of k v l] a no Bin.prems(2) by simp
      then obtain n2 n3 where "calcHeightAndSize db (set_left n1 None (Some nl)) = Some n2" "balance db n2 = Some n3"
        "rep env db (rebalance (Bin q l' r)) n3" "fresh n3" using recalculated [OF ok] by blast
      then show ?thesis using True h n1(1,3) c(1) nl(1) a no by (subst node_set.simps) (simp add: fresh_def)
    qed
  next
    case False
    obtain r' u where a: "aset k v r = (r', u)" by fastforce
    obtain nr where nr: "node_set db cr k v = Some (nr, u)" "rep env db r' nr"
      using Bin.IH(2) [OF c(4)] Bin.prems(2) a by auto
    have ok: "inner_ok env db q l r' (set_right n1 None (Some nr))"
      using inner_ok_set_right [OF n1(2), of r' None "Some nr"] nr(2) by simp
    show ?thesis
    proof (cases u)
      case up: True
      have "rep env db (Bin q l r') (set_right n1 None (Some nr))"
        using aset_same [of k v r r'] a up n1(4,5) by (intro inner_ok_sized [OF ok]) simp_all
      moreover have "n_hash (info (set_right n1 None (Some nr))) = None" using ok by (simp add: inner_ok_def fresh_def)
      ultimately show ?thesis using False h n1(1,3) c(3) nr(1) a up by (subst node_set.simps) simp
    next
      case no: False
      have "sz l + sz r' < 2 ^ 31" using aset_sz [of k v r] a no Bin.prems(2) by simp
      then obtain n2 n3 where "calcHeightAndSize db (set_right n1 None (Some nr)) = Some n2" "balance db n2 = Some n3"
        "rep env db (rebalance (Bin q l r')) n3" "fresh n3" using recalculated [OF ok] by blast
      then show ?thesis using False h n1(1,3) c(3) nr(1) a no by (subst node_set.simps) (simp add: fresh_def)
    qed
  qed
qed

section \<open>Removing\<close>

lemma aremove_sz: "aremove k t = Some (t', newKey, v) \<Longrightarrow> (case t' of None \<Rightarrow> sz t = 1 | Some u \<Rightarrow> sz t = Suc (sz u))"
proof (induction k t arbitrary: t' newKey v rule: aremove.induct)
  case (2 k q l r)
  then show ?case by (cases "k < q") (fastforce split: option.splits)+
qed (simp split: if_splits)

text \<open>What \<open>node_remove\<close> returns for the outcome of the specification.\<close>

definition removed :: "mavl_env \<Rightarrow> ndb \<Rightarrow> (atree option \<times> bytes option \<times> bytes) option \<Rightarrow> removal \<Rightarrow> bool" where
  "removed env db a res \<longleftrightarrow>
     (case (a, res) of
        (None, None) \<Rightarrow> True
      | (Some (t', newKey, v), Some (h, c, newKey', v')) \<Rightarrow> newKey' = newKey \<and> v' = v \<and>
          (case t' of None \<Rightarrow> h = None \<and> c = None | Some u \<Rightarrow> kid env db u h c \<and> \<not> (h = None \<and> c = None))
      | _ \<Rightarrow> False)"

lemma removed_simps:
  "removed env db None res \<longleftrightarrow> res = None"
  "removed env db (Some (None, newKey, v)) res \<longleftrightarrow> res = Some (None, None, newKey, v)"
  "removed env db (Some (Some u, newKey, v)) res \<longleftrightarrow> (\<exists>h c. res = Some (h, c, newKey, v) \<and> kid env db u h c)"
  by (auto simp: removed_def kid_def split: option.splits)

lemma kid_some: "kid env db u h c \<Longrightarrow> \<not> (h = None \<and> c = None)" by (auto simp: kid_def)

lemma inner_ok_key: "inner_ok env db q l r n \<Longrightarrow>
  inner_ok env db q' l r (Node ((info n)\<lparr>n_key := q'\<rparr>) (leftNode n) (rightNode n))"
  by (simp add: inner_ok_def fresh_def)

lemma node_remove_rep:
  "rep env db t n \<Longrightarrow> sz t < 2 ^ 31 \<Longrightarrow> \<exists>res. node_remove db n k = Some res \<and> removed env db (aremove k t) res"
proof (induction t arbitrary: n)
  case (Tip k' v')
  then show ?case by (subst node_remove.simps) (auto simp: removed_simps)
next
  case (Bin q l r)
  obtain cl cr where c: "getLeftNode db n = Some cl" "rep env db l cl" "getRightNode db n = Some cr" "rep env db r cr"
    using rep_kids [OF Bin.prems(1)] .
  obtain n1 where n1: "node_copy n = Some n1" "inner_ok env db q l r n1" using copy_ok [OF Bin.prems(1)] by blast
  have h: "n_height (info n) \<noteq> 0" "n_key (info n) = q" using Bin.prems(1) by (simp_all add: rep_Bin)
  have kids: "kid env db l (n_leftHash (info n)) (leftNode n)" "kid env db r (n_rightHash (info n)) (rightNode n)"
    using Bin.prems(1) by (simp_all add: rep_Bin)
  show ?case
  proof (cases "k < q")
    case True
    obtain res where res: "node_remove db cl k = Some res" "removed env db (aremove k l) res"
      using Bin.IH(1) [OF c(2)] Bin.prems(2) by auto
    show ?thesis
    proof (cases "aremove k l")
      case None
      then show ?thesis using True h c(1) res by (subst node_remove.simps) (simp add: removed_simps)
    next
      case (Some a)
      obtain t' nk v where a: "aremove k l = Some (t', nk, v)" using Some by (cases a) auto
      show ?thesis
      proof (cases t')
        case None
        then show ?thesis using True h c(1) res a kids by (subst node_remove.simps) (auto simp: removed_simps)
      next
        case (Some u)
        then obtain h' c' where r': "res = Some (h', c', nk, v)" "kid env db u h' c'"
          using res(2) a by (auto simp: removed_simps)
        have "sz u + sz r < 2 ^ 31" using aremove_sz [OF a] Some Bin.prems(2) by simp
        then obtain n2 n3 where "calcHeightAndSize db (set_left n1 h' c') = Some n2" "balance db n2 = Some n3"
          "rep env db (rebalance (Bin q u r)) n3"
          using recalculated [OF inner_ok_set_left [OF n1(2) r'(2)]] by blast
        then show ?thesis using True h c(1) res(1) a r'(1) Some kid_some [OF r'(2)] n1(1)
          by (subst node_remove.simps) (auto simp: removed_simps)
      qed
    qed
  next
    case False
    obtain res where res: "node_remove db cr k = Some res" "removed env db (aremove k r) res"
      using Bin.IH(2) [OF c(4)] Bin.prems(2) by auto
    show ?thesis
    proof (cases "aremove k r")
      case None
      then show ?thesis using False h c(3) res by (subst node_remove.simps) (simp add: removed_simps)
    next
      case (Some a)
      obtain t' nk v where a: "aremove k r = Some (t', nk, v)" using Some by (cases a) auto
      show ?thesis
      proof (cases t')
        case None
        then show ?thesis using False h c(3) res a kids by (subst node_remove.simps) (auto simp: removed_simps)
      next
        case (Some u)
        then obtain h' c' where r': "res = Some (h', c', nk, v)" "kid env db u h' c'"
          using res(2) a by (auto simp: removed_simps)
        define q' where "q' = (case nk of None \<Rightarrow> q | Some q' \<Rightarrow> q')"
        define n1' where "n1' = (case nk of None \<Rightarrow> n1 | Some q \<Rightarrow> Node ((info n1)\<lparr>n_key := q\<rparr>) (leftNode n1) (rightNode n1))"
        have "inner_ok env db q' l r n1'"
          using n1(2) inner_ok_key [OF n1(2)] by (cases nk) (simp_all add: q'_def n1'_def)
        moreover have "sz l + sz u < 2 ^ 31" using aremove_sz [OF a] Some Bin.prems(2) by simp
        ultimately obtain n2 n3 where n3: "calcHeightAndSize db (set_right n1' h' c') = Some n2" "balance db n2 = Some n3"
          "rep env db (rebalance (Bin q' l u)) n3"
          using recalculated [OF inner_ok_set_right [OF _ r'(2)]] by blast
        have "node_remove db n k = Some (Some (n_hash (info n3), Some n3, None, v))"
          using False h c(3) res(1) r'(1) kid_some [OF r'(2)] n1(1) n3(1,2)
          by (subst node_remove.simps) (auto simp: n1'_def Let_def)
        then show ?thesis using False a Some n3(3) by (simp add: removed_simps q'_def)
      qed
    qed
  qed
qed

end
