(* ===== verification/Mavl_Save.thy ===== *)
theory Mavl_Save
  imports Mavl_Update
begin

text \<open>
  Hashing and saving the state tree: the hash of a node is a function of the tree it stands for,
  and a save writes what a load under the root hash reads back. Without \<^verbatim>\<open>EnableMavlPrefix\<close> the
  database keys are the plain hashes, and without \<^verbatim>\<open>EnableMVCC\<close> the values are kept in the
  leaves.
\<close>

definition plain_config :: "mavl_env \<Rightarrow> bool" where
  "plain_config env \<longleftrightarrow> \<not> EnableMavlPrefix env \<and> \<not> EnableMVCC env"

lemma node_Hash_rep:
  "rep env db t n \<Longrightarrow> \<not> EnableMavlPrefix env \<Longrightarrow>
   \<exists>n'. node_Hash env rh bh n = Some (ahash env t, n') \<and> rep env db t n' \<and> n_hash (info n') = Some (ahash env t) \<and>
     n_persisted (info n') = n_persisted (info n)"
proof (induction t arbitrary: n)
  case (Tip k v)
  obtain d l r where n: "n = Node d l r" by (cases n)
  show ?case
    using Tip by (cases "n_hash d") (auto simp: n hash_ok_def add_prefix_def Let_def)
next
  case (Bin q l r)
  obtain d lo ro where n: "n = Node d lo ro" by (cases n)
  have d: "n_height d = int (ht (Bin q l r))" "n_size d = int (sz (Bin q l r))" "n_key d = q" "hash_ok env db (Bin q l r) n"
    "kid env db l (n_leftHash d) lo" "kid env db r (n_rightHash d) ro"
    using Bin.prems(1) by (simp_all add: rep_Bin n)
  show ?case
  proof (cases "n_hash d")
    case (Some h)
    then show ?thesis using Bin.prems(1) d(4) by (auto simp: n hash_ok_def)
  next
    case None
    have L: "\<exists>lo'. (case lo of None \<Rightarrow> Some (n_leftHash d, None)
        | Some ln \<Rightarrow> map_option (\<lambda>(h, ln'). (Some h, Some ln')) (node_Hash env rh bh ln)) = Some (Some (ahash env l), lo') \<and>
        kid env db l (Some (ahash env l)) lo' \<and> hashed_kid lo'"
      using d(5) Bin.IH(1) Bin.prems(2) by (cases lo) (fastforce simp: kid_def)+
    have R: "\<exists>ro'. (case ro of None \<Rightarrow> Some (n_rightHash d, None)
        | Some rn \<Rightarrow> map_option (\<lambda>(h, rn'). (Some h, Some rn')) (node_Hash env rh bh rn)) = Some (Some (ahash env r), ro') \<and>
        kid env db r (Some (ahash env r)) ro' \<and> hashed_kid ro'"
      using d(6) Bin.IH(2) Bin.prems(2) by (cases ro) (fastforce simp: kid_def)+
    obtain lo' ro' where lr: "(case lo of None \<Rightarrow> Some (n_leftHash d, None)
        | Some ln \<Rightarrow> map_option (\<lambda>(h, ln'). (Some h, Some ln')) (node_Hash env rh bh ln)) = Some (Some (ahash env l), lo')"
      "(case ro of None \<Rightarrow> Some (n_rightHash d, None)
        | Some rn \<Rightarrow> map_option (\<lambda>(h, rn'). (Some h, Some rn')) (node_Hash env rh bh rn)) = Some (Some (ahash env r), ro')"
      "kid env db l (Some (ahash env l)) lo'" "kid env db r (Some (ahash env r)) ro'" "hashed_kid lo'" "hashed_kid ro'"
      using L R by blast
    have np: "\<not> n_persisted d" using d(4) None by (auto simp: hash_ok_def n)
    let ?h = "ahash env (Bin q l r)"
    let ?n = "Node (d\<lparr>n_leftHash := Some (ahash env l), n_rightHash := Some (ahash env r), n_hash := Some ?h\<rparr>) lo' ro'"
    have "node_Hash env rh bh n = Some (?h, ?n)"
      using None d(1,2) Bin.prems(2) by (simp add: n lr(1,2) add_prefix_def Let_def)
    moreover have "rep env db (Bin q l r) ?n"
      using d(1-3) lr(3-6) np by (simp add: rep_Bin hash_ok_def)
    ultimately show ?thesis by (auto simp: n)
  qed
qed

definition records :: "mavl_env \<Rightarrow> atree \<Rightarrow> (bytes \<times> store_node) set" where
  "records env t = (\<lambda>s. (ahash env s, store_of env s)) ` subtrees t"

lemma records_simps [simp]:
  "records env (Tip k v) = {(ahash env (Tip k v), store_of env (Tip k v))}"
  "records env (Bin q l r) = insert (ahash env (Bin q l r), store_of env (Bin q l r)) (records env l \<union> records env r)"
  by (auto simp: records_def)

lemma in_store_records: "in_store env db t \<longleftrightarrow> (\<forall>(h, sn)\<in>records env t. db h = Some sn)"
  by (auto simp: in_store_def records_def)

text \<open>A save writes records of the tree only, and every record that the database does not have.\<close>

definition saves :: "mavl_env \<Rightarrow> ndb \<Rightarrow> atree \<Rightarrow> (bytes \<times> store_node) list \<Rightarrow> bool" where
  "saves env db t ws \<longleftrightarrow> set ws \<subseteq> records env t \<and> (\<forall>(h, sn)\<in>records env t. (h, sn) \<in> set ws \<or> db h = Some sn)"

lemma storeNode_rep:
  "rep env db t n \<Longrightarrow> n_hash (info n) \<noteq> None \<Longrightarrow> \<not> EnableMVCC env \<Longrightarrow> storeNode env (info n) = Some (store_of env t)"
  by (cases t) (auto simp: rep_Bin storeNode_def)

lemma hashed:
  assumes "rep env db t n" "\<not> EnableMavlPrefix env"
  obtains n1 where
    "(if n_hash (info n) = None then map_option snd (node_Hash env rh bh n) else Some n) = Some n1"
    "rep env db t n1" "n_hash (info n1) = Some (ahash env t)"
proof (cases "n_hash (info n)")
  case None
  then show ?thesis using node_Hash_rep [OF assms, of rh bh] that by auto
next
  case (Some h)
  then show ?thesis using rep_fields [OF assms(1)] assms(1) that by (auto simp: hash_ok_def)
qed

lemma saves_stored: "in_store env db t \<Longrightarrow> saves env db t []"
  by (simp add: saves_def in_store_records)

lemma saves_Bin:
  "saves env db l wl \<Longrightarrow> saves env db r wr \<Longrightarrow>
   saves env db (Bin q l r) (wl @ wr @ [(ahash env (Bin q l r), store_of env (Bin q l r))])"
  by (auto simp: saves_def simp del: ahash.simps store_of.simps)

lemma node_save_rep:
  "rep env db t n \<Longrightarrow> plain_config env \<Longrightarrow>
   \<exists>c ws n'. node_save env rh bh n = Some (c, ws, n') \<and> n_hash (info n') = Some (ahash env t) \<and> saves env db t ws"
proof (induction t arbitrary: n)
  case (Tip k v)
  obtain n1 where n1:
    "(if n_hash (info n) = None then map_option snd (node_Hash env rh bh n) else Some n) = Some n1"
    "rep env db (Tip k v) n1" "n_hash (info n1) = Some (ahash env (Tip k v))"
    using hashed [OF Tip(1)] Tip(2) by (auto simp: plain_config_def simp del: rep.simps)
  show ?case
  proof (cases "n_persisted (info n1)")
    case True
    then have "saves env db (Tip k v) []" using n1(2) by (intro saves_stored) (simp add: hash_ok_def)
    then show ?thesis using n1 True by (subst node_save.simps) (simp del: ahash.simps)
  next
    case False
    have "storeNode env (info n1) = Some (store_of env (Tip k v))"
      using storeNode_rep [OF n1(2)] n1(3) Tip(2) by (simp add: plain_config_def)
    then show ?thesis using n1 False by (subst node_save.simps) (simp add: saves_def del: ahash.simps)
  qed
next
  case (Bin q l r)
  obtain n1 where n1:
    "(if n_hash (info n) = None then map_option snd (node_Hash env rh bh n) else Some n) = Some n1"
    "rep env db (Bin q l r) n1" "n_hash (info n1) = Some (ahash env (Bin q l r))"
    using hashed [OF Bin.prems(1)] Bin.prems(2) by (auto simp: plain_config_def simp del: ahash.simps)
  show ?case
  proof (cases "n_persisted (info n1)")
    case True
    then have "saves env db (Bin q l r) []" using n1(2) by (intro saves_stored) (simp add: hash_ok_def rep_Bin)
    then show ?thesis using n1 True by (subst node_save.simps) (simp del: ahash.simps)
  next
    case False
    have kids: "kid env db l (n_leftHash (info n1)) (leftNode n1)" "kid env db r (n_rightHash (info n1)) (rightNode n1)"
      using n1(2) by (simp_all add: rep_Bin)
    have "\<exists>c ws. (case leftNode n1 of None \<Rightarrow> Some (0, [])
        | Some l \<Rightarrow> do { (c, w, l') \<leftarrow> node_save env rh bh l; Some (c, w) }) = Some (c, ws) \<and> saves env db l ws"
      using kids(1) Bin.IH(1) Bin.prems(2) saves_stored by (cases "leftNode n1") (fastforce simp: kid_def)+
    moreover have "\<exists>c ws. (case rightNode n1 of None \<Rightarrow> Some (0, [])
        | Some l \<Rightarrow> do { (c, w, l') \<leftarrow> node_save env rh bh l; Some (c, w) }) = Some (c, ws) \<and> saves env db r ws"
      using kids(2) Bin.IH(2) Bin.prems(2) saves_stored by (cases "rightNode n1") (fastforce simp: kid_def)+
    moreover have "storeNode env (info n1) = Some (store_of env (Bin q l r))"
      using storeNode_rep [OF n1(2)] n1(3) Bin.prems(2) by (simp add: plain_config_def)
    ultimately show ?thesis using n1 False saves_Bin
      by (subst node_save.simps) (auto simp del: ahash.simps store_of.simps)
  qed
qed

text \<open>
  \<open>no_clash\<close> is what the hash function is relied on for: two nodes of the tree with one hash are
  one record, and a hash of the tree that the database already has is there for the same record.
\<close>

definition no_clash :: "mavl_env \<Rightarrow> ndb \<Rightarrow> atree \<Rightarrow> bool" where
  "no_clash env db t \<longleftrightarrow> (\<forall>(h, sn)\<in>records env t. db h \<in> {None, Some sn} \<and> (\<forall>(h', sn')\<in>records env t. h' = h \<longrightarrow> sn' = sn))"

lemma write_batch_simps [simp]:
  "write_batch [] db = db" "write_batch ((h, sn) # ws) db = write_batch ws (db(h \<mapsto> sn))"
  by (simp_all add: write_batch_def)

lemma write_batch_get:
  "write_batch ws db h = (case map_of (rev ws) h of None \<Rightarrow> db h | Some sn \<Rightarrow> Some sn)"
  by (induction ws arbitrary: db) (auto simp: map_add_def split: option.splits)

lemma write_batch_saves:
  assumes "saves env db t ws" "no_clash env db t"
  shows "in_store env (write_batch ws db) t \<and> db \<subseteq>\<^sub>m write_batch ws db"
proof -
  have w: "sn \<in> {x. (h, x) \<in> records env t}" if "map_of (rev ws) h = Some sn" for h sn
    using map_of_SomeD [OF that] assms(1) by (auto simp: saves_def)
  have "write_batch ws db h = Some sn" if r: "(h, sn) \<in> records env t" for h sn
  proof (cases "map_of (rev ws) h")
    case None
    then have "(h, sn) \<notin> set ws" by (force simp: map_of_eq_None_iff)
    then show ?thesis using assms(1) r None by (auto simp: saves_def write_batch_get)
  next
    case (Some sn')
    then show ?thesis using w [OF Some] assms(2) r by (fastforce simp: no_clash_def write_batch_get)
  qed
  moreover have "write_batch ws db h = Some sn" if d: "db h = Some sn" for h sn
  proof (cases "map_of (rev ws) h")
    case (Some sn')
    then show ?thesis using w [OF Some] assms(2) d by (fastforce simp: no_clash_def write_batch_get)
  qed (simp add: write_batch_get d)
  ultimately show ?thesis by (auto simp: in_store_records map_le_def dom_def)
qed

lemma hash_ok_mono: "hash_ok env db t n \<Longrightarrow> db \<subseteq>\<^sub>m db' \<Longrightarrow> hash_ok env db' t n"
  by (auto simp: hash_ok_def intro: in_store_mono)

lemma rep_mono: "rep env db t n \<Longrightarrow> db \<subseteq>\<^sub>m db' \<Longrightarrow> rep env db' t n"
proof (induction t arbitrary: n)
  case (Bin q l r)
  then have "kid env db' l h c" if "kid env db l h c" for h c
    using that by (auto simp: kid_def intro: in_store_mono split: option.splits)
  moreover have "kid env db' r h c" if "kid env db r h c" for h c
    using that Bin by (auto simp: kid_def intro: in_store_mono split: option.splits)
  ultimately show ?case using Bin.prems hash_ok_mono [OF _ Bin.prems(2)] by (simp add: rep_Bin)
qed (auto intro: hash_ok_mono)

end
