(* ===== verification/Mavl_Proof.thy ===== *)
theory Mavl_Proof
  imports Mavl_Save
begin

text \<open>
  Proofs of inclusion and range scans of the state tree (\<^verbatim>\<open>proof.go\<close>, \<^verbatim>\<open>traverseInRange\<close>):
  the path a proof holds, what \<^verbatim>\<open>Verify\<close> computes from it, and what it says of a tree with the
  given root hash.
\<close>

section \<open>Range scans\<close>

text \<open>A scan calls back on the pairs of a list until the callback asks to stop.\<close>

primrec scan :: "(bytes \<Rightarrow> bytes \<Rightarrow> 's \<Rightarrow> bool \<times> 's) \<Rightarrow> (bytes \<times> bytes) list \<Rightarrow> 's \<Rightarrow> bool \<times> 's" where
  "scan fn [] s = (False, s)"
| "scan fn (x # xs) s = (case fn (fst x) (snd x) s of (stop, s') \<Rightarrow> if stop then (True, s') else scan fn xs s')"

lemma scan_append: "scan fn (xs @ ys) s = (case scan fn xs s of (stop, s') \<Rightarrow> if stop then (True, s') else scan fn ys s')"
  by (induction xs arbitrary: s) (auto split: prod.splits)

definition after_start :: "bytes option \<Rightarrow> bytes \<Rightarrow> bool" where
  "after_start start k \<longleftrightarrow> (case start of None \<Rightarrow> True | Some a \<Rightarrow> a \<le> k)"

definition before_end :: "bytes option \<Rightarrow> bool \<Rightarrow> bytes \<Rightarrow> bool" where
  "before_end endk incl k \<longleftrightarrow> (case endk of None \<Rightarrow> True | Some b \<Rightarrow> if incl then k \<le> b else k < b)"

definition in_range :: "bytes option \<Rightarrow> bytes option \<Rightarrow> bool \<Rightarrow> bytes \<times> bytes \<Rightarrow> bool" where
  "in_range start endk incl x \<longleftrightarrow> after_start start (fst x) \<and> before_end endk incl (fst x)"

lemma after_start_mono: "after_start start k \<Longrightarrow> k \<le> q \<Longrightarrow> after_start start q"
  by (auto simp: after_start_def split: option.splits)

lemma before_end_mono: "before_end endk incl q \<Longrightarrow> k \<le> q \<Longrightarrow> before_end endk incl k"
  by (auto simp: before_end_def split: option.splits if_splits)

definition in_order :: "bool \<Rightarrow> 'a list \<Rightarrow> 'a list" where
  "in_order ascending xs = (if ascending then xs else rev xs)"

lemma range_parts:
  assumes "sorted_wrt (<) (keys (Bin q l r))" "keyed (Bin q l r)"
  shows "\<not> after_start start q \<Longrightarrow> filter (in_range start endk incl) (inorder l) = []"
    "\<not> before_end endk incl q \<Longrightarrow> filter (in_range start endk incl) (inorder r) = []"
proof -
  note p = sorted_parts [OF assms]
  show "\<not> after_start start q \<Longrightarrow> filter (in_range start endk incl) (inorder l) = []"
    using p(1) after_start_mono by (fastforce simp: filter_empty_conv in_range_def dest: less_imp_le)
  show "\<not> before_end endk incl q \<Longrightarrow> filter (in_range start endk incl) (inorder r) = []"
    using p(2) before_end_mono by (fastforce simp: filter_empty_conv in_range_def)
qed

lemma traverseInRange_rep:
  "rep env db t n \<Longrightarrow> keyed t \<Longrightarrow> sorted_wrt (<) (keys t) \<Longrightarrow>
   traverseInRange db start endk ascending incl (leaf_cb fn) n s =
     Some (scan fn (in_order ascending (filter (in_range start endk incl) (inorder t))) s)"
proof (induction t arbitrary: n s)
  case (Tip k v)
  then have "n_height (info n) = 0" "n_key (info n) = k" "n_value (info n) = v" by simp_all
  then show ?case
    by (subst traverseInRange.simps)
      (auto simp: leaf_cb_def in_order_def in_range_def after_start_def before_end_def Let_def split: prod.splits option.splits)
next
  case (Bin q l r)
  note p = sorted_parts [OF Bin.prems(3,2)] and f = range_parts [OF Bin.prems(3,2)]
  have h: "n_height (info n) \<noteq> 0" "n_key (info n) = q" using Bin.prems(1) by (simp_all add: rep_Bin)
  obtain cl cr where c: "getLeftNode db n = Some cl" "rep env db l cl" "getRightNode db n = Some cr" "rep env db r cr"
    using rep_kids [OF Bin.prems(1)] .
  have cb: "leaf_cb fn n s' = (False, s')" for s' using h(1) by (simp add: leaf_cb_def)
  define L where "L = in_order ascending (filter (in_range start endk incl) (inorder l))"
  define R where "R = in_order ascending (filter (in_range start endk incl) (inorder r))"
  have ih: "traverseInRange db start endk ascending incl (leaf_cb fn) cl s' = Some (scan fn L s')"
    "traverseInRange db start endk ascending incl (leaf_cb fn) cr s' = Some (scan fn R s')" for s'
    using Bin.IH(1) [OF c(2)] Bin.IH(2) [OF c(4)] Bin.prems p by (auto simp: L_def R_def)
  have skip: "\<not> after_start start q \<Longrightarrow> L = []" "\<not> before_end endk incl q \<Longrightarrow> R = []"
    using f by (simp_all add: in_order_def L_def R_def)
  have split: "in_order ascending (filter (in_range start endk incl) (inorder (Bin q l r))) =
      (if ascending then L @ R else R @ L)" by (simp add: in_order_def L_def R_def)
  have "traverseInRange db start endk ascending incl (leaf_cb fn) n s =
    (if ascending then do {
       (stop, s2) \<leftarrow> (if after_start start q then Some (scan fn L s) else Some (False, s));
       if stop then Some (stop, s2) else (if before_end endk incl q then Some (scan fn R s2) else Some (False, s2)) }
     else do {
       (stop, s2) \<leftarrow> (if before_end endk incl q then Some (scan fn R s) else Some (False, s));
       if stop then Some (stop, s2) else (if after_start start q then Some (scan fn L s2) else Some (False, s2)) })"
    using ih by (subst traverseInRange.simps)
      (cases ascending; simp add: h c cb after_start_def [symmetric] before_end_def [symmetric] Let_def cong: if_cong)
  also have "\<dots> = Some (scan fn (if ascending then L @ R else R @ L) s)"
    using skip by (auto simp: scan_append split: prod.splits)
  finally show ?case by (simp only: split)
qed

section \<open>The path of a key\<close>

definition sha_len :: "mavl_env \<Rightarrow> bool" where
  "sha_len env \<longleftrightarrow> (\<forall>x. length (Sha256 env x) = 32)"

fun apath :: "mavl_env \<Rightarrow> bytes \<Rightarrow> atree \<Rightarrow> (bytes \<times> InnerNode list) option" where
  "apath env k (Tip k' v) = (if k' = k then Some (v, []) else None)"
| "apath env k (Bin q l r) =
     (if k < q then
        map_option (\<lambda>(v, is). (v, is @ [\<lparr>iLeftHash = None, iRightHash = Some (ahash env r),
          iHeight = int (ht (Bin q l r)), iSize = int (sz (Bin q l r))\<rparr>])) (apath env k l)
      else
        map_option (\<lambda>(v, is). (v, is @ [\<lparr>iLeftHash = Some (ahash env l), iRightHash = None,
          iHeight = int (ht (Bin q l r)), iSize = int (sz (Bin q l r))\<rparr>])) (apath env k r))"

lemma ahash_len: "sha_len env \<Longrightarrow> length (ahash env t) = 32"
  by (cases t) (simp_all add: sha_len_def LeafNode_Hash_def InnerNode_Hash_def)

lemma hash_tail_id: "length h \<le> 32 \<Longrightarrow> hash_tail h = h" by (simp add: hash_tail_def)

lemma apath_value: "keyed t \<Longrightarrow> sorted_wrt (<) (keys t) \<Longrightarrow> map_option fst (apath env k t) = map_of (inorder t) k"
proof (induction t)
  case (Bin q l r)
  note p = sorted_parts [OF Bin.prems(2,1)]
  show ?case
    using Bin.IH Bin.prems(1) p(3,4) map_of_Bin [OF Bin.prems(2,1), of k]
    by (simp add: option.map_comp comp_def split_beta)
qed auto

lemma apath_root:
  "sha_len env \<Longrightarrow> apath env k t = Some (v, is) \<Longrightarrow>
   fold (\<lambda>b h. InnerNodeProofHash env h b) is (LeafNode_Hash env k v 0 1) = ahash env t"
proof (induction t arbitrary: "is")
  case (Bin q l r)
  show ?case
  proof (cases "k < q")
    case True
    then show ?thesis using Bin by (auto simp: InnerNodeProofHash_def go_bytes_def)
  next
    case False
    moreover have "ahash env l \<noteq> []" using ahash_len [OF Bin.prems(1), of l] by auto
    ultimately show ?thesis using Bin by (auto simp: InnerNodeProofHash_def go_bytes_def)
  qed
qed (auto split: if_splits)

lemma GetNode_hash: "GetNode db h = Some n \<Longrightarrow> n_hash (info n) = h \<and> h \<noteq> None"
  by (auto simp: GetNode_def split: option.splits mnode.splits)

lemma hashed_kids:
  assumes "rep env db (Bin q l r) n" "n_hash (info n) \<noteq> None"
  obtains cl cr where "getLeftNode db n = Some cl" "rep env db l cl" "n_hash (info cl) = Some (ahash env l)"
    "getRightNode db n = Some cr" "rep env db r cr" "n_hash (info cr) = Some (ahash env r)"
proof -
  obtain cl cr where c: "getLeftNode db n = Some cl" "rep env db l cl" "getRightNode db n = Some cr" "rep env db r cr"
    using rep_kids [OF assms(1)] .
  have "n_hash (info cl) \<noteq> None" "n_hash (info cr) \<noteq> None"
    using assms c(1,3) by (auto simp: rep_Bin getLeftNode_def getRightNode_def dest!: GetNode_hash split: option.splits)
  then show ?thesis using that c rep_fields [OF c(2)] rep_fields [OF c(4)] by (auto simp: hash_ok_def)
qed

lemma constructProof_rep:
  "rep env db t n \<Longrightarrow> n_hash (info n) \<noteq> None \<Longrightarrow>
   node_constructProof db n k = Some (map_option (\<lambda>(v, is). (v, Some (LeafNode_Hash env k v 0 1), is)) (apath env k t))"
proof (induction t arbitrary: n)
  case (Tip k' v)
  then show ?case by (subst node_constructProof.simps) (auto simp: hash_ok_def)
next
  case (Bin q l r)
  obtain cl cr where c: "getLeftNode db n = Some cl" "rep env db l cl" "n_hash (info cl) = Some (ahash env l)"
    "getRightNode db n = Some cr" "rep env db r cr" "n_hash (info cr) = Some (ahash env r)"
    using hashed_kids [OF Bin.prems] .
  have h: "n_height (info n) = int (ht (Bin q l r))" "n_size (info n) = int (sz (Bin q l r))" "n_key (info n) = q"
    using Bin.prems(1) by (simp_all add: rep_Bin)
  have IH: "node_constructProof db cl k = Some (map_option (\<lambda>(v, is). (v, Some (LeafNode_Hash env k v 0 1), is)) (apath env k l))"
    "node_constructProof db cr k = Some (map_option (\<lambda>(v, is). (v, Some (LeafNode_Hash env k v 0 1), is)) (apath env k r))"
    using Bin.IH(1) [OF c(2)] Bin.IH(2) [OF c(5)] c(3,6) by simp_all
  note s = node_constructProof.simps [of db n k]
  show ?case
  proof (cases "k < q")
    case True
    show ?thesis
      by (cases "apath env k l") (simp_all add: s True IH h c split_beta)
  next
    case False
    show ?thesis
      by (cases "apath env k r") (simp_all add: s False IH h c split_beta)
  qed
qed

section \<open>What a proof shows\<close>

text \<open>
  The byte strings and integers that are hashed along a proof and in a tree; the hash is relied on
  to separate these, and nothing else.
\<close>

type_synonym hash_input = "bytes \<times> bytes \<times> int \<times> int"

definition node_hash :: "mavl_env \<Rightarrow> hash_input \<Rightarrow> bytes" where
  "node_hash env x = (case x of (a, b, h, s) \<Rightarrow> Sha256 env (Encode4 env a b h s))"

definition branch_input :: "bytes \<Rightarrow> InnerNode \<Rightarrow> hash_input" where
  "branch_input c b =
     (if length (go_bytes (iLeftHash b)) = 0
      then (hash_tail c, hash_tail (go_bytes (iRightHash b)), iHeight b, iSize b)
      else (hash_tail (go_bytes (iLeftHash b)), hash_tail c, iHeight b, iSize b))"

fun chain_inputs :: "mavl_env \<Rightarrow> bytes \<Rightarrow> InnerNode list \<Rightarrow> hash_input set" where
  "chain_inputs env h [] = {}"
| "chain_inputs env h (b # bs) = insert (branch_input h b) (chain_inputs env (InnerNodeProofHash env h b) bs)"

definition proof_inputs :: "mavl_env \<Rightarrow> bytes \<Rightarrow> bytes \<Rightarrow> InnerNode list \<Rightarrow> hash_input set" where
  "proof_inputs env k v is = insert (k, v, 0, 1) (chain_inputs env (LeafNode_Hash env k v 0 1) is)"

fun tree_inputs :: "mavl_env \<Rightarrow> atree \<Rightarrow> hash_input set" where
  "tree_inputs env (Tip k v) = {(k, v, 0, 1)}"
| "tree_inputs env (Bin q l r) =
     insert (hash_tail (ahash env l), hash_tail (ahash env r), int (ht (Bin q l r)), int (sz (Bin q l r)))
       (tree_inputs env l \<union> tree_inputs env r)"

lemma InnerNodeProofHash_input: "InnerNodeProofHash env c b = node_hash env (branch_input c b)"
  by (simp add: InnerNodeProofHash_def branch_input_def node_hash_def InnerNode_Hash_def)

lemma chain_inputs_snoc:
  "chain_inputs env h (bs @ [b]) =
   insert (branch_input (fold (\<lambda>b h. InnerNodeProofHash env h b) bs h) b) (chain_inputs env h bs)"
  by (induction bs arbitrary: h) auto

lemma chain_len:
  "sha_len env \<Longrightarrow> length h = 32 \<Longrightarrow> length (fold (\<lambda>b h. InnerNodeProofHash env h b) bs h) = 32"
  by (induction bs arbitrary: h) (auto simp: InnerNodeProofHash_def InnerNode_Hash_def sha_len_def)

lemma proof_sound:
  assumes "sha_len env"
  shows "fold (\<lambda>b h. InnerNodeProofHash env h b) is (LeafNode_Hash env k v 0 1) = ahash env t \<Longrightarrow>
    \<forall>b\<in>set is. 0 < iHeight b \<Longrightarrow> inj_on (node_hash env) (tree_inputs env t \<union> proof_inputs env k v is) \<Longrightarrow>
    (k, v) \<in> set (inorder t)"
proof (induction t arbitrary: "is")
  case (Tip k' v')
  have t: "ahash env (Tip k' v') = node_hash env (k', v', 0, 1)" by (simp add: node_hash_def LeafNode_Hash_def)
  show ?case
  proof (cases "is" rule: rev_cases)
    case Nil
    then have "node_hash env (k, v, 0, 1) = node_hash env (k', v', 0, 1)"
      using Tip(1) t by (simp add: node_hash_def LeafNode_Hash_def)
    then have "(k, v, 0 :: int, 1 :: int) = (k', v', 0, 1)" by (rule inj_onD [OF Tip(3)]) (simp_all add: proof_inputs_def)
    then show ?thesis by simp
  next
    case (snoc bs b)
    let ?c = "fold (\<lambda>b h. InnerNodeProofHash env h b) bs (LeafNode_Hash env k v 0 1)"
    have "node_hash env (branch_input ?c b) = node_hash env (k', v', 0, 1)"
      using Tip(1) t by (simp add: snoc InnerNodeProofHash_input)
    then have "branch_input ?c b = (k', v', 0, 1)"
      by (rule inj_onD [OF Tip(3)]) (simp_all add: proof_inputs_def snoc chain_inputs_snoc)
    then have "iHeight b = 0" by (auto simp: branch_input_def split: if_splits)
    then show ?thesis using Tip(2) by (simp add: snoc)
  qed
next
  case (Bin q l r)
  let ?x = "(hash_tail (ahash env l), hash_tail (ahash env r), int (ht (Bin q l r)), int (sz (Bin q l r)))"
  have t: "ahash env (Bin q l r) = node_hash env ?x" by (simp add: node_hash_def InnerNode_Hash_def)
  have len: "length (LeafNode_Hash env k v 0 1) = 32" using assms by (simp add: sha_len_def LeafNode_Hash_def)
  show ?case
  proof (cases "is" rule: rev_cases)
    case Nil
    then have "node_hash env (k, v, 0, 1) = node_hash env ?x"
      using Bin.prems(1) t by (simp add: node_hash_def LeafNode_Hash_def del: ahash.simps)
    then have "(k, v, 0, 1) = ?x" by (rule inj_onD [OF Bin.prems(3)]) (simp_all add: proof_inputs_def)
    then show ?thesis by simp
  next
    case (snoc bs b)
    let ?c = "fold (\<lambda>b h. InnerNodeProofHash env h b) bs (LeafNode_Hash env k v 0 1)"
    have "node_hash env (branch_input ?c b) = node_hash env ?x"
      using Bin.prems(1) t by (simp add: snoc InnerNodeProofHash_input del: ahash.simps)
    then have x: "branch_input ?c b = ?x"
      by (rule inj_onD [OF Bin.prems(3)]) (simp_all add: proof_inputs_def snoc chain_inputs_snoc)
    have "length ?c = 32" using chain_len [OF assms len] .
    then have "?c = ahash env l \<or> ?c = ahash env r"
      using x ahash_len [OF assms, of l] ahash_len [OF assms, of r]
      by (auto simp: branch_input_def hash_tail_id split: if_splits)
    moreover have "inj_on (node_hash env) (tree_inputs env l \<union> proof_inputs env k v bs)"
      "inj_on (node_hash env) (tree_inputs env r \<union> proof_inputs env k v bs)"
      by (rule inj_on_subset [OF Bin.prems(3)]; auto simp: snoc proof_inputs_def chain_inputs_snoc)+
    moreover have "\<forall>b\<in>set bs. 0 < iHeight b" using Bin.prems(2) by (simp add: snoc)
    ultimately have "(k, v) \<in> set (inorder l) \<or> (k, v) \<in> set (inorder r)"
      using Bin.IH [of bs] by blast
    then show ?thesis by auto
  qed
qed

end
