(* ===== verification/Mavl_Store_Theorems.thy ===== *)
theory Mavl_Store_Theorems
  imports Mavl_Store Mavl_Proof
begin

text \<open>
  The trees and the store of \<open>Mavl_Store\<close> as versioned maps: what each root hash names before and
  after an operation. \<open>tree_rep\<close> relates a tree to the sorted list of its keys and values, and
  the locale \<open>kv_object\<close> is the part of a tree that the store relies on.
\<close>

section \<open>A tree as a sorted list\<close>

fun oset :: "bytes \<Rightarrow> bytes \<Rightarrow> atree option \<Rightarrow> atree option" where
  "oset k v None = Some (Tip k v)"
| "oset k v (Some t) = Some (fst (aset k v t))"

definition oset_all :: "(bytes \<times> bytes) list \<Rightarrow> atree option \<Rightarrow> atree option" where
  "oset_all kvs t = fold (\<lambda>kv. oset (fst kv) (snd kv)) kvs t"

fun oinorder :: "atree option \<Rightarrow> (bytes \<times> bytes) list" where
  "oinorder None = []"
| "oinorder (Some t) = inorder t"

definition otree_ok :: "atree option \<Rightarrow> bool" where
  "otree_ok t \<longleftrightarrow> (case t of None \<Rightarrow> True | Some u \<Rightarrow> tree_ok u)"

definition tree_is :: "mavl_env \<Rightarrow> ndb \<Rightarrow> Tree \<Rightarrow> atree option \<Rightarrow> bool" where
  "tree_is env db T t \<longleftrightarrow>
     (case (t_root T, t) of (None, None) \<Rightarrow> True | (Some n, Some u) \<Rightarrow> rep env db u n | _ \<Rightarrow> False)"

definition tree_rep :: "mavl_env \<Rightarrow> ndb \<Rightarrow> Tree \<Rightarrow> (bytes \<times> bytes) list \<Rightarrow> bool" where
  "tree_rep env db T xs \<longleftrightarrow> (\<exists>t. tree_is env db T t \<and> otree_ok t \<and> oinorder t = xs)"

lemma tree_is_simps [simp]:
  "tree_is env db T None \<longleftrightarrow> t_root T = None"
  "tree_is env db T (Some t) \<longleftrightarrow> (\<exists>n. t_root T = Some n \<and> rep env db t n)"
  by (auto simp: tree_is_def split: option.splits)

lemma otree_ok_simps [simp]: "otree_ok None" "otree_ok (Some t) \<longleftrightarrow> tree_ok t"
  by (simp_all add: otree_ok_def)

lemma sorted_oinorder: "otree_ok t \<Longrightarrow> sorted_wrt (<) (map fst (oinorder t))"
  by (cases t) (auto simp: tree_ok_def)

lemma oset_ok: "otree_ok t \<Longrightarrow> otree_ok (oset k v t) \<and> oinorder (oset k v t) = kv_set k v (oinorder t)"
  using aset_ok [of "the t" k v] by (cases t) (auto simp: kv_set_def tree_ok_def prod_eq_iff)

lemma Tree_Set_is:
  assumes "tree_is env db T t" "length (oinorder t) + 1 < 2 ^ 31" "otree_ok t"
  shows "\<exists>T'. Tree_Set db T k v = Some (T', k \<in> fst ` set (oinorder t)) \<and> tree_is env db T' (oset k v t) \<and> t_batch T' = t_batch T"
proof (cases t)
  case None
  then show ?thesis using assms(1) by (simp add: Tree_Set_def del: rep.simps)
next
  case (Some u)
  then obtain n where n: "t_root T = Some n" "rep env db u n" using assms(1) by auto
  obtain n' where n': "node_set db n k v = Some (n', snd (aset k v u))" "rep env db (fst (aset k v u)) n'"
    using node_set_rep [OF n(2)] assms(2) Some by auto
  have "snd (aset k v u) \<longleftrightarrow> k \<in> fst ` set (inorder u)"
    using aset_ok [of u k v] assms(3) Some by (cases "aset k v u") auto
  then show ?thesis using n n' by (simp add: Some Tree_Set_def)
qed

text \<open>
  What the store relies on in an object it sets keys of: a specification that each set follows and
  whose size grows by one key at most.
\<close>

locale kv_object =
  fixes is_obj :: "'o \<Rightarrow> 'a \<Rightarrow> bool"
    and put :: "bytes \<Rightarrow> bytes \<Rightarrow> 'o \<Rightarrow> 'o option"
    and put_all :: "(bytes \<times> bytes) list \<Rightarrow> 'o \<Rightarrow> 'o option"
    and sput :: "bytes \<Rightarrow> bytes \<Rightarrow> 'a \<Rightarrow> 'a"
    and contents :: "'a \<Rightarrow> (bytes \<times> bytes) list"
    and cap :: nat
  assumes put: "is_obj x a \<Longrightarrow> length (contents a) + 1 < cap \<Longrightarrow> \<exists>y. put k v x = Some y \<and> is_obj y (sput k v a)"
    and sput: "is_obj x a \<Longrightarrow> contents (sput k v a) = kv_set k v (contents a)"
    and put_all: "put_all [] x = Some x"
      "put_all (kv # kvs) x = (case put (fst kv) (snd kv) x of None \<Rightarrow> None | Some y \<Rightarrow> put_all kvs y)"
begin

definition sput_all :: "(bytes \<times> bytes) list \<Rightarrow> 'a \<Rightarrow> 'a" where
  "sput_all kvs a = fold (\<lambda>kv. sput (fst kv) (snd kv)) kvs a"

lemma put_all_is:
  "is_obj x a \<Longrightarrow> length (contents a) + length kvs < cap \<Longrightarrow>
   \<exists>y. put_all kvs x = Some y \<and> is_obj y (sput_all kvs a) \<and>
     contents (sput_all kvs a) = kv_sets kvs (contents a)"
proof (induction kvs arbitrary: x a)
  case Nil
  then show ?case by (simp add: put_all sput_all_def)
next
  case (Cons kv kvs)
  obtain y where y: "put (fst kv) (snd kv) x = Some y" "is_obj y (sput (fst kv) (snd kv) a)"
    using put [of x a "fst kv" "snd kv"] Cons.prems by auto
  have c: "contents (sput (fst kv) (snd kv) a) = kv_set (fst kv) (snd kv) (contents a)"
    using sput Cons.prems(1) by blast
  have "length (kv_set (fst kv) (snd kv) (contents a)) \<le> length (contents a) + 1"
    using length_kv_set by simp
  then show ?case using Cons.IH [OF y(2)] y(1) Cons.prems c by (simp add: put_all sput_all_def)
qed

end

interpretation mavl_kv: kv_object
  "\<lambda>T t. tree_is env db T t \<and> otree_ok t \<and> t_batch T" "\<lambda>k v T. map_option fst (Tree_Set db T k v)" "set_all db" oset oinorder "2 ^ 31"
  for env db
proof
  fix x a k v
  assume "tree_is env db x a \<and> otree_ok a \<and> t_batch x" "length (oinorder a) + 1 < 2 ^ 31"
  then show "\<exists>y. map_option fst (Tree_Set db x k v) = Some y \<and> tree_is env db y (oset k v a) \<and> otree_ok (oset k v a) \<and> t_batch y"
    using Tree_Set_is [of env db x a k v] oset_ok [of a k v] by auto
qed (auto simp: oset_ok split: option.splits)

end
