(* ===== verification/Mavl_Properties.thy ===== *)
theory Mavl_Properties
  imports Mavl_Store_Theorems
begin

text \<open>
  The properties of the state tree and its store, each with a witness on a small tree. The store
  is configured as it is by default: without \<^verbatim>\<open>EnableMavlPrefix\<close> and \<^verbatim>\<open>EnableMVCC\<close>.
\<close>

section \<open>A small tree\<close>

definition demo_menv :: mavl_env where
  "demo_menv = \<lparr>Sha256 = (\<lambda>x. take 32 (x @ replicate 32 0)),
     Encode4 = (\<lambda>a b h s. [of_int h, of_int s, of_nat (length a)] @ a @ b),
     EnableMavlPrefix = False, EnableMVCC = False\<rparr>"

definition demo_tree :: atree where
  "demo_tree = Bin [2] (Tip [1] [10]) (Tip [2] [20])"

definition demo_mnode :: mnode where
  "demo_mnode = fork_leaf [2] (NewNode [1] [10]) (NewNode [2] [20])"

definition demo_root :: Tree where
  "demo_root = NewTree\<lparr>t_root := Some demo_mnode\<rparr>"

lemma demo_rep: "rep env db demo_tree demo_mnode"
  unfolding demo_tree_def demo_mnode_def by (rule rep_fork [OF rep_NewNode rep_NewNode]) simp_all

lemma demo_ok: "tree_ok demo_tree" "inorder demo_tree = [([1], [10]), ([2], [20])]"
  by (simp_all add: tree_ok_def demo_tree_def)

lemma demo_tree_rep: "tree_rep env db demo_root [([1], [10]), ([2], [20])]"
  unfolding tree_rep_def
  by (rule exI [of _ "Some demo_tree"]) (simp add: demo_ok demo_root_def NewTree_def demo_rep)

lemma demo_sha_len: "sha_len demo_menv" by (auto simp: sha_len_def demo_menv_def min_def)

section \<open>The tree as a sorted map\<close>

text \<open>
  C9. Setting a key of a tree that stands for the sorted list \<open>xs\<close> returns, without a panic, a tree
  that stands for the list with the key set, and reports whether the key was there. The tree
  stays a balanced search tree, whatever part of it is in memory or in the database.
\<close>
theorem Tree_Set_refines:
  assumes "tree_rep env db T xs" "length xs + 1 < 2 ^ 31"
  shows "\<exists>T'. Tree_Set db T k v = Some (T', k \<in> fst ` set xs) \<and> tree_rep env db T' (kv_set k v xs) \<and>
    map_of (kv_set k v xs) = (map_of xs)(k \<mapsto> v)"
proof -
  obtain t where t: "tree_is env db T t" "otree_ok t" "oinorder t = xs" using assms(1) by (auto simp: tree_rep_def)
  have "tree_rep env db T' (kv_set k v xs)" if "tree_is env db T' (oset k v t)" for T'
    using that oset_ok [OF t(2), of k v] t(3) by (auto simp: tree_rep_def)
  then show ?thesis
    using Tree_Set_is [OF t(1) _ t(2), of k v] assms(2) t(3) map_of_kv_set sorted_oinorder [OF t(2)] by auto
qed

lemma Tree_Set_refines_witness:
  "\<exists>T'. Tree_Set Map.empty demo_root [1, 5] [30] = Some (T', False) \<and>
    tree_rep demo_menv Map.empty T' [([1], [10]), ([1, 5], [30]), ([2], [20])]"
  using Tree_Set_refines [where k = "[1, 5]" and v = "[30]" and env = demo_menv and db = Map.empty, OF demo_tree_rep] by (auto simp: kv_set_def)

lemma kv_del_absent: "k \<notin> fst ` set xs \<Longrightarrow> kv_del k xs = xs"
  unfolding kv_del_def by (rule filter_True) force

lemma Tree_Remove_is:
  assumes "tree_is env db T t" "length (oinorder t) < 2 ^ 31" "otree_ok t"
  shows "\<exists>T' t'. Tree_Remove db T k = Some (map_of (oinorder t) k, T') \<and> tree_is env db T' t' \<and> otree_ok t' \<and>
    oinorder t' = kv_del k (oinorder t) \<and> t_batch T' = t_batch T"
proof (cases t)
  case None
  then show ?thesis using assms(1) by (intro exI [of _ T] exI [of _ None]) (simp add: Tree_Remove_def kv_del_def)
next
  case (Some u)
  then obtain n where n: "t_root T = Some n" "rep env db u n" and ok: "tree_ok u" using assms(1,3) by auto
  obtain res where res: "node_remove db n k = Some res" "removed env db (aremove k u) res"
    using node_remove_rep [OF n(2)] assms(2) Some by auto
  have io: "case aremove k u of None \<Rightarrow> k \<notin> set (keys u)
    | Some (t', newKey, v) \<Rightarrow> map_of (inorder u) k = Some v \<and>
       (case t' of None \<Rightarrow> kv_del k (inorder u) = [] | Some w \<Rightarrow> inorder w = kv_del k (inorder u))"
    using aremove_inorder ok by (simp add: tree_ok_def)
  show ?thesis
  proof (cases "aremove k u")
    case None
    then have "map_of (inorder u) k = None" using io by (simp add: map_of_eq_None_iff)
    then have "Tree_Remove db T k = Some (map_of (inorder u) k, T)" "kv_del k (inorder u) = inorder u"
      using io res n(1) None by (simp_all add: Tree_Remove_def removed_simps kv_del_absent)
    then show ?thesis using assms Some by (intro exI [of _ T] exI [of _ t]) simp
  next
    case (Some a)
    then obtain t' nk v where a: "aremove k u = Some (t', nk, v)" by (cases a) auto
    show ?thesis
    proof (cases t')
      case None
      then have "Tree_Remove db T k = Some (map_of (inorder u) k, T\<lparr>t_root := None\<rparr>)" "kv_del k (inorder u) = []"
        using io res n(1) a by (simp_all add: Tree_Remove_def removed_simps)
      then show ?thesis using \<open>t = Some u\<close> by (intro exI [of _ "T\<lparr>t_root := None\<rparr>"] exI [of _ None]) simp
    next
      case (Some w)
      then obtain h c where hc: "res = Some (h, c, nk, v)" "kid env db w h c" using res(2) a by (auto simp: removed_simps)
      have w: "tree_ok w" "inorder w = kv_del k (inorder u)" "map_of (inorder u) k = Some v"
        using aremove_ok [OF ok] a Some by auto
      have "\<exists>n'. Tree_Remove db T k = Some (Some v, T\<lparr>t_root := Some n'\<rparr>) \<and> rep env db w n'"
      proof (cases c)
        case None
        then have "h = Some (ahash env w)" "in_store env db w" using hc(2) by (simp_all add: kid_def)
        then show ?thesis using GetNode_rep [of env db w] n(1) res(1) hc(1) None by (auto simp: Tree_Remove_def)
      next
        case (Some n')
        then show ?thesis using n(1) res(1) hc by (auto simp: Tree_Remove_def)
      qed
      then obtain n' where "Tree_Remove db T k = Some (Some v, T\<lparr>t_root := Some n'\<rparr>)" "rep env db w n'" by blast
      then show ?thesis using w \<open>t = Some u\<close> by (intro exI [of _ "T\<lparr>t_root := Some n'\<rparr>"] exI [of _ "Some w"]) simp
    qed
  qed
qed

text \<open>
  C29. Removing a key returns the value it had, if any, and a tree that stands for the list without
  the key; the tree is again balanced and its inner keys are the least keys of their right
  subtrees.
\<close>
theorem Tree_Remove_refines:
  assumes "tree_rep env db T xs" "length xs < 2 ^ 31"
  shows "\<exists>T'. Tree_Remove db T k = Some (map_of xs k, T') \<and> tree_rep env db T' (kv_del k xs) \<and>
    map_of (kv_del k xs) = (map_of xs)(k := None)"
proof -
  obtain t where t: "tree_is env db T t" "otree_ok t" "oinorder t = xs" using assms(1) by (auto simp: tree_rep_def)
  obtain T' t' where "Tree_Remove db T k = Some (map_of xs k, T')" "tree_is env db T' t'" "otree_ok t'" "oinorder t' = kv_del k xs"
    using Tree_Remove_is [OF t(1) _ t(2), of k] assms(2) t(3) by auto
  then show ?thesis by (auto simp: tree_rep_def map_of_kv_del)
qed

lemma Tree_Remove_refines_witness:
  "\<exists>T'. Tree_Remove Map.empty demo_root [1] = Some (Some [10], T') \<and> tree_rep demo_menv Map.empty T' [([2], [20])]"
  using Tree_Remove_refines [where k = "[1]" and env = demo_menv and db = Map.empty, OF demo_tree_rep] by (auto simp: kv_del_def)

lemma Tree_Get_is:
  assumes "tree_is env db T t" "length (oinorder t) < 2 ^ 31" "otree_ok t"
  shows "Tree_Get db T k = Some (int (length (filter (\<lambda>x. fst x < k) (oinorder t))), map_of (oinorder t) k)"
proof (cases t)
  case None
  then show ?thesis using assms(1) by (simp add: Tree_Get_def)
next
  case (Some u)
  then show ?thesis using assms node_get_rep [of env db u _ k] by (auto simp: Tree_Get_def tree_ok_def rank_def)
qed

lemma sorted_rank:
  fixes xs :: "(bytes \<times> bytes) list"
  assumes "sorted_wrt (<) (map fst xs)" "i < length xs"
  shows "length (filter (\<lambda>x. fst x < fst (xs ! i)) xs) = i"
proof -
  have "filter (\<lambda>x. fst x < fst (xs ! i)) (take i xs) = take i xs"
    using assms sorted_wrt_nth_less [OF assms(1), of _ i] by (auto simp: filter_id_conv in_set_conv_nth) (metis fst_conv)
  moreover have "\<not> fst (xs ! j) < fst (xs ! i)" if "i \<le> j" "j < length xs" for j
    using that sorted_wrt_nth_less [OF assms(1), of i j] by (cases "i = j") auto
  then have "filter (\<lambda>x. fst x < fst (xs ! i)) (drop i xs) = []"
    using assms(2) by (auto simp: filter_empty_conv in_set_conv_nth) (metis add.commute fst_conv le_add1 less_diff_conv)
  ultimately show ?thesis using assms(2) by (metis append_Nil2 append_take_drop_id filter_append length_take min.absorb2 less_imp_le)
qed

text \<open>
  Looking a key up returns its index among the keys, in order, and its value, and
  \<^verbatim>\<open>GetByIndex\<close> is the inverse; for an absent key the index counts the keys below it.
\<close>
theorem Tree_Get_GetByIndex:
  assumes "tree_rep env db T xs" "length xs < 2 ^ 31"
  shows "(\<forall>i < length xs. Tree_Get db T (fst (xs ! i)) = Some (int i, Some (snd (xs ! i))) \<and>
      Tree_GetByIndex db T (int i) = Some (Some (xs ! i)) \<and> Tree_Has db T (fst (xs ! i)) = Some True) \<and>
    (\<forall>k. k \<notin> fst ` set xs \<longrightarrow>
      Tree_Get db T k = Some (int (length (filter (\<lambda>x. fst x < k) xs)), None) \<and> Tree_Has db T k = Some False)"
proof -
  obtain t where t: "tree_is env db T t" "otree_ok t" "oinorder t = xs" using assms(1) by (auto simp: tree_rep_def)
  have sorted: "sorted_wrt (<) (map fst xs)" using sorted_oinorder [OF t(2)] t(3) by simp
  then have dist: "distinct (map fst xs)" using strict_sorted_iff by blast
  have get: "Tree_Get db T k = Some (int (length (filter (\<lambda>x. fst x < k) xs)), map_of xs k)" for k
    using Tree_Get_is [OF t(1) _ t(2)] assms(2) t(3) by simp
  have has: "Tree_Has db T k = Some (k \<in> fst ` set xs)" for k
    using t node_has_rep [of env db _ _ k] by (cases t) (auto simp: Tree_Has_def tree_ok_def)
  have "Tree_GetByIndex db T (int i) = Some (Some (xs ! i))" if "i < length xs" for i
    using t that assms(2) node_getByIndex_rep [of env db _ _ i] by (cases t) (auto simp: Tree_GetByIndex_def)
  moreover have "map_of xs (fst (xs ! i)) = Some (snd (xs ! i))" if "i < length xs" for i
    using that dist by (simp add: map_of_eq_Some_iff)
  ultimately show ?thesis using get has sorted_rank [OF sorted] by (auto simp: map_of_eq_None_iff)
qed

lemma Tree_Get_GetByIndex_witness:
  "Tree_Get Map.empty demo_root [2] = Some (1, Some [20]) \<and> Tree_GetByIndex Map.empty demo_root 1 = Some (Some ([2], [20]))"
  using Tree_Get_GetByIndex [where env = demo_menv and db = Map.empty, OF demo_tree_rep] by (auto simp: All_less_Suc)



text \<open>
  \<^verbatim>\<open>IterateRange\<close> calls back on exactly the pairs with a key in \<open>[start, end)\<close>, in the order
  asked for, until the callback stops it; the inclusive variant includes the end.
\<close>
theorem IterateRange_exact:
  assumes "tree_rep env db T xs"
  shows "IterateRange db T start endk ascending fn s =
      Some (scan fn (in_order ascending (filter (in_range start endk False) xs)) s) \<and>
    IterateRangeInclusive db T start endk ascending fn s =
      Some (scan fn (in_order ascending (filter (in_range start endk True) xs)) s) \<and>
    Iterate db T fn s = Some (scan fn xs s)"
proof -
  obtain t where t: "tree_is env db T t" "otree_ok t" "oinorder t = xs" using assms by (auto simp: tree_rep_def)
  show ?thesis
  proof (cases t)
    case None
    then show ?thesis using t by (simp add: IterateRange_def IterateRangeInclusive_def Iterate_def in_order_def)
  next
    case (Some u)
    then obtain n where n: "t_root T = Some n" "rep env db u n" "keyed u" "sorted_wrt (<) (keys u)" "inorder u = xs"
      using t by (auto simp: tree_ok_def)
    have "filter (in_range None None False) xs = xs"
      by (simp add: filter_id_conv in_range_def after_start_def before_end_def)
    then have "traverseInRange db None None True False (leaf_cb fn) n s = Some (scan fn xs s)"
      using traverseInRange_rep [OF n(2-4), of None None True False fn s] n(5) by (simp add: in_order_def)
    then show ?thesis
      using traverseInRange_rep [OF n(2-4), of start endk ascending _ fn s] n(1,5)
      by (simp add: IterateRange_def IterateRangeInclusive_def Iterate_def)
  qed
qed

lemma IterateRange_exact_witness:
  "IterateRange Map.empty demo_root (Some [1, 0]) None True (\<lambda>k v s. (False, s @ [v])) [] = Some (False, [[20]])"
  using IterateRange_exact [where env = demo_menv and db = Map.empty and start = "Some [1, 0]" and endk = None
      and ascending = True and fn = "\<lambda>k v s. (False, s @ [v])" and s = "[]", OF demo_tree_rep]
  by (simp add: in_range_def after_start_def before_end_def in_order_def)

end
