(* ===== verification/Mavl_Versions.thy ===== *)
theory Mavl_Versions
  imports Mavl_Properties
begin

text \<open>
  States of the store are named by root hashes: what saving a tree adds to the database, what the
  store answers for each hash while a block is executed, committed or rolled back, and what an
  accepted proof says of a state.
\<close>

section \<open>Saving and loading\<close>

text \<open>The state a root hash names in the database, as a tree and as a sorted list.\<close>

definition version_tree :: "mavl_env \<Rightarrow> ndb \<Rightarrow> bytes option \<Rightarrow> atree option \<Rightarrow> bool" where
  "version_tree env db root t \<longleftrightarrow> otree_ok t \<and> (\<exists>T. Tree_Load db NewTree root = Inr T \<and> tree_is env db T t)"

definition version :: "mavl_env \<Rightarrow> ndb \<Rightarrow> bytes option \<Rightarrow> (bytes \<times> bytes) list \<Rightarrow> bool" where
  "version env db root xs \<longleftrightarrow> (\<exists>t. version_tree env db root t \<and> oinorder t = xs)"

lemma tree_is_mono: "tree_is env db T t \<Longrightarrow> db \<subseteq>\<^sub>m db' \<Longrightarrow> tree_is env db' T t"
  by (cases t) (auto intro: rep_mono)

lemma map_le_Some: "m \<subseteq>\<^sub>m m' \<Longrightarrow> m x = Some y \<Longrightarrow> m' x = Some y"
  unfolding map_le_def by (metis domI)

lemma GetNode_mono:
  assumes "GetNode db h = Some n" "db \<subseteq>\<^sub>m db'" shows "GetNode db' h = Some n"
proof (cases h)
  case (Some x)
  then obtain sn where "db x = Some sn" using assms(1) by (cases "db x") (simp_all add: GetNode_def)
  then show ?thesis using assms(1) map_le_Some [OF assms(2)] Some by (simp add: GetNode_def)
qed (use assms(1) in \<open>simp add: GetNode_def\<close>)

lemma Tree_Load_mono:
  assumes "Tree_Load db T0 root = Inr T" "db \<subseteq>\<^sub>m db'" shows "Tree_Load db' T0 root = Inr T"
proof (cases "GetNode db root")
  case None
  then show ?thesis using assms(1) by (auto simp: Tree_Load_def split: option.splits if_splits)
next
  case (Some n)
  have "GetNode db' root = Some n" using GetNode_mono [OF Some assms(2)] .
  then show ?thesis using assms(1) Some by (auto simp: Tree_Load_def split: option.splits if_splits)
qed

lemma version_tree_mono: "version_tree env db root t \<Longrightarrow> db \<subseteq>\<^sub>m db' \<Longrightarrow> version_tree env db' root t"
  using Tree_Load_mono tree_is_mono unfolding version_tree_def by blast

lemma version_mono: "version env db root xs \<Longrightarrow> db \<subseteq>\<^sub>m db' \<Longrightarrow> version env db' root xs"
  using version_tree_mono unfolding version_def by blast

text \<open>The height of the block is all that differs between the trees that are loaded.\<close>

lemma Tree_Load_at: "Tree_Load db NewTree root = Inr T \<Longrightarrow> Tree_Load db (tree_at height) root = Inr (T\<lparr>t_blockHeight := height\<rparr>)"
  by (auto simp: Tree_Load_def tree_at_def NewTree_def split: option.splits if_splits)

lemma Tree_Load_batch: "Tree_Load db NewTree root = Inr T \<Longrightarrow> t_batch T"
  by (auto simp: Tree_Load_def NewTree_def split: option.splits if_splits)

lemma in_store_version:
  assumes "in_store env db t" "tree_ok t" "ahash env t \<noteq> emptyRoot"
  shows "version_tree env db (Some (ahash env t)) (Some t)"
  using GetNode_rep [OF assms(1)] assms(2,3) by (auto simp: version_tree_def Tree_Load_def)

lemma Tree_Save_is:
  assumes "t_root T = Some n" "rep env db t n" "plain_config env" "t_batch T" "no_clash env db t"
  shows "\<exists>db' T'. Tree_Save env db T = Some (Some (ahash env t), db', T') \<and> in_store env db' t \<and> db \<subseteq>\<^sub>m db'"
proof -
  obtain c ws n' where "node_save env (n_height (info n)) (t_blockHeight T) n = Some (c, ws, n')"
    "n_hash (info n') = Some (ahash env t)" "saves env db t ws"
    using node_save_rep [OF assms(2,3)] by blast
  then show ?thesis using assms(1,4) write_batch_saves [OF _ assms(5)] by (simp add: Tree_Save_def)
qed

text \<open>
  C18. Saving a tree returns its root hash, and loading that hash from the database it left gives
  the same keys and values; every state that could be loaded before can still be loaded. The hash
  is relied on for two nodes of this tree never having one hash and different records, nor one
  of them the hash of a different record in the database.
\<close>
theorem Tree_Save_Load:
  assumes "t_root T = Some n" "rep env db t n" "tree_ok t" "plain_config env" "t_batch T"
    "no_clash env db t" "ahash env t \<noteq> emptyRoot"
  shows "\<exists>db' T'. Tree_Save env db T = Some (Some (ahash env t), db', T') \<and>
    version env db' (Some (ahash env t)) (inorder t) \<and>
    (\<forall>root xs. version env db root xs \<longrightarrow> version env db' root xs)"
proof -
  obtain db' T' where s: "Tree_Save env db T = Some (Some (ahash env t), db', T')" "in_store env db' t" "db \<subseteq>\<^sub>m db'"
    using Tree_Save_is [OF assms(1,2,4,5,6)] by blast
  have "version env db' (Some (ahash env t)) (inorder t)"
    unfolding version_def using in_store_version [OF s(2) assms(3,7)] by (intro exI [of _ "Some t"]) simp
  then show ?thesis using s version_mono by blast
qed

lemma demo_hashes:
  "ahash demo_menv (Tip [1] [10]) = [0, 1, 1, 1, 10] @ replicate 27 0"
  "ahash demo_menv (Tip [2] [20]) = [0, 1, 1, 2, 20] @ replicate 27 0"
  "ahash demo_menv demo_tree = [1, 2, 32, 0, 1, 1, 1, 10] @ replicate 24 0"
  by (simp_all add: demo_tree_def LeafNode_Hash_def InnerNode_Hash_def hash_tail_def demo_menv_def numeral_eq_Suc)

lemma demo_plain: "plain_config demo_menv" by (simp add: plain_config_def demo_menv_def)

lemma demo_no_clash: "no_clash demo_menv Map.empty demo_tree"
  using demo_hashes by (simp add: no_clash_def demo_tree_def del: ahash.simps)

lemma demo_not_empty: "ahash demo_menv demo_tree \<noteq> emptyRoot"
  by (simp add: demo_hashes emptyRoot_def numeral_eq_Suc)

lemma Tree_Save_Load_witness:
  "\<exists>db' T'. Tree_Save demo_menv Map.empty demo_root = Some (Some (ahash demo_menv demo_tree), db', T') \<and>
    version demo_menv db' (Some (ahash demo_menv demo_tree)) [([1], [10]), ([2], [20])]"
  using Tree_Save_Load [where T = demo_root, OF _ demo_rep demo_ok(1) demo_plain _ demo_no_clash demo_not_empty]
  by (auto simp: demo_root_def NewTree_def demo_ok(2))

section \<open>Blocks on the store\<close>

text \<open>What the store answers under a hash: the tree in memory first, then the database.\<close>

definition shows_state :: "mavl_env \<Rightarrow> mavl_store \<Rightarrow> bytes \<Rightarrow> (bytes \<times> bytes) list \<Rightarrow> bool" where
  "shows_state env s h xs \<longleftrightarrow>
     (case ms_trees s h of
        Some (Some T) \<Rightarrow> tree_rep env (ms_db s) T xs
      | _ \<Rightarrow> version env (ms_db s) (Some h) xs)"

definition pending_tree :: "mavl_env \<Rightarrow> mavl_store \<Rightarrow> atree \<Rightarrow> bool" where
  "pending_tree env s t \<longleftrightarrow> (\<exists>T n. ms_trees s (ahash env t) = Some (Some T) \<and> t_root T = Some n \<and> t_batch T \<and>
     rep env (ms_db s) t n \<and> tree_ok t)"

lemma go_bytes_Some [simp]: "go_bytes (Some h) = h" by (simp add: go_bytes_def)

lemma get_all_is:
  assumes "tree_is env db T t" "length (oinorder t) < 2 ^ 31" "otree_ok t"
  shows "get_all db T ks = Some (map (map_of (oinorder t)) ks)"
  by (induction ks) (simp_all add: Tree_Get_is [OF assms])

lemma Store_Get_shows:
  assumes "shows_state env s h xs" "length xs < 2 ^ 31"
  shows "Store_Get s (Some h) ks = Some (map (map_of xs) ks)"
proof -
  have "\<exists>T. (case ms_trees s h of Some (Some t) \<Rightarrow> Inr t | _ \<Rightarrow> Tree_Load (ms_db s) NewTree (Some h)) = Inr T \<and>
      tree_rep env (ms_db s) T xs"
    using assms(1) by (auto simp: shows_state_def version_def version_tree_def tree_rep_def split: option.splits)
  then obtain T t where T: "(case ms_trees s h of Some (Some t) \<Rightarrow> Inr t | _ \<Rightarrow> Tree_Load (ms_db s) NewTree (Some h)) = Inr T"
    "tree_is env (ms_db s) T t" "otree_ok t" "oinorder t = xs" by (auto simp: tree_rep_def)
  then show ?thesis using get_all_is [OF T(2) _ T(3), of ks] assms(2) by (simp add: Store_Get_def)
qed

lemma shows_mono:
  assumes "shows_state env s h xs" "ms_db s \<subseteq>\<^sub>m ms_db s'" "ms_trees s' h = ms_trees s h"
  shows "shows_state env s' h xs"
  using assms(1,3) version_mono [OF _ assms(2)] tree_is_mono [OF _ assms(2)] unfolding shows_state_def tree_rep_def
  by (fastforce split: option.splits)

lemma pending_tree_shows: "pending_tree env s t \<Longrightarrow> shows_state env s (ahash env t) (inorder t)"
  unfolding pending_tree_def shows_state_def tree_rep_def by (force intro: exI [of _ "Some t"])

lemma oset_all_Some:
  assumes "kvs \<noteq> []"
  shows "\<exists>t'. oset_all kvs t = Some t'"
proof -
  have some: "\<exists>t'. fold (\<lambda>kv. oset (fst kv) (snd kv)) kvs (Some t) = Some t'" for kvs t by (induction kvs arbitrary: t) auto
  obtain kv kvs' where k: "kvs = kv # kvs'" using assms by (cases kvs) auto
  have "\<exists>u. oset (fst kv) (snd kv) t = Some u" by (cases t) auto
  then show ?thesis using some by (auto simp: k oset_all_def)
qed

lemma Store_MemSet_ok:
  assumes "version_tree env (ms_db s) root t" "kvs \<noteq> []" "length (oinorder t) + length kvs < 2 ^ 31"
    "\<not> EnableMavlPrefix env" "oset_all kvs t = Some t'"
  shows "\<exists>T. Store_MemSet env s root height kvs = Some (Inr (Some (ahash env t')), keep_tree (Some (ahash env t')) (Some T) s) \<and>
    pending_tree env (keep_tree (Some (ahash env t')) (Some T) s) t' \<and>
    inorder t' = kv_sets kvs (oinorder t)"
proof -
  obtain T0 where T0: "Tree_Load (ms_db s) NewTree root = Inr T0" "tree_is env (ms_db s) T0 t" "otree_ok t"
    using assms(1) by (auto simp: version_tree_def)
  let ?T = "T0\<lparr>t_blockHeight := height\<rparr>"
  have load: "Tree_Load (ms_db s) (tree_at height) root = Inr ?T" using Tree_Load_at [OF T0(1)] .
  have obj: "tree_is env (ms_db s) ?T t \<and> otree_ok t \<and> t_batch ?T"
    using T0 Tree_Load_batch [OF T0(1)] by (cases t) auto
  have sp: "mavl_kv.sput_all kvs t = Some t'" using assms(5) by (simp add: mavl_kv.sput_all_def oset_all_def)
  obtain T1 where T1: "set_all (ms_db s) kvs ?T = Some T1" "tree_is env (ms_db s) T1 (Some t')" "tree_ok t'" "t_batch T1"
    "inorder t' = kv_sets kvs (oinorder t)"
    using mavl_kv.put_all_is [OF obj assms(3)] sp by auto
  obtain n where n: "t_root T1 = Some n" "rep env (ms_db s) t' n" using T1(2) by auto
  obtain n' where n': "node_Hash env (n_height (info n)) (t_blockHeight T1) n = Some (ahash env t', n')" "rep env (ms_db s) t' n'"
    using node_Hash_rep [OF n(2) assms(4)] by blast
  let ?T2 = "T1\<lparr>t_root := Some n'\<rparr>"
  have "Tree_Hash env T1 = Some (Some (ahash env t'), ?T2)" using n(1) n'(1) by (simp add: Tree_Hash_def)
  then have "Store_MemSet env s root height kvs = Some (Inr (Some (ahash env t')), keep_tree (Some (ahash env t')) (Some ?T2) s)"
    using assms(2) load T1(1) by (simp add: Store_MemSet_def mem_tree_def)
  moreover have "pending_tree env (keep_tree (Some (ahash env t')) (Some ?T2) s) t'"
    using n'(2) T1(3,4) by (simp add: pending_tree_def keep_tree_def)
  ultimately show ?thesis using T1(5) by blast
qed

lemma Store_Commit_ok:
  assumes "pending_tree env s t" "plain_config env" "no_clash env (ms_db s) t" "ahash env t \<noteq> emptyRoot"
  shows "\<exists>db'. Store_Commit env s (Some (ahash env t)) =
      Some (Inr (Some (ahash env t)), drop_tree (Some (ahash env t)) (s\<lparr>ms_db := db'\<rparr>)) \<and>
    ms_db s \<subseteq>\<^sub>m db' \<and> version_tree env db' (Some (ahash env t)) (Some t)"
proof -
  obtain T n where T: "ms_trees s (ahash env t) = Some (Some T)" "t_root T = Some n" "t_batch T" "rep env (ms_db s) t n" "tree_ok t"
    using assms(1) by (auto simp: pending_tree_def)
  obtain db' T' where "Tree_Save env (ms_db s) T = Some (Some (ahash env t), db', T')" "in_store env db' t" "ms_db s \<subseteq>\<^sub>m db'"
    using Tree_Save_is [OF T(2,4) assms(2) T(3) assms(3)] by blast
  then show ?thesis using T(1) in_store_version [OF _ T(5) assms(4)] by (auto simp: Store_Commit_def)
qed

text \<open>
  C8. Executing a block: \<^verbatim>\<open>MemSet\<close> on a state of the database returns the hash of a new
  state, which answers lookups with the changes applied in order, before and after the
  \<^verbatim>\<open>Commit\<close> that makes it durable; the database is not touched before the commit, every
  other hash answers as it did, and a \<^verbatim>\<open>Rollback\<close> in place of the commit restores the store.
\<close>
theorem Store_block:
  assumes "version_tree env (ms_db s) root t" "kvs \<noteq> []" "length (oinorder t) + length kvs < 2 ^ 31"
    "oset_all kvs t = Some t'"
    "plain_config env" "no_clash env (ms_db s) t'" "ahash env t' \<noteq> emptyRoot"
  shows "\<exists>s1 s2. let h = ahash env t'; xs = kv_sets kvs (oinorder t) in
    Store_MemSet env s root height kvs = Some (Inr (Some h), s1) \<and> ms_db s1 = ms_db s \<and>
    Store_Commit env s1 (Some h) = Some (Inr (Some h), s2) \<and> version env (ms_db s2) (Some h) xs \<and>
    (\<forall>ks. Store_Get s1 (Some h) ks = Some (map (map_of xs) ks) \<and> Store_Get s2 (Some h) ks = Some (map (map_of xs) ks)) \<and>
    (\<forall>h' ys. h' \<noteq> h \<longrightarrow> shows_state env s h' ys \<longrightarrow> shows_state env s1 h' ys \<and> shows_state env s2 h' ys) \<and>
    (ms_trees s h = None \<longrightarrow> Store_Rollback s1 (Some h) = (Inr (Some h), s))"
proof -
  let ?h = "ahash env t'" and ?xs = "kv_sets kvs (oinorder t)"
  have np: "\<not> EnableMavlPrefix env" using assms(5) by (simp add: plain_config_def)
  obtain T where T: "Store_MemSet env s root height kvs = Some (Inr (Some ?h), keep_tree (Some ?h) (Some T) s)"
    "pending_tree env (keep_tree (Some ?h) (Some T) s) t'" "inorder t' = ?xs"
    using Store_MemSet_ok [OF assms(1-3) np assms(4)] by blast
  let ?s1 = "keep_tree (Some ?h) (Some T) s"
  have db: "ms_db ?s1 = ms_db s" by (simp add: keep_tree_def)
  obtain db' where c: "Store_Commit env ?s1 (Some ?h) = Some (Inr (Some ?h), drop_tree (Some ?h) (?s1\<lparr>ms_db := db'\<rparr>))"
    "ms_db s \<subseteq>\<^sub>m db'" "version_tree env db' (Some ?h) (Some t')"
    using Store_Commit_ok [OF T(2) assms(5) _ assms(7)] assms(6) db by auto
  let ?s2 = "drop_tree (Some ?h) (?s1\<lparr>ms_db := db'\<rparr>)"
  have v: "version env db' (Some ?h) ?xs" unfolding version_def using c(3) T(3) by (intro exI [of _ "Some t'"]) simp
  have s1: "shows_state env ?s1 ?h ?xs" using pending_tree_shows [OF T(2)] T(3) by simp
  have s2: "shows_state env ?s2 ?h ?xs" using v by (simp add: shows_state_def drop_tree_def)
  have len: "length ?xs < 2 ^ 31" using length_kv_sets [of kvs "oinorder t"] assms(3) by simp
  have other: "shows_state env ?s1 h' ys \<and> shows_state env ?s2 h' ys" if "h' \<noteq> ?h" "shows_state env s h' ys" for h' ys
    using that c(2) shows_mono [OF that(2), of ?s1] shows_mono [OF that(2), of ?s2]
    by (simp add: keep_tree_def drop_tree_def)
  have undo: "Store_Rollback ?s1 (Some ?h) = (Inr (Some ?h), s)" if "ms_trees s ?h = None"
    using that by (simp add: Store_Rollback_def keep_tree_def drop_tree_def fun_upd_idem)
  show ?thesis
    unfolding Let_def using T(1) db c(1) v Store_Get_shows [OF s1 len] Store_Get_shows [OF s2 len] other undo
    by (intro exI [of _ ?s1] exI [of _ ?s2]) (simp add: drop_tree_def)
qed

lemma Store_block_witness:
  "\<exists>s1 s2. let s = \<lparr>ms_db = Map.empty, ms_trees = Map.empty\<rparr>; h = ahash demo_menv demo_tree in
    Store_MemSet demo_menv s None 7 [([2], [20]), ([1], [10])] = Some (Inr (Some h), s1) \<and>
    Store_Commit demo_menv s1 (Some h) = Some (Inr (Some h), s2) \<and>
    Store_Get s2 (Some h) [[1], [3]] = Some [Some [10], None]"
proof -
  let ?s = "\<lparr>ms_db = Map.empty, ms_trees = Map.empty\<rparr>"
  have "version_tree demo_menv (ms_db ?s) None None" by (simp add: version_tree_def Tree_Load_def NewTree_def)
  moreover have "oset_all [([2], [20]), ([1], [10])] None = Some demo_tree" by (simp add: oset_all_def demo_tree_def)
  ultimately show ?thesis
    using Store_block [where s = ?s and root = None and t = None and kvs = "[([2], [20]), ([1], [10])]" and t' = demo_tree
        and env = demo_menv and height = 7] demo_plain demo_no_clash demo_not_empty
    by (fastforce simp: kv_set_def Let_def)
qed

section \<open>Proofs on states\<close>

lemma version_tree_root:
  assumes "version_tree env db (Some root) (Some t)"
  obtains n where "Tree_Load db NewTree (Some root) = Inr (NewTree\<lparr>t_root := Some n\<rparr>)" "rep env db t n"
    "n_hash (info n) = Some root" "root = ahash env t" "tree_ok t"
proof -
  obtain T n where T: "Tree_Load db NewTree (Some root) = Inr T" "t_root T = Some n" "rep env db t n" "tree_ok t"
    using assms by (auto simp: version_tree_def)
  have g: "GetNode db (Some root) = Some n" "T = NewTree\<lparr>t_root := Some n\<rparr>"
    using T(1,2) by (auto simp: Tree_Load_def NewTree_def split: if_splits option.splits)
  then have "n_hash (info n) = Some root" using GetNode_hash [OF g(1)] by simp
  moreover from this have "root = ahash env t" using rep_fields [OF T(3)] by (auto simp: hash_ok_def)
  ultimately show ?thesis using that T g(2) by blast
qed

lemma GetKVPair_version:
  assumes "version_tree env db root t" "length (oinorder t) < 2 ^ 31"
  shows "GetKVPair db root ks = Some (map (map_of (oinorder t)) ks, None)"
proof -
  obtain T where T: "Tree_Load db NewTree root = Inr T" "tree_is env db T t" "otree_ok t"
    using assms(1) by (auto simp: version_tree_def)
  then show ?thesis using get_all_is [OF T(2) assms(2) T(3)] by (simp add: GetKVPair_def)
qed

text \<open>
  C37. A proof of inclusion can be had for exactly the keys of a state, and it verifies against the
  root hash for the key and the value the state has.
\<close>
theorem GetKVPairProof_verifies:
  assumes "version_tree env db (Some root) t" "sha_len env" "\<not> EnableMavlPrefix env"
  shows "case map_of (oinorder t) k of
      None \<Rightarrow> GetKVPairProof env db (Some root) k = Some (Inr None)
    | Some v \<Rightarrow> \<exists>inners. GetKVPairProof env db (Some root) k = Some (Inr (Some inners)) \<and>
        VerifyKVPairProof env root k v (Some inners) = Some True"
proof (cases t)
  case None
  then have "\<exists>T. Tree_Load db NewTree (Some root) = Inr T \<and> t_root T = None" using assms(1) by (auto simp: version_tree_def)
  then show ?thesis using None by (auto simp: GetKVPairProof_def Tree_Proof_def ConstructProof_def)
next
  case (Some u)
  obtain n where n: "Tree_Load db NewTree (Some root) = Inr (NewTree\<lparr>t_root := Some n\<rparr>)" "rep env db u n"
    "n_hash (info n) = Some root" "root = ahash env u" "tree_ok u"
    using version_tree_root assms(1) Some by blast
  obtain n' where n': "node_Hash env (n_height (info n)) 0 n = Some (root, n')" "rep env db u n'" "n_hash (info n') = Some root"
    using node_Hash_rep [OF n(2) assms(3)] n(4) by blast
  have val: "map_option fst (apath env k u) = map_of (inorder u) k" using apath_value n(5) by (simp add: tree_ok_def)
  have cp: "node_constructProof db n' k = Some (map_option (\<lambda>(v, is). (v, Some (LeafNode_Hash env k v 0 1), is)) (apath env k u))"
    using constructProof_rep [OF n'(2)] n'(3) by simp
  have got: "GetKVPairProof env db (Some root) k = Some (Inr (map_option snd (apath env k u)))"
    using n(1) n'(1) cp
    by (cases "apath env k u") (auto simp: GetKVPairProof_def Tree_Proof_def ConstructProof_def NewTree_def)
  show ?thesis
  proof (cases "apath env k u")
    case None
    then show ?thesis using val got \<open>t = Some u\<close> by simp
  next
    case path: (Some a)
    obtain v inners where a: "a = (v, inners)" by (cases a)
    have "VerifyKVPairProof env root k v (Some inners) = Some True"
      using apath_root [OF assms(2) path [unfolded a]] n(4) assms(2)
      by (simp add: VerifyKVPairProof_def Verify_def sha_len_def LeafNode_Hash_def hash_tail_id)
    moreover have "map_of (inorder u) k = Some v" using val path a by simp
    ultimately show ?thesis using got path a Some by simp
  qed
qed

text \<open>A database that holds the small tree.\<close>

definition demo_db :: ndb where
  "demo_db = [ahash demo_menv (Tip [1] [10]) \<mapsto> store_of demo_menv (Tip [1] [10]),
     ahash demo_menv (Tip [2] [20]) \<mapsto> store_of demo_menv (Tip [2] [20]),
     ahash demo_menv demo_tree \<mapsto> store_of demo_menv demo_tree]"

lemma demo_version: "version_tree demo_menv demo_db (Some (ahash demo_menv demo_tree)) (Some demo_tree)"
proof (rule in_store_version)
  show "in_store demo_menv demo_db demo_tree"
    using demo_hashes by (simp add: in_store_def demo_db_def demo_tree_def del: ahash.simps store_of.simps)
qed (simp_all add: demo_ok demo_not_empty)

lemma GetKVPairProof_verifies_witness:
  "\<exists>inners. GetKVPairProof demo_menv demo_db (Some (ahash demo_menv demo_tree)) [1] = Some (Inr (Some inners)) \<and>
    VerifyKVPairProof demo_menv (ahash demo_menv demo_tree) [1] [10] (Some inners) = Some True"
  using GetKVPairProof_verifies [OF demo_version demo_sha_len, of "[1]"] demo_ok(2) by (simp add: demo_menv_def)

text \<open>
  C17. An accepted proof is right: when every inner node of the proof has a positive height, and
  the hash separates the inputs that occur in the tree and along the proof, the state of the
  root hash has the key with the value.
\<close>
theorem VerifyKVPairProof_sound:
  assumes "version_tree env db (Some root) (Some t)" "sz t < 2 ^ 31" "sha_len env"
    "VerifyKVPairProof env root k v (Some inners) = Some True" "\<forall>b\<in>set inners. 0 < iHeight b"
    "inj_on (node_hash env) (tree_inputs env t \<union> proof_inputs env k v inners)"
  shows "GetKVPair db (Some root) [k] = Some ([Some v], None)"
proof -
  obtain n where n: "root = ahash env t" "tree_ok t" using version_tree_root [OF assms(1)] by metis
  have "fold (\<lambda>b h. InnerNodeProofHash env h b) inners (LeafNode_Hash env k v 0 1) = ahash env t"
    using assms(4) n(1) by (simp add: VerifyKVPairProof_def Verify_def Let_def)
  then have "(k, v) \<in> set (inorder t)" using proof_sound [OF assms(3) _ assms(5,6)] by blast
  moreover have "distinct (keys t)" using n(2) strict_sorted_iff by (auto simp: tree_ok_def)
  ultimately have "map_of (inorder t) k = Some v" by (simp add: map_of_eq_Some_iff)
  then show ?thesis using GetKVPair_version [OF assms(1), of "[k]"] assms(2) by simp
qed

lemma VerifyKVPairProof_sound_witness: "GetKVPair demo_db (Some (ahash demo_menv demo_tree)) [[1]] = Some ([Some [10]], None)"
proof (rule VerifyKVPairProof_sound [OF demo_version])
  let ?p = "[\<lparr>iLeftHash = None, iRightHash = Some (ahash demo_menv (Tip [2] [20])), iHeight = 1, iSize = 2\<rparr>]"
  show "VerifyKVPairProof demo_menv (ahash demo_menv demo_tree) [1] [10] (Some ?p) = Some True"
    by (simp add: VerifyKVPairProof_def Verify_def InnerNodeProofHash_def go_bytes_def demo_tree_def LeafNode_Hash_def
        hash_tail_def demo_menv_def InnerNode_Hash_def min_def)
  let ?l = "ahash demo_menv (Tip [1] [10])" and ?r = "ahash demo_menv (Tip [2] [20])"
  have tails: "hash_tail ?l = ?l" "hash_tail ?r = ?r" by (simp_all only: hash_tail_id ahash_len [OF demo_sha_len] order_refl)
  have leaf: "LeafNode_Hash demo_menv [1] [10] 0 1 = ?l" by simp
  have inputs: "tree_inputs demo_menv demo_tree \<union> proof_inputs demo_menv [1] [10] ?p =
    {([1], [10], 0, 1), ([2], [20], 0, 1), (?l, ?r, 1, 2)}"
    unfolding demo_tree_def proof_inputs_def leaf
    by (auto simp add: branch_input_def go_bytes_def tails simp del: ahash.simps)
  have hashes: "node_hash demo_menv ([1], [10], 0, 1) = ?l" "node_hash demo_menv ([2], [20], 0, 1) = ?r"
    "node_hash demo_menv (?l, ?r, 1, 2) = ahash demo_menv demo_tree"
    by (simp_all add: node_hash_def LeafNode_Hash_def InnerNode_Hash_def demo_tree_def tails [unfolded ahash.simps LeafNode_Hash_def])
  show "inj_on (node_hash demo_menv) (tree_inputs demo_menv demo_tree \<union> proof_inputs demo_menv [1] [10] ?p)"
    unfolding inputs inj_on_insert by (simp add: hashes del: ahash.simps) (simp add: demo_hashes del: ahash.simps)
qed (simp_all add: demo_sha_len demo_tree_def)

text \<open>
  C39. Without the condition on heights a proof can be forged: a leaf and an inner node are hashed
  from the same encoding, so in a state that has a leaf whose key is the hash of the leaf
  \<open>(k, v)\<close>, a proof of \<open>(k, v)\<close> verifies although the key is not in the state.
\<close>
theorem VerifyKVPairProof_forged:
  assumes "version_tree env db (Some root) (Some t)" "sz t < 2 ^ 31" "sha_len env"
    "(LeafNode_Hash env k v 0 1, w) \<in> set (inorder t)" "length w \<le> 32" "k \<notin> set (keys t)"
  shows "\<exists>inners. VerifyKVPairProof env root k v (Some inners) = Some True \<and>
    GetKVPair db (Some root) [k] = Some ([None], None)"
proof -
  let ?c = "LeafNode_Hash env k v 0 1"
  obtain n where n: "root = ahash env t" "tree_ok t" using version_tree_root [OF assms(1)] by metis
  have "distinct (keys t)" using n(2) strict_sorted_iff by (auto simp: tree_ok_def)
  then have "map_of (inorder t) ?c = Some w" using assms(4) by (simp add: map_of_eq_Some_iff)
  then obtain inners where p: "apath env ?c t = Some (w, inners)"
    using apath_value [of t env ?c] n(2) by (auto simp: tree_ok_def)
  let ?b = "\<lparr>iLeftHash = None, iRightHash = Some w, iHeight = 0, iSize = 1\<rparr>"
  have "length ?c = 32" using assms(3) by (simp add: LeafNode_Hash_def sha_len_def)
  then have "InnerNodeProofHash env ?c ?b = LeafNode_Hash env ?c w 0 1"
    using assms(5) by (simp add: InnerNodeProofHash_def go_bytes_def InnerNode_Hash_def hash_tail_id LeafNode_Hash_def [of _ _ w])
  then have "VerifyKVPairProof env root k v (Some (?b # inners)) = Some True"
    using apath_root [OF assms(3) p] n(1) \<open>length ?c = 32\<close>
    by (simp add: VerifyKVPairProof_def Verify_def Let_def hash_tail_id)
  moreover have "map_of (inorder t) k = None" using assms(6) by (simp add: map_of_eq_None_iff)
  ultimately show ?thesis using GetKVPair_version [OF assms(1), of "[k]"] assms(2) by auto
qed

definition forged_tree :: atree where
  "forged_tree = Tip (LeafNode_Hash demo_menv [1] [10] 0 1) [7]"

lemma forged_version:
  "version_tree demo_menv [ahash demo_menv forged_tree \<mapsto> store_of demo_menv forged_tree]
     (Some (ahash demo_menv forged_tree)) (Some forged_tree)"
proof (rule in_store_version)
  show "ahash demo_menv forged_tree \<noteq> emptyRoot"
    by (simp add: forged_tree_def LeafNode_Hash_def demo_menv_def emptyRoot_def numeral_eq_Suc)
qed (simp_all add: in_store_def forged_tree_def tree_ok_def)

lemma VerifyKVPairProof_forged_witness:
  "\<exists>inners. VerifyKVPairProof demo_menv (ahash demo_menv forged_tree) [1] [10] (Some inners) = Some True \<and>
    GetKVPair [ahash demo_menv forged_tree \<mapsto> store_of demo_menv forged_tree] (Some (ahash demo_menv forged_tree)) [[1]] = Some ([None], None)"
proof (rule VerifyKVPairProof_forged [OF forged_version _ demo_sha_len, where w = "[7]"])
  have "length (LeafNode_Hash demo_menv [1] [10] 0 1) = 32" using demo_sha_len by (simp add: LeafNode_Hash_def sha_len_def)
  then show "[1] \<notin> set (keys forged_tree)" by (auto simp: forged_tree_def)
qed (simp_all add: forged_tree_def)

end
