(* ===== verification/Store_List.thy ===== *)
theory Store_List
  imports Mavl_Store Account
begin

text \<open>
  Queries that scan a state: the listing of \<^verbatim>\<open>system/store/base.go\<close>, the total of coins of
  \<^verbatim>\<open>types/types.go\<close>, the balances of an address in all contracts of
  \<^verbatim>\<open>account/account.go\<close>, and the loops of \<^verbatim>\<open>system/dapp/commands/stat.go\<close> that ask
  for one page after the other. The RPC and the message queue between them pass values through
  (an empty key arrives as nil); the decoder of accounts is a parameter.
\<close>

section \<open>Listing a range\<close>

record StoreListReply =
  sl_Suffix :: bytes
  sl_Count :: int
  sl_Num :: int
  sl_Mode :: int
  sl_NextKey :: "bytes option"
  sl_Keys :: "bytes list"
  sl_Values :: "bytes list"

definition NewStoreListQuery :: "bytes \<Rightarrow> int \<Rightarrow> int \<Rightarrow> StoreListReply" where
  "NewStoreListQuery sfx count mode = \<lparr>sl_Suffix = sfx, sl_Count = count, sl_Num = 0, sl_Mode = mode,
     sl_NextKey = None, sl_Keys = [], sl_Values = []\<rparr>"

definition list_add :: "bytes \<Rightarrow> bytes \<Rightarrow> StoreListReply \<Rightarrow> StoreListReply" where
  "list_add k v t = t\<lparr>sl_Num := i64 (sl_Num t + 1), sl_Keys := sl_Keys t @ [k], sl_Values := sl_Values t @ [v]\<rparr>"

definition has_suffix :: "bytes \<Rightarrow> bytes \<Rightarrow> bool" where
  "has_suffix sfx k \<longleftrightarrow> length k > length sfx \<and> drop (length k - length sfx) k = sfx"

definition IterateCallBack :: "bytes \<Rightarrow> bytes \<Rightarrow> StoreListReply \<Rightarrow> bool \<times> StoreListReply" where
  "IterateCallBack k v t =
     (if sl_Mode t = 1 then
        (if sl_Num t \<ge> sl_Count t then (True, t\<lparr>sl_NextKey := Some k\<rparr>) else (False, list_add k v t))
      else if sl_Mode t = 2 then
        (if has_suffix (sl_Suffix t) k then
           (let t' = list_add k v t
            in if sl_Num t' \<ge> sl_Count t' then (True, t'\<lparr>sl_NextKey := Some k\<rparr>) else (False, t'))
         else (False, t))
      else (True, t))"

definition StoreListQuery_Run ::
  "ndb \<Rightarrow> bytes option \<Rightarrow> bytes option \<Rightarrow> bytes option \<Rightarrow> bytes \<Rightarrow> int \<Rightarrow> int \<Rightarrow> StoreListReply option" where
  "StoreListQuery_Run sdb stateHash start endk sfx count mode =
     IterateRangeByStateHash sdb stateHash start endk True IterateCallBack (NewStoreListQuery sfx count mode)"

section \<open>The total of coins\<close>

record ReplyGetTotalCoins =
  tc_Count :: int
  tc_Num :: int
  tc_Amount :: int
  tc_NextKey :: "bytes option"

definition total_cb :: "(bytes \<Rightarrow> account option) \<Rightarrow> bytes \<Rightarrow> bytes \<Rightarrow> ReplyGetTotalCoins \<Rightarrow> bool \<times> ReplyGetTotalCoins" where
  "total_cb dec k v t =
     (case dec v of
        None \<Rightarrow> (True, t)
      | Some acc \<Rightarrow>
          if tc_Num t \<ge> tc_Count t then (True, t\<lparr>tc_NextKey := Some k\<rparr>)
          else (False, t\<lparr>tc_Num := i64 (tc_Num t + 1), tc_Amount := i64 (tc_Amount t + Balance acc)\<rparr>))"

definition ascii :: "string \<Rightarrow> bytes" where
  "ascii s = map of_char s"

definition symbolExecPrefix :: "string \<Rightarrow> string \<Rightarrow> string" where
  "symbolExecPrefix ex sy = ''mavl-'' @ ex @ ''-'' @ sy @ ''-exec''"

text \<open>The request of a total, as the store answers it (\<^verbatim>\<open>EventStoreGetTotalCoins\<close>).\<close>

definition GetTotalCoins ::
  "(bytes \<Rightarrow> account option) \<Rightarrow> ndb \<Rightarrow> bytes option \<Rightarrow> string \<Rightarrow> string \<Rightarrow> int \<Rightarrow> bytes option \<Rightarrow> ReplyGetTotalCoins option" where
  "GetTotalCoins dec sdb stateHash ex sy count startKey =
     IterateRangeByStateHash sdb stateHash
       (case startKey of None \<Rightarrow> Some (ascii (symbolPrefix ex sy)) | Some k \<Rightarrow> Some k)
       (Some (ascii (symbolExecPrefix ex sy))) True (total_cb dec)
       \<lparr>tc_Count = count, tc_Num = 0, tc_Amount = 0, tc_NextKey = None\<rparr>"

text \<open>
  The loop of the command \<^verbatim>\<open>stat total_coins\<close>: pages of 100, until a page is not full. The
  result is the number of accounts and the sum; \<open>None\<close> that the loop does not return.
\<close>

partial_function (option) total_loop ::
  "(bytes option \<Rightarrow> ReplyGetTotalCoins option) \<Rightarrow> int \<Rightarrow> bytes option \<Rightarrow> int \<Rightarrow> int \<Rightarrow> (int \<times> int) option" where
  "total_loop page count startKey accounts amount =
     (if count = 100 then do {
        res \<leftarrow> page startKey;
        total_loop page (tc_Num res) (tc_NextKey res) (i64 (accounts + tc_Num res)) (i64 (amount + tc_Amount res))
      }
      else Some (accounts, amount))"

definition totalCoins :: "(bytes \<Rightarrow> account option) \<Rightarrow> ndb \<Rightarrow> bytes option \<Rightarrow> string \<Rightarrow> string \<Rightarrow> (int \<times> int) option" where
  "totalCoins dec sdb stateHash ex sy = total_loop (GetTotalCoins dec sdb stateHash ex sy 100) 100 None 0 0"

section \<open>Balances in contracts\<close>

text \<open>The least string above the ones with a prefix: the last byte below \<open>0xff\<close> goes up by one.\<close>

fun bump_last :: "bytes \<Rightarrow> nat \<Rightarrow> bytes" where
  "bump_last r 0 = r"
| "bump_last r (Suc i) = (if r ! i < 255 then r[i := r ! i + 1] else bump_last r i)"

definition genPrefixEdge :: "bytes \<Rightarrow> bytes" where
  "genPrefixEdge p = bump_last p (length p)"

record ExecBalanceItem =
  ei_ExecAddr :: bytes
  ei_Frozen :: int
  ei_Active :: int

record ReplyGetExecBalance =
  eb_Amount :: int
  eb_AmountFrozen :: int
  eb_AmountActive :: int
  eb_NextKey :: "bytes option"
  eb_Items :: "ExecBalanceItem list"

definition empty_balance :: ReplyGetExecBalance where
  "empty_balance = \<lparr>eb_Amount = 0, eb_AmountFrozen = 0, eb_AmountActive = 0, eb_NextKey = None, eb_Items = []\<rparr>"

definition AddItem :: "(bytes \<Rightarrow> account option) \<Rightarrow> bytes \<Rightarrow> bytes \<Rightarrow> ReplyGetExecBalance \<Rightarrow> ReplyGetExecBalance" where
  "AddItem dec execAddr v t =
     (case dec v of
        None \<Rightarrow> t
      | Some acc \<Rightarrow>
          t\<lparr>eb_Amount := i64 (i64 (eb_Amount t + Balance acc) + Frozen acc),
            eb_AmountActive := i64 (eb_AmountActive t + Balance acc),
            eb_AmountFrozen := i64 (eb_AmountFrozen t + Frozen acc),
            eb_Items := eb_Items t @ [\<lparr>ei_ExecAddr = execAddr, ei_Frozen = Frozen acc, ei_Active = Balance acc\<rparr>]\<rparr>)"

definition exec_prefix :: "string \<Rightarrow> string \<Rightarrow> bytes \<Rightarrow> bytes" where
  "exec_prefix ex sy execAddr =
     ascii (symbolExecPrefix ex sy) @ (if length execAddr > 0 then ascii ''-'' @ execAddr @ ascii '':'' else ascii ''-'')"

text \<open>
  The contract a key belongs to; a \<open>None\<close> is the panic of a slice out of range. After the prefix a
  key holds the contract and the address, with a colon (58) between them.
\<close>

definition exec_of_key :: "bytes \<Rightarrow> bytes \<Rightarrow> (go_error + bytes) option" where
  "exec_of_key pre k =
     (if take (length pre) k \<noteq> pre then Some (Inl ErrTypeAsset)
      else if pre \<noteq> [] \<and> last pre = 58 then
        (let addr = drop (length pre) k; from = int (length pre) - int (length addr) - 1
         in if from < 0 then None
            else Some (Inr (take (length pre - 1 - nat from) (drop (nat from) pre))))
      else
        (let combin = drop (length pre) k
         in if count_list combin 58 = 1 then Some (Inr (takeWhile (\<lambda>c. c \<noteq> 58) combin)) else Some (Inl ErrTypeAsset)))"

primrec add_items ::
  "(bytes \<Rightarrow> account option) \<Rightarrow> bytes \<Rightarrow> (bytes \<times> bytes) list \<Rightarrow> ReplyGetExecBalance \<Rightarrow> (go_error + ReplyGetExecBalance) option" where
  "add_items dec pre [] t = Some (Inr t)"
| "add_items dec pre (kv # kvs) t =
     (case exec_of_key pre (fst kv) of
        None \<Rightarrow> None
      | Some (Inl e) \<Rightarrow> Some (Inl e)
      | Some (Inr execAddr) \<Rightarrow> add_items dec pre kvs (AddItem dec execAddr (snd kv) t))"

definition GetExecBalance ::
  "(bytes \<Rightarrow> account option) \<Rightarrow> ndb \<Rightarrow> bytes option \<Rightarrow> string \<Rightarrow> string \<Rightarrow> bytes \<Rightarrow> bytes \<Rightarrow> int \<Rightarrow> bytes option \<Rightarrow>
   (go_error + ReplyGetExecBalance) option" where
  "GetExecBalance dec sdb stateHash ex sy execAddr addr count nextKey =
     (let pre = exec_prefix ex sy execAddr;
          start = (if length (go_bytes nextKey) > 0 then go_bytes nextKey else pre)
      in do {
        res \<leftarrow> StoreListQuery_Run sdb stateHash (Some start) (Some (genPrefixEdge pre)) addr count 2;
        reply \<leftarrow> add_items dec pre (zip (sl_Keys res) (sl_Values res)) empty_balance;
        Some (case reply of Inl e \<Rightarrow> Inl e | Inr t \<Rightarrow> Inr (t\<lparr>eb_NextKey := sl_NextKey res\<rparr>))
      })"

text \<open>
  The loop of the command \<^verbatim>\<open>stat exec_balance\<close>, which adds the pages up. Without a contract
  the pages have 100 records; with one it asks for a single record.
\<close>

definition add_reply :: "ReplyGetExecBalance \<Rightarrow> ReplyGetExecBalance \<Rightarrow> ReplyGetExecBalance" where
  "add_reply t r = t\<lparr>eb_Amount := i64 (eb_Amount t + eb_Amount r), eb_AmountActive := i64 (eb_AmountActive t + eb_AmountActive r),
     eb_AmountFrozen := i64 (eb_AmountFrozen t + eb_AmountFrozen r), eb_Items := eb_Items t @ eb_Items r\<rparr>"

partial_function (option) balance_loop ::
  "(bytes option \<Rightarrow> (go_error + ReplyGetExecBalance) option) \<Rightarrow> int \<Rightarrow> bytes option \<Rightarrow> ReplyGetExecBalance \<Rightarrow>
   (go_error + ReplyGetExecBalance) option" where
  "balance_loop page count nextKey replys = do {
     reply \<leftarrow> page nextKey;
     (case reply of
        Inl e \<Rightarrow> Some (Inl e)
      | Inr r \<Rightarrow>
          (let replys' = add_reply replys r
           in if count = 1 then Some (Inr replys')
              else if length (go_bytes (eb_NextKey r)) > 0 then balance_loop page count (eb_NextKey r) replys'
              else Some (Inr replys')))
   }"

definition execBalance ::
  "(bytes \<Rightarrow> account option) \<Rightarrow> ndb \<Rightarrow> bytes option \<Rightarrow> string \<Rightarrow> string \<Rightarrow> bytes \<Rightarrow> bytes \<Rightarrow> (go_error + ReplyGetExecBalance) option" where
  "execBalance dec sdb stateHash ex sy execAddr addr =
     (let count = (if length execAddr > 0 then 1 else 100)
      in balance_loop (GetExecBalance dec sdb stateHash ex sy execAddr addr count) count None empty_balance)"

end
