(* ===== verification/Store_List_Theorems.thy ===== *)
theory Store_List_Theorems
  imports Store_List Mavl_Versions
begin

text \<open>
  What the pages of a scan hold, and what the loops that ask for one page after the other add up.
  Callbacks that count the records they take share the locale \<open>page_scan\<close>.
\<close>

section \<open>Scans with a count\<close>

locale page_scan =
  fixes cb :: "bytes \<Rightarrow> bytes \<Rightarrow> 's \<Rightarrow> bool \<times> 's"
    and inv :: "'s \<Rightarrow> bool"
    and good :: "bytes \<times> bytes \<Rightarrow> bool"
    and num :: "'s \<Rightarrow> int"
    and cnt :: "'s \<Rightarrow> int"
    and add :: "bytes \<Rightarrow> bytes \<Rightarrow> 's \<Rightarrow> 's"
    and stop_at :: "bytes \<Rightarrow> 's \<Rightarrow> 's"
  assumes cb: "inv s \<Longrightarrow> good (k, v) \<Longrightarrow> cb k v s = (if num s \<ge> cnt s then (True, stop_at k s) else (False, add k v s))"
    and add: "inv s \<Longrightarrow> num s < cnt s \<Longrightarrow> inv (add k v s) \<and> num (add k v s) = num s + 1 \<and> cnt (add k v s) = cnt s"
begin

definition add_all :: "(bytes \<times> bytes) list \<Rightarrow> 's \<Rightarrow> 's" where
  "add_all xs s = fold (\<lambda>x. add (fst x) (snd x)) xs s"

lemma scan_page:
  "inv s \<Longrightarrow> \<forall>x\<in>set xs. good x \<Longrightarrow>
   scan cb xs s =
     (if nat (cnt s - num s) < length xs
      then (True, stop_at (fst (xs ! nat (cnt s - num s))) (add_all (take (nat (cnt s - num s)) xs) s))
      else (False, add_all xs s))"
proof (induction xs arbitrary: s)
  case Nil
  then show ?case by (simp add: add_all_def)
next
  case (Cons x xs)
  have c: "cb (fst x) (snd x) s = (if num s \<ge> cnt s then (True, stop_at (fst x) s) else (False, add (fst x) (snd x) s))"
    using cb [of s "fst x" "snd x"] Cons.prems by simp
  show ?case
  proof (cases "num s \<ge> cnt s")
    case True
    then show ?thesis using c by (simp add: add_all_def)
  next
    case False
    then obtain n where n: "nat (cnt s - num s) = Suc n" by (cases "nat (cnt s - num s)") auto
    have a: "inv (add (fst x) (snd x) s)" "num (add (fst x) (snd x) s) = num s + 1" "cnt (add (fst x) (snd x) s) = cnt s"
      using add [of s "fst x" "snd x"] Cons.prems(1) False by auto
    then have "nat (cnt (add (fst x) (snd x) s) - num (add (fst x) (snd x) s)) = n" using n by simp
    then show ?thesis using c False n Cons.IH [OF a(1)] Cons.prems(2) by (simp add: add_all_def)
  qed
qed

end

definition total_add :: "(bytes \<Rightarrow> account option) \<Rightarrow> bytes \<Rightarrow> bytes \<Rightarrow> ReplyGetTotalCoins \<Rightarrow> ReplyGetTotalCoins" where
  "total_add dec k v t = t\<lparr>tc_Num := i64 (tc_Num t + 1), tc_Amount := i64 (tc_Amount t + Balance (the (dec v)))\<rparr>"

lemma i64_count: "0 \<le> x \<Longrightarrow> x < y \<Longrightarrow> y < 2 ^ 63 \<Longrightarrow> i64 (x + 1) = x + 1"
  by (rule i64_id) (simp add: in_i64_def)

interpretation list1: page_scan IterateCallBack
  "\<lambda>t. sl_Mode t = 1 \<and> 0 \<le> sl_Num t \<and> sl_Count t < 2 ^ 63" "\<lambda>x. True" sl_Num sl_Count list_add
  "\<lambda>k t. t\<lparr>sl_NextKey := Some k\<rparr>"
  by unfold_locales (auto simp: IterateCallBack_def list_add_def i64_count)

interpretation totals: page_scan "total_cb dec"
  "\<lambda>t. 0 \<le> tc_Num t \<and> tc_Count t < 2 ^ 63" "\<lambda>x. dec (snd x) \<noteq> None" tc_Num tc_Count "total_add dec"
  "\<lambda>k t. t\<lparr>tc_NextKey := Some k\<rparr>"
  for dec
  by unfold_locales (auto simp: total_cb_def total_add_def i64_count)

lemma list1_add_all:
  "0 \<le> sl_Num t \<Longrightarrow> sl_Num t + int (length xs) < 2 ^ 63 \<Longrightarrow>
   list1.add_all xs t = t\<lparr>sl_Num := sl_Num t + int (length xs), sl_Keys := sl_Keys t @ map fst xs, sl_Values := sl_Values t @ map snd xs\<rparr>"
  unfolding list1.add_all_def
  by (induction xs arbitrary: t) (simp_all add: list_add_def i64_id in_i64_def)

lemma totals_add_all:
  "0 \<le> tc_Num t \<Longrightarrow> tc_Num t + int (length xs) < 2 ^ 63 \<Longrightarrow> in_i64 (tc_Amount t) \<Longrightarrow>
   totals.add_all dec xs t = t\<lparr>tc_Num := tc_Num t + int (length xs),
     tc_Amount := i64 (tc_Amount t + (\<Sum>x\<leftarrow>xs. Balance (the (dec (snd x)))))\<rparr>"
  unfolding totals.add_all_def
proof (induction xs arbitrary: t)
  case (Cons x xs)
  then show ?case by (simp add: total_add_def i64_id [of "tc_Num t + 1"] in_i64_def [of "tc_Num t + 1"] add.assoc)
qed (simp add: i64_id)

section \<open>The records from a key on\<close>

lemma sorted_drop_from:
  fixes L :: "(bytes \<times> bytes) list"
  assumes "sorted_wrt (<) (map fst L)" "i < length L"
  shows "filter (\<lambda>x. fst (L ! i) \<le> fst x) L = drop i L"
proof -
  have lt: "fst (L ! a) < fst (L ! b)" if "a < b" "b < length L" for a b
    using sorted_wrt_nth_less [OF assms(1), of a b] that by simp
  have "filter (\<lambda>x. fst (L ! i) \<le> fst x) (take i L) = []"
    using lt assms(2) by (auto simp: filter_empty_conv in_set_conv_nth) (metis fst_conv not_le)
  moreover have "fst (L ! i) \<le> fst (L ! j)" if "i \<le> j" "j < length L" for j
    using that lt [of i j] by (cases "i = j") auto
  then have "filter (\<lambda>x. fst (L ! i) \<le> fst x) (drop i L) = drop i L"
    using assms(2) by (auto simp: filter_id_conv in_set_conv_nth) (metis add.commute fst_conv le_add1 less_diff_conv)
  ultimately show ?thesis by (metis append.left_neutral append_take_drop_id filter_append)
qed

lemma range_from:
  assumes "sorted_wrt (<) (map fst xs)" "L = filter (in_range (Some a) e incl) xs" "i < length L"
  shows "filter (in_range (Some (fst (L ! i))) e incl) xs = drop i L"
proof -
  have "a \<le> fst (L ! i)" using nth_mem [OF assms(3)] assms(2) by (auto simp: in_range_def after_start_def)
  then have "filter (in_range (Some (fst (L ! i))) e incl) xs = filter (\<lambda>x. fst (L ! i) \<le> fst x) L"
    by (auto simp: assms(2) in_range_def after_start_def intro!: filter_cong)
  also have "\<dots> = drop i L"
    using assms by (intro sorted_drop_from) (simp_all add: sorted_wrt_map sorted_wrt_filter)
  finally show ?thesis .
qed

lemma sorted_version: "version env sdb root xs \<Longrightarrow> sorted_wrt (<) (map fst xs)"
  by (auto simp: version_def version_tree_def intro: sorted_oinorder)

lemma IterateRange_version:
  assumes "version env sdb root xs"
  shows "IterateRangeByStateHash sdb root start endk True fn s = Some (snd (scan fn (filter (in_range start endk False) xs) s))"
proof -
  obtain T where T: "Tree_Load sdb NewTree root = Inr T" "tree_rep env sdb T xs"
    using assms by (auto simp: version_def version_tree_def tree_rep_def)
  obtain t where t: "tree_is env sdb T t" "otree_ok t" "oinorder t = xs" using T(2) by (auto simp: tree_rep_def)
  have "IterateRange sdb T start endk True fn s = Some (scan fn (filter (in_range start endk False) xs) s)"
  proof (cases t)
    case None
    then show ?thesis using t by (simp add: IterateRange_def)
  next
    case (Some u)
    then obtain n where n: "t_root T = Some n" "rep env sdb u n" "keyed u" "sorted_wrt (<) (keys u)" "inorder u = xs"
      using t by (auto simp: tree_ok_def)
    then show ?thesis
      using traverseInRange_rep [OF n(2-4), of start endk True False fn s] by (simp add: IterateRange_def in_order_def)
  qed
  then show ?thesis using T(1) by (simp add: IterateRangeByStateHash_def)
qed

section \<open>Listings\<close>

lemma list2_scan:
  "sl_Mode t = 2 \<Longrightarrow> 0 \<le> sl_Num t \<Longrightarrow> sl_Num t < sl_Count t \<Longrightarrow> sl_Count t < 2 ^ 63 \<Longrightarrow>
   scan IterateCallBack xs t =
     (let M = filter (\<lambda>x. has_suffix (sl_Suffix t) (fst x)) xs; n = nat (sl_Count t - sl_Num t)
      in if n \<le> length M then (True, (list1.add_all (take n M) t)\<lparr>sl_NextKey := Some (fst (M ! (n - 1)))\<rparr>)
         else (False, list1.add_all M t))"
proof (induction xs arbitrary: t)
  case Nil
  then show ?case by (simp add: list1.add_all_def)
next
  case (Cons x xs)
  show ?case
  proof (cases "has_suffix (sl_Suffix t) (fst x)")
    case False
    then have "IterateCallBack (fst x) (snd x) t = (False, t)" using Cons.prems(1) by (simp add: IterateCallBack_def)
    then show ?thesis using Cons.IH [OF Cons.prems] False by simp
  next
    case True
    let ?t = "list_add (fst x) (snd x) t"
    have t: "sl_Mode ?t = 2" "sl_Num ?t = sl_Num t + 1" "sl_Count ?t = sl_Count t" "sl_Suffix ?t = sl_Suffix t"
      using Cons.prems i64_count by (simp_all add: list_add_def)
    have cb: "IterateCallBack (fst x) (snd x) t =
        (if sl_Num t + 1 \<ge> sl_Count t then (True, ?t\<lparr>sl_NextKey := Some (fst x)\<rparr>) else (False, ?t))"
      using True Cons.prems(1) t by (simp add: IterateCallBack_def Let_def)
    show ?thesis
    proof (cases "sl_Num t + 1 \<ge> sl_Count t")
      case full: True
      then have "nat (sl_Count t - sl_Num t) = 1" using Cons.prems by simp
      then show ?thesis using full cb True by (simp add: list1.add_all_def)
    next
      case False
      then obtain n where n: "nat (sl_Count t - sl_Num t) = Suc (Suc n)" "nat (sl_Count t - (sl_Num t + 1)) = Suc n"
        using Cons.prems by (cases "nat (sl_Count t - (sl_Num t + 1))") (auto simp: nat_eq_iff)
      have "scan IterateCallBack xs ?t =
         (let M = filter (\<lambda>x. has_suffix (sl_Suffix t) (fst x)) xs
          in if Suc n \<le> length M then (True, (list1.add_all (take (Suc n) M) ?t)\<lparr>sl_NextKey := Some (fst (M ! n))\<rparr>)
             else (False, list1.add_all M ?t))"
        using Cons.IH [of ?t] Cons.prems False t n(2) by (simp add: Let_def)
      then show ?thesis using cb False True n(1) by (simp add: list1.add_all_def Let_def)
    qed
  qed
qed

text \<open>
  A page of a listing: in mode 1 the first \<open>count\<close> records of the range and, if there are more,
  the key of the next one; in mode 2 the first \<open>count\<close> records with the suffix and, as soon as
  there are that many, the key of the last one of the page.
\<close>
theorem StoreList_pages:
  assumes "version env sdb root xs" "0 < n" "int n < 2 ^ 63" "length xs < 2 ^ 63"
  shows "let L = filter (in_range start endk False) xs; M = filter (\<lambda>x. has_suffix sfx (fst x)) L in
    (\<exists>r. StoreListQuery_Run sdb root start endk sfx (int n) 1 = Some r \<and>
       sl_Keys r = map fst (take n L) \<and> sl_Values r = map snd (take n L) \<and> sl_Num r = int (length (take n L)) \<and>
       sl_NextKey r = (if n < length L then Some (fst (L ! n)) else None)) \<and>
    (\<exists>r. StoreListQuery_Run sdb root start endk sfx (int n) 2 = Some r \<and>
       sl_Keys r = map fst (take n M) \<and> sl_Values r = map snd (take n M) \<and> sl_Num r = int (length (take n M)) \<and>
       sl_NextKey r = (if n \<le> length M then Some (fst (M ! (n - 1))) else None))"
proof -
  let ?L = "filter (in_range start endk False) xs"
  let ?M = "filter (\<lambda>x. has_suffix sfx (fst x)) ?L"
  let ?t = "\<lambda>m. NewStoreListQuery sfx (int n) m"
  have len: "length ?L < 2 ^ 63" "length ?M < 2 ^ 63"
    using length_filter_le [of "in_range start endk False" xs] length_filter_le [of "\<lambda>x. has_suffix sfx (fst x)" ?L] assms(4)
    by linarith+
  have short: "int (length (take n ys)) < 2 ^ 63" for ys :: "(bytes \<times> bytes) list" using assms(3) by simp
  have all: "list1.add_all ys (?t m) = (?t m)\<lparr>sl_Num := int (length ys), sl_Keys := map fst ys, sl_Values := map snd ys\<rparr>"
    if "int (length ys) < 2 ^ 63" for ys m
    using list1_add_all [of "?t m" ys] that by (simp add: NewStoreListQuery_def)
  have run: "StoreListQuery_Run sdb root start endk sfx (int n) m = Some (snd (scan IterateCallBack ?L (?t m)))" for m
    using IterateRange_version [OF assms(1)] by (simp add: StoreListQuery_Run_def)
  have one: "scan IterateCallBack ?L (?t 1) =
      (if n < length ?L then (True, (list1.add_all (take n ?L) (?t 1))\<lparr>sl_NextKey := Some (fst (?L ! n))\<rparr>)
       else (False, list1.add_all ?L (?t 1)))"
    using list1.scan_page [of "?t 1" ?L] assms(3) by (simp add: NewStoreListQuery_def)
  have two: "scan IterateCallBack ?L (?t 2) =
      (if n \<le> length ?M then (True, (list1.add_all (take n ?M) (?t 2))\<lparr>sl_NextKey := Some (fst (?M ! (n - 1)))\<rparr>)
       else (False, list1.add_all ?M (?t 2)))"
    using list2_scan [of "?t 2" ?L] assms(2,3) by (simp add: NewStoreListQuery_def Let_def)
  have "\<exists>r. StoreListQuery_Run sdb root start endk sfx (int n) 1 = Some r \<and>
       sl_Keys r = map fst (take n ?L) \<and> sl_Values r = map snd (take n ?L) \<and> sl_Num r = int (length (take n ?L)) \<and>
       sl_NextKey r = (if n < length ?L then Some (fst (?L ! n)) else None)"
    using run [of 1] one all [OF short [of ?L], of 1] all [of ?L 1] len(1)
    by (auto simp: NewStoreListQuery_def)
  moreover have "\<exists>r. StoreListQuery_Run sdb root start endk sfx (int n) 2 = Some r \<and>
       sl_Keys r = map fst (take n ?M) \<and> sl_Values r = map snd (take n ?M) \<and> sl_Num r = int (length (take n ?M)) \<and>
       sl_NextKey r = (if n \<le> length ?M then Some (fst (?M ! (n - 1))) else None)"
    using run [of 2] two all [OF short [of ?M], of 2] all [of ?M 2] len(2)
    by (auto simp: NewStoreListQuery_def)
  ultimately show ?thesis by (simp add: Let_def)
qed

lemma StoreList_pages_witness:
  "\<exists>r. StoreListQuery_Run demo_db (Some (ahash demo_menv demo_tree)) (Some [0]) None [] 1 1 = Some r \<and>
    sl_Keys r = [[1]] \<and> sl_NextKey r = Some [2]"
proof -
  have v: "version demo_menv demo_db (Some (ahash demo_menv demo_tree)) [([1], [10]), ([2], [20])]"
    unfolding version_def using demo_version demo_ok(2) by (intro exI [of _ "Some demo_tree"]) simp
  show ?thesis
    using StoreList_pages [OF v, of 1 "Some [0]" None "[]"]
    by (auto simp: Let_def in_range_def after_start_def before_end_def has_suffix_def)
qed

section \<open>The total of coins\<close>

definition coin_total :: "(bytes \<Rightarrow> account option) \<Rightarrow> (bytes \<times> bytes) list \<Rightarrow> int" where
  "coin_total dec xs = (\<Sum>x\<leftarrow>xs. Balance (the (dec (snd x))))"

definition coin_range :: "string \<Rightarrow> string \<Rightarrow> (bytes \<times> bytes) list \<Rightarrow> (bytes \<times> bytes) list" where
  "coin_range ex sy xs = filter (in_range (Some (ascii (symbolPrefix ex sy))) (Some (ascii (symbolExecPrefix ex sy))) False) xs"

text \<open>The page from the \<open>i\<close>-th record on; the first page is asked for without a key.\<close>

lemma GetTotalCoins_page:
  assumes "version env sdb root xs" "L = coin_range ex sy xs" "\<forall>x\<in>set L. dec (snd x) \<noteq> None" "length L < 2 ^ 63"
    "i < length L \<and> sk = Some (fst (L ! i)) \<or> i = 0 \<and> sk = None"
  shows "\<exists>r. GetTotalCoins dec sdb root ex sy 100 sk = Some r \<and>
    tc_Num r = int (length (take 100 (drop i L))) \<and> tc_Amount r = i64 (coin_total dec (take 100 (drop i L))) \<and>
    tc_NextKey r = (if i + 100 < length L then Some (fst (L ! (i + 100))) else None)"
proof -
  let ?a = "ascii (symbolPrefix ex sy)" and ?e = "Some (ascii (symbolExecPrefix ex sy))"
  let ?t = "\<lparr>tc_Count = 100, tc_Num = 0, tc_Amount = 0, tc_NextKey = None\<rparr>"
  have "filter (in_range (Some (case sk of None \<Rightarrow> ?a | Some k \<Rightarrow> k)) ?e False) xs = drop i L"
    using assms(5) range_from [OF sorted_version [OF assms(1)], of L ?a ?e False i] assms(2) by (auto simp: coin_range_def)
  then have run: "GetTotalCoins dec sdb root ex sy 100 sk = Some (snd (scan (total_cb dec) (drop i L) ?t))"
    using IterateRange_version [OF assms(1), where fn = "total_cb dec"] by (cases sk) (simp_all add: GetTotalCoins_def)
  have good: "\<forall>x\<in>set (drop i L). dec (snd x) \<noteq> None" using assms(3) by (auto dest: in_set_dropD)
  have page: "scan (total_cb dec) (drop i L) ?t =
      (if 100 < length (drop i L) then (True, (totals.add_all dec (take 100 (drop i L)) ?t)\<lparr>tc_NextKey := Some (fst (drop i L ! 100))\<rparr>)
       else (False, totals.add_all dec (drop i L) ?t))"
    using totals.scan_page [OF _ good, of ?t] by simp
  have all: "totals.add_all dec ys ?t = ?t\<lparr>tc_Num := int (length ys), tc_Amount := i64 (coin_total dec ys)\<rparr>"
    if "int (length ys) < 2 ^ 63" for ys
    using totals_add_all [of ?t ys dec] that by (simp add: coin_total_def in_i64_def)
  have "int (length (take 100 (drop i L))) < 2 ^ 63" "int (length (drop i L)) < 2 ^ 63" using assms(4) by auto
  then show ?thesis using run page all by (auto simp: nth_drop add.commute)
qed

lemma coin_total_split: "coin_total dec (take n ys) + coin_total dec (drop n ys) = coin_total dec ys"
  by (metis append_take_drop_id coin_total_def map_append sum_list_append)

lemma total_loop_returns:
  assumes "version env sdb root xs" "L = coin_range ex sy xs" "\<forall>x\<in>set L. dec (snd x) \<noteq> None" "length L < 2 ^ 63"
    "length L mod 100 \<noteq> 0 \<or> L = []"
  shows "i < length L \<and> sk = Some (fst (L ! i)) \<or> i = 0 \<and> sk = None \<Longrightarrow> 100 dvd i \<Longrightarrow>
    total_loop (GetTotalCoins dec sdb root ex sy 100) 100 sk (int i) (i64 m) =
      Some (int (length L), i64 (m + coin_total dec (drop i L)))"
proof (induction "length L - i" arbitrary: i sk m rule: less_induct)
  case less
  obtain r where r: "GetTotalCoins dec sdb root ex sy 100 sk = Some r"
    "tc_Num r = int (length (take 100 (drop i L)))" "tc_Amount r = i64 (coin_total dec (take 100 (drop i L)))"
    "tc_NextKey r = (if i + 100 < length L then Some (fst (L ! (i + 100))) else None)"
    using GetTotalCoins_page [OF assms(1-4) less.prems(1)] by blast
  have le: "i \<le> length L" using less.prems(1) by auto
  have num: "i64 (int i + tc_Num r) = int (min (length L) (i + 100))"
    using r(2) le assms(4) by (subst i64_id) (auto simp: in_i64_def)
  have amount: "i64 (i64 m + tc_Amount r) = i64 (m + coin_total dec (take 100 (drop i L)))"
    using r(3) by (simp add: i64_add_right)
  have step: "total_loop (GetTotalCoins dec sdb root ex sy 100) 100 sk (int i) (i64 m) =
      total_loop (GetTotalCoins dec sdb root ex sy 100) (tc_Num r) (tc_NextKey r)
        (int (min (length L) (i + 100))) (i64 (m + coin_total dec (take 100 (drop i L))))"
    using r(1) num amount by (subst total_loop.simps) simp
  show ?case
  proof (cases "i + 100 < length L")
    case True
    have "total_loop (GetTotalCoins dec sdb root ex sy 100) 100 (tc_NextKey r) (int (i + 100))
        (i64 (m + coin_total dec (take 100 (drop i L)))) =
      Some (int (length L), i64 (m + coin_total dec (take 100 (drop i L)) + coin_total dec (drop (i + 100) L)))"
      using True r(4) less.prems(2) by (intro less.hyps) auto
    moreover have "tc_Num r = 100" "min (length L) (i + 100) = i + 100" using r(2) True by auto
    moreover have "coin_total dec (take 100 (drop i L)) + coin_total dec (drop (i + 100) L) = coin_total dec (drop i L)"
      using coin_total_split [of dec 100 "drop i L"] by (simp add: add.commute)
    ultimately show ?thesis using step by (simp add: add.assoc)
  next
    case False
    have "length L - i \<noteq> 100"
    proof
      assume "length L - i = 100"
      then have "length L = i + 100" by simp
      then show False using assms(5) less.prems(2) by auto
    qed
    then have "tc_Num r \<noteq> 100" using r(2) False by auto
    then have "total_loop (GetTotalCoins dec sdb root ex sy 100) (tc_Num r) (tc_NextKey r)
        (int (min (length L) (i + 100))) (i64 (m + coin_total dec (take 100 (drop i L)))) =
      Some (int (min (length L) (i + 100)), i64 (m + coin_total dec (take 100 (drop i L))))"
      by (subst total_loop.simps) simp
    then show ?thesis using step False by simp
  qed
qed

lemma total_loop_diverges:
  assumes "version env sdb root xs" "L = coin_range ex sy xs" "\<forall>x\<in>set L. dec (snd x) \<noteq> None" "length L < 2 ^ 63"
    "length L mod 100 = 0" "L \<noteq> []"
  shows "total_loop (GetTotalCoins dec sdb root ex sy 100) 100 None accounts amount = None"
proof -
  let ?page = "GetTotalCoins dec sdb root ex sy 100"
  define full where "full c sk \<longleftrightarrow> c = (100 :: int) \<and> (sk = None \<or> (\<exists>i. 100 dvd i \<and> i < length L \<and> sk = Some (fst (L ! i))))" for c sk
  have next_full: "full (tc_Num r) (tc_NextKey r)" if "full 100 sk" "?page sk = Some r" for sk r
  proof -
    obtain i where i: "100 dvd i" "i < length L" "i < length L \<and> sk = Some (fst (L ! i)) \<or> i = 0 \<and> sk = None"
    proof (cases "sk = None")
      case True
      then show ?thesis using that [of 0] assms(6) by simp
    next
      case False
      then show ?thesis using \<open>full 100 sk\<close> that unfolding full_def by blast
    qed
    have "100 dvd length L - i" using i(1) assms(5) by (intro dvd_diff_nat) (simp_all add: mod_eq_0_iff_dvd)
    then have le: "i + 100 \<le> length L" using i(2) dvd_imp_le [of 100 "length L - i"] by simp
    obtain r' where r': "?page sk = Some r'" "tc_Num r' = int (length (take 100 (drop i L)))"
      "tc_NextKey r' = (if i + 100 < length L then Some (fst (L ! (i + 100))) else None)"
      using GetTotalCoins_page [OF assms(1-4) i(3)] by blast
    have r: "tc_Num r = 100" "tc_NextKey r = (if i + 100 < length L then Some (fst (L ! (i + 100))) else None)"
      using r' that(2) le by simp_all
    have "100 dvd i + 100" using i(1) by simp
    then have "tc_NextKey r = None \<or> (\<exists>i. 100 dvd i \<and> i < length L \<and> tc_NextKey r = Some (fst (L ! i)))"
      unfolding r(2) by (metis (full_types))
    then show ?thesis using r(1) unfolding full_def by blast
  qed
  have never: "page = ?page \<longrightarrow> \<not> full c sk" if "total_loop page c sk a m = Some y" for page c sk a m y
    using that
  proof (induction page c sk a m y rule: total_loop.raw_induct [rotated, consumes 1, case_names step])
    case (step rec page c sk a m y)
    show ?case
    proof (intro impI notI)
      assume p: "page = ?page" and f: "full c sk"
      then have "c = 100" by (simp add: full_def)
      then obtain r where r: "?page sk = Some r"
        "rec ?page (tc_Num r) (tc_NextKey r) (i64 (a + tc_Num r)) (i64 (m + tc_Amount r)) = Some y"
        using step(2) p by (auto simp: bind_eq_Some_conv)
      then show False using step(1) [OF r(2)] next_full [OF _ r(1)] f \<open>c = 100\<close> by blast
    qed
  qed
  have "full 100 None" by (simp add: full_def)
  then show ?thesis using never by (cases "total_loop ?page 100 None accounts amount") blast+
qed

text \<open>
  C27. \<^verbatim>\<open>stat total_coins\<close> counts the accounts of a symbol and adds up their balances, page by
  page, unless their number is a positive multiple of the page size: then the last page is full,
  has no next key, and the loop starts again from the first page and never returns.
\<close>
theorem totalCoins_result:
  assumes "version env sdb root xs" "\<forall>x\<in>set (coin_range ex sy xs). dec (snd x) \<noteq> None" "length (coin_range ex sy xs) < 2 ^ 63"
  shows "totalCoins dec sdb root ex sy =
    (if length (coin_range ex sy xs) mod 100 = 0 \<and> coin_range ex sy xs \<noteq> [] then None
     else Some (int (length (coin_range ex sy xs)), i64 (coin_total dec (coin_range ex sy xs))))"
proof (cases "length (coin_range ex sy xs) mod 100 = 0 \<and> coin_range ex sy xs \<noteq> []")
  case True
  then show ?thesis using total_loop_diverges [OF assms(1) refl assms(2,3)] by (simp add: totalCoins_def)
next
  case False
  then show ?thesis using total_loop_returns [OF assms(1) refl assms(2,3), of 0 None 0] by (auto simp: totalCoins_def i64_id in_i64_def)
qed

text \<open>A state with a single key, for the witnesses.\<close>

lemma leaf_version:
  "version demo_menv [ahash demo_menv (Tip k v) \<mapsto> store_of demo_menv (Tip k v)] (Some (ahash demo_menv (Tip k v))) [(k, v)]"
proof -
  have "ahash demo_menv (Tip k v) ! 1 = 1" by (simp add: LeafNode_Hash_def demo_menv_def)
  then have "ahash demo_menv (Tip k v) \<noteq> emptyRoot" by (auto simp: emptyRoot_def)
  then have "version_tree demo_menv [ahash demo_menv (Tip k v) \<mapsto> store_of demo_menv (Tip k v)] (Some (ahash demo_menv (Tip k v))) (Some (Tip k v))"
    by (intro in_store_version) (simp_all add: in_store_def tree_ok_def)
  then show ?thesis unfolding version_def by (intro exI [of _ "Some (Tip k v)"]) simp
qed

lemma totalCoins_result_witness:
  "\<exists>sdb root. totalCoins (\<lambda>v. Some \<lparr>Currency = 0, Balance = 7, Frozen = 0, Addr = ''1''\<rparr>) sdb root ''coins'' ''bty'' = Some (1, 7)"
proof -
  let ?k = "ascii ''mavl-coins-bty-1''"
  have "coin_range ''coins'' ''bty'' [(?k, [5])] = [(?k, [5])]"
    by (simp add: coin_range_def in_range_def after_start_def before_end_def ascii_def symbolPrefix_def symbolExecPrefix_def)
  then show ?thesis
    using totalCoins_result [OF leaf_version [of ?k "[5]"], of "''coins''" "''bty''"
        "\<lambda>v. Some \<lparr>Currency = 0, Balance = 7, Frozen = 0, Addr = ''1''\<rparr>"]
    by (auto simp: coin_total_def i64_def)
qed

section \<open>Ranges of a prefix\<close>

lemma word8_succ:
  fixes x y :: "8 word" assumes "x < 255" shows "y < x + 1 \<longleftrightarrow> y \<le> x"
proof -
  have "unat x < 255" using assms by (simp add: word_less_nat_alt)
  then have "unat (x + 1) = Suc (unat x)" by (simp add: unat_word_ariths)
  then show ?thesis by (simp add: word_less_nat_alt word_le_nat_alt less_Suc_eq_le)
qed

lemma genPrefixEdge_last: "last p < 255 \<Longrightarrow> p \<noteq> [] \<Longrightarrow> genPrefixEdge p = butlast p @ [last p + 1]"
  by (cases p rule: rev_cases) (simp_all add: genPrefixEdge_def list_update_append nth_append)

lemma prefix_range:
  "p \<noteq> [] \<Longrightarrow> last p < 255 \<Longrightarrow> p \<le> k \<and> k < butlast p @ [last p + 1] \<longleftrightarrow> take (length p) k = p" for p k :: bytes
proof (induction p arbitrary: k)
  case (Cons a p)
  show ?case
  proof (cases p)
    case Nil
    then show ?thesis using Cons.prems by (cases k) (auto simp: word8_succ)
  next
    case (Cons b q)
    then have IH: "p \<le> ys \<and> ys < butlast p @ [last p + 1] \<longleftrightarrow> take (length p) ys = p" for ys
      using Cons.IH Cons.prems by simp
    show ?thesis
    proof (cases k)
      case (Cons y ys)
      then show ?thesis using IH [of ys] \<open>p = b # q\<close> by auto
    qed simp
  qed
qed simp

lemma in_range_prefix:
  "p \<noteq> [] \<Longrightarrow> last p < 255 \<Longrightarrow> in_range (Some p) (Some (genPrefixEdge p)) False x \<longleftrightarrow> take (length p) (fst x) = p"
  using prefix_range [of p "fst x"] by (simp add: in_range_def after_start_def before_end_def genPrefixEdge_last)

section \<open>Balances in contracts\<close>

definition exec_good :: "(bytes \<Rightarrow> account option) \<Rightarrow> bytes \<Rightarrow> bytes \<times> bytes \<Rightarrow> bool" where
  "exec_good dec pre x \<longleftrightarrow> (\<exists>e. exec_of_key pre (fst x) = Some (Inr e)) \<and> dec (snd x) \<noteq> None"

definition exec_item :: "(bytes \<Rightarrow> account option) \<Rightarrow> bytes \<Rightarrow> bytes \<times> bytes \<Rightarrow> ExecBalanceItem" where
  "exec_item dec pre x = \<lparr>ei_ExecAddr = projr (the (exec_of_key pre (fst x))), ei_Frozen = Frozen (the (dec (snd x))),
     ei_Active = Balance (the (dec (snd x)))\<rparr>"

definition exec_reply_of :: "ExecBalanceItem list \<Rightarrow> bytes option \<Rightarrow> ReplyGetExecBalance" where
  "exec_reply_of is nk = \<lparr>eb_Amount = i64 (\<Sum>i\<leftarrow>is. ei_Active i + ei_Frozen i), eb_AmountFrozen = i64 (\<Sum>i\<leftarrow>is. ei_Frozen i),
     eb_AmountActive = i64 (\<Sum>i\<leftarrow>is. ei_Active i), eb_NextKey = nk, eb_Items = is\<rparr>"

lemma empty_exec_reply: "empty_balance = exec_reply_of [] None"
  by (simp add: empty_balance_def exec_reply_of_def i64_def)

lemma AddItem_balance_of:
  "exec_good dec pre x \<Longrightarrow> exec_of_key pre (fst x) = Some (Inr e) \<Longrightarrow>
   AddItem dec e (snd x) (exec_reply_of is nk) = exec_reply_of (is @ [exec_item dec pre x]) nk"
  by (auto simp: exec_good_def AddItem_def exec_reply_of_def exec_item_def add.assoc)

lemma add_reply_balance_of: "add_reply (exec_reply_of is nk) (exec_reply_of js nk') = exec_reply_of (is @ js) nk"
  by (simp add: add_reply_def exec_reply_of_def i64_add_right)

lemma add_items_good:
  "\<forall>x\<in>set xs. exec_good dec pre x \<Longrightarrow>
   add_items dec pre xs (exec_reply_of is nk) = Some (Inr (exec_reply_of (is @ map (exec_item dec pre) xs) nk))"
proof (induction xs arbitrary: "is")
  case (Cons x xs)
  then obtain e where "exec_of_key pre (fst x) = Some (Inr e)" by (auto simp: exec_good_def)
  then show ?case using Cons AddItem_balance_of [of dec pre x e "is" nk] by simp
qed simp

text \<open>
  The records the pages hold: each page but the first begins with the record the page before it
  ended with.
\<close>

function repages :: "'a list \<Rightarrow> 'a list" where
  "repages ms = (if length ms < 100 then ms else take 100 ms @ repages (drop 99 ms))"
  by pat_completeness auto
termination by (relation "measure length") auto

declare repages.simps [simp del]

lemma length_repages: "length (repages ms) = length ms + (length ms - 1) div 99"
proof (induction ms rule: repages.induct)
  case (1 ms)
  show ?case
  proof (cases "length ms < 100")
    case True
    then show ?thesis by (simp add: repages.simps [of ms])
  next
    case False
    then have "length (repages ms) = 100 + (length ms - 99) + (length ms - 100) div 99"
      using 1 by (simp add: repages.simps [of ms])
    moreover have "(length ms - 1) div 99 = Suc ((length ms - 100) div 99)"
      using False div_add_self1 [of "99 :: nat" "length ms - 100"] by (simp add: algebra_simps)
    ultimately show ?thesis using False by simp
  qed
qed

lemma exec_prefix_last: "exec_prefix ex sy [] \<noteq> [] \<and> last (exec_prefix ex sy []) < 255"
  by (simp add: exec_prefix_def ascii_def)

definition exec_records :: "string \<Rightarrow> string \<Rightarrow> bytes \<Rightarrow> (bytes \<times> bytes) list \<Rightarrow> (bytes \<times> bytes) list" where
  "exec_records ex sy addr xs = filter (\<lambda>x. take (length (exec_prefix ex sy [])) (fst x) = exec_prefix ex sy [] \<and> has_suffix addr (fst x)) xs"

lemma GetExecBalance_page:
  assumes "version env sdb root xs" "ms = exec_records ex sy addr xs" "\<forall>x\<in>set ms. exec_good dec (exec_prefix ex sy []) x"
    "length xs < 2 ^ 63" "i < length ms \<and> nk = Some (fst (ms ! i)) \<or> i = 0 \<and> nk = None"
  shows "\<exists>nk'. GetExecBalance dec sdb root ex sy [] addr 100 nk =
      Some (Inr (exec_reply_of (map (exec_item dec (exec_prefix ex sy [])) (take 100 (drop i ms))) nk')) \<and>
    nk' = (if i + 100 \<le> length ms then Some (fst (ms ! (i + 99))) else None)"
proof -
  define pre where "pre = exec_prefix ex sy []"
  define start where "start = (if length (go_bytes nk) > 0 then go_bytes nk else pre)"
  let ?e = "Some (genPrefixEdge pre)"
  have pre: "pre \<noteq> []" "last pre < 255" using exec_prefix_last by (simp_all add: pre_def)
  have ms: "ms = filter (\<lambda>x. has_suffix addr (fst x)) (filter (in_range (Some pre) ?e False) xs)"
    using in_range_prefix [OF pre] by (auto simp: assms(2) exec_records_def pre_def [symmetric] conj_commute intro!: filter_cong)
  have M: "filter (\<lambda>x. has_suffix addr (fst x)) (filter (in_range (Some start) ?e False) xs) = drop i ms"
  proof (cases "nk = None")
    case True
    then show ?thesis using assms(5) ms by (simp add: start_def go_bytes_def)
  next
    case False
    then have i: "i < length ms" "nk = Some (fst (ms ! i))" using assms(5) by auto
    have h: "in_range (Some pre) ?e False (ms ! i)" using nth_mem [OF i(1)] ms by auto
    have b: "take (length pre) (fst (ms ! i)) = pre" using h in_range_prefix [OF pre] by blast
    have b2: "pre \<le> fst (ms ! i)" using h by (simp add: in_range_def after_start_def)
    have st: "start = fst (ms ! i)" using b i(2) pre(1) by (auto simp: start_def)
    have "filter (\<lambda>x. has_suffix addr (fst x)) (filter (in_range (Some start) ?e False) xs) =
        filter (\<lambda>x. fst (ms ! i) \<le> fst x) ms"
      using b2 by (auto simp: ms [symmetric] st) (subst ms, auto simp: in_range_def after_start_def intro!: filter_cong)
    also have "\<dots> = drop i ms"
      using sorted_version [OF assms(1)] i(1) by (intro sorted_drop_from) (simp_all add: ms sorted_wrt_map sorted_wrt_filter)
    finally show ?thesis .
  qed
  obtain r where r: "StoreListQuery_Run sdb root (Some start) ?e addr 100 2 = Some r"
    "sl_Keys r = map fst (take 100 (drop i ms))" "sl_Values r = map snd (take 100 (drop i ms))"
    "sl_NextKey r = (if 100 \<le> length (drop i ms) then Some (fst (drop i ms ! 99)) else None)"
    using StoreList_pages [OF assms(1), of 100 "Some start" ?e addr] assms(4) unfolding Let_def M by auto
  have "add_items dec pre (take 100 (drop i ms)) empty_balance =
      Some (Inr (exec_reply_of (map (exec_item dec pre) (take 100 (drop i ms))) None))"
    using add_items_good [of "take 100 (drop i ms)" dec pre "[]" None] assms(3)
    by (auto simp: empty_exec_reply pre_def dest!: in_set_takeD in_set_dropD)
  moreover have "zip (sl_Keys r) (sl_Values r) = take 100 (drop i ms)" using r(2,3) by (simp add: zip_map_fst_snd)
  moreover have "(exec_reply_of is None)\<lparr>eb_NextKey := k\<rparr> = exec_reply_of is k" for "is" k by (simp add: exec_reply_of_def)
  ultimately have "GetExecBalance dec sdb root ex sy [] addr 100 nk =
      Some (Inr (exec_reply_of (map (exec_item dec pre) (take 100 (drop i ms))) (sl_NextKey r)))"
    using r(1) unfolding GetExecBalance_def Let_def pre_def [symmetric] start_def [symmetric] by simp
  then show ?thesis using r(4) assms(5) by (auto simp: pre_def nth_drop add.commute)
qed

lemma balance_loop_pages:
  assumes "version env sdb root xs" "ms = exec_records ex sy addr xs" "\<forall>x\<in>set ms. exec_good dec (exec_prefix ex sy []) x"
    "length xs < 2 ^ 63"
  shows "i < length ms \<and> nk = Some (fst (ms ! i)) \<or> i = 0 \<and> nk = None \<Longrightarrow>
    balance_loop (GetExecBalance dec sdb root ex sy [] addr 100) 100 nk (exec_reply_of is None) =
      Some (Inr (exec_reply_of (is @ map (exec_item dec (exec_prefix ex sy [])) (repages (drop i ms))) None))"
proof (induction "length ms - i" arbitrary: i nk "is" rule: less_induct)
  case less
  let ?it = "map (exec_item dec (exec_prefix ex sy []))"
  obtain nk' where p: "GetExecBalance dec sdb root ex sy [] addr 100 nk = Some (Inr (exec_reply_of (?it (take 100 (drop i ms))) nk'))"
    "nk' = (if i + 100 \<le> length ms then Some (fst (ms ! (i + 99))) else None)"
    using GetExecBalance_page [OF assms less.prems] by blast
  have nk: "eb_NextKey (exec_reply_of js k) = k" for js k by (simp add: exec_reply_of_def)
  show ?case
  proof (cases "i + 100 \<le> length ms")
    case True
    then have i: "i + 99 < length ms" by simp
    have "take (length (exec_prefix ex sy [])) (fst (ms ! (i + 99))) = exec_prefix ex sy []"
      using nth_mem [OF i] by (auto simp: assms(2) exec_records_def)
    then have ne: "fst (ms ! (i + 99)) \<noteq> []" using exec_prefix_last [of ex sy] by auto
    have "balance_loop (GetExecBalance dec sdb root ex sy [] addr 100) 100 (Some (fst (ms ! (i + 99))))
        (exec_reply_of (is @ ?it (take 100 (drop i ms))) None) =
      Some (Inr (exec_reply_of ((is @ ?it (take 100 (drop i ms))) @ ?it (repages (drop (i + 99) ms))) None))"
      using i by (intro less.hyps) auto
    moreover have "\<not> length (drop i ms) < 100" using True by simp
    then have "repages (drop i ms) = take 100 (drop i ms) @ repages (drop (i + 99) ms)"
      by (simp add: repages.simps [of "drop i ms"] add.commute)
    ultimately show ?thesis
      using p ne True nk by (subst balance_loop.simps) (simp add: add_reply_balance_of Let_def)
  next
    case False
    then have "repages (drop i ms) = drop i ms" "take 100 (drop i ms) = drop i ms"
      by (simp_all add: repages.simps [of "drop i ms"])
    then show ?thesis
      using p False nk by (subst balance_loop.simps) (simp add: add_reply_balance_of Let_def go_bytes_def)
  qed
qed

text \<open>
  C28. \<^verbatim>\<open>stat exec_balance\<close> over all contracts returns, and what it lists and adds up are the
  records of the address page by page with the last record of each full page counted again on
  the next one: of \<open>m\<close> records \<open>(m - 1) div 99\<close> are counted twice.
\<close>
theorem execBalance_recounts:
  assumes "version env sdb root xs" "length xs < 2 ^ 63"
    "\<forall>x\<in>set (exec_records ex sy addr xs). exec_good dec (exec_prefix ex sy []) x"
  shows "let ms = exec_records ex sy addr xs in
    execBalance dec sdb root ex sy [] addr =
      Some (Inr (exec_reply_of (map (exec_item dec (exec_prefix ex sy [])) (repages ms)) None)) \<and>
    length (repages ms) = length ms + (length ms - 1) div 99"
  using balance_loop_pages [OF assms(1) refl assms(3,2), of 0 None "[]"] length_repages
  by (simp add: execBalance_def empty_exec_reply Let_def)

lemma execBalance_recounts_witness:
  "\<exists>sdb root r. execBalance (\<lambda>v. Some \<lparr>Currency = 0, Balance = 7, Frozen = 2, Addr = ''1''\<rparr>) sdb root ''coins'' ''bty'' [] (ascii ''1'') =
    Some (Inr r) \<and> eb_Amount r = 9 \<and> eb_Items r = [\<lparr>ei_ExecAddr = ascii ''e'', ei_Frozen = 2, ei_Active = 7\<rparr>]"
proof -
  let ?k = "ascii ''mavl-coins-bty-exec-e:1''" and ?dec = "\<lambda>v. Some \<lparr>Currency = 0, Balance = 7, Frozen = 2, Addr = ''1''\<rparr>"
  have ms: "exec_records ''coins'' ''bty'' (ascii ''1'') [(?k, [5])] = [(?k, [5])]"
    by (simp add: exec_records_def exec_prefix_def symbolExecPrefix_def ascii_def has_suffix_def)
  have key: "exec_of_key (exec_prefix ''coins'' ''bty'' []) ?k = Some (Inr (ascii ''e''))"
    by (simp add: exec_of_key_def exec_prefix_def symbolExecPrefix_def ascii_def Let_def)
  let ?sdb = "[ahash demo_menv (Tip ?k [5]) \<mapsto> store_of demo_menv (Tip ?k [5])]" and ?root = "Some (ahash demo_menv (Tip ?k [5]))"
  let ?r = "exec_reply_of (map (exec_item ?dec (exec_prefix ''coins'' ''bty'' [])) [(?k, [5])]) None"
  have "repages [(?k, [5 :: 8 word])] = [(?k, [5])]" by (simp add: repages.simps)
  then have "execBalance ?dec ?sdb ?root ''coins'' ''bty'' [] (ascii ''1'') = Some (Inr ?r)"
    using execBalance_recounts [OF leaf_version [of ?k "[5]"], of "''coins''" "''bty''" "ascii ''1''" ?dec] key
    by (simp only: ms Let_def) (simp add: exec_good_def del: ahash.simps store_of.simps)
  moreover have "eb_Amount ?r = 9 \<and> eb_Items ?r = [\<lparr>ei_ExecAddr = ascii ''e'', ei_Frozen = 2, ei_Active = 7\<rparr>]"
    using key by (simp add: exec_reply_of_def exec_item_def i64_def)
  ultimately show ?thesis by blast
qed

text \<open>
  With a contract in the request the code cuts as many bytes off the prefix as the address is
  long, which is the contract only where both are of one length.
\<close>

lemma exec_of_key_slice:
  "p \<noteq> [] \<Longrightarrow> last p = 58 \<Longrightarrow> int (length p) - int (length a) - 1 = int f \<Longrightarrow>
   exec_of_key p (p @ a) = Some (Inr (take (length p - 1 - f) (drop f p)))"
  by (simp add: exec_of_key_def Let_def)

lemma exec_of_key_contract:
  assumes "ea \<noteq> []" "length addr \<le> length ea"
  shows "exec_of_key (exec_prefix ex sy ea) (exec_prefix ex sy ea @ addr) = Some (Inr (drop (length ea - length addr) ea))"
proof -
  let ?pre = "exec_prefix ex sy ea" and ?n = "length ea - length addr"
  define q where "q = ascii (symbolExecPrefix ex sy) @ ascii ''-''"
  have pre: "?pre = q @ ea @ [58]" using assms(1) by (simp add: exec_prefix_def q_def ascii_def)
  have from_at: "int (length ?pre) - int (length addr) - 1 = int (length q + ?n)" using assms(2) by (simp add: pre)
  have "drop (length q + ?n) ?pre = drop ?n ea @ [58]" by (simp add: pre)
  moreover have "length ?pre - 1 - (length q + ?n) = length (drop ?n ea)" by (simp add: pre)
  ultimately have "take (length ?pre - 1 - (length q + ?n)) (drop (length q + ?n) ?pre) = drop ?n ea" by simp
  moreover have "?pre \<noteq> []" "last ?pre = 58" by (simp_all add: pre)
  ultimately show ?thesis using exec_of_key_slice [OF _ _ from_at] by simp
qed

end
