(* ===== verification/Exec_Names.thy ===== *)
theory Exec_Names
  imports Forks Account "HOL-Library.Sublist"
begin

text \<open>
  Names and keys: which contract a name stands for and which contract a key belongs to,
  \<^verbatim>\<open>types/types.go\<close>, and the permission to write a key of the local database,
  \<^verbatim>\<open>executor/allow.go\<close>. A state key reads \<^verbatim>\<open>mavl-\<close>contract\<^verbatim>\<open>-...\<close>, a
  local key \<^verbatim>\<open>LODB-\<close>contract\<^verbatim>\<open>-...\<close>.
\<close>

section \<open>Errors of the executor\<close>

text \<open>Errors the model never distinguishes by cases carry their Go name.\<close>

abbreviation ErrExecPanic :: go_error where "ErrExecPanic \<equiv> ErrOther ''ErrExecPanic''"
abbreviation ErrNotAllow :: go_error where "ErrNotAllow \<equiv> ErrOther ''ErrNotAllow''"
abbreviation ErrNotAllowKey :: go_error where "ErrNotAllowKey \<equiv> ErrOther ''ErrNotAllowKey''"
abbreviation ErrNotAllowMemSetKey :: go_error where "ErrNotAllowMemSetKey \<equiv> ErrOther ''ErrNotAllowMemSetKey''"
abbreviation ErrNotAllowMemSetLocalKey :: go_error where "ErrNotAllowMemSetLocalKey \<equiv> ErrOther ''ErrNotAllowMemSetLocalKey''"
abbreviation ErrLocalPrefix :: go_error where "ErrLocalPrefix \<equiv> ErrOther ''ErrLocalPrefix''"
abbreviation ErrLocalKeyLen :: go_error where "ErrLocalKeyLen \<equiv> ErrOther ''ErrLocalKeyLen''"
abbreviation ErrTxGroupNotSupport :: go_error where "ErrTxGroupNotSupport \<equiv> ErrOther ''ErrTxGroupNotSupport''"
abbreviation ErrTxGroupIndex :: go_error where "ErrTxGroupIndex \<equiv> ErrOther ''ErrTxGroupIndex''"
abbreviation ErrTxGroupFormat :: go_error where "ErrTxGroupFormat \<equiv> ErrOther ''ErrTxGroupFormat''"
abbreviation ErrMavlKeyNotStartWithMavl :: go_error where "ErrMavlKeyNotStartWithMavl \<equiv> ErrOther ''ErrMavlKeyNotStartWithMavl''"
abbreviation ErrNoExecerInMavlKey :: go_error where "ErrNoExecerInMavlKey \<equiv> ErrOther ''ErrNoExecerInMavlKey''"
abbreviation ErrBalanceLessThanTenTimesFee :: go_error where "ErrBalanceLessThanTenTimesFee \<equiv> ErrOther ''ErrBalanceLessThanTenTimesFee''"
abbreviation ErrUnRegistedDriver :: go_error where "ErrUnRegistedDriver \<equiv> ErrOther ''ErrUnRegistedDriver''"
abbreviation ErrUnknowDriver :: go_error where "ErrUnknowDriver \<equiv> ErrOther ''ErrUnknowDriver''"
abbreviation ErrToAddrNotSameToExecAddr :: go_error where "ErrToAddrNotSameToExecAddr \<equiv> ErrOther ''ErrToAddrNotSameToExecAddr''"
abbreviation ErrReRunGenesis :: go_error where "ErrReRunGenesis \<equiv> ErrOther ''ErrReRunGenesis''"
abbreviation ErrCheckVersion :: go_error where "ErrCheckVersion \<equiv> ErrOther ''ErrCheckVersion''"
abbreviation ErrAddressChecksum :: go_error where "ErrAddressChecksum \<equiv> ErrOther ''ErrAddressChecksum''"
abbreviation ErrConsensusHashErr :: go_error where "ErrConsensusHashErr \<equiv> ErrOther ''ErrConsensusHashErr''"
abbreviation ErrAPIEnv :: go_error where "ErrAPIEnv \<equiv> ErrOther ''ErrAPIEnv''"
abbreviation ErrQueueTimeout :: go_error where "ErrQueueTimeout \<equiv> ErrOther ''ErrQueueTimeout''"
abbreviation ErrQueueChannelFull :: go_error where "ErrQueueChannelFull \<equiv> ErrOther ''ErrQueueChannelFull''"
abbreviation ErrIsQueueClosed :: go_error where "ErrIsQueueClosed \<equiv> ErrOther ''ErrIsQueueClosed''"
abbreviation ErrTxDup :: go_error where "ErrTxDup \<equiv> ErrOther ''ErrTxDup''"
abbreviation ErrBlockExec :: go_error where "ErrBlockExec \<equiv> ErrOther ''ErrBlockExec''"
abbreviation ErrCheckTxHash :: go_error where "ErrCheckTxHash \<equiv> ErrOther ''ErrCheckTxHash''"
abbreviation ErrCheckStateHash :: go_error where "ErrCheckStateHash \<equiv> ErrOther ''ErrCheckStateHash''"
abbreviation ErrDBFlag :: go_error where "ErrDBFlag \<equiv> ErrOther ''ErrDBFlag''"

section \<open>Names of contracts\<close>

definition UserKey :: string where "UserKey = ''user.''"
definition LocalPrefix :: string where "LocalPrefix = ''LODB''"
definition commonPrefix :: string where "commonPrefix = ''mavl-''"
definition bytesExec :: string where "bytesExec = ''exec-''"
definition MaxExecNameLength :: nat where "MaxExecNameLength = 100"

fun para_rest :: "nat \<Rightarrow> string \<Rightarrow> string option" where
  "para_rest count [] = None"
| "para_rest count (c # cs) =
     (let count' = (if c = CHR ''.'' then count + 1 else count)
      in if count' = 3 \<and> cs \<noteq> [] then Some cs else para_rest count' cs)"

definition GetParaExecName :: "string \<Rightarrow> string" where
  "GetParaExecName exec =
     (if take (length ParaKeyX) exec \<noteq> ParaKeyX then exec
      else case para_rest 0 exec of Some newexec \<Rightarrow> newexec | None \<Rightarrow> exec)"

text \<open>The loop over a name \<^verbatim>\<open>user.\<close>...: the index before its second dot, or its last index.\<close>

fun dot_index :: "nat \<Rightarrow> nat \<Rightarrow> int \<Rightarrow> string \<Rightarrow> int" where
  "dot_index count i index [] = index"
| "dot_index count i index (c # cs) =
     (let count' = (if c = CHR ''.'' then count + 1 else count)
      in if count' = 2 then int i - 1 else dot_index count' (i + 1) (int i) cs)"

definition GetRealExecName :: "string \<Rightarrow> string" where
  "GetRealExecName exec =
     (let exec1 = GetParaExecName exec
      in if take (length ParaKeyX) exec1 = ParaKeyX then exec1
         else if take (length UserKey) exec1 = UserKey then
           let index = dot_index 0 0 0 exec1;
               e = take (nat (index + 1) - length UserKey) (drop (length UserKey) exec1)
           in if length e > 0 then e else exec1
         else exec1)"

definition GetParaExec :: "OmnilinkConfig \<Rightarrow> string \<Rightarrow> string" where
  "GetParaExec c exec =
     (if \<not> isPara c then exec
      else if take (length (title c)) exec \<noteq> title c then exec
      else drop (length (title c)) exec)"

definition IsAllowExecName :: "string list \<Rightarrow> string \<Rightarrow> string \<Rightarrow> bool" where
  "IsAllowExecName allowed name exec =
     (if length name > MaxExecNameLength \<or> length exec > MaxExecNameLength then False
      else if length name < 3 \<or> length exec < 3 then False
      else if CHR ''-'' \<in> set name \<or> CHR ''#'' \<in> set name then False
      else if name \<noteq> exec \<and> name \<noteq> GetRealExecName exec then False
      else if take (length UserKey) name = UserKey then True
      else name \<in> set allowed)"

section \<open>Keys of the state\<close>

text \<open>The first loop of \<^verbatim>\<open>GetExecKey\<close>: where the part after the second dash starts and ends.\<close>

fun exec_key_scan :: "nat \<Rightarrow> nat \<Rightarrow> nat \<Rightarrow> string \<Rightarrow> nat \<times> nat" where
  "exec_key_scan i n start [] = (start, 0)"
| "exec_key_scan i n start (c # cs) =
     (if c = CHR ''-'' then
        let n' = n + 1; start' = (if n' = 2 then i + 1 else start)
        in if n' = 3 then (start', i) else exec_key_scan (i + 1) n' start' cs
      else exec_key_scan (i + 1) n start cs)"

fun colon_index :: "nat \<Rightarrow> string \<Rightarrow> nat option" where
  "colon_index k [] = None"
| "colon_index k (c # cs) = (if c = CHR '':'' then Some k else colon_index (k + 1) cs)"

definition GetExecKey :: "string \<Rightarrow> string option" where
  "GetExecKey key =
     (let (start, end_i) = exec_key_scan (length commonPrefix) 0 0 (drop (length commonPrefix) key)
      in if start > 0 \<and> end_i > 0 \<and> take (end_i + 1 - start) (drop start key) = bytesExec then
           (case colon_index end_i (drop end_i key) of
              None \<Rightarrow> None
            | Some k \<Rightarrow> Some (take (k - (end_i + 1)) (drop (end_i + 1) key)))
         else None)"

fun dash_index :: "nat \<Rightarrow> string \<Rightarrow> nat option" where
  "dash_index i [] = None"
| "dash_index i (c # cs) = (if c = CHR ''-'' then Some i else dash_index (i + 1) cs)"

definition FindExecer :: "string \<Rightarrow> go_error + string" where
  "FindExecer key =
     (if take (length commonPrefix) key \<noteq> commonPrefix then Inl ErrMavlKeyNotStartWithMavl
      else case dash_index (length commonPrefix) (drop (length commonPrefix) key) of
        Some i \<Rightarrow> Inr (take (i - length commonPrefix) (drop (length commonPrefix) key))
      | None \<Rightarrow> Inl ErrNoExecerInMavlKey)"

section \<open>Keys of the local database\<close>

definition isAllowLocalKey2 :: "string \<Rightarrow> string \<Rightarrow> go_error option" where
  "isAllowLocalKey2 exec key =
     (if length exec < 1 then Some ErrLocalPrefix
      else
        let minkeylen = length LocalPrefix + length exec + 2
        in if length key \<le> minkeylen then Some ErrLocalKeyLen
           else if key ! (minkeylen - 1) \<noteq> CHR ''-'' \<or> key ! length LocalPrefix \<noteq> CHR ''-''
           then Some ErrLocalPrefix
           else if take (length LocalPrefix) key \<noteq> LocalPrefix then Some ErrLocalPrefix
           else if take (length exec) (drop (length LocalPrefix + 1) key) \<noteq> exec then Some ErrLocalPrefix
           else None)"

definition isAllowLocalKey :: "string \<Rightarrow> string \<Rightarrow> go_error option" where
  "isAllowLocalKey exec key =
     (case isAllowLocalKey2 exec key of
        None \<Rightarrow> None
      | Some err \<Rightarrow>
          let realexec = GetRealExecName exec
          in if realexec \<noteq> exec then isAllowLocalKey2 realexec key else Some err)"

section \<open>What the loops compute\<close>

lemma dash_index_append:
  "dash_index i (xs @ CHR ''-'' # ys) = Some (i + length xs)" if "CHR ''-'' \<notin> set xs"
  using that by (induction xs arbitrary: i) auto

lemma FindExecer_key:
  assumes "CHR ''-'' \<notin> set exec"
  shows "FindExecer (''mavl-'' @ exec @ ''-'' @ rest) = Inr exec"
proof -
  have five: "Suc (Suc (Suc (Suc (Suc 0)))) = 5" by simp
  show ?thesis using dash_index_append [OF assms, of 5 rest]
    by (simp add: FindExecer_def commonPrefix_def five)
qed

lemma colon_index_append:
  "colon_index i (xs @ CHR '':'' # ys) = Some (i + length xs)" if "CHR '':'' \<notin> set xs"
  using that by (induction xs arbitrary: i) auto

lemma exec_key_scan_skip:
  "exec_key_scan i n start (xs @ ys) = exec_key_scan (i + length xs) n start ys" if "CHR ''-'' \<notin> set xs"
  using that by (induction xs arbitrary: i) auto

lemma drop_append_at: "length xs = n \<Longrightarrow> drop n (xs @ ys) = ys"
  by simp

lemma GetExecKey_key:
  assumes "CHR ''-'' \<notin> set exec" "CHR ''-'' \<notin> set sname" "CHR '':'' \<notin> set addr"
  shows "GetExecKey (''mavl-'' @ exec @ ''-'' @ sname @ ''-exec-'' @ addr @ CHR '':'' # rest) = Some addr"
proof -
  let ?t = "addr @ CHR '':'' # rest"
  let ?key = "''mavl-'' @ exec @ ''-'' @ sname @ ''-exec-'' @ ?t"
  define e where "e = 11 + length exec + length sname"
  have scan: "exec_key_scan 5 0 0 (drop 5 ?key) = (e - 4, e)"
    using exec_key_scan_skip [OF assms(1)] exec_key_scan_skip [OF assms(2)] by (simp add: e_def)
  have "drop (e - 4) ((''mavl-'' @ exec @ ''-'' @ sname @ ''-'') @ ''exec-'' @ ?t) = ''exec-'' @ ?t"
    by (rule drop_append_at) (simp add: e_def)
  then have d1: "drop (e - 4) ?key = ''exec-'' @ ?t" by simp
  have "drop e ((''mavl-'' @ exec @ ''-'' @ sname @ ''-exec'') @ ''-'' @ ?t) = ''-'' @ ?t"
    by (rule drop_append_at) (simp add: e_def)
  then have d2: "drop e ?key = ''-'' @ ?t" by simp
  have "drop (e + 1) ((''mavl-'' @ exec @ ''-'' @ sname @ ''-exec-'') @ ?t) = ?t"
    by (rule drop_append_at) (simp add: e_def)
  then have d3: "drop (e + 1) ?key = ?t" by simp
  have c: "colon_index e (''-'' @ ?t) = Some (e + 1 + length addr)"
    using colon_index_append [OF assms(3), of "Suc e" rest] by simp
  have l: "length commonPrefix = 5" by (simp add: commonPrefix_def)
  have pos: "e - 4 > 0" "e > 0" "e + 1 - (e - 4) = 5" by (simp_all add: e_def)
  show ?thesis
    unfolding GetExecKey_def l scan using d1 d2 d3 c pos by (simp add: bytesExec_def)
qed

lemma isAllowLocalKey2_iff:
  "isAllowLocalKey2 exec key = None \<longleftrightarrow> exec \<noteq> [] \<and> (\<exists>rest. rest \<noteq> [] \<and> key = ''LODB-'' @ exec @ ''-'' @ rest)"
  (is "?l \<longleftrightarrow> ?r")
proof
  assume ?r
  then show ?l by (auto simp: isAllowLocalKey2_def LocalPrefix_def nth_append Let_def)
next
  assume l: ?l
  let ?n = "length exec"
  have e: "exec \<noteq> []" and len: "?n + 6 < length key" and d1: "key ! (?n + 5) = CHR ''-''"
    and d2: "key ! 4 = CHR ''-''" and p: "take 4 key = ''LODB''" and x: "take ?n (drop 5 key) = exec"
    using l by (auto simp: isAllowLocalKey2_def LocalPrefix_def Let_def eval_nat_numeral split: if_splits)
  have "key = take 4 key @ drop 4 key" by simp
  also have "drop 4 key = key ! 4 # drop 5 key" using len by (simp add: Cons_nth_drop_Suc [symmetric])
  also have "drop 5 key = take ?n (drop 5 key) @ drop (?n + 5) key"
    by (metis append_take_drop_id drop_drop add.commute)
  also have "drop (?n + 5) key = key ! (?n + 5) # drop (?n + 6) key"
    using len Cons_nth_drop_Suc [of "?n + 5" key] by (simp add: add.commute)
  finally have "key = ''LODB-'' @ exec @ ''-'' @ drop (?n + 6) key" using p d2 d1 x by simp
  moreover have "drop (?n + 6) key \<noteq> []" using len by simp
  ultimately show ?r using e by blast
qed

lemma isAllowLocalKey_iff:
  "isAllowLocalKey exec key = None \<longleftrightarrow>
     (\<exists>n \<in> {exec, GetRealExecName exec}. \<exists>rest. n \<noteq> [] \<and> rest \<noteq> [] \<and> key = ''LODB-'' @ n @ ''-'' @ rest)"
proof (cases "isAllowLocalKey2 exec key")
  case None
  then show ?thesis using isAllowLocalKey2_iff [of exec key] by (auto simp: isAllowLocalKey_def)
next
  case (Some err)
  then have no: "\<not> (exec \<noteq> [] \<and> (\<exists>rest. rest \<noteq> [] \<and> key = ''LODB-'' @ exec @ ''-'' @ rest))"
    unfolding isAllowLocalKey2_iff [symmetric] by simp
  with Some show ?thesis using isAllowLocalKey2_iff [of "GetRealExecName exec" key]
    by (auto simp: isAllowLocalKey_def Let_def)
qed

end
