(* ===== verification/Exec_Env.thy ===== *)
theory Exec_Env
  imports Exec_Names KVStore_Theorems Transactions
begin

text \<open>
  The environment in which the executor runs the transactions of a block,
  \<^verbatim>\<open>executor/execenv.go\<close> and \<^verbatim>\<open>executor/allow.go\<close>.

  A contract is a value of \<open>driver\<close>, the interface \<^verbatim>\<open>dapp.Driver\<close>. Its methods see
  the databases only through \<^verbatim>\<open>Get\<close> and \<^verbatim>\<open>Set\<close>, so a call is a function of what
  those reads return (\<open>kv_view\<close>) that answers with its result and the reads and writes it made.
  The driver objects the executor creates live in a heap, \<open>e_objs\<close>, because the cache of
  drivers shares the object \<^verbatim>\<open>none\<close> between names and \<^verbatim>\<open>SetName\<close> writes to it.

  An operation of the executor is a function from the executor to a result and the executor
  afterwards; an error or a panic (\<open>GoPanic\<close>) is a left value and keeps what was written before it.
  A pointer to a transaction is a \<open>txref\<close>: the \<^verbatim>\<open>i\<close>-th of the block, the transaction
  unpacked from a proxy transaction, or one made on the spot, which equals no other.
\<close>

section \<open>Receipts and drivers\<close>

record exec_log =
  log_Ty :: int
  log_Log :: bytes

record exec_receipt =
  rc_Ty :: int
  rc_KV :: "(string \<times> gobytes) list"
  rc_Logs :: "exec_log list"

record receipt_data =
  rd_Ty :: int
  rd_Logs :: "exec_log list"

definition ExecErr :: int where "ExecErr = 0"
definition ExecPack :: int where "ExecPack = 1"
definition ExecOkTy :: int where "ExecOkTy = 2"
definition TyLogErr :: int where "TyLogErr = 1"
definition TyLogFee :: int where "TyLogFee = 2"
definition ExecLocalSameTime :: int where "ExecLocalSameTime = 1"

text \<open>\<^verbatim>\<open>LocalDBSet\<close>: its list \<^verbatim>\<open>KV\<close> may be nil.\<close>

type_synonym local_set = "(string \<times> gobytes) list option"

text \<open>What a driver reads: a key's value, and the error \<^verbatim>\<open>Set\<close> returns (nil: it writes).\<close>

record kv_view =
  kv_get :: "string \<Rightarrow> go_error + bytes"
  kv_set_err :: "go_error option"

record 'a drv_out =
  out_res :: "go_error + 'a"
  out_state :: "tx_op list"
  out_local :: "tx_op list"

record drv_ctx =
  c_name :: string
  c_curname :: string
  c_height :: int
  c_blocktime :: int
  c_difficulty :: nat
  c_parentHash :: bytes
  c_mainHash :: bytes
  c_mainHeight :: int
  c_txs :: "transaction list"
  c_receipts :: "receipt_data list"

record driver =
  GetDriverName :: string
  ExecutorOrder :: "drv_ctx \<Rightarrow> int"
  IsFree :: "drv_ctx \<Rightarrow> bool"
  Allow :: "int \<Rightarrow> transaction \<Rightarrow> int \<Rightarrow> go_error option"
  IsFriend :: "drv_ctx \<Rightarrow> string \<Rightarrow> string \<Rightarrow> transaction \<Rightarrow> bool"
  drv_CheckTx :: "drv_ctx \<Rightarrow> transaction \<Rightarrow> int \<Rightarrow> kv_view \<Rightarrow> kv_view \<Rightarrow> unit drv_out"
  drv_Exec :: "drv_ctx \<Rightarrow> transaction \<Rightarrow> int \<Rightarrow> kv_view \<Rightarrow> kv_view \<Rightarrow> exec_receipt option drv_out"
  drv_ExecLocal ::
    "drv_ctx \<Rightarrow> transaction \<Rightarrow> receipt_data \<Rightarrow> int \<Rightarrow> kv_view \<Rightarrow> kv_view \<Rightarrow> local_set option drv_out"
  drv_ExecDelLocal ::
    "drv_ctx \<Rightarrow> transaction \<Rightarrow> receipt_data \<Rightarrow> int \<Rightarrow> kv_view \<Rightarrow> kv_view \<Rightarrow> local_set option drv_out"

section \<open>The executor\<close>

text \<open>
  \<open>exec_env\<close> gathers what does not change while a block runs: the configuration, the tables of
  registered drivers (\<^verbatim>\<open>dapp/register.go\<close>), the context of the block, and the code outside
  the executor (address drivers, codecs, the names of actions, the texts of errors).
\<close>

record exec_env =
  en_cfg :: OmnilinkConfig
  en_tx :: tx_env
  en_sdb :: state_env
  en_acc :: "bytes acc_env"
  en_MinTxFeeRate :: int
  en_MaxTxFee :: "int \<Rightarrow> int"
  en_MinBalanceTransfer :: int
  en_ForwardExecs :: "string list"
  en_ForwardActionNames :: "string list"
  en_ProxyExecAddress :: string
  en_registered :: "string \<rightharpoonup> driver \<times> int"
  en_execDrivers :: "string \<rightharpoonup> int"
  en_addressNames :: "string \<rightharpoonup> string"
  en_PubKeyHash :: "string \<Rightarrow> bytes"
  en_PubKeyToExecAddr :: "bytes \<Rightarrow> string"
  en_CheckAddress :: "string \<Rightarrow> int \<Rightarrow> go_error option"
  en_GetRealToAddr :: "transaction \<Rightarrow> string"
  en_ActionName :: "transaction \<Rightarrow> string"
  en_GrpcCoded :: "go_error \<Rightarrow> bool"
  en_ErrText :: "go_error \<Rightarrow> bytes"
  en_DecodeEvmAction :: "bytes \<Rightarrow> go_error + bytes"
  en_DecodeTx :: "bytes \<Rightarrow> go_error + transaction"
  en_DecodeNonce :: "bytes \<Rightarrow> int"
  en_height :: int
  en_blocktime :: int
  en_difficulty :: nat
  en_parentHash :: bytes
  en_mainHash :: bytes
  en_mainHeight :: int
  en_txs :: "transaction list"
  en_receipts :: "receipt_data list"

datatype txref = BlockTx nat | ProxyTx nat | FreshTx

record driver_obj =
  obj_driver :: driver
  obj_name :: string
  obj_curname :: string

record executor =
  e_state :: StateDB
  e_local :: "ExecLocalDB option"
  e_objs :: "driver_obj list"
  driverCache :: "string \<rightharpoonup> nat"
  currTxIdx :: int
  currExecTx :: "txref option"
  currDriver :: nat

type_synonym 'a exec = "executor \<Rightarrow> (go_error + 'a) \<times> executor"

definition newExecutor :: "exec_env \<Rightarrow> bytes \<Rightarrow> bool \<Rightarrow> ExecLocalDB option \<Rightarrow> executor" where
  "newExecutor env stateHash mvcc localdb =
     \<lparr>e_state = NewStateDB True stateHash (Some (mvcc, en_height env)), e_local = localdb, e_objs = [],
      driverCache = Map.empty, currTxIdx = - 1, currExecTx = None, currDriver = 0\<rparr>"

subsection \<open>Sequencing\<close>

definition ret :: "'a \<Rightarrow> 'a exec" where
  "ret a = (\<lambda>s. (Inr a, s))"

definition fail :: "go_error \<Rightarrow> 'a exec" where
  "fail e = (\<lambda>s. (Inl e, s))"

definition bind_ex :: "'a exec \<Rightarrow> ('a \<Rightarrow> 'b exec) \<Rightarrow> 'b exec" where
  "bind_ex m f = (\<lambda>s. case m s of (Inl e, s1) \<Rightarrow> (Inl e, s1) | (Inr a, s1) \<Rightarrow> f a s1)"

text \<open>A call whose error the caller looks at; a panic is not an error.\<close>

definition try_ex :: "'a exec \<Rightarrow> (go_error + 'a \<Rightarrow> 'b exec) \<Rightarrow> 'b exec" where
  "try_ex m f = (\<lambda>s. case m s of (r, s1) \<Rightarrow> if r = Inl GoPanic then (Inl GoPanic, s1) else f r s1)"

definition update_ex :: "(executor \<Rightarrow> executor) \<Rightarrow> unit exec" where
  "update_ex f = (\<lambda>s. (Inr (), f s))"

definition read_ex :: "(executor \<Rightarrow> 'a) \<Rightarrow> 'a exec" where
  "read_ex f = (\<lambda>s. (Inr (f s), s))"

definition check_ex :: "go_error option \<Rightarrow> unit exec" where
  "check_ex e = (case e of None \<Rightarrow> ret () | Some err \<Rightarrow> fail err)"

text \<open>A deferred function runs however the body ends; \<open>recover_ex\<close> is \<^verbatim>\<open>recover\<close>.\<close>

definition defer_ex :: "'a exec \<Rightarrow> (executor \<Rightarrow> executor) \<Rightarrow> 'a exec" where
  "defer_ex m f = (\<lambda>s. case m s of (r, s1) \<Rightarrow> (r, f s1))"

definition recover_ex :: "go_error \<Rightarrow> 'a exec \<Rightarrow> 'a exec" where
  "recover_ex err m = (\<lambda>s. case m s of (r, s1) \<Rightarrow> (if r = Inl GoPanic then Inl err else r, s1))"

subsection \<open>Calling a driver\<close>

definition en_fork :: "exec_env \<Rightarrow> string \<Rightarrow> bool" where
  "en_fork env fork = IsFork (cfg_forks (en_cfg env)) (en_height env) fork"

text \<open>\<^verbatim>\<open>setEnv\<close>: the fields a driver object carries when it is called.\<close>

definition setEnv :: "exec_env \<Rightarrow> driver_obj \<Rightarrow> drv_ctx" where
  "setEnv env ob =
     \<lparr>c_name = obj_name ob, c_curname = obj_curname ob, c_height = en_height env,
      c_blocktime = en_blocktime env, c_difficulty = en_difficulty env, c_parentHash = en_parentHash env,
      c_mainHash = en_mainHash env, c_mainHeight = en_mainHeight env, c_txs = en_txs env,
      c_receipts = en_receipts env\<rparr>"

definition state_view :: "exec_env \<Rightarrow> executor \<Rightarrow> kv_view" where
  "state_view env s = \<lparr>kv_get = (\<lambda>k. fst (StateDB_Get (en_sdb env) (e_state s) k)), kv_set_err = None\<rparr>"

definition local_view :: "executor \<Rightarrow> kv_view" where
  "local_view s =
     (case e_local s of
        None \<Rightarrow> \<lparr>kv_get = (\<lambda>k. Inl GoPanic), kv_set_err = Some GoPanic\<rparr>
      | Some l \<Rightarrow> \<lparr>kv_get = (\<lambda>k. fst (ExecLocalDB_Get l k)),
                    kv_set_err = (if x_disablewrite l then Some ErrDisableWrite else None)\<rparr>)"

definition run_state :: "state_env \<Rightarrow> StateDB \<Rightarrow> tx_op list \<Rightarrow> StateDB" where
  "run_state env = foldl (tx_run1 (\<lambda>s k. snd (StateDB_Get env s k)) StateDB_Set)"

definition run_local :: "ExecLocalDB \<Rightarrow> tx_op list \<Rightarrow> ExecLocalDB" where
  "run_local = foldl (tx_run1 (\<lambda>l k. snd (ExecLocalDB_Get l k)) (\<lambda>l k v. snd (ExecLocalDB_Set l k v)))"

definition call_driver :: "exec_env \<Rightarrow> (kv_view \<Rightarrow> kv_view \<Rightarrow> 'a drv_out) \<Rightarrow> 'a exec" where
  "call_driver env f =
     (\<lambda>s. let out = f (state_view env s) (local_view s)
          in (out_res out,
              s\<lparr>e_state := run_state (en_sdb env) (e_state s) (out_state out),
                e_local := map_option (\<lambda>l. run_local l (out_local out)) (e_local s)\<rparr>))"

definition driver_at :: "executor \<Rightarrow> nat \<Rightarrow> driver_obj" where
  "driver_at s d = e_objs s ! d"

section \<open>Registered drivers\<close>

definition LoadDriver :: "exec_env \<Rightarrow> string \<Rightarrow> int \<Rightarrow> go_error + driver" where
  "LoadDriver env name height =
     (case en_registered env (GetRealExecName name) of
        None \<Rightarrow> Inl ErrUnRegistedDriver
      | Some (create, h) \<Rightarrow> if height \<ge> h \<or> height = - 1 then Inr create else Inl ErrUnknowDriver)"

definition IsDriverAddress :: "exec_env \<Rightarrow> string \<Rightarrow> int \<Rightarrow> bool" where
  "IsDriverAddress env addr height =
     (case en_execDrivers env addr of
        None \<Rightarrow> False
      | Some h \<Rightarrow> height \<ge> h \<or> height = - 1)"

definition ExecPubKey :: "exec_env \<Rightarrow> string \<Rightarrow> go_error + bytes" where
  "ExecPubKey env name =
     (if length name > MaxExecNameLength then Inl GoPanic else Inr (en_PubKeyHash env name))"

definition ExecAddress :: "exec_env \<Rightarrow> string \<Rightarrow> go_error + string" where
  "ExecAddress env name =
     (case en_addressNames env name of
        Some addr \<Rightarrow> Inr addr
      | None \<Rightarrow>
          (case ExecPubKey env name of
             Inl e \<Rightarrow> Inl e
           | Inr pubKey \<Rightarrow> Inr (en_PubKeyToExecAddr env pubKey)))"

definition drv_CheckAddress :: "exec_env \<Rightarrow> string \<Rightarrow> int \<Rightarrow> go_error option" where
  "drv_CheckAddress env addr height =
     (if IsDriverAddress env addr height then None
      else
        let err = en_CheckAddress env addr height
        in if \<not> IsFork (cfg_forks (en_cfg env)) height ''ForkMultiSignAddress'' \<and> err = Some ErrCheckVersion
           then None
           else if \<not> IsFork (cfg_forks (en_cfg env)) height ''ForkBase58AddressCheck'' \<and> err = Some ErrAddressChecksum
           then None
           else err)"

text \<open>\<^verbatim>\<open>DriverBase.GetTxGroup\<close>, which finds the group of a transaction by its index in the
  list the driver was given (its slice is taken to have no spare capacity).\<close>

fun find_header :: "tx_env \<Rightarrow> transaction list \<Rightarrow> int \<Rightarrow> nat \<Rightarrow> nat option" where
  "find_header tenv txs low 0 =
     (if 0 \<ge> low \<and> bytes_equal (TxHeader (txs ! 0)) (Some (tx_Hash tenv (txs ! 0))) then Some 0 else None)"
| "find_header tenv txs low (Suc i) =
     (if int (Suc i) < low then None
      else if bytes_equal (TxHeader (txs ! Suc i)) (Some (tx_Hash tenv (txs ! Suc i))) then Some (Suc i)
      else find_header tenv txs low i)"

definition drv_GetTxGroup ::
  "exec_env \<Rightarrow> drv_ctx \<Rightarrow> int \<Rightarrow> go_error + transaction list" where
  "drv_GetTxGroup env ctx index =
     (if int (length (c_txs ctx)) \<le> index then Inl ErrTxGroupIndex
      else if index < 0 then Inl GoPanic
      else
        let c = GroupCount (c_txs ctx ! nat index)
        in if c \<le> 0 \<or> c > MaxTxGroupSize then Inl ErrTxGroupCount
           else case find_header (en_tx env) (c_txs ctx) (index - c) (nat index) of
             None \<Rightarrow> Inl ErrTxGroupFormat
           | Some i \<Rightarrow>
               if int i + c > int (length (c_txs ctx)) then Inl GoPanic
               else
                 let grp = take (nat c) (drop i (c_txs ctx))
                 in case group_Check (en_tx env) (en_cfg env) (c_height ctx) (en_MinTxFeeRate env)
                           (en_MaxTxFee env (c_height ctx)) (map Some grp) of
                      Some e \<Rightarrow> Inl e
                    | None \<Rightarrow> Inr grp)"

section \<open>Loading the driver of a transaction\<close>

definition new_driver_obj :: "driver \<Rightarrow> nat exec" where
  "new_driver_obj d =
     (\<lambda>s. (Inr (length (e_objs s)),
           s\<lparr>e_objs := e_objs s @ [\<lparr>obj_driver = d, obj_name = [], obj_curname = []\<rparr>]\<rparr>))"

definition cache_driver :: "string \<Rightarrow> nat \<Rightarrow> unit exec" where
  "cache_driver name d = update_ex (\<lambda>s. s\<lparr>driverCache := (driverCache s)(name \<mapsto> d)\<rparr>)"

definition SetNames :: "nat \<Rightarrow> string \<Rightarrow> string \<Rightarrow> unit exec" where
  "SetNames d name curname =
     update_ex (\<lambda>s. s\<lparr>e_objs := (e_objs s)[d := (driver_at s d)\<lparr>obj_name := name, obj_curname := curname\<rparr>]\<rparr>)"

definition loadNoneDriver :: "exec_env \<Rightarrow> nat exec" where
  "loadNoneDriver env =
     (\<lambda>s. case driverCache s ''none'' of
            Some d \<Rightarrow> (Inr d, s)
          | None \<Rightarrow>
              (case LoadDriver env ''none'' 0 of
                 Inl e \<Rightarrow> (Inl GoPanic, s)
               | Inr none \<Rightarrow>
                   bind_ex (new_driver_obj none) (\<lambda>d. bind_ex (cache_driver ''none'' d) (\<lambda>_. ret d)) s))"

text \<open>The two pointers are equal: a fresh transaction equals no stored one.\<close>

definition same_tx :: "txref option \<Rightarrow> txref \<Rightarrow> bool" where
  "same_tx cur ref \<longleftrightarrow> cur = Some ref \<and> ref \<noteq> FreshTx"

definition cached_driver :: "exec_env \<Rightarrow> string \<Rightarrow> nat exec" where
  "cached_driver env name =
     (\<lambda>s. case driverCache s name of
            Some d \<Rightarrow> (Inr d, s)
          | None \<Rightarrow>
              bind_ex (case LoadDriver env name (en_height env) of
                         Inl e \<Rightarrow> loadNoneDriver env
                       | Inr create \<Rightarrow> new_driver_obj create)
                (\<lambda>d. bind_ex (cache_driver name d) (\<lambda>_. ret d)) s)"

definition loadDriver :: "exec_env \<Rightarrow> transaction \<Rightarrow> txref \<Rightarrow> int \<Rightarrow> nat exec" where
  "loadDriver env tx ref index =
     (\<lambda>s. if same_tx (currExecTx s) ref \<and> currTxIdx s = index then (Inr (currDriver s), s)
          else
            let name = Execer tx;
                ok = (driverCache s name \<noteq> None);
                isFork = en_fork env ''ForkCacheDriver''
            in bind_ex (cached_driver env name) (\<lambda>d.
               bind_ex (read_ex (\<lambda>s. if \<not> ok \<or> isFork
                                      then Allow (obj_driver (driver_at s d)) (en_height env) tx index
                                      else None)) (\<lambda>err.
               bind_ex (if err \<noteq> None then
                          bind_ex (loadNoneDriver env) (\<lambda>none.
                          bind_ex (if \<not> isFork then cache_driver name none else ret ()) (\<lambda>_. ret none))
                        else bind_ex (SetNames d (GetRealExecName (Execer tx)) name) (\<lambda>_. ret d)) (\<lambda>d1.
               bind_ex (update_ex (\<lambda>s. if \<not> same_tx (currExecTx s) ref \<and> currTxIdx s \<noteq> index
                                         then s\<lparr>currExecTx := Some ref, currTxIdx := index, currDriver := d1\<rparr>
                                         else s)) (\<lambda>_. ret d1)))) s)"

text \<open>The object as it is at the time of the call.\<close>

definition with_driver :: "nat \<Rightarrow> (driver_obj \<Rightarrow> 'a exec) \<Rightarrow> 'a exec" where
  "with_driver d f = (\<lambda>s. f (driver_at s d) s)"

definition getRealExecName :: "exec_env \<Rightarrow> transaction \<Rightarrow> txref \<Rightarrow> int \<Rightarrow> string exec" where
  "getRealExecName env tx ref index =
     bind_ex (loadDriver env tx ref index) (\<lambda>d. with_driver d (\<lambda>ob.
       let realexec = GetDriverName (obj_driver ob)
       in ret (if realexec \<noteq> ''none'' then realexec else Execer tx)))"

section \<open>Permission to write a key\<close>

definition blank_tx :: "string \<Rightarrow> transaction" where
  "blank_tx exec =
     \<lparr>Execer = exec, Payload = [], TxSignature = None, Fee = 0, Expire = 0, Nonce = 0, To = [],
      GroupCount = 0, TxHeader = None, Next = None, ChainID = 0\<rparr>"

definition lift_ex :: "go_error + 'a \<Rightarrow> 'a exec" where
  "lift_ex r = (case r of Inl e \<Rightarrow> fail e | Inr a \<Rightarrow> ret a)"

text \<open>\<^verbatim>\<open>ok && keyExecAddr == drivers.ExecAddress(name)\<close>\<close>

definition is_exec_addr :: "exec_env \<Rightarrow> string option \<Rightarrow> string \<Rightarrow> bool exec" where
  "is_exec_addr env keyExecAddr name =
     (case keyExecAddr of
        None \<Rightarrow> ret False
      | Some a \<Rightarrow> bind_ex (lift_ex (ExecAddress env name)) (\<lambda>addr. ret (a = addr)))"

definition isAllowKeyWrite ::
  "exec_env \<Rightarrow> string \<Rightarrow> string \<Rightarrow> transaction \<Rightarrow> int \<Rightarrow> bool exec" where
  "isAllowKeyWrite env key realExecer tx index =
     (case FindExecer key of
        Inl e \<Rightarrow> ret False
      | Inr keyExecer \<Rightarrow>
          let exec = GetParaExec (en_cfg env) (Execer tx)
          in if keyExecer = exec then ret True
             else if \<not> en_fork env ''ForkExecKey'' \<and>
               (exec = ''manage'' \<and> keyExecer = ''config'' \<or>
                exec = ''token'' \<and> take 18 key = ''mavl-create-token-'') then ret True
             else
               let keyExecAddr = GetExecKey key
               in bind_ex (is_exec_addr env keyExecAddr (Execer tx)) (\<lambda>own.
                  if own then ret True
                  else bind_ex (is_exec_addr env keyExecAddr realExecer) (\<lambda>real.
                       let execdriver = (if real then realExecer else keyExecer)
                       in bind_ex (loadDriver env (blank_tx execdriver) FreshTx index) (\<lambda>c.
                          with_driver c (\<lambda>ob.
                            ret (IsFriend (obj_driver ob) (setEnv env ob) execdriver key tx))))))"

definition isAllowExec :: "exec_env \<Rightarrow> string \<Rightarrow> transaction \<Rightarrow> txref \<Rightarrow> int \<Rightarrow> bool exec" where
  "isAllowExec env key tx ref index =
     bind_ex (getRealExecName env tx ref index) (\<lambda>realExecer. isAllowKeyWrite env key realExecer tx index)"

definition get_kv :: "exec_receipt option \<Rightarrow> (string \<times> gobytes) list" where
  "get_kv r = (case r of None \<Rightarrow> [] | Some rc \<Rightarrow> rc_KV rc)"

definition checkKV :: "string list \<Rightarrow> (string \<times> gobytes) list \<Rightarrow> go_error option" where
  "checkKV memset kvs =
     first_error (\<lambda>key. if key \<in> set (map fst kvs) then None else Some ErrNotAllowMemSetKey) memset"

definition add_errlog :: "exec_env \<Rightarrow> exec_receipt \<Rightarrow> go_error \<Rightarrow> exec_receipt" where
  "add_errlog env feelog err =
     feelog\<lparr>rc_Logs := rc_Logs feelog @ [\<lparr>log_Ty = TyLogErr, log_Log = en_ErrText env err\<rparr>]\<rparr>"

fun checkKeyAllow ::
  "exec_env \<Rightarrow> exec_receipt \<Rightarrow> transaction \<Rightarrow> txref \<Rightarrow> int \<Rightarrow> (string \<times> gobytes) list \<Rightarrow>
   (exec_receipt \<times> go_error option) exec" where
  "checkKeyAllow env feelog tx ref index [] = ret (feelog, None)"
| "checkKeyAllow env feelog tx ref index ((k, v) # kvs) =
     bind_ex (isAllowExec env k tx ref index) (\<lambda>allowed.
       if \<not> allowed then ret (add_errlog env feelog ErrNotAllowKey, Some ErrNotAllowKey)
       else checkKeyAllow env feelog tx ref index kvs)"

end
