(* ===== verification/Exec_Tx.thy ===== *)
theory Exec_Tx
  imports Exec_Env
begin

text \<open>
  Running one transaction or one group, \<^verbatim>\<open>executor/execenv.go\<close>: the checks, the fee, the
  call of the contract inside a transaction of the databases, the checks of what it wrote, and
  the local data of a contract that is executed at the same time.
\<close>

section \<open>Transactions of the databases\<close>

definition ex_begin :: "exec_env \<Rightarrow> unit exec" where
  "ex_begin env =
     update_ex (\<lambda>s. if ForkExecRollback (en_sdb env) (en_height env)
                     then s\<lparr>e_state := StateDB_Begin (en_sdb env) (e_state s),
                            e_local := map_option ExecLocalDB_Begin (e_local s)\<rparr>
                     else s)"

definition ex_commit :: "exec_env \<Rightarrow> unit exec" where
  "ex_commit env =
     (\<lambda>s. if ForkExecRollback (en_sdb env) (en_height env) then
            let s1 = s\<lparr>e_state := StateDB_Commit (en_sdb env) (e_state s)\<rparr>
            in case e_local s1 of
                 None \<Rightarrow> (Inr (), s1)
               | Some l \<Rightarrow>
                   (case ExecLocalDB_Commit l of
                      (Some e, l1) \<Rightarrow> (Inl e, s1\<lparr>e_local := Some l1\<rparr>)
                    | (None, l1) \<Rightarrow> (Inr (), s1\<lparr>e_local := Some l1\<rparr>))
          else (Inr (), s))"

definition ex_rollback :: "exec_env \<Rightarrow> unit exec" where
  "ex_rollback env =
     (\<lambda>s. if ForkExecRollback (en_sdb env) (en_height env) then
            let s1 = s\<lparr>e_state := StateDB_Rollback (e_state s)\<rparr>
            in case e_local s1 of
                 None \<Rightarrow> (Inr (), s1)
               | Some l \<Rightarrow>
                   (case ExecLocalDB_Rollback l of
                      Inl e \<Rightarrow> (Inl e, s1)
                    | Inr l1 \<Rightarrow> (Inr (), s1\<lparr>e_local := Some l1\<rparr>))
          else (Inr (), s))"

definition startTx :: "unit exec" where
  "startTx =
     update_ex (\<lambda>s. s\<lparr>e_state := StateDB_StartTx (e_state s),
                     e_local := map_option ExecLocalDB_StartTx (e_local s)\<rparr>)"

section \<open>Fees\<close>

definition state_get :: "exec_env \<Rightarrow> string \<Rightarrow> bytes option exec" where
  "state_get env key =
     (\<lambda>s. case StateDB_Get (en_sdb env) (e_state s) key of
            (Inr v, sd) \<Rightarrow> (Inr (Some v), s\<lparr>e_state := sd\<rparr>)
          | (Inl e, sd) \<Rightarrow> (if e = GoPanic then Inl GoPanic else Inr None, s\<lparr>e_state := sd\<rparr>))"

definition state_set :: "string \<times> gobytes \<Rightarrow> unit exec" where
  "state_set kv = update_ex (\<lambda>s. s\<lparr>e_state := StateDB_Set (e_state s) (fst kv) (snd kv)\<rparr>)"

fun state_set_all :: "(string \<times> gobytes) list \<Rightarrow> unit exec" where
  "state_set_all [] = ret ()"
| "state_set_all (kv # kvs) = bind_ex (state_set kv) (\<lambda>_. state_set_all kvs)"

definition coinsAccount :: "exec_env \<Rightarrow> bytes acc_db" where
  "coinsAccount env = NewCoinsAccount (en_acc env)"

definition coins_LoadAccount :: "exec_env \<Rightarrow> string \<Rightarrow> account exec" where
  "coins_LoadAccount env addr =
     bind_ex (state_get env (accountReadKey (en_acc env) (coinsAccount env) addr)) (\<lambda>v.
       case v of
         None \<Rightarrow> ret (new_account addr)
       | Some b \<Rightarrow> (case DecodeAccount (en_acc env) b of None \<Rightarrow> fail GoPanic | Some a \<Rightarrow> ret a))"

definition cutFeeReceipt :: "exec_env \<Rightarrow> (string \<times> gobytes) list \<Rightarrow> acc_msg \<Rightarrow> exec_receipt" where
  "cutFeeReceipt env kvset receiptBalance =
     \<lparr>rc_Ty = ExecPack, rc_KV = kvset,
      rc_Logs = [\<lparr>log_Ty = TyLogFee, log_Log = Encode (en_acc env) receiptBalance\<rparr>]\<rparr>"

definition processFee :: "exec_env \<Rightarrow> transaction \<Rightarrow> exec_receipt exec" where
  "processFee env tx =
     bind_ex (coins_LoadAccount env (From (en_tx env) tx)) (\<lambda>accFrom.
       if i64 (Balance accFrom - Fee tx) \<ge> 0 then
         let accFrom1 = accFrom\<lparr>Balance := i64 (Balance accFrom - Fee tx)\<rparr>;
             set = map (\<lambda>(k, v). (k, Some v)) (GetKVSet (en_acc env) (coinsAccount env) accFrom1)
         in bind_ex (state_set_all set) (\<lambda>_.
            ret (cutFeeReceipt env set (MReceiptAccountTransfer accFrom accFrom1)))
       else fail ErrNoBalance)"

definition pack_receipt :: exec_receipt where
  "pack_receipt = \<lparr>rc_Ty = ExecPack, rc_KV = [], rc_Logs = []\<rparr>"

definition call_CheckTx :: "exec_env \<Rightarrow> nat \<Rightarrow> transaction \<Rightarrow> int \<Rightarrow> unit exec" where
  "call_CheckTx env d tx index =
     with_driver d (\<lambda>ob. call_driver env (drv_CheckTx (obj_driver ob) (setEnv env ob) tx index))"

definition execFee :: "exec_env \<Rightarrow> transaction \<Rightarrow> txref \<Rightarrow> int \<Rightarrow> exec_receipt exec" where
  "execFee env tx ref index =
     (if \<not> isPara (en_cfg env) \<and> en_MinTxFeeRate env = 0 then ret pack_receipt
      else
        bind_ex (loadDriver env tx ref index) (\<lambda>ex.
        bind_ex (lift_ex (ExecPubKey env (Execer tx))) (\<lambda>pub.
        bind_ex (if pub = (case TxSignature tx of None \<Rightarrow> [] | Some sg \<Rightarrow> Pubkey sg)
                 then call_CheckTx env ex tx index else ret ()) (\<lambda>_.
        with_driver ex (\<lambda>ob.
          if \<not> isPara (en_cfg env) \<and> en_MinTxFeeRate env > 0 \<and> \<not> IsFree (obj_driver ob) (setEnv env ob)
          then processFee env tx else ret pack_receipt)))))"

section \<open>Checks\<close>

definition IsSpecificParaExecName :: "string \<Rightarrow> string \<Rightarrow> bool" where
  "IsSpecificParaExecName title1 exec \<longleftrightarrow> IsParaExecName exec \<and> take (length title1) exec = title1"

definition isForwardTxExecer :: "exec_env \<Rightarrow> string \<Rightarrow> bool" where
  "isForwardTxExecer env execer1 \<longleftrightarrow>
     (\<exists>exec \<in> set (en_ForwardExecs env). exec = ''all'' \<or> suffix exec execer1)"

definition isForwardTxActionName :: "exec_env \<Rightarrow> transaction \<Rightarrow> bool" where
  "isForwardTxActionName env tx \<longleftrightarrow>
     en_ForwardActionNames env = [] \<or> en_ActionName env tx \<in> set (en_ForwardActionNames env)"

definition IsForward2MainChainTx :: "exec_env \<Rightarrow> transaction \<Rightarrow> bool" where
  "IsForward2MainChainTx env tx =
     (if \<not> isPara (en_cfg env) then False
      else if \<not> IsSpecificParaExecName (title (en_cfg env)) (Execer tx) then True
      else if isForwardTxExecer env (Execer tx) \<and> isForwardTxActionName env tx then True
      else
        case GetTxGroup (en_tx env) tx of
          Inr (Some txs) \<Rightarrow>
            (\<exists>gtx \<in> set txs. isForwardTxExecer env (Execer gtx) \<and> isForwardTxActionName env gtx)
        | _ \<Rightarrow> False)"

definition ex_checkTx :: "exec_env \<Rightarrow> transaction \<Rightarrow> txref \<Rightarrow> int \<Rightarrow> unit exec" where
  "ex_checkTx env tx ref index =
     (if isPara (en_cfg env) \<and> IsForward2MainChainTx env tx then ret ()
      else if en_height env > 0 \<and> en_blocktime env > 0 \<and>
        IsExpire (en_tx env) (en_cfg env) (en_height env) (en_blocktime env) tx then fail ErrTxExpire
      else
        case tx_Check (en_tx env) (en_cfg env) (en_height env) (en_MinTxFeeRate env)
               (en_MaxTxFee env (en_height env)) tx of
          Some e \<Rightarrow> fail e
        | None \<Rightarrow>
            bind_ex (getRealExecName env tx ref index) (\<lambda>name.
              if \<not> IsAllowExecName (AllowUserExec (en_cfg env)) name (Execer tx)
              then bind_ex (getRealExecName env tx ref index) (\<lambda>_. fail ErrExecNameNotAllow)
              else ret ()))"

definition checkTxGroup :: "exec_env \<Rightarrow> transaction list \<Rightarrow> int \<Rightarrow> go_error option" where
  "checkTxGroup env txs index =
     (if en_height env > 0 \<and> en_blocktime env > 0 \<and>
        group_IsExpire (en_tx env) (en_cfg env) (en_height env) (en_blocktime env) txs
      then Some ErrTxExpire
      else group_Check (en_tx env) (en_cfg env) (en_height env) (en_MinTxFeeRate env)
             (en_MaxTxFee env (en_height env)) (map Some txs))"

text \<open>The driver \<^verbatim>\<open>none\<close> that \<^verbatim>\<open>execCheckTx\<close> takes from a pool of such objects.\<close>

definition getNoneDriver :: "exec_env \<Rightarrow> nat exec" where
  "getNoneDriver env =
     (case LoadDriver env ''none'' 0 of Inl e \<Rightarrow> fail GoPanic | Inr none \<Rightarrow> new_driver_obj none)"

definition execCheckTx :: "exec_env \<Rightarrow> transaction \<Rightarrow> txref \<Rightarrow> int \<Rightarrow> unit exec" where
  "execCheckTx env tx ref index =
     bind_ex (ex_checkTx env tx ref index) (\<lambda>_.
     bind_ex (check_ex (en_CheckAddress env (To tx) (en_height env))) (\<lambda>_.
     bind_ex (if Execer tx = ''none'' then getNoneDriver env else loadDriver env tx ref index) (\<lambda>exec.
     bind_ex (with_driver exec (\<lambda>ob.
       if \<not> IsFree (obj_driver ob) (setEnv env ob) \<and> en_MinTxFeeRate env > 0 then
         bind_ex (coins_LoadAccount env (From (en_tx env) tx)) (\<lambda>accFrom.
           if Balance accFrom < GetTxFee (en_tx env) tx then fail ErrNoBalance
           else if Balance accFrom < en_MinBalanceTransfer env then fail ErrBalanceLessThanTenTimesFee
           else ret ())
       else ret ())) (\<lambda>_.
     call_CheckTx env exec tx index))))"

section \<open>Running a transaction\<close>

definition local_on :: "(ExecLocalDB \<Rightarrow> ExecLocalDB) \<Rightarrow> executor \<Rightarrow> executor" where
  "local_on f s = s\<lparr>e_local := map_option f (e_local s)\<rparr>"

definition ex_Exec :: "exec_env \<Rightarrow> transaction \<Rightarrow> txref \<Rightarrow> int \<Rightarrow> exec_receipt option exec" where
  "ex_Exec env tx ref index =
     recover_ex ErrExecPanic
       (bind_ex (loadDriver env tx ref index) (\<lambda>exec.
        bind_ex (check_ex (drv_CheckAddress env (en_GetRealToAddr env tx) (en_height env))) (\<lambda>_.
        with_driver exec (\<lambda>ob.
          let body = bind_ex (call_CheckTx env exec tx index) (\<lambda>_.
                call_driver env (drv_Exec (obj_driver ob) (setEnv env ob) tx index));
              other = (ExecutorOrder (obj_driver ob) (setEnv env ob) \<noteq> ExecLocalSameTime)
          in (\<lambda>s. if e_local s \<noteq> None \<and> en_fork env ''ForkLocalDBAccess'' then
                   defer_ex
                     (bind_ex (update_ex (local_on (\<lambda>l. let l1 = DisableWrite l
                                                       in if other then DisableRead l1 else l1)))
                       (\<lambda>_. body))
                     (local_on (\<lambda>l. let l1 = EnableWrite l in if other then EnableRead l1 else l1)) s
                 else body s)))))"

definition execLocal ::
  "exec_env \<Rightarrow> transaction \<Rightarrow> receipt_data \<Rightarrow> txref \<Rightarrow> int \<Rightarrow> local_set option exec" where
  "execLocal env tx r ref index =
     bind_ex (loadDriver env tx ref index) (\<lambda>d. with_driver d (\<lambda>ob.
       call_driver env (drv_ExecLocal (obj_driver ob) (setEnv env ob) tx r index)))"

definition execDelLocal ::
  "exec_env \<Rightarrow> transaction \<Rightarrow> receipt_data \<Rightarrow> txref \<Rightarrow> int \<Rightarrow> local_set option exec" where
  "execDelLocal env tx r ref index =
     bind_ex (loadDriver env tx ref index) (\<lambda>d. with_driver d (\<lambda>ob.
       call_driver env (drv_ExecDelLocal (obj_driver ob) (setEnv env ob) tx r index)))"

definition isExecLocalSameTime :: "exec_env \<Rightarrow> transaction \<Rightarrow> txref \<Rightarrow> int \<Rightarrow> bool exec" where
  "isExecLocalSameTime env tx ref index =
     bind_ex (loadDriver env tx ref index) (\<lambda>d. with_driver d (\<lambda>ob.
       ret (ExecutorOrder (obj_driver ob) (setEnv env ob) = ExecLocalSameTime)))"

text \<open>An illegal local key panics (\<^verbatim>\<open>checkPrefix\<close>).\<close>

fun checkPrefix :: "string \<Rightarrow> (string \<times> gobytes) list \<Rightarrow> unit exec" where
  "checkPrefix exec [] = ret ()"
| "checkPrefix exec ((k, v) # kvs) =
     (case isAllowLocalKey exec k of Some e \<Rightarrow> fail GoPanic | None \<Rightarrow> checkPrefix exec kvs)"

definition local_keys :: "string list exec" where
  "local_keys =
     (\<lambda>s. case e_local s of None \<Rightarrow> (Inl GoPanic, s) | Some l \<Rightarrow> (Inr (ExecLocalDB_GetSetKeys l), s))"

definition local_set1 :: "string \<times> gobytes \<Rightarrow> unit exec" where
  "local_set1 kv =
     (\<lambda>s. case e_local s of
            None \<Rightarrow> (Inl GoPanic, s)
          | Some l \<Rightarrow>
              (case ExecLocalDB_Set l (fst kv) (snd kv) of
                 (Some e, l1) \<Rightarrow> (Inl GoPanic, s\<lparr>e_local := Some l1\<rparr>)
               | (None, l1) \<Rightarrow> (Inr (), s\<lparr>e_local := Some l1\<rparr>)))"

fun local_set_all :: "(string \<times> gobytes) list \<Rightarrow> unit exec" where
  "local_set_all [] = ret ()"
| "local_set_all (kv # kvs) = bind_ex (local_set1 kv) (\<lambda>_. local_set_all kvs)"

definition execLocalTx ::
  "exec_env \<Rightarrow> transaction \<Rightarrow> receipt_data \<Rightarrow> txref \<Rightarrow> int \<Rightarrow> local_set option exec" where
  "execLocalTx env tx r ref index =
     try_ex (execLocal env tx r ref index) (\<lambda>res.
       case res of
         Inl err \<Rightarrow> if err = ErrActionNotSupport then ret None else fail err
       | Inr kv \<Rightarrow>
           bind_ex local_keys (\<lambda>memkvset.
             case kv of
               Some (Some kvs) \<Rightarrow>
                 if checkKV memkvset kvs \<noteq> None then fail ErrNotAllowMemSetLocalKey
                 else bind_ex (checkPrefix (Execer tx) kvs) (\<lambda>_.
                      bind_ex (local_set_all kvs) (\<lambda>_. ret kv))
             | _ \<Rightarrow> if length memkvset > 0 then fail ErrNotAllowMemSetLocalKey else ret kv))"

definition execLocalSameTime ::
  "exec_env \<Rightarrow> transaction \<Rightarrow> exec_receipt option \<Rightarrow> txref \<Rightarrow> int \<Rightarrow> unit exec" where
  "execLocalSameTime env tx receipt ref index =
     bind_ex (isExecLocalSameTime env tx ref index) (\<lambda>same.
       if same then
         let r = (case receipt of
                    None \<Rightarrow> \<lparr>rd_Ty = 0, rd_Logs = []\<rparr>
                  | Some rc \<Rightarrow> \<lparr>rd_Ty = rc_Ty rc, rd_Logs = rc_Logs rc\<rparr>)
         in bind_ex (execLocalTx env tx r ref index) (\<lambda>_. ret ())
       else ret ())"

text \<open>
  \<^verbatim>\<open>execTxOne\<close> returns the receipt and an error, both of them on a failure.
\<close>

definition merge_receipt :: "exec_receipt \<Rightarrow> exec_receipt option \<Rightarrow> exec_receipt" where
  "merge_receipt feelog receipt =
     (case receipt of
        None \<Rightarrow> feelog
      | Some rc \<Rightarrow> \<lparr>rc_Ty = rc_Ty rc, rc_KV = rc_KV feelog @ rc_KV rc, rc_Logs = rc_Logs feelog @ rc_Logs rc\<rparr>)"

definition finish_tx ::
  "exec_env \<Rightarrow> exec_receipt \<Rightarrow> exec_receipt option \<Rightarrow> (exec_receipt \<times> go_error option) exec" where
  "finish_tx env feelog receipt =
     (let feelog1 = merge_receipt feelog receipt
      in if en_fork env ''ForkStateDBSet'' then
           bind_ex (state_set_all (rc_KV feelog1)) (\<lambda>_. ret (feelog1, None))
         else ret (feelog1, None))"

definition execTxOne ::
  "exec_env \<Rightarrow> exec_receipt \<Rightarrow> transaction \<Rightarrow> txref \<Rightarrow> int \<Rightarrow> (exec_receipt \<times> go_error option) exec" where
  "execTxOne env feelog tx ref index =
     bind_ex startTx (\<lambda>_.
     try_ex (ex_Exec env tx ref index) (\<lambda>res.
       case res of
         Inl err \<Rightarrow> ret (add_errlog env feelog err, Some err)
       | Inr receipt \<Rightarrow>
           bind_ex (read_ex (\<lambda>s. StateDB_GetSetKeys (e_state s))) (\<lambda>memkvset.
             case checkKV memkvset (get_kv receipt) of
               Some err \<Rightarrow> ret (add_errlog env feelog err, Some err)
             | None \<Rightarrow>
                 bind_ex (checkKeyAllow env feelog tx ref index (get_kv receipt)) (\<lambda>(feelog1, denied).
                   case denied of
                     Some err \<Rightarrow> ret (feelog1, Some err)
                   | None \<Rightarrow>
                       try_ex (execLocalSameTime env tx receipt ref index) (\<lambda>res2.
                         case res2 of
                           Inl err \<Rightarrow> ret (add_errlog env feelog1 err, Some err)
                         | Inr _ \<Rightarrow> finish_tx env feelog1 receipt)))))"

section \<open>Errors of the environment\<close>

definition IsAPIEnvError :: "exec_env \<Rightarrow> go_error \<Rightarrow> bool" where
  "IsAPIEnvError env err \<longleftrightarrow>
     (err = ErrAPIEnv \<or> en_GrpcCoded env err) \<or>
     (err = ErrAPIEnv \<or> err = ErrQueueTimeout \<or> err = ErrQueueChannelFull \<or> err = ErrIsQueueClosed) \<or>
     (err = ErrAPIEnv \<or> err = ErrConsensusHashErr)"

section \<open>Proxy transactions\<close>

definition proxyGetRealTx :: "exec_env \<Rightarrow> transaction \<Rightarrow> go_error + transaction" where
  "proxyGetRealTx env tx =
     (if GetRealExecName (Execer tx) \<noteq> ''evm'' then Inl (ErrOther ''execName not allowd'')
      else case en_DecodeEvmAction env (Payload tx) of
        Inl e \<Rightarrow> Inl e
      | Inr para \<Rightarrow> if length para = 0 then Inl (ErrOther ''empty tx'') else en_DecodeTx env para)"

definition checkProxyExecTx :: "exec_env \<Rightarrow> transaction \<Rightarrow> bool exec" where
  "checkProxyExecTx env tx =
     (if en_fork env ''ForkProxyExec'' \<and> To tx = en_ProxyExecAddress env then
        case TxSignature tx of
          None \<Rightarrow> fail GoPanic
        | Some sg \<Rightarrow>
            ret (IsEthSignID (defaultAddressID (en_tx env)) (tx_signature.Ty sg) \<and>
                 GetRealExecName (Execer tx) = ''evm'')
      else ret False)"

definition proxyExecTx :: "exec_env \<Rightarrow> transaction \<Rightarrow> go_error + transaction" where
  "proxyExecTx env tx =
     (case proxyGetRealTx env tx of Inl e \<Rightarrow> Inl e | Inr realTx \<Rightarrow> Inr (realTx\<lparr>TxSignature := TxSignature tx\<rparr>))"

definition CaculCoinsEvmAccountKey :: "string \<Rightarrow> string" where
  "CaculCoinsEvmAccountKey addr = ''LODB-'' @ ''evm'' @ ''-noncestate:'' @ FormatEthAddress addr"

definition getCurrentNonce :: "exec_env \<Rightarrow> string \<Rightarrow> int exec" where
  "getCurrentNonce env addr =
     (\<lambda>s. case e_local s of
            None \<Rightarrow> (Inl GoPanic, s)
          | Some l \<Rightarrow>
              (case ExecLocalDB_Get l (CaculCoinsEvmAccountKey addr) of
                 (Inr v, l1) \<Rightarrow> (Inr (en_DecodeNonce env v), s\<lparr>e_local := Some l1\<rparr>)
               | (Inl e, l1) \<Rightarrow> (if e = GoPanic then Inl GoPanic else Inr 0, s\<lparr>e_local := Some l1\<rparr>)))"

section \<open>One transaction of a block\<close>

text \<open>
  The part of \<^verbatim>\<open>execTx\<close> after the proxy: it answers with the variable
  \<^verbatim>\<open>feelog\<close> as the deferred function finds it, and the result.
\<close>

definition execTx_body ::
  "exec_env \<Rightarrow> transaction \<Rightarrow> txref \<Rightarrow> int \<Rightarrow> (exec_receipt option \<times> (go_error + exec_receipt)) exec" where
  "execTx_body env tx ref index =
     try_ex (ex_checkTx env tx ref index) (\<lambda>checked.
       case checked of
         Inl err \<Rightarrow> if isPara (en_cfg env) then fail GoPanic else ret (None, Inl err)
       | Inr _ \<Rightarrow>
           try_ex (execFee env tx ref index) (\<lambda>fee.
             case fee of
               Inl err \<Rightarrow> ret (None, Inl err)
             | Inr feelog \<Rightarrow>
                 bind_ex (ex_begin env) (\<lambda>_.
                 bind_ex (execTxOne env feelog tx ref index) (\<lambda>(feelog1, err).
                   case err of
                     Some e \<Rightarrow>
                       bind_ex (ex_rollback env) (\<lambda>_.
                         ret (Some feelog1, if IsAPIEnvError env e then Inl e else Inr feelog1))
                   | None \<Rightarrow>
                       try_ex (ex_commit env) (\<lambda>c.
                         ret (Some feelog1, case c of Inl e \<Rightarrow> Inl e | Inr _ \<Rightarrow> Inr feelog1))))))"

definition execTx :: "exec_env \<Rightarrow> transaction \<Rightarrow> nat \<Rightarrow> int \<Rightarrow> exec_receipt exec" where
  "execTx env tx pos index =
     (if en_height env = 0 then
        try_ex (ex_Exec env tx (BlockTx pos) index) (\<lambda>res.
          case res of Inr (Some receipt) \<Rightarrow> ret receipt | _ \<Rightarrow> fail GoPanic)
      else
        bind_ex (checkProxyExecTx env tx) (\<lambda>proxy.
          if proxy then
            bind_ex
              (bind_ex (getCurrentNonce env (From (en_tx env) tx)) (\<lambda>currentNonce.
                 if currentNonce \<noteq> Nonce tx then ret (None, Inl (ErrOther ''proxyExec nonce missmatch''))
                 else case proxyExecTx env tx of
                   Inl e \<Rightarrow> ret (None, Inl e)
                 | Inr realTx \<Rightarrow> execTx_body env realTx (ProxyTx pos) index)) (\<lambda>(feelog, res).
            bind_ex (isExecLocalSameTime env tx (BlockTx pos) index) (\<lambda>_.
            try_ex (execLocalSameTime env (CloneTx tx) feelog FreshTx index) (\<lambda>_.
            lift_ex res)))
          else
            bind_ex (execTx_body env tx (BlockTx pos) index) (\<lambda>(feelog, res). lift_ex res)))"

section \<open>A group of transactions\<close>

fun group_rest ::
  "exec_env \<Rightarrow> exec_receipt \<Rightarrow> nat \<Rightarrow> int \<Rightarrow> nat \<Rightarrow> transaction list \<Rightarrow> exec_receipt list \<Rightarrow>
   exec_receipt list exec" where
  "group_rest env rollbackLog pos index i [] receipts = bind_ex (ex_commit env) (\<lambda>_. ret receipts)"
| "group_rest env rollbackLog pos index i (tx # txs) receipts =
     bind_ex (execTxOne env (receipts ! i) tx (BlockTx (pos + i)) (index + int i)) (\<lambda>(r, err).
       let receipts1 = receipts[i := r]
       in case err of
            None \<Rightarrow> group_rest env rollbackLog pos index (i + 1) txs receipts1
          | Some e \<Rightarrow>
              if IsAPIEnvError env e then fail e
              else
                let receipts2 = take 1 receipts1 @ replicate (i - 1) pack_receipt @ drop i receipts1;
                    receipts3 = (if en_fork env ''ForkResetTx0'' then receipts2[0 := rollbackLog] else receipts2)
                in bind_ex (ex_rollback env) (\<lambda>_. ret receipts3))"

definition execTxGroup :: "exec_env \<Rightarrow> transaction list \<Rightarrow> nat \<Rightarrow> int \<Rightarrow> exec_receipt list exec" where
  "execTxGroup env txs pos index =
     bind_ex (check_ex (checkTxGroup env txs index)) (\<lambda>_.
     bind_ex (execFee env (txs ! 0) (BlockTx pos) index) (\<lambda>feelog.
     bind_ex (ex_begin env) (\<lambda>_.
     bind_ex (execTxOne env feelog (txs ! 0) (BlockTx pos) index) (\<lambda>(r0, err).
       let receipts = r0 # replicate (length txs - 1) pack_receipt
       in case err of
            Some e \<Rightarrow>
              if IsAPIEnvError env e then fail e
              else bind_ex (if ForkExecRollback (en_sdb env) (en_height env) then ex_rollback env else ret ())
                     (\<lambda>_. ret receipts)
          | None \<Rightarrow> group_rest env feelog pos index 1 (tl txs) receipts))))"

end
