(* ===== verification/Exec_Block.thy ===== *)
theory Exec_Block
  imports Exec_Tx
begin

text \<open>
  The messages of the executor that concern a whole block, \<^verbatim>\<open>executor/executor.go\<close>: run
  its transactions, check transactions for the mempool, and compute the local data of a block that
  is added or removed. The plugins of \<^verbatim>\<open>executor/plugin.go\<close> are values of \<open>plugin\<close>.
\<close>

section \<open>Running the transactions of a block\<close>

definition NewErrReceipt :: "exec_env \<Rightarrow> go_error \<Rightarrow> exec_receipt" where
  "NewErrReceipt env err =
     \<lparr>rc_Ty = ExecErr, rc_KV = [], rc_Logs = [\<lparr>log_Ty = TyLogErr, log_Log = en_ErrText env err\<rparr>]\<rparr>"

text \<open>
  The loop of \<^verbatim>\<open>procExecTxList\<close>: \<open>pos\<close> is its variable \<^verbatim>\<open>i\<close>, \<open>txs\<close> the
  transactions from there on. \<^verbatim>\<open>index\<close> counts only the transactions that were executed.
\<close>

function exec_list :: "exec_env \<Rightarrow> nat \<Rightarrow> int \<Rightarrow> transaction list \<Rightarrow> exec_receipt list \<Rightarrow> exec_receipt list exec" where
  "exec_list env pos index [] receipts = ret receipts"
| "exec_list env pos index (tx # txs) receipts =
     (if GroupCount tx < 0 \<or> GroupCount tx = 1 \<or> GroupCount tx > 20 then
        exec_list env (pos + 1) index txs (receipts @ [NewErrReceipt env ErrTxGroupCount])
      else if GroupCount tx = 0 then
        try_ex (execTx env tx pos index) (\<lambda>res.
          case res of
            Inl err \<Rightarrow>
              if IsAPIEnvError env err then fail err
              else exec_list env (pos + 1) index txs (receipts @ [NewErrReceipt env err])
          | Inr receipt \<Rightarrow> exec_list env (pos + 1) (index + 1) txs (receipts @ [receipt]))
      else if \<not> en_fork env ''ForkTxGroup'' then
        exec_list env (pos + 1) index txs (receipts @ [NewErrReceipt env ErrTxGroupNotSupport])
      else
        let n = nat (GroupCount tx)
        in if n > length (tx # txs) then
             exec_list env (pos + 1) index txs (receipts @ [NewErrReceipt env ErrTxGroupCount])
           else
             try_ex (execTxGroup env (take n (tx # txs)) pos index) (\<lambda>res.
               case res of
                 Inl err \<Rightarrow>
                   if IsAPIEnvError env err then fail err
                   else exec_list env (pos + n) index (drop (n - 1) txs) (receipts @ replicate n (NewErrReceipt env err))
               | Inr receiptlist \<Rightarrow>
                   if length receiptlist > 0 \<and> length receiptlist \<noteq> n then fail GoPanic
                   else exec_list env (pos + n) (index + GroupCount tx) (drop (n - 1) txs) (receipts @ receiptlist)))"
  by pat_completeness auto
termination by (relation "measure (\<lambda>(env, pos, index, txs, receipts). length txs)") auto

text \<open>A panic anywhere is answered with \<^verbatim>\<open>ErrExecPanic\<close>.\<close>

definition ex_enableMVCC :: "exec_env \<Rightarrow> bytes option \<Rightarrow> unit exec" where
  "ex_enableMVCC env hash =
     (\<lambda>s. case enableMVCC (en_sdb env) (e_state s) hash of
            Inl e \<Rightarrow> (Inl e, s)
          | Inr sd \<Rightarrow> (Inr (), s\<lparr>e_state := sd\<rparr>))"

definition procExecTxList :: "exec_env \<Rightarrow> executor \<Rightarrow> (go_error + exec_receipt list) \<times> executor" where
  "procExecTxList env s =
     recover_ex ErrExecPanic (bind_ex (ex_enableMVCC env None) (\<lambda>_. exec_list env 0 0 (en_txs env) [])) s"

fun check_txs :: "exec_env \<Rightarrow> bool \<Rightarrow> nat \<Rightarrow> transaction list \<Rightarrow> bytes list exec" where
  "check_txs env isMempool i [] = ret []"
| "check_txs env isMempool i (tx # txs) =
     try_ex (execCheckTx env tx (BlockTx i) (if isMempool then - 1 else int i)) (\<lambda>res.
       bind_ex (check_txs env isMempool (i + 1) txs) (\<lambda>errs.
         ret ((case res of Inl err \<Rightarrow> en_ErrText env err | Inr _ \<Rightarrow> []) # errs)))"

definition procExecCheckTx :: "exec_env \<Rightarrow> bool \<Rightarrow> executor \<Rightarrow> (go_error + bytes list) \<times> executor" where
  "procExecCheckTx env isMempool s =
     recover_ex ErrExecPanic
       (bind_ex (ex_enableMVCC env None) (\<lambda>_. check_txs env isMempool 0 (en_txs env))) s"

section \<open>Plugins\<close>

text \<open>
  A plugin reads and writes the local database of the executor; \<open>plug_enabled\<close> is its entry of
  \<^verbatim>\<open>pluginEnable\<close>. The loop over \<^verbatim>\<open>globalPlugins\<close>, a Go map, takes them in the
  order of the list.
\<close>

record plugin =
  plug_enabled :: bool
  CheckEnable :: "exec_env \<Rightarrow> bool \<Rightarrow> ((string \<times> gobytes) list \<times> bool) exec"
  plug_ExecLocal :: "exec_env \<Rightarrow> (string \<times> gobytes) list exec"
  plug_ExecDelLocal :: "exec_env \<Rightarrow> (string \<times> gobytes) list exec"

fun run_plugins :: "exec_env \<Rightarrow> plugin list \<Rightarrow> (string \<times> gobytes) list exec" where
  "run_plugins env [] = ret []"
| "run_plugins env (p # ps) =
     try_ex (CheckEnable p env (plug_enabled p)) (\<lambda>enabled.
       case enabled of
         Inl err \<Rightarrow> fail GoPanic
       | Inr (kvs, ok) \<Rightarrow>
           if \<not> ok then run_plugins env ps
           else
             bind_ex (plug_ExecLocal p env) (\<lambda>kvs1.
             bind_ex (local_set_all kvs1) (\<lambda>_.
             bind_ex (run_plugins env ps) (\<lambda>rest. ret (kvs @ kvs1 @ rest)))))"

fun run_plugins_del :: "exec_env \<Rightarrow> plugin list \<Rightarrow> (string \<times> gobytes) list exec" where
  "run_plugins_del env [] = ret []"
| "run_plugins_del env (p # ps) =
     try_ex (CheckEnable p env (plug_enabled p)) (\<lambda>enabled.
       case enabled of
         Inl err \<Rightarrow> fail GoPanic
       | Inr (kvs, ok) \<Rightarrow>
           if \<not> ok then run_plugins_del env ps
           else
             bind_ex (plug_ExecDelLocal p env) (\<lambda>kvs1.
             bind_ex (run_plugins_del env ps) (\<lambda>rest. ret (kvs @ kvs1 @ rest))))"

section \<open>Local data of a block\<close>

definition set_kv :: "local_set option \<Rightarrow> (string \<times> gobytes) list" where
  "set_kv kv = (case kv of Some (Some kvs) \<Rightarrow> kvs | _ \<Rightarrow> [])"

definition local_StartTx :: "unit exec" where
  "local_StartTx =
     (\<lambda>s. case e_local s of
            None \<Rightarrow> (Inl GoPanic, s)
          | Some l \<Rightarrow> (Inr (), s\<lparr>e_local := Some (ExecLocalDB_StartTx l)\<rparr>))"

text \<open>The proxied transaction of a proxy transaction: what it adds comes first.\<close>

definition proxy_local :: "exec_env \<Rightarrow> transaction \<Rightarrow> receipt_data \<Rightarrow> nat \<Rightarrow> (string \<times> gobytes) list exec" where
  "proxy_local env tx r i =
     bind_ex (checkProxyExecTx env tx) (\<lambda>proxy.
       if proxy then
         case proxyExecTx env tx of
           Inl e \<Rightarrow> ret []
         | Inr realTx \<Rightarrow>
             bind_ex (execLocal env realTx r (ProxyTx i) (int i)) (\<lambda>kv. ret (set_kv kv))
       else ret [])"

fun add_txs :: "exec_env \<Rightarrow> receipt_data list \<Rightarrow> nat \<Rightarrow> transaction list \<Rightarrow> (string \<times> gobytes) list exec" where
  "add_txs env receipts i [] = ret []"
| "add_txs env receipts i (tx # txs) =
     bind_ex local_StartTx (\<lambda>_.
     if i \<ge> length receipts then fail GoPanic
     else
       bind_ex (proxy_local env tx (receipts ! i) i) (\<lambda>kvs0.
       bind_ex (execLocalTx env tx (receipts ! i) (BlockTx i) (int i)) (\<lambda>kv.
       bind_ex (add_txs env receipts (i + 1) txs) (\<lambda>rest. ret (kvs0 @ set_kv kv @ rest)))))"

definition procExecAddBlock ::
  "exec_env \<Rightarrow> plugin list \<Rightarrow> bool \<Rightarrow> bytes option \<Rightarrow> (string \<times> gobytes) list \<Rightarrow> executor \<Rightarrow>
   (go_error + (string \<times> gobytes) list) \<times> executor" where
  "procExecAddBlock env plugins disableExecLocal prevStatusHash kvs s =
     recover_ex ErrExecPanic
       (bind_ex (ex_enableMVCC env prevStatusHash) (\<lambda>_.
        bind_ex (state_set_all kvs) (\<lambda>_.
        bind_ex (run_plugins env plugins) (\<lambda>kvs1.
        if \<not> disableExecLocal then
          bind_ex (add_txs env (en_receipts env) 0 (en_txs env)) (\<lambda>kvs2. ret (kvs1 @ kvs2))
        else ret kvs1)))) s"

text \<open>
  Removing a block goes through its transactions from the last one. \<^verbatim>\<open>newExecutor\<close> is
  given no receipts there, the loop reads them from the block.
\<close>

fun del_txs :: "exec_env \<Rightarrow> receipt_data list \<Rightarrow> nat \<Rightarrow> transaction list \<Rightarrow> (string \<times> gobytes) list exec" where
  "del_txs env receipts 0 txs = ret []"
| "del_txs env receipts (Suc i) txs =
     (let tx = txs ! i
      in bind_ex (checkProxyExecTx env tx) (\<lambda>proxy.
         if i \<ge> length receipts then fail GoPanic
         else
         bind_ex (if proxy then
                    case proxyExecTx env tx of
                      Inl e \<Rightarrow> ret []
                    | Inr realTx \<Rightarrow>
                        try_ex (execDelLocal env realTx (receipts ! i) (ProxyTx i) (int i)) (\<lambda>res.
                          case res of
                            Inl e \<Rightarrow> ret []
                          | Inr kv \<Rightarrow> bind_ex (checkPrefix (Execer realTx) (set_kv kv)) (\<lambda>_. ret (set_kv kv)))
                  else ret []) (\<lambda>kvs0.
         try_ex (execDelLocal env tx (receipts ! i) (BlockTx i) (int i)) (\<lambda>res.
           case res of
             Inl e \<Rightarrow>
               if e = ErrActionNotSupport
               then bind_ex (del_txs env receipts i txs) (\<lambda>rest. ret (kvs0 @ rest))
               else fail e
           | Inr kv \<Rightarrow>
               bind_ex (checkPrefix (Execer tx) (set_kv kv)) (\<lambda>_.
               bind_ex (del_txs env receipts i txs) (\<lambda>rest. ret (kvs0 @ set_kv kv @ rest)))))))"

definition procExecDelBlock ::
  "exec_env \<Rightarrow> plugin list \<Rightarrow> bool \<Rightarrow> receipt_data list \<Rightarrow> (string \<times> gobytes) list \<Rightarrow> executor \<Rightarrow>
   (go_error + (string \<times> gobytes) list) \<times> executor" where
  "procExecDelBlock env plugins disableExecLocal receipts kvs s =
     recover_ex ErrExecPanic
       (bind_ex (ex_enableMVCC env None) (\<lambda>_.
        bind_ex (state_set_all kvs) (\<lambda>_.
        bind_ex (run_plugins_del env plugins) (\<lambda>kvs1.
        if \<not> disableExecLocal then
          bind_ex (del_txs env receipts (length (en_txs env)) (en_txs env)) (\<lambda>kvs2. ret (kvs1 @ kvs2))
        else ret kvs1)))) s"

end
