(* ===== verification/Exec_Logic.thy ===== *)
theory Exec_Logic
  imports Exec_Block
begin

text \<open>
  A small program logic for operations of the executor. \<open>spec P m Q E\<close> says that from a state
  with \<open>P\<close> the operation \<open>m\<close> ends with a result and a state in \<open>Q\<close>, or with an error and a
  state in \<open>E\<close>. On top of it, the facts every property of the executor shares: the invariant
  \<open>wf_executor\<close> of the driver heap and the local database, and that an operation leaves the state of
  the block as it was (\<open>Kept\<close>) or changes it under the keys it has recorded (\<open>Tracked\<close>).
\<close>

named_theorems spec_intro \<open>rules of the program logic\<close>

section \<open>Rules\<close>

definition spec ::
  "(executor \<Rightarrow> bool) \<Rightarrow> 'a exec \<Rightarrow> ('a \<Rightarrow> executor \<Rightarrow> bool) \<Rightarrow> (go_error \<Rightarrow> executor \<Rightarrow> bool) \<Rightarrow> bool" where
  "spec P m Q E \<longleftrightarrow> (\<forall>s. P s \<longrightarrow> (case m s of (Inr a, s1) \<Rightarrow> Q a s1 | (Inl e, s1) \<Rightarrow> E e s1))"

lemma specI:
  "(\<And>s a s1. P s \<Longrightarrow> m s = (Inr a, s1) \<Longrightarrow> Q a s1) \<Longrightarrow> (\<And>s e s1. P s \<Longrightarrow> m s = (Inl e, s1) \<Longrightarrow> E e s1) \<Longrightarrow>
   spec P m Q E"
  by (auto simp: spec_def split: prod.splits sum.splits)

lemma spec_ok: "spec P m Q E \<Longrightarrow> P s \<Longrightarrow> m s = (Inr a, s1) \<Longrightarrow> Q a s1"
  by (force simp: spec_def)

lemma spec_err: "spec P m Q E \<Longrightarrow> P s \<Longrightarrow> m s = (Inl e, s1) \<Longrightarrow> E e s1"
  by (force simp: spec_def)

lemma spec_conseq:
  assumes "spec P' m Q' E'" "\<And>s. P s \<Longrightarrow> P' s" "\<And>a s. Q' a s \<Longrightarrow> Q a s" "\<And>e s. E' e s \<Longrightarrow> E e s"
  shows "spec P m Q E"
  using assms by (fastforce simp: spec_def split: prod.splits sum.splits)

lemma spec_pre: "spec P' m Q E \<Longrightarrow> (\<And>s. P s \<Longrightarrow> P' s) \<Longrightarrow> spec P m Q E"
  by (rule spec_conseq)

lemma spec_post: "spec P m Q' E \<Longrightarrow> (\<And>a s. Q' a s \<Longrightarrow> Q a s) \<Longrightarrow> spec P m Q E"
  by (rule spec_conseq)

lemma spec_ret [spec_intro]: "(\<And>s. P s \<Longrightarrow> Q a s) \<Longrightarrow> spec P (ret a) Q E"
  by (simp add: spec_def ret_def)

lemma spec_fail [spec_intro]: "(\<And>s. P s \<Longrightarrow> E e s) \<Longrightarrow> spec P (fail e) Q E"
  by (simp add: spec_def fail_def)

lemma spec_bind [spec_intro]:
  "spec P m R E \<Longrightarrow> (\<And>a. spec (R a) (f a) Q E) \<Longrightarrow> spec P (bind_ex m f) Q E"
  by (fastforce simp: spec_def bind_ex_def split: prod.splits sum.splits)

lemma spec_try:
  assumes "spec P m R E'" "\<And>a. spec (R a) (f (Inr a)) Q E"
    "\<And>e. e \<noteq> GoPanic \<Longrightarrow> spec (E' e) (f (Inl e)) Q E" "\<And>s. E' GoPanic s \<Longrightarrow> E GoPanic s"
  shows "spec P (try_ex m f) Q E"
  unfolding spec_def
proof (intro allI impI)
  fix s assume p: "P s"
  obtain r s1 where m: "m s = (r, s1)" by (cases "m s")
  show "case try_ex m f s of (Inr a, s1) \<Rightarrow> Q a s1 | (Inl e, s1) \<Rightarrow> E e s1"
  proof (cases r)
    case (Inr a)
    with assms(1) p m have "R a s1" by (force simp: spec_def)
    with assms(2) [of a] m Inr show ?thesis by (simp add: spec_def try_ex_def)
  next
    case (Inl e)
    with assms(1) p m have e: "E' e s1" by (force simp: spec_def)
    show ?thesis
    proof (cases "e = GoPanic")
      case True
      with e m Inl assms(4) show ?thesis by (simp add: try_ex_def)
    next
      case False
      with e m Inl assms(3) show ?thesis by (simp add: spec_def try_ex_def)
    qed
  qed
qed

lemma spec_update [spec_intro]: "(\<And>s. P s \<Longrightarrow> Q () (f s)) \<Longrightarrow> spec P (update_ex f) Q E"
  by (simp add: spec_def update_ex_def)

lemma spec_read [spec_intro]: "(\<And>s. P s \<Longrightarrow> Q (f s) s) \<Longrightarrow> spec P (read_ex f) Q E"
  by (simp add: spec_def read_ex_def)

lemma spec_with [spec_intro]:
  "(\<And>ob. spec (\<lambda>s. P s \<and> driver_at s d = ob) (f ob) Q E) \<Longrightarrow> spec P (with_driver d f) Q E"
  by (simp add: spec_def with_driver_def)

lemma spec_check [spec_intro]:
  "(\<And>s. P s \<Longrightarrow> e = None \<Longrightarrow> Q () s) \<Longrightarrow> (\<And>s err. P s \<Longrightarrow> e = Some err \<Longrightarrow> E err s) \<Longrightarrow>
   spec P (check_ex e) Q E"
  by (cases e) (simp_all add: check_ex_def spec_ret spec_fail)

lemma spec_lift [spec_intro]:
  "(\<And>s a. P s \<Longrightarrow> r = Inr a \<Longrightarrow> Q a s) \<Longrightarrow> (\<And>s e. P s \<Longrightarrow> r = Inl e \<Longrightarrow> E e s) \<Longrightarrow> spec P (lift_ex r) Q E"
  by (cases r) (simp_all add: lift_ex_def spec_ret spec_fail)

lemma spec_if [spec_intro]:
  "(b \<Longrightarrow> spec P m Q E) \<Longrightarrow> (\<not> b \<Longrightarrow> spec P n Q E) \<Longrightarrow> spec P (if b then m else n) Q E"
  by simp

lemma spec_let [spec_intro]: "spec P (f x) Q E \<Longrightarrow> spec P (let y = x in f y) Q E"
  by simp

lemma spec_option [spec_intro]:
  "(x = None \<Longrightarrow> spec P m Q E) \<Longrightarrow> (\<And>a. x = Some a \<Longrightarrow> spec P (f a) Q E) \<Longrightarrow>
   spec P (case x of None \<Rightarrow> m | Some a \<Rightarrow> f a) Q E"
  by (cases x) simp_all

lemma spec_sum [spec_intro]:
  "(\<And>e. x = Inl e \<Longrightarrow> spec P (g e) Q E) \<Longrightarrow> (\<And>a. x = Inr a \<Longrightarrow> spec P (f a) Q E) \<Longrightarrow>
   spec P (case x of Inl e \<Rightarrow> g e | Inr a \<Rightarrow> f a) Q E"
  by (cases x) simp_all

lemma spec_pair [spec_intro]:
  "(\<And>a b. x = (a, b) \<Longrightarrow> spec P (f a b) Q E) \<Longrightarrow> spec P (case x of (a, b) \<Rightarrow> f a b) Q E"
  by (cases x) simp

lemma spec_recover:
  assumes "spec P m Q E'" "\<And>s. E' GoPanic s \<Longrightarrow> E err s" "\<And>e s. e \<noteq> GoPanic \<Longrightarrow> E' e s \<Longrightarrow> E e s"
  shows "spec P (recover_ex err m) Q E"
proof (rule specI)
  fix s a s1 assume p: "P s" "recover_ex err m s = (Inr a, s1)"
  then have "m s = (Inr a, s1)" by (auto simp: recover_ex_def split: prod.splits if_splits)
  then show "Q a s1" by (rule spec_ok [OF assms(1) p(1)])
next
  fix s e s1 assume p: "P s" "recover_ex err m s = (Inl e, s1)"
  then have "m s = (Inl GoPanic, s1) \<and> e = err \<or> m s = (Inl e, s1) \<and> e \<noteq> GoPanic"
    by (auto simp: recover_ex_def split: prod.splits if_splits)
  then show "E e s1" using spec_err [OF assms(1) p(1)] assms(2,3) by blast
qed

lemma spec_defer:
  assumes "spec P m (\<lambda>a s. Q a (f s)) (\<lambda>e s. E e (f s))"
  shows "spec P (defer_ex m f) Q E"
  using assms by (fastforce simp: spec_def defer_ex_def split: prod.splits)

lemma spec_state: "(\<And>s0. P s0 \<Longrightarrow> spec (\<lambda>s. s = s0) m Q E) \<Longrightarrow> spec P m Q E"
  by (simp add: spec_def)

lemma spec_on: "P s0 \<Longrightarrow> spec P m Q E \<Longrightarrow> spec (\<lambda>s. s = s0) m Q E"
  by (simp add: spec_def)

lemma spec_conj:
  "spec P m Q E \<Longrightarrow> spec P' m Q' E' \<Longrightarrow>
   spec (\<lambda>s. P s \<and> P' s) m (\<lambda>a s. Q a s \<and> Q' a s) (\<lambda>e s. E e s \<and> E' e s)"
  by (fastforce simp: spec_def split: prod.splits sum.splits)

section \<open>The invariant of the executor\<close>

text \<open>What the executor relies on in a contract: only \<^verbatim>\<open>Exec\<close> writes to the state.\<close>

definition reads_only :: "tx_op list \<Rightarrow> bool" where
  "reads_only ops \<longleftrightarrow> (\<forall>op \<in> set ops. \<exists>k. op = Read k)"

definition driver_ok :: "driver \<Rightarrow> bool" where
  "driver_ok d \<longleftrightarrow>
     (\<forall>ctx tx i sv lv. reads_only (out_state (drv_CheckTx d ctx tx i sv lv))) \<and>
     (\<forall>ctx tx r i sv lv. reads_only (out_state (drv_ExecLocal d ctx tx r i sv lv)))"

definition registry_ok :: "exec_env \<Rightarrow> bool" where
  "registry_ok env \<longleftrightarrow> (\<forall>name d h. en_registered env name = Some (d, h) \<longrightarrow> driver_ok d)"

text \<open>The blockchain module still knows the local database and lets it be written.\<close>

definition local_ok :: "ExecLocalDB \<Rightarrow> bool" where
  "local_ok l \<longleftrightarrow> (\<exists>r. x_remote l = Some r \<and> \<not> m_readOnly r)"

text \<open>A driver is registered for a name, or it is the one that stands for unknown contracts.\<close>

definition registered_as :: "exec_env \<Rightarrow> string \<Rightarrow> driver \<Rightarrow> bool" where
  "registered_as env name d \<longleftrightarrow>
     (\<exists>n \<in> {GetRealExecName name, GetRealExecName ''none''}. \<exists>h. en_registered env n = Some (d, h))"

definition driver_cache_ok :: "exec_env \<Rightarrow> driver_obj list \<Rightarrow> (string \<rightharpoonup> nat) \<Rightarrow> bool" where
  "driver_cache_ok env objs cache \<longleftrightarrow>
     (\<forall>n d. cache n = Some d \<longrightarrow> d < length objs \<and> registered_as env n (obj_driver (objs ! d)))"

definition heap_ok :: "exec_env \<Rightarrow> driver_obj list \<Rightarrow> bool" where
  "heap_ok env objs \<longleftrightarrow> (\<forall>ob \<in> set objs. \<exists>n. registered_as env n (obj_driver ob))"

definition wf_executor :: "exec_env \<Rightarrow> executor \<Rightarrow> bool" where
  "wf_executor env s \<longleftrightarrow>
     driver_cache_ok env (e_objs s) (driverCache s) \<and> heap_ok env (e_objs s) \<and>
     (currExecTx s \<noteq> None \<longrightarrow> currDriver s < length (e_objs s)) \<and>
     (\<forall>l. e_local s = Some l \<longrightarrow> local_ok l)"

lemma driver_cache_ok_new: "driver_cache_ok env objs cache \<Longrightarrow> driver_cache_ok env (objs @ [ob]) cache"
  by (auto simp: driver_cache_ok_def nth_append dest: less_SucI)

lemma driver_cache_ok_upd:
  "driver_cache_ok env objs cache \<Longrightarrow> d < length objs \<Longrightarrow> registered_as env n (obj_driver (objs ! d)) \<Longrightarrow>
   driver_cache_ok env objs (cache(n \<mapsto> d))"
  by (auto simp: driver_cache_ok_def)

lemma driver_cache_ok_same:
  "driver_cache_ok env objs cache \<Longrightarrow> obj_driver ob = obj_driver (objs ! d) \<Longrightarrow> driver_cache_ok env (objs[d := ob]) cache"
  by (auto simp: driver_cache_ok_def nth_list_update split: if_splits) (metis nth_list_update_eq nth_list_update_neq)

lemma heap_ok_same:
  "heap_ok env objs \<Longrightarrow> d < length objs \<Longrightarrow> obj_driver ob = obj_driver (objs ! d) \<Longrightarrow> heap_ok env (objs[d := ob])"
  by (metis heap_ok_def in_set_conv_nth length_list_update nth_list_update)

lemma heap_ok_new: "heap_ok env objs \<Longrightarrow> registered_as env n (obj_driver ob) \<Longrightarrow> heap_ok env (objs @ [ob])"
  by (auto simp: heap_ok_def)

lemma registered_ok: "registry_ok env \<Longrightarrow> registered_as env n d \<Longrightarrow> driver_ok d"
  by (auto simp: registry_ok_def registered_as_def)

lemma LoadDriver_registered: "LoadDriver env name h = Inr d \<Longrightarrow> registered_as env name d"
  by (auto simp: LoadDriver_def registered_as_def split: option.splits prod.splits if_splits)

end
