(* ===== verification/Exec_Frame.thy ===== *)
theory Exec_Frame
  imports Exec_Logic
begin

text \<open>
  What the operations of the executor leave alone. \<open>Kept\<close>: the invariant holds and every key of
  the state reads as in a given state; \<open>Tracked\<close>: a transaction is open, and a key that reads
  otherwise is one of the keys the state has recorded.
\<close>

section \<open>States that read the same\<close>

definition same_state :: "state_env \<Rightarrow> StateDB \<Rightarrow> StateDB \<Rightarrow> bool" where
  "same_state E a b \<longleftrightarrow>
     s_intx b = s_intx a \<and> s_height b = s_height a \<and> s_keys b = s_keys a \<and>
     StateDB_view E b = StateDB_view E a \<and> StateDB_under E b = StateDB_under E a"

lemma same_state_refl [simp]: "same_state E a a"
  by (simp add: same_state_def)

lemma same_state_trans: "same_state E a b \<Longrightarrow> same_state E b c \<Longrightarrow> same_state E a c"
  by (simp add: same_state_def)

lemma Get_effect:
  "snd (StateDB_Get E s k) = s \<or>
   (\<exists>v. cacheDB_Get (s_cache s) k = None \<and> StoreGet E k = StoreValue (Some v) \<and> \<not> s_version s \<ge> 0 \<and>
        s_has_client s \<and> snd (StateDB_Get E s k) = s\<lparr>s_cache := cacheDB_Set (s_cache s) k (Some v)\<rparr>)"
  by (auto simp: StateDB_Get_def split: option.splits store_reply.splits)

lemma Get_same_state: "same_state E s (snd (StateDB_Get E s k))"
proof -
  have "same_state E s (s\<lparr>s_cache := cacheDB_Set (s_cache s) k (Some v)\<rparr>)"
    if "cacheDB_Get (s_cache s) k = None" "StoreGet E k = StoreValue (Some v)" "\<not> s_version s \<ge> 0" "s_has_client s" for v
  proof -
    have "fst (StateDB_Get E (s\<lparr>s_cache := cacheDB_Set (s_cache s) k (Some v)\<rparr>) j) = fst (StateDB_Get E s j)" for j
      using that by (cases "j = k") (auto simp: StateDB_Get_def stored_def split: option.splits store_reply.splits)
    moreover have "fst (StateDB_Get E (s\<lparr>s_cache := cacheDB_Set (s_cache s) k (Some v), s_intx := False\<rparr>) j) =
        fst (StateDB_Get E (s\<lparr>s_intx := False\<rparr>) j)" for j
      using that by (cases "j = k") (auto simp: StateDB_Get_def stored_def split: option.splits store_reply.splits)
    ultimately show ?thesis by (simp add: same_state_def StateDB_view_def StateDB_under_def fun_eq_iff)
  qed
  then show ?thesis using Get_effect [of E s k] by (metis same_state_refl)
qed

lemma run_state_reads: "reads_only ops \<Longrightarrow> same_state E s (run_state E s ops)"
proof (induction ops arbitrary: s)
  case (Cons x ops)
  then obtain k where x: "x = Read k" and ops: "reads_only ops" by (auto simp: reads_only_def)
  have "same_state E s (snd (StateDB_Get E s k))" by (rule Get_same_state)
  then show ?case using Cons.IH [OF ops] same_state_trans x by (fastforce simp: run_state_def)
qed (simp add: run_state_def)

definition tracked :: "state_env \<Rightarrow> StateDB \<Rightarrow> StateDB \<Rightarrow> bool" where
  "tracked E a b \<longleftrightarrow>
     s_intx b \<and> s_height b = s_height a \<and> StateDB_under E b = StateDB_under E a \<and>
     (\<forall>k. StateDB_view E b k \<noteq> StateDB_view E a k \<longrightarrow> k \<in> set (s_keys b))"

lemma Set_intx:
  assumes "s_intx s"
  shows "s_intx (StateDB_Set s k v)" "s_height (StateDB_Set s k v) = s_height s"
    "StateDB_under E (StateDB_Set s k v) = StateDB_under E s"
    "StateDB_view E (StateDB_Set s k v) = (StateDB_view E s)(k := stored v)"
    "s_keys (StateDB_Set s k v) = s_keys s @ [k]"
  using assms
  by (auto intro!: ext simp: StateDB_view_def StateDB_under_def StateDB_Set_def StateDB_Get_def
      split: option.splits store_reply.splits)

lemma run_state_tracked: "tracked E a s \<Longrightarrow> tracked E a (run_state E s ops)"
proof (induction ops arbitrary: s)
  case (Cons x ops)
  have "tracked E a (tx_run1 (\<lambda>s k. snd (StateDB_Get E s k)) StateDB_Set s x)"
  proof (cases x)
    case (Read k)
    with Cons.prems Get_same_state [of E s k] show ?thesis by (simp add: tracked_def same_state_def)
  next
    case (Write k v)
    with Cons.prems show ?thesis by (auto simp: tracked_def Set_intx)
  qed
  from Cons.IH [OF this] show ?case by (simp add: run_state_def)
qed (simp add: run_state_def)

lemma tracked_same: "tracked E a b \<Longrightarrow> same_state E b c \<Longrightarrow> tracked E a c"
  by (simp add: tracked_def same_state_def)

lemma same_tracked: "same_state E a b \<Longrightarrow> s_intx a \<Longrightarrow> tracked E a b"
  by (simp add: tracked_def same_state_def)

section \<open>The local database stays usable\<close>

lemma MemLocalDB_readOnly:
  "m_readOnly (snd (MemLocalDB_Get r k)) = m_readOnly r"
  "m_readOnly (MemLocalDB_Begin r) = m_readOnly r"
  "m_readOnly (MemLocalDB_Commit r) = m_readOnly r"
  "m_readOnly (MemLocalDB_Rollback r) = m_readOnly r"
  by (auto simp: MemLocalDB_defs split: option.splits)

lemma localSet_loop_ok:
  "\<not> m_readOnly r \<Longrightarrow> \<exists>r'. localSet_loop r kvs = Inr r' \<and> \<not> m_readOnly r'"
proof (induction kvs arbitrary: r)
  case (Cons kv kvs)
  obtain k v where kv: "kv = (k, v)" by (cases kv)
  obtain r1 where "MemLocalDB_Set r k v = Inr r1" "\<not> m_readOnly r1"
    using Cons.prems by (cases "m_intx r"; cases "m_cache r") (auto simp: MemLocalDB_Set_def Let_def)
  with Cons.IH [of r1] kv show ?case by simp
qed simp

lemma localGet_ok:
  assumes "\<not> m_readOnly r"
  obtains v r' where "localGet (Some r) k = Inr (v, r')" "\<not> m_readOnly r'"
proof (cases "MemLocalDB_Get r k")
  case (Pair a r')
  then have "\<not> m_readOnly r'" using MemLocalDB_readOnly(1) [of r k] assms by simp
  with Pair that show ?thesis by (cases a) (auto simp: localGet_def)
qed

lemma local_ok_Get: "local_ok l \<Longrightarrow> local_ok (snd (ExecLocalDB_Get l k))"
proof -
  assume "local_ok l"
  then obtain r where r: "x_remote l = Some r" "\<not> m_readOnly r" by (auto simp: local_ok_def)
  from localGet_ok [OF r(2)] obtain v r' where "localGet (Some r) k = Inr (v, r')" "\<not> m_readOnly r'" .
  with r show ?thesis by (auto simp: ExecLocalDB_Get_def local_ok_def split: option.splits)
qed

lemma local_ok_Set: "local_ok l \<Longrightarrow> local_ok (snd (ExecLocalDB_Set l k v))"
  by (auto simp: ExecLocalDB_Set_def local_ok_def Let_def)

lemma local_ok_simps [simp]:
  "local_ok (ExecLocalDB_Begin l) = local_ok l" "local_ok (ExecLocalDB_StartTx l) = local_ok l"
  "local_ok (DisableRead l) = local_ok l" "local_ok (DisableWrite l) = local_ok l"
  "local_ok (EnableRead l) = local_ok l" "local_ok (EnableWrite l) = local_ok l"
  by (simp_all add: local_ok_def ExecLocalDB_Begin_def ExecLocalDB_StartTx_def DisableRead_def DisableWrite_def
      EnableRead_def EnableWrite_def)

lemma local_ok_run: "local_ok l \<Longrightarrow> local_ok (run_local l ops)"
proof (induction ops arbitrary: l)
  case (Cons x ops)
  then show ?case by (cases x) (simp_all add: run_local_def local_ok_Get local_ok_Set)
qed (simp add: run_local_def)

lemma local_ok_save:
  assumes "local_ok l"
  shows "fst (ExecLocalDB_save l) = None" "local_ok (snd (ExecLocalDB_save l))"
proof -
  obtain r where r: "x_remote l = Some r" "\<not> m_readOnly r" using assms by (auto simp: local_ok_def)
  have b: "\<not> m_readOnly (MemLocalDB_Begin r)" using r MemLocalDB_readOnly by simp
  show "fst (ExecLocalDB_save l) = None" "local_ok (snd (ExecLocalDB_save l))"
    using r localSet_loop_ok [OF r(2), of "x_kvs l"] localSet_loop_ok [OF b, of "x_kvs l"]
    by (auto simp: ExecLocalDB_save_def ExecLocalDB_begin_def localBegin_def localSet_def local_ok_def)
qed

lemma local_ok_Commit:
  assumes "local_ok l"
  obtains l' where "ExecLocalDB_Commit l = (None, l')" "local_ok l'"
proof -
  let ?l = "l\<lparr>x_cache := cacheDB_Merge (x_cache l) (x_txcache l)\<rparr>"
  have "local_ok ?l" using assms by (simp add: local_ok_def)
  from local_ok_save [OF this] obtain l1 where s: "ExecLocalDB_save ?l = (None, l1)" and l1: "local_ok l1"
    by (cases "ExecLocalDB_save ?l") auto
  from l1 obtain r where r: "x_remote l1 = Some r" "\<not> m_readOnly r" by (auto simp: local_ok_def)
  then have "\<exists>l'. ExecLocalDB_Commit l = (None, l') \<and> local_ok l'"
    using s MemLocalDB_readOnly(3) [of r]
    by (auto simp: ExecLocalDB_Commit_def localCommit_def ExecLocalDB_resetTx_def local_ok_def)
  then show thesis using that by blast
qed

lemma local_ok_Rollback:
  assumes "local_ok l"
  obtains l' where "ExecLocalDB_Rollback l = Inr l'" "local_ok l'"
proof -
  obtain r where r: "x_remote l = Some r" "\<not> m_readOnly r" using assms by (auto simp: local_ok_def)
  then have "\<exists>l'. ExecLocalDB_Rollback l = Inr l' \<and> local_ok l'"
    using MemLocalDB_readOnly(4) [of r]
    by (auto simp: ExecLocalDB_Rollback_def localRollback_def ExecLocalDB_resetTx_def local_ok_def)
  then show thesis using that by blast
qed

section \<open>Operations that keep the state\<close>

definition Kept :: "exec_env \<Rightarrow> StateDB \<Rightarrow> executor \<Rightarrow> bool" where
  "Kept env sd s \<longleftrightarrow> wf_executor env s \<and> same_state (en_sdb env) sd (e_state s)"

definition keeps :: "exec_env \<Rightarrow> 'a exec \<Rightarrow> bool" where
  "keeps env m \<longleftrightarrow> (\<forall>sd. spec (Kept env sd) m (\<lambda>_. Kept env sd) (\<lambda>_. Kept env sd))"

named_theorems keeps_intro \<open>operations that keep the state\<close>

lemma keepsI: "(\<And>sd. spec (Kept env sd) m (\<lambda>_. Kept env sd) (\<lambda>_. Kept env sd)) \<Longrightarrow> keeps env m"
  by (simp add: keeps_def)

lemma keepsD: "keeps env m \<Longrightarrow> spec (Kept env sd) m (\<lambda>_. Kept env sd) (\<lambda>_. Kept env sd)"
  by (simp add: keeps_def)

lemma keeps_ret [keeps_intro]: "keeps env (ret a)"
  by (simp add: keeps_def spec_ret)

lemma keeps_fail [keeps_intro]: "keeps env (fail e)"
  by (simp add: keeps_def spec_fail)

lemma keeps_bind [keeps_intro]: "keeps env m \<Longrightarrow> (\<And>a. keeps env (f a)) \<Longrightarrow> keeps env (bind_ex m f)"
  unfolding keeps_def by (blast intro: spec_bind)

lemma keeps_try [keeps_intro]: "keeps env m \<Longrightarrow> (\<And>r. keeps env (f r)) \<Longrightarrow> keeps env (try_ex m f)"
  unfolding keeps_def by (blast intro: spec_try)

lemma keeps_recover [keeps_intro]: "keeps env m \<Longrightarrow> keeps env (recover_ex e m)"
  unfolding keeps_def by (blast intro: spec_recover)

lemma keeps_read [keeps_intro]: "keeps env (read_ex f)"
  by (simp add: keeps_def spec_read)

lemma keeps_with [keeps_intro]: "(\<And>ob. keeps env (f ob)) \<Longrightarrow> keeps env (with_driver d f)"
  unfolding keeps_def by (auto intro!: spec_with intro: spec_pre)

lemma keeps_check [keeps_intro]: "keeps env (check_ex e)"
  by (cases e) (simp_all add: check_ex_def keeps_ret keeps_fail)

lemma keeps_lift [keeps_intro]: "keeps env (lift_ex r)"
  by (cases r) (simp_all add: lift_ex_def keeps_ret keeps_fail)

lemma keeps_cases [keeps_intro]:
  "(b \<Longrightarrow> keeps env m) \<Longrightarrow> (\<not> b \<Longrightarrow> keeps env n) \<Longrightarrow> keeps env (if b then m else n)"
  "keeps env (f x) \<Longrightarrow> keeps env (let y = x in f y)"
  "(ob = None \<Longrightarrow> keeps env m) \<Longrightarrow> (\<And>a. ob = Some a \<Longrightarrow> keeps env (g a)) \<Longrightarrow>
     keeps env (case ob of None \<Rightarrow> m | Some a \<Rightarrow> g a)"
  "(\<And>e. r = Inl e \<Longrightarrow> keeps env (h e)) \<Longrightarrow> (\<And>a. r = Inr a \<Longrightarrow> keeps env (k a)) \<Longrightarrow>
     keeps env (case r of Inl e \<Rightarrow> h e | Inr a \<Rightarrow> k a)"
  "(\<And>a b. p = (a, b) \<Longrightarrow> keeps env (q a b)) \<Longrightarrow> keeps env (case p of (a, b) \<Rightarrow> q a b)"
  by (simp_all split: option.splits sum.splits prod.splits)

lemma keeps_update:
  "(\<And>s. wf_executor env s \<Longrightarrow> wf_executor env (f s) \<and> e_state (f s) = e_state s) \<Longrightarrow> keeps env (update_ex f)"
  unfolding keeps_def by (auto intro!: spec_update simp: Kept_def)

section \<open>Loading a driver\<close>

text \<open>A loaded driver is an object of the heap, registered for the name or the driver \<^verbatim>\<open>none\<close>.\<close>

definition loaded :: "exec_env \<Rightarrow> StateDB \<Rightarrow> nat \<Rightarrow> executor \<Rightarrow> bool" where
  "loaded env sd d s \<longleftrightarrow> Kept env sd s \<and> d < length (e_objs s)"

definition loaded_as :: "exec_env \<Rightarrow> StateDB \<Rightarrow> string \<Rightarrow> nat \<Rightarrow> executor \<Rightarrow> bool" where
  "loaded_as env sd n d s \<longleftrightarrow> loaded env sd d s \<and> registered_as env n (obj_driver (driver_at s d))"

definition loads_as :: "exec_env \<Rightarrow> string \<Rightarrow> nat exec \<Rightarrow> bool" where
  "loads_as env n m \<longleftrightarrow> (\<forall>sd. spec (Kept env sd) m (loaded_as env sd n) (\<lambda>_. Kept env sd))"

lemmas loaded_defs = loaded_as_def loaded_def Kept_def wf_executor_def driver_at_def

lemma registered_none: "registered_as env ''none'' d \<Longrightarrow> registered_as env n d"
  by (auto simp: registered_as_def)

lemma loaded_none: "loaded_as env sd ''none'' d s \<Longrightarrow> loaded_as env sd n d s"
  by (auto simp: loaded_as_def registered_none)

lemma new_driver_loads: "registered_as env n dr \<Longrightarrow> loads_as env n (new_driver_obj dr)"
  by (auto simp: loads_as_def spec_def new_driver_obj_def loaded_defs nth_append intro: driver_cache_ok_new heap_ok_new)

lemma cache_loads:
  "spec (loaded_as env sd n d) (cache_driver n d) (\<lambda>_. loaded_as env sd n d) E"
  unfolding cache_driver_def by (rule spec_update) (auto simp: loaded_defs intro: driver_cache_ok_upd)

lemma cache_none: "spec (loaded_as env sd ''none'' d) (cache_driver n d) (\<lambda>_. loaded_as env sd ''none'' d) E"
  unfolding cache_driver_def
  by (rule spec_update) (auto simp: loaded_defs intro: driver_cache_ok_upd registered_none)

lemma bind_cache_loads: "loads_as env n m \<Longrightarrow> loads_as env n (bind_ex m (\<lambda>d. bind_ex (cache_driver n d) (\<lambda>_. ret d)))"
  unfolding loads_as_def by (blast intro: spec_bind cache_loads spec_ret)

lemma loadNone_loads: "loads_as env ''none'' (loadNoneDriver env)"
  unfolding loads_as_def
proof (intro allI, rule spec_state)
  fix sd s0 assume k: "Kept env sd s0"
  have new: "loads_as env ''none'' (bind_ex (new_driver_obj d) (\<lambda>i. bind_ex (cache_driver ''none'' i) (\<lambda>_. ret i)))"
    if "LoadDriver env ''none'' 0 = Inr d" for d
    using that by (intro bind_cache_loads new_driver_loads LoadDriver_registered)
  then show "spec (\<lambda>s. s = s0) (loadNoneDriver env) (loaded_as env sd ''none'') (\<lambda>_. Kept env sd)"
    using k unfolding loads_as_def loadNoneDriver_def spec_def
    by (auto simp: loaded_defs driver_cache_ok_def split: option.splits sum.splits)
qed

lemma loads_as_none: "loads_as env ''none'' m \<Longrightarrow> loads_as env n m"
  unfolding loads_as_def by (blast intro: spec_post loaded_none)

lemma cached_driver_loads: "loads_as env n (cached_driver env n)"
  unfolding loads_as_def
proof (intro allI)
  fix sd
  have load: "loads_as env n (case LoadDriver env n (en_height env) of
      Inl e \<Rightarrow> loadNoneDriver env | Inr create \<Rightarrow> new_driver_obj create)"
    by (auto split: sum.splits intro: loads_as_none loadNone_loads new_driver_loads LoadDriver_registered)
  show "spec (Kept env sd) (cached_driver env n) (loaded_as env sd n) (\<lambda>_. Kept env sd)"
    using bind_cache_loads [OF load] unfolding loads_as_def cached_driver_def spec_def
    by (auto simp: loaded_defs driver_cache_ok_def split: option.splits)
qed

lemma SetNames_loads:
  "spec (loaded_as env sd n d) (SetNames d nm curname) (\<lambda>_. loaded_as env sd n d) E"
  unfolding SetNames_def
  by (rule spec_update) (auto simp: loaded_defs intro: driver_cache_ok_same heap_ok_same)

text \<open>\<^verbatim>\<open>loadDriver\<close> past its shortcut.\<close>

definition load_fresh :: "exec_env \<Rightarrow> transaction \<Rightarrow> txref \<Rightarrow> int \<Rightarrow> bool \<Rightarrow> nat exec" where
  "load_fresh env tx ref index ok =
     bind_ex (cached_driver env (Execer tx)) (\<lambda>d.
     bind_ex (read_ex (\<lambda>s. if \<not> ok \<or> en_fork env ''ForkCacheDriver''
                            then Allow (obj_driver (driver_at s d)) (en_height env) tx index else None)) (\<lambda>err.
     bind_ex (if err \<noteq> None then
                bind_ex (loadNoneDriver env) (\<lambda>none.
                bind_ex (if \<not> en_fork env ''ForkCacheDriver'' then cache_driver (Execer tx) none else ret ()) (\<lambda>_. ret none))
              else bind_ex (SetNames d (GetRealExecName (Execer tx)) (Execer tx)) (\<lambda>_. ret d)) (\<lambda>d1.
     bind_ex (update_ex (\<lambda>s. if \<not> same_tx (currExecTx s) ref \<and> currTxIdx s \<noteq> index
                               then s\<lparr>currExecTx := Some ref, currTxIdx := index, currDriver := d1\<rparr>
                               else s)) (\<lambda>_. ret d1))))"

lemma loadDriver_fresh:
  "loadDriver env tx ref index s =
     (if same_tx (currExecTx s) ref \<and> currTxIdx s = index then (Inr (currDriver s), s)
      else load_fresh env tx ref index (driverCache s (Execer tx) \<noteq> None) s)"
  by (simp only: loadDriver_def load_fresh_def Let_def not_not)

lemma load_fresh_loads: "loads_as env (Execer tx) (load_fresh env tx ref index ok)"
  unfolding loads_as_def
proof (intro allI)
  fix sd
  let ?n = "Execer tx"
  let ?L = "loaded_as env sd ?n"
  let ?E = "\<lambda>_::go_error. Kept env sd"
  let ?fork = "en_fork env ''ForkCacheDriver''"
  have none: "spec (?L d) (loadNoneDriver env) (loaded_as env sd ''none'') ?E" for d
    using loadNone_loads [of env] unfolding loads_as_def
    by (blast intro: spec_pre loaded_as_def [THEN iffD1, THEN conjunct1] loaded_def [THEN iffD1, THEN conjunct1])
  have other: "spec (?L d) (bind_ex (loadNoneDriver env) (\<lambda>none.
      bind_ex (if \<not> ?fork then cache_driver ?n none else ret ()) (\<lambda>_. ret none))) ?L ?E" for d
  proof (rule spec_bind [OF none])
    fix x
    show "spec (loaded_as env sd ''none'' x) (bind_ex (if \<not> ?fork then cache_driver ?n x else ret ()) (\<lambda>_. ret x)) ?L ?E"
      by (rule spec_bind [OF spec_if [OF cache_none spec_ret]]) (auto intro: spec_ret loaded_none)
  qed
  have own: "spec (?L d) (bind_ex (SetNames d nm ?n) (\<lambda>_. ret d)) ?L ?E" for d nm
    by (rule spec_bind [OF SetNames_loads]) (rule spec_ret)
  have bookkeeping: "spec (?L d) (bind_ex (update_ex (\<lambda>s. if \<not> same_tx (currExecTx s) ref \<and> currTxIdx s \<noteq> index
      then s\<lparr>currExecTx := Some ref, currTxIdx := index, currDriver := d\<rparr> else s)) (\<lambda>_. ret d)) ?L ?E" for d
    by (rule spec_bind [where R = "\<lambda>_. ?L d"]) (auto intro!: spec_update spec_ret simp: loaded_defs)
  have allow: "spec (?L d) (read_ex g) (\<lambda>_. ?L d) ?E" for d and g :: "executor \<Rightarrow> go_error option"
    by (rule spec_read)
  have cached: "spec (Kept env sd) (cached_driver env ?n) ?L ?E"
    using cached_driver_loads by (simp add: loads_as_def)
  show "spec (Kept env sd) (load_fresh env tx ref index ok) ?L ?E"
    unfolding load_fresh_def
    by (intro spec_bind [OF cached] spec_bind [OF allow] spec_bind [OF spec_if [OF other own]] bookkeeping)
qed

lemma loadDriver_loads: "spec (Kept env sd) (loadDriver env tx ref index) (loaded env sd) (\<lambda>_. Kept env sd)"
proof -
  have "spec (Kept env sd) (load_fresh env tx ref index ok) (loaded env sd) (\<lambda>_. Kept env sd)" for ok
    using load_fresh_loads [of env tx ref index ok] unfolding loads_as_def
    by (blast intro: spec_post loaded_as_def [THEN iffD1, THEN conjunct1])
  then show ?thesis
    by (auto simp: spec_def loadDriver_fresh loaded_defs same_tx_def)
qed

text \<open>For a transaction made on the spot there is no shortcut.\<close>

lemma loadDriver_loads_as:
  "spec (Kept env sd) (loadDriver env tx FreshTx index) (loaded_as env sd (Execer tx)) (\<lambda>_. Kept env sd)"
  using load_fresh_loads [of env tx FreshTx index] unfolding loads_as_def
  by (auto simp: spec_def loadDriver_fresh same_tx_def)

end
