(* ===== verification/Exec_Runs.thy ===== *)
theory Exec_Runs
  imports Exec_Frame
begin

text \<open>
  The state of the block across the parts of a transaction: outside a transaction of the
  databases (\<open>Idle\<close>), inside one (\<open>Open\<close>), and inside one after the contract has run
  (\<open>Opened\<close>: what changed is recorded).
\<close>

section \<open>Operations that only panic\<close>

definition panics_only :: "'a exec \<Rightarrow> bool" where
  "panics_only m \<longleftrightarrow> (\<forall>s e s1. m s = (Inl e, s1) \<longrightarrow> e = GoPanic)"

named_theorems panics_intro \<open>operations that return no error\<close>

lemma panics_rules [panics_intro]:
  "panics_only (ret a)" "panics_only (fail GoPanic)" "panics_only (update_ex f)" "panics_only (read_ex g)"
  by (simp_all add: panics_only_def ret_def fail_def update_ex_def read_ex_def)

lemma panics_bind [panics_intro]: "panics_only m \<Longrightarrow> (\<And>a. panics_only (f a)) \<Longrightarrow> panics_only (bind_ex m f)"
  by (fastforce simp: panics_only_def bind_ex_def split: prod.splits sum.splits)

lemma panics_try [panics_intro]: "(\<And>r. panics_only (f r)) \<Longrightarrow> panics_only (try_ex m f)"
  by (fastforce simp: panics_only_def try_ex_def split: prod.splits if_splits)

lemma panics_with [panics_intro]: "(\<And>ob. panics_only (f ob)) \<Longrightarrow> panics_only (with_driver d f)"
  by (simp add: panics_only_def with_driver_def)

lemma panics_cases [panics_intro]:
  "(b \<Longrightarrow> panics_only m) \<Longrightarrow> (\<not> b \<Longrightarrow> panics_only n) \<Longrightarrow> panics_only (if b then m else n)"
  "panics_only (f x) \<Longrightarrow> panics_only (let y = x in f y)"
  "(ob = None \<Longrightarrow> panics_only m) \<Longrightarrow> (\<And>a. ob = Some a \<Longrightarrow> panics_only (g a)) \<Longrightarrow>
     panics_only (case ob of None \<Rightarrow> m | Some a \<Rightarrow> g a)"
  "(\<And>e. r = Inl e \<Longrightarrow> panics_only (h e)) \<Longrightarrow> (\<And>a. r = Inr a \<Longrightarrow> panics_only (k a)) \<Longrightarrow>
     panics_only (case r of Inl e \<Rightarrow> h e | Inr a \<Rightarrow> k a)"
  "(\<And>a b. p = (a, b) \<Longrightarrow> panics_only (q a b)) \<Longrightarrow> panics_only (case p of (a, b) \<Rightarrow> q a b)"
  by (simp_all split: option.splits sum.splits prod.splits)

lemma panics_state:
  "(\<And>s. panics_only (m s)) \<Longrightarrow> panics_only (\<lambda>s. if b s then (Inr (c s), s) else m s s)"
  by (simp add: panics_only_def)

lemma panics_option_state:
  "panics_only m \<Longrightarrow> panics_only (\<lambda>s. case c s of Some d \<Rightarrow> (Inr d, s) | None \<Rightarrow> m s)"
  by (auto simp: panics_only_def split: option.splits)

lemma panics_objs [panics_intro]:
  "panics_only (new_driver_obj dr)" "panics_only (cache_driver n d)" "panics_only (SetNames d n c)"
  by (simp_all add: panics_only_def new_driver_obj_def cache_driver_def SetNames_def update_ex_def)

lemma panics_none [panics_intro]: "panics_only (loadNoneDriver env)"
proof -
  have "panics_only (\<lambda>s. case LoadDriver env ''none'' 0 of
      Inl e \<Rightarrow> (Inl GoPanic, s)
    | Inr none \<Rightarrow> bind_ex (new_driver_obj none) (\<lambda>d. bind_ex (cache_driver ''none'' d) (\<lambda>_. ret d)) s)"
  proof (cases "LoadDriver env ''none'' 0")
    case (Inr d)
    have "panics_only (bind_ex (new_driver_obj d) (\<lambda>d. bind_ex (cache_driver ''none'' d) (\<lambda>_. ret d)))"
      by (intro panics_intro)
    with Inr show ?thesis by simp
  qed (simp add: panics_only_def)
  then show ?thesis unfolding loadNoneDriver_def by (rule panics_option_state)
qed

lemma panics_loadDriver [panics_intro]: "panics_only (loadDriver env tx ref i)"
proof -
  have "panics_only (cached_driver env n)" for n
    unfolding cached_driver_def by (intro panics_option_state panics_intro)
  then show ?thesis
    unfolding loadDriver_def Let_def by (intro panics_state panics_intro)
qed

lemma panics_lift [panics_intro]: "(\<And>e. r = Inl e \<Longrightarrow> e = GoPanic) \<Longrightarrow> panics_only (lift_ex r)"
  by (cases r) (simp_all add: lift_ex_def panics_only_def ret_def fail_def)

lemma ExecAddress_panics: "ExecAddress env name = Inl e \<Longrightarrow> e = GoPanic"
  by (auto simp: ExecAddress_def ExecPubKey_def split: option.splits sum.splits if_splits)

lemma panics_isAllowExec [panics_intro]: "panics_only (isAllowExec env key tx ref i)"
  unfolding isAllowExec_def getRealExecName_def isAllowKeyWrite_def is_exec_addr_def
  by (intro panics_intro) (auto dest: ExecAddress_panics)

lemma panics_checkKeyAllow [panics_intro]: "panics_only (checkKeyAllow env feelog tx ref i kvs)"
  by (induction kvs) (auto intro!: panics_intro)

lemma panics_set_all [panics_intro]: "panics_only (state_set_all kvs)"
  by (induction kvs) (auto intro!: panics_intro simp: state_set_def)

lemma panics_execTxOne [panics_intro]: "panics_only (execTxOne env feelog tx ref i)"
  unfolding execTxOne_def startTx_def finish_tx_def by (intro panics_intro)

section \<open>Writing receipts\<close>

definition apply_kvs ::
  "(string \<times> gobytes) list \<Rightarrow> (string \<Rightarrow> go_error + bytes) \<Rightarrow> string \<Rightarrow> go_error + bytes" where
  "apply_kvs kvs V = foldl (\<lambda>V (k, v). V(k := stored v)) V kvs"

lemma apply_kvs_simps [simp]:
  "apply_kvs [] V = V" "apply_kvs ((k, v) # kvs) V = apply_kvs kvs (V(k := stored v))"
  "apply_kvs (kvs @ kvs') V = apply_kvs kvs' (apply_kvs kvs V)"
  by (simp_all add: apply_kvs_def)

text \<open>A key takes its last value of the list, whatever the map was.\<close>

lemma apply_kvs_cases:
  "(k \<notin> fst ` set kvs \<longrightarrow> apply_kvs kvs V k = V k) \<and> (k \<in> fst ` set kvs \<longrightarrow> apply_kvs kvs V k = apply_kvs kvs W k)"
proof (induction kvs arbitrary: V W)
  case (Cons kv kvs)
  obtain j v where kv: "kv = (j, v)" by (cases kv)
  show ?case
  proof (cases "k \<in> fst ` set kvs")
    case True
    with Cons.IH [of "V(j := stored v)" "W(j := stored v)"] kv show ?thesis by (auto simp: fun_upd_def)
  next
    case False
    with Cons.IH [of "V(j := stored v)" "V(j := stored v)"] Cons.IH [of "W(j := stored v)" "W(j := stored v)"] kv
    show ?thesis by (auto simp: fun_upd_def)
  qed
qed simp

lemma apply_kvs_other: "k \<notin> fst ` set kvs \<Longrightarrow> apply_kvs kvs V k = V k"
  using apply_kvs_cases by blast

lemma apply_kvs_last: "k \<in> fst ` set kvs \<Longrightarrow> apply_kvs kvs V k = apply_kvs kvs W k"
  using apply_kvs_cases by blast

lemma apply_kvs_twice: "apply_kvs kvs (apply_kvs kvs V) = apply_kvs kvs V"
  using apply_kvs_cases by (metis (no_types, opaque_lifting) ext)

lemma apply_kvs_cover:
  assumes "\<And>k. V' k \<noteq> V k \<Longrightarrow> k \<in> fst ` set kvs"
  shows "apply_kvs kvs V' = apply_kvs kvs V"
proof
  fix k
  show "apply_kvs kvs V' k = apply_kvs kvs V k"
  proof (cases "k \<in> fst ` set kvs")
    case True
    then show ?thesis by (rule apply_kvs_last)
  next
    case False
    then have "V' k = V k" using assms by blast
    with False show ?thesis by (simp add: apply_kvs_other)
  qed
qed

section \<open>States of a run\<close>

definition Idle :: "exec_env \<Rightarrow> (string \<Rightarrow> go_error + bytes) \<Rightarrow> executor \<Rightarrow> bool" where
  "Idle env V s \<longleftrightarrow> wf_executor env s \<and> \<not> s_intx (e_state s) \<and> s_height (e_state s) = en_height env \<and>
     StateDB_view (en_sdb env) (e_state s) = V"

definition Opened ::
  "exec_env \<Rightarrow> (string \<Rightarrow> go_error + bytes) \<Rightarrow> (string \<Rightarrow> go_error + bytes) \<Rightarrow> executor \<Rightarrow> bool" where
  "Opened env V U s \<longleftrightarrow> wf_executor env s \<and> s_intx (e_state s) \<and> s_height (e_state s) = en_height env \<and>
     StateDB_under (en_sdb env) (e_state s) = U \<and>
     (\<forall>k. StateDB_view (en_sdb env) (e_state s) k \<noteq> V k \<longrightarrow> k \<in> set (s_keys (e_state s)))"

definition Open ::
  "exec_env \<Rightarrow> (string \<Rightarrow> go_error + bytes) \<Rightarrow> (string \<Rightarrow> go_error + bytes) \<Rightarrow> executor \<Rightarrow> bool" where
  "Open env V U s \<longleftrightarrow> wf_executor env s \<and> s_intx (e_state s) \<and> s_height (e_state s) = en_height env \<and>
     StateDB_under (en_sdb env) (e_state s) = U \<and> StateDB_view (en_sdb env) (e_state s) = V"

lemma Open_Opened: "Open env V U s \<Longrightarrow> Opened env V U s"
  by (simp add: Open_def Opened_def)

lemma Opened_Open: "Opened env V U s \<Longrightarrow> Open env (StateDB_view (en_sdb env) (e_state s)) U s"
  by (simp add: Open_def Opened_def)

lemma keeps_pred:
  assumes "keeps env m" "\<And>s sd. P s \<Longrightarrow> wf_executor env s"
    "\<And>s s1. P s \<Longrightarrow> Kept env (e_state s) s1 \<Longrightarrow> P s1"
  shows "spec P m (\<lambda>_. P) (\<lambda>_. P)"
proof (rule spec_state)
  fix s0 assume "P s0"
  then have "Kept env (e_state s0) s0" using assms(2) by (simp add: Kept_def)
  then show "spec (\<lambda>s. s = s0) m (\<lambda>_. P) (\<lambda>_. P)"
    using keepsD [OF assms(1), of "e_state s0"] assms(3) [OF \<open>P s0\<close>]
    by (auto elim!: spec_conseq)
qed

lemma keeps_Idle: "keeps env m \<Longrightarrow> spec (Idle env V) m (\<lambda>_. Idle env V) (\<lambda>_. Idle env V)"
  by (rule keeps_pred) (auto simp: Idle_def Kept_def same_state_def)

lemma keeps_Open: "keeps env m \<Longrightarrow> spec (Open env V U) m (\<lambda>_. Open env V U) (\<lambda>_. Open env V U)"
  by (rule keeps_pred) (auto simp: Open_def Kept_def same_state_def)

lemma keeps_Opened: "keeps env m \<Longrightarrow> spec (Opened env V U) m (\<lambda>_. Opened env V U) (\<lambda>_. Opened env V U)"
  by (rule keeps_pred) (auto simp: Opened_def Kept_def same_state_def)

section \<open>Steps of a run\<close>

lemma keeps_load [keeps_intro]: "keeps env (loadDriver env tx ref i)"
  unfolding keeps_def by (blast intro: spec_post [OF loadDriver_loads] loaded_def [THEN iffD1, THEN conjunct1])

lemma keeps_isAllowExec [keeps_intro]:
  "keeps env (isAllowExec env key tx ref i)" "keeps env (isAllowKeyWrite env key e tx i)"
  "keeps env (getRealExecName env tx ref i)"
  unfolding isAllowExec_def getRealExecName_def isAllowKeyWrite_def is_exec_addr_def
  by (intro keeps_intro)+

lemma keeps_checkKeyAllow [keeps_intro]:
  "keeps env (checkKeyAllow env feelog tx ref i kvs)"
  by (induction kvs) (auto intro!: keeps_intro)

lemma keeps_sameTime [keeps_intro]:
  "keeps env (isExecLocalSameTime env tx ref i)"
  unfolding isExecLocalSameTime_def by (intro keeps_intro)

lemma keeps_state_get [keeps_intro]: "keeps env (state_get env k)"
proof (rule keepsI)
  fix sd
  show "spec (Kept env sd) (state_get env k) (\<lambda>_. Kept env sd) (\<lambda>_. Kept env sd)"
  proof (rule spec_state)
    fix s assume k: "Kept env sd s"
    have "Kept env sd (s\<lparr>e_state := snd (StateDB_Get (en_sdb env) (e_state s) k)\<rparr>)"
      using k same_state_trans [OF _ Get_same_state] by (simp add: Kept_def wf_executor_def)
    then show "spec (\<lambda>x. x = s) (state_get env k) (\<lambda>_. Kept env sd) (\<lambda>_. Kept env sd)"
      by (auto simp: spec_def state_get_def split: prod.splits sum.splits)
  qed
qed

lemma keeps_LoadAccount [keeps_intro]: "keeps env (coins_LoadAccount env addr)"
  unfolding coins_LoadAccount_def by (intro keeps_intro)

text \<open>A call of a driver, by what it wrote to the state.\<close>

lemma call_driver_wf:
  "wf_executor env s \<Longrightarrow> wf_executor env (snd (call_driver env f s))"
  by (auto simp: wf_executor_def call_driver_def Let_def local_ok_run)

lemma call_driver_reads:
  assumes "\<And>sv lv. reads_only (out_state (f sv lv))"
  shows "keeps env (call_driver env f)"
proof (rule keepsI)
  fix sd
  show "spec (Kept env sd) (call_driver env f) (\<lambda>_. Kept env sd) (\<lambda>_. Kept env sd)"
  proof (rule spec_state)
    fix s assume k: "Kept env sd s"
    have "same_state (en_sdb env) (e_state s) (e_state (snd (call_driver env f s)))"
      using run_state_reads [OF assms] by (simp add: call_driver_def Let_def)
    then have "Kept env sd (snd (call_driver env f s))"
      using k call_driver_wf same_state_trans unfolding Kept_def by blast
    then show "spec (\<lambda>x. x = s) (call_driver env f) (\<lambda>_. Kept env sd) (\<lambda>_. Kept env sd)"
      by (auto simp: spec_def split: prod.splits sum.splits)
  qed
qed

lemma call_driver_opened:
  "spec (Opened env V U) (call_driver env f) (\<lambda>_. Opened env V U) (\<lambda>_. Opened env V U)"
proof (rule spec_state)
  fix s assume o: "Opened env V U s"
  let ?s = "snd (call_driver env f s)"
  have "tracked (en_sdb env) (e_state s) (run_state (en_sdb env) (e_state s) ops)" for ops
    using o by (intro run_state_tracked) (simp add: tracked_def Opened_def)
  then have t: "tracked (en_sdb env) (e_state s) (e_state ?s)"
    by (simp add: call_driver_def Let_def)
  have keys: "set (s_keys a) \<subseteq> set (s_keys (run_state (en_sdb env) a ops))" if "s_intx a" for a ops
    using that
  proof (induction ops arbitrary: a)
    case (Cons x ops)
    let ?a = "tx_run1 (\<lambda>s k. snd (StateDB_Get (en_sdb env) s k)) StateDB_Set a x"
    have "set (s_keys a) \<subseteq> set (s_keys ?a) \<and> s_intx ?a"
      using Cons.prems Get_same_state [of "en_sdb env" a] by (cases x) (auto simp: same_state_def Set_intx)
    with Cons.IH [of ?a] show ?case by (auto simp: run_state_def)
  qed (simp add: run_state_def)
  have "set (s_keys (e_state s)) \<subseteq> set (s_keys (e_state ?s))"
    using o keys by (simp add: call_driver_def Let_def Opened_def)
  with t o call_driver_wf [of env s f] have "Opened env V U ?s"
    unfolding Opened_def tracked_def by (metis subsetD)
  then show "spec (\<lambda>x. x = s) (call_driver env f) (\<lambda>_. Opened env V U) (\<lambda>_. Opened env V U)"
    by (auto simp: spec_def split: prod.splits sum.splits)
qed

text \<open>The object a driver call finds in the heap satisfies the contract.\<close>

lemma with_loaded:
  assumes "registry_ok env" "\<And>ob. driver_ok (obj_driver ob) \<Longrightarrow> keeps env (f ob)"
  shows "spec (loaded env sd d) (with_driver d f) (\<lambda>_. Kept env sd) (\<lambda>_. Kept env sd)"
proof (rule spec_with)
  fix ob
  show "spec (\<lambda>s. loaded env sd d s \<and> driver_at s d = ob) (f ob) (\<lambda>_. Kept env sd) (\<lambda>_. Kept env sd)"
  proof (rule spec_state)
    fix s assume k: "loaded env sd d s \<and> driver_at s d = ob"
    then have "ob \<in> set (e_objs s)" by (auto simp: driver_at_def loaded_def)
    with k have "\<exists>n. registered_as env n (obj_driver ob)" by (simp add: loaded_def Kept_def wf_executor_def heap_ok_def)
    then have "driver_ok (obj_driver ob)" using registered_ok [OF assms(1)] by blast
    then have "spec (Kept env sd) (f ob) (\<lambda>_. Kept env sd) (\<lambda>_. Kept env sd)"
      by (intro keepsD assms)
    then show "spec (\<lambda>x. x = s) (f ob) (\<lambda>_. Kept env sd) (\<lambda>_. Kept env sd)"
      by (rule spec_pre) (use k in \<open>simp add: loaded_def\<close>)
  qed
qed

lemma keeps_load_with:
  assumes "registry_ok env" "\<And>ob. driver_ok (obj_driver ob) \<Longrightarrow> keeps env (f ob)"
  shows "keeps env (bind_ex (loadDriver env tx ref i) (\<lambda>d. with_driver d f))"
  by (rule keepsI) (rule spec_bind [OF loadDriver_loads with_loaded [OF assms]])

lemma keeps_execLocal [keeps_intro]:
  "registry_ok env \<Longrightarrow> keeps env (execLocal env tx r ref i)"
  unfolding execLocal_def
  by (rule keeps_load_with) (auto intro!: call_driver_reads simp: driver_ok_def)

lemma keeps_local [keeps_intro]:
  "keeps env local_keys" "keeps env (local_set1 kv)" "keeps env (local_set_all kvs)" "keeps env (checkPrefix e kvs)"
proof -
  show "keeps env local_keys"
    by (rule keepsI) (auto simp: spec_def local_keys_def split: option.splits)
  show set1: "keeps env (local_set1 kv)" for kv
  proof (rule keepsI)
    fix sd show "spec (Kept env sd) (local_set1 kv) (\<lambda>_. Kept env sd) (\<lambda>_. Kept env sd)"
      using local_ok_Set [of _ "fst kv" "snd kv"]
      by (fastforce simp: spec_def local_set1_def Kept_def wf_executor_def split: option.splits prod.splits)
  qed
  show "keeps env (local_set_all kvs)" by (induction kvs) (auto intro!: keeps_intro set1)
  show "keeps env (checkPrefix e kvs)" by (induction e kvs rule: checkPrefix.induct) (auto intro!: keeps_intro)
qed

lemma keeps_execLocalSameTime [keeps_intro]:
  "registry_ok env \<Longrightarrow> keeps env (execLocalSameTime env tx rc ref i)"
  unfolding execLocalSameTime_def execLocalTx_def by (intro keeps_intro)

end
