(* ===== verification/Exec_Permission.thy ===== *)
theory Exec_Permission
  imports Exec_Runs
begin

text \<open>
  Which keys of the state a transaction may write: the policy \<open>may_write\<close>, stated without the
  driver cache, and that \<^verbatim>\<open>isAllowExec\<close> and \<^verbatim>\<open>checkKeyAllow\<close> enforce it whatever the
  cache holds. A fee goes to an account of the coins contract.
\<close>

section \<open>The policy\<close>

text \<open>A contract registered as \<open>e\<close>, or the driver \<^verbatim>\<open>none\<close>, lets the transaction write.\<close>

definition friend_allows :: "exec_env \<Rightarrow> string \<Rightarrow> string \<Rightarrow> transaction \<Rightarrow> bool" where
  "friend_allows env e key tx \<longleftrightarrow>
     (\<exists>ob. registered_as env e (obj_driver ob) \<and> IsFriend (obj_driver ob) (setEnv env ob) e key tx)"

text \<open>The key holds the account a contract keeps under its own address, \<^verbatim>\<open>mavl-c-s-exec-addr:\<close>...\<close>

definition own_account_key :: "exec_env \<Rightarrow> string \<Rightarrow> string \<Rightarrow> bool" where
  "own_account_key env name key \<longleftrightarrow> (\<exists>a. GetExecKey key = Some a \<and> ExecAddress env name = Inr a)"

definition legacy_key :: "exec_env \<Rightarrow> transaction \<Rightarrow> string \<Rightarrow> string \<Rightarrow> bool" where
  "legacy_key env tx ke key \<longleftrightarrow> \<not> en_fork env ''ForkExecKey'' \<and>
     (GetParaExec (en_cfg env) (Execer tx) = ''manage'' \<and> ke = ''config'' \<or>
      GetParaExec (en_cfg env) (Execer tx) = ''token'' \<and> take 18 key = ''mavl-create-token-'')"

definition may_write :: "exec_env \<Rightarrow> transaction \<Rightarrow> string \<Rightarrow> bool" where
  "may_write env tx key \<longleftrightarrow>
     (\<exists>ke. FindExecer key = Inr ke \<and>
        (ke = GetParaExec (en_cfg env) (Execer tx) \<or> legacy_key env tx ke key \<or>
         own_account_key env (Execer tx) key \<or>
         (\<exists>e. (e = ke \<or> own_account_key env e key) \<and> friend_allows env e key tx)))"

definition may_write_all :: "exec_env \<Rightarrow> transaction \<Rightarrow> (string \<times> gobytes) list \<Rightarrow> bool" where
  "may_write_all env tx kvs \<longleftrightarrow> (\<forall>k \<in> fst ` set kvs. may_write env tx k)"

definition fee_key :: "exec_env \<Rightarrow> string \<Rightarrow> bool" where
  "fee_key env key \<longleftrightarrow> (\<exists>addr. key = AccountKey (en_acc env) (coinsAccount env) addr)"

definition fee_keys :: "exec_env \<Rightarrow> (string \<times> gobytes) list \<Rightarrow> bool" where
  "fee_keys env kvs \<longleftrightarrow> (\<forall>k \<in> fst ` set kvs. fee_key env k)"

text \<open>The transactions a transaction of a block stands for: itself, or the one it is a proxy of.\<close>

definition stands_for :: "exec_env \<Rightarrow> transaction \<Rightarrow> transaction \<Rightarrow> bool" where
  "stands_for env tx t \<longleftrightarrow> t = tx \<or> proxyExecTx env tx = Inr t"

definition allowed_keys :: "exec_env \<Rightarrow> transaction set \<Rightarrow> (string \<times> gobytes) list \<Rightarrow> bool" where
  "allowed_keys env T kvs \<longleftrightarrow>
     (\<forall>k \<in> fst ` set kvs. fee_key env k \<or> (\<exists>tx \<in> T. \<exists>t. stands_for env tx t \<and> may_write env t k))"

lemma allowed_keys_simps [simp]:
  "allowed_keys env T []" "allowed_keys env T (kvs @ kvs') \<longleftrightarrow> allowed_keys env T kvs \<and> allowed_keys env T kvs'"
  by (auto simp: allowed_keys_def)

lemma fee_keys_allowed: "fee_keys env kvs \<Longrightarrow> allowed_keys env T kvs"
  by (simp add: fee_keys_def allowed_keys_def)

lemma may_write_allowed:
  "may_write_all env t kvs \<Longrightarrow> tx \<in> T \<Longrightarrow> stands_for env tx t \<Longrightarrow> allowed_keys env T kvs"
  by (auto simp: may_write_all_def allowed_keys_def)

section \<open>The executor enforces it\<close>

lemma is_exec_addr_spec:
  "spec P (is_exec_addr env (GetExecKey key) name) (\<lambda>own s. P s \<and> (own \<longrightarrow> own_account_key env name key)) (\<lambda>_ _. True)"
  unfolding is_exec_addr_def own_account_key_def
  by (intro spec_option spec_ret spec_bind [OF spec_lift [where Q = "\<lambda>addr s. P s \<and> ExecAddress env name = Inr addr"]]) auto

lemma friend_spec:
  "spec (Kept env sd)
     (bind_ex (loadDriver env (blank_tx e) FreshTx index) (\<lambda>c. with_driver c (\<lambda>ob.
        ret (IsFriend (obj_driver ob) (setEnv env ob) e key tx))))
     (\<lambda>ok _. ok \<longrightarrow> friend_allows env e key tx) (\<lambda>_ _. True)"
proof -
  have l: "spec (Kept env sd) (loadDriver env (blank_tx e) FreshTx index) (loaded_as env sd e) (\<lambda>_ _. True)"
    by (rule spec_conseq [OF loadDriver_loads_as]) (simp_all add: blank_tx_def)
  show ?thesis
    by (rule spec_bind [OF l]) (auto intro!: spec_with spec_ret simp: friend_allows_def loaded_as_def)
qed

lemma isAllowKeyWrite_spec:
  "spec (Kept env sd) (isAllowKeyWrite env key realExecer tx index) (\<lambda>ok _. ok \<longrightarrow> may_write env tx key) (\<lambda>_ _. True)"
proof (cases "FindExecer key")
  case (Inl e)
  then show ?thesis by (auto simp: isAllowKeyWrite_def intro: spec_ret)
next
  case (Inr ke)
  have last: "spec (\<lambda>s. Kept env sd s \<and> (real \<longrightarrow> own_account_key env realExecer key))
      (let execdriver = if real then realExecer else ke
       in bind_ex (loadDriver env (blank_tx execdriver) FreshTx index) (\<lambda>c. with_driver c (\<lambda>ob.
            ret (IsFriend (obj_driver ob) (setEnv env ob) execdriver key tx))))
      (\<lambda>ok _. ok \<longrightarrow> may_write env tx key) (\<lambda>_ _. True)" for real
    unfolding Let_def
    by (rule spec_state, rule spec_on, assumption, rule spec_conseq [OF friend_spec [of env sd]])
      (auto simp: may_write_def Inr split: if_splits)
  have second: "spec (Kept env sd) (bind_ex (is_exec_addr env (GetExecKey key) realExecer) (\<lambda>real.
       let execdriver = if real then realExecer else ke
       in bind_ex (loadDriver env (blank_tx execdriver) FreshTx index) (\<lambda>c. with_driver c (\<lambda>ob.
            ret (IsFriend (obj_driver ob) (setEnv env ob) execdriver key tx)))))
      (\<lambda>ok _. ok \<longrightarrow> may_write env tx key) (\<lambda>_ _. True)"
    by (rule spec_bind [OF is_exec_addr_spec [where P = "Kept env sd"]], rule last)
  have first: "spec (\<lambda>s. Kept env sd s \<and> (own \<longrightarrow> own_account_key env (Execer tx) key)) (if own then ret True else m)
      (\<lambda>ok _. ok \<longrightarrow> may_write env tx key) (\<lambda>_ _. True)"
    if "spec (Kept env sd) m (\<lambda>ok _. ok \<longrightarrow> may_write env tx key) (\<lambda>_ _. True)" for own m
    using that by (cases own) (auto intro: spec_ret simp: may_write_def Inr)
  show ?thesis
    unfolding isAllowKeyWrite_def Inr sum.case Let_def [where s = "GetParaExec (en_cfg env) (Execer tx)"]
      Let_def [where s = "GetExecKey key"]
  proof (intro spec_if spec_ret)
    show "spec (Kept env sd)
       (bind_ex (is_exec_addr env (GetExecKey key) (Execer tx)) (\<lambda>own.
          if own then ret True
          else bind_ex (is_exec_addr env (GetExecKey key) realExecer) (\<lambda>real.
            let execdriver = if real then realExecer else ke
            in bind_ex (loadDriver env (blank_tx execdriver) FreshTx index) (\<lambda>c. with_driver c (\<lambda>ob.
                 ret (IsFriend (obj_driver ob) (setEnv env ob) execdriver key tx))))))
       (\<lambda>ok _. ok \<longrightarrow> may_write env tx key) (\<lambda>_ _. True)"
      by (rule spec_bind [OF is_exec_addr_spec [where P = "Kept env sd"]], rule first, rule second)
  qed (auto simp: may_write_def legacy_key_def Inr)
qed

lemma isAllowExec_spec:
  "spec (Kept env sd) (isAllowExec env key tx ref index) (\<lambda>ok s. Kept env sd s \<and> (ok \<longrightarrow> may_write env tx key)) (\<lambda>_ _. True)"
proof -
  have "spec (Kept env sd) (isAllowExec env key tx ref index) (\<lambda>ok _. ok \<longrightarrow> may_write env tx key) (\<lambda>_ _. True)"
    unfolding isAllowExec_def
    by (rule spec_bind [where R = "\<lambda>_. Kept env sd"], rule spec_conseq [OF keepsD [OF keeps_isAllowExec(3)]])
      (simp_all add: isAllowKeyWrite_spec)
  from spec_conj [OF this keepsD [OF keeps_isAllowExec(1)]] show ?thesis
    by (rule spec_conseq) auto
qed

text \<open>A receipt that passes has only keys the transaction may write, and keeps the fee's log.\<close>

lemma checkKeyAllow_spec:
  "spec (Kept env sd) (checkKeyAllow env feelog tx ref index kvs)
     (\<lambda>fd s. Kept env sd s \<and> rc_KV (fst fd) = rc_KV feelog \<and>
        (snd fd = None \<longrightarrow> fst fd = feelog \<and> (\<forall>k \<in> fst ` set kvs. may_write env tx k))) (\<lambda>_ _. True)"
proof (induction kvs)
  case (Cons kv kvs)
  obtain k v where kv: "kv = (k, v)" by (cases kv)
  let ?Q = "\<lambda>fd s. Kept env sd s \<and> rc_KV (fst fd) = rc_KV feelog \<and>
        (snd fd = None \<longrightarrow> fst fd = feelog \<and> (\<forall>k \<in> fst ` set (kv # kvs). may_write env tx k))"
  have "spec (\<lambda>s. Kept env sd s \<and> (ok \<longrightarrow> may_write env tx k))
     (if \<not> ok then ret (add_errlog env feelog ErrNotAllowKey, Some ErrNotAllowKey)
      else checkKeyAllow env feelog tx ref index kvs) ?Q (\<lambda>_ _. True)" for ok
  proof (cases ok)
    case True
    show ?thesis
    proof (cases "may_write env tx k")
      case True
      with \<open>ok\<close> show ?thesis by (auto intro: spec_conseq [OF Cons.IH] simp: kv)
    next
      case False
      with \<open>ok\<close> show ?thesis by (simp add: spec_def)
    qed
  qed (auto intro!: spec_ret simp: add_errlog_def)
  with spec_bind [OF isAllowExec_spec this] show ?case by (simp add: kv)
qed (auto intro: spec_ret)

end
