(* ===== verification/Exec_Theorems.thy ===== *)
theory Exec_Theorems
  imports Exec_Permission
begin

text \<open>
  What running a block guarantees. \<open>rollback_env\<close> names the forks that make a transaction of a
  contract atomic; with them the state the executor holds after a block is the state before it with
  the receipts of the block written in their order, and a failed transaction or group leaves its fee.
\<close>

section \<open>Transactions of the databases\<close>

definition rollback_env :: "exec_env \<Rightarrow> bool" where
  "rollback_env env \<longleftrightarrow>
     ForkExecRollback (en_sdb env) (en_height env) \<and> en_fork env ''ForkStateDBSet'' \<and>
     en_fork env ''ForkResetTx0'' \<and> en_height env \<noteq> 0 \<and> registry_ok env"

lemma height_simps [simp]:
  "s_height (StateDB_Begin E s) = s_height s" "s_height (StateDB_Commit E s) = s_height s"
  "s_height (StateDB_Rollback s) = s_height s" "s_height (StateDB_StartTx s) = s_height s"
  "s_height (StateDB_Set s k v) = s_height s"
  by (simp_all add: StateDB_Begin_def StateDB_Commit_def StateDB_Rollback_def StateDB_resetTx_def
      StateDB_StartTx_def StateDB_Set_def Let_def)

lemma begin_spec:
  assumes "rollback_env env"
  shows "spec (Idle env V) (ex_begin env) (\<lambda>_. Open env V V) E"
  unfolding ex_begin_def
proof (rule spec_update)
  fix s assume i: "Idle env V s"
  then have "StateDB_idle (en_sdb env) (e_state s)"
    using assms by (simp add: Idle_def StateDB_idle_def rollback_env_def)
  from sdb.begin_law [OF this] i assms
  show "Open env V V (if ForkExecRollback (en_sdb env) (en_height env)
      then s\<lparr>e_state := StateDB_Begin (en_sdb env) (e_state s), e_local := map_option ExecLocalDB_Begin (e_local s)\<rparr>
      else s)"
    by (auto simp: Open_def Idle_def rollback_env_def wf_executor_def StateDB_active_def)
qed

lemma commit_spec:
  assumes "rollback_env env"
  shows "spec (Open env V U) (ex_commit env) (\<lambda>_. Idle env V) (\<lambda>_ _. False)"
proof (rule spec_state)
  fix s assume o: "Open env V U s"
  then have "StateDB_active (en_sdb env) (e_state s)"
    using assms by (simp add: Open_def StateDB_active_def rollback_env_def)
  from sdb.commit_law [OF this] have c: "\<not> s_intx (StateDB_Commit (en_sdb env) (e_state s))"
    "StateDB_view (en_sdb env) (StateDB_Commit (en_sdb env) (e_state s)) = V"
    using o by (simp_all add: StateDB_idle_def Open_def)
  show "spec (\<lambda>x. x = s) (ex_commit env) (\<lambda>_. Idle env V) (\<lambda>_ _. False)"
  proof (cases "e_local s")
    case None
    with c o assms show ?thesis
      by (auto simp: spec_def ex_commit_def Let_def rollback_env_def Idle_def Open_def wf_executor_def)
  next
    case (Some l)
    with o have "local_ok l" by (simp add: Open_def wf_executor_def)
    from local_ok_Commit [OF this] obtain l' where "ExecLocalDB_Commit l = (None, l')" "local_ok l'" .
    with Some c o assms show ?thesis
      by (auto simp: spec_def ex_commit_def Let_def rollback_env_def Idle_def Open_def wf_executor_def)
  qed
qed

lemma rollback_spec:
  assumes "rollback_env env"
  shows "spec (Opened env V U) (ex_rollback env) (\<lambda>_. Idle env U) (\<lambda>_ _. False)"
proof (rule spec_state)
  fix s assume o: "Opened env V U s"
  then have "StateDB_active (en_sdb env) (e_state s)"
    using assms by (simp add: Opened_def StateDB_active_def rollback_env_def)
  from sdb.rollback_law [OF this] have c: "\<not> s_intx (StateDB_Rollback (e_state s))"
    "StateDB_view (en_sdb env) (StateDB_Rollback (e_state s)) = U"
    using o by (simp_all add: StateDB_idle_def Opened_def)
  show "spec (\<lambda>x. x = s) (ex_rollback env) (\<lambda>_. Idle env U) (\<lambda>_ _. False)"
  proof (cases "e_local s")
    case None
    with c o assms show ?thesis
      by (auto simp: spec_def ex_rollback_def Let_def rollback_env_def Idle_def Opened_def wf_executor_def)
  next
    case (Some l)
    with o have "local_ok l" by (simp add: Opened_def wf_executor_def)
    from local_ok_Rollback [OF this] obtain l' where "ExecLocalDB_Rollback l = Inr l'" "local_ok l'" .
    with Some c o assms show ?thesis
      by (auto simp: spec_def ex_rollback_def Let_def rollback_env_def Idle_def Opened_def wf_executor_def)
  qed
qed

section \<open>Writes\<close>

lemma view_Set: "StateDB_view E (StateDB_Set s k v) = (StateDB_view E s)(k := stored v)"
  by (auto intro!: ext simp: StateDB_view_def StateDB_Set_def StateDB_Get_def stored_def
      split: option.splits store_reply.splits)

lemma intx_Set [simp]: "s_intx (StateDB_Set s k v) = s_intx s"
  by (simp add: StateDB_Set_def)

lemma set_all_idle: "spec (Idle env V) (state_set_all kvs) (\<lambda>_. Idle env (apply_kvs kvs V)) E"
proof (induction kvs arbitrary: V)
  case Nil
  then show ?case by (auto intro: spec_ret)
next
  case (Cons kv kvs)
  obtain k v where kv: "kv = (k, v)" by (cases kv)
  have "spec (Idle env V) (state_set kv) (\<lambda>_. Idle env (V(k := stored v))) E"
    unfolding state_set_def kv by (rule spec_update) (auto simp: Idle_def view_Set wf_executor_def)
  then show ?case using Cons.IH by (auto intro: spec_bind simp: kv)
qed

lemma set_all_open: "spec (Open env V U) (state_set_all kvs) (\<lambda>_. Open env (apply_kvs kvs V) U) E"
proof (induction kvs arbitrary: V)
  case Nil
  then show ?case by (auto intro: spec_ret)
next
  case (Cons kv kvs)
  obtain k v where kv: "kv = (k, v)" by (cases kv)
  have "spec (Open env V U) (state_set kv) (\<lambda>_. Open env (V(k := stored v)) U) E"
    unfolding state_set_def kv by (rule spec_update) (auto simp: Open_def view_Set Set_intx wf_executor_def)
  then show ?case using Cons.IH by (auto intro: spec_bind simp: kv)
qed

lemma startTx_spec:
  "spec (Open env V U) startTx (\<lambda>_ s. Open env V U s \<and> s_keys (e_state s) = []) E"
proof -
  have "StateDB_view X (StateDB_StartTx s) = StateDB_view X s"
    "StateDB_under X (StateDB_StartTx s) = StateDB_under X s" for X s
    by (auto intro!: ext simp: StateDB_view_def StateDB_under_def StateDB_StartTx_def StateDB_Get_def
        split: option.splits store_reply.splits)
  then show ?thesis unfolding startTx_def
    by (intro spec_update) (auto simp: Open_def wf_executor_def StateDB_StartTx_def)
qed

section \<open>The fee\<close>

lemma processFee_spec:
  "spec (Idle env V) (processFee env tx)
     (\<lambda>r s. Idle env (apply_kvs (rc_KV r) V) s \<and> fee_keys env (rc_KV r)) (\<lambda>_. Idle env V)"
  unfolding processFee_def
proof (rule spec_bind [OF keeps_Idle [OF keeps_LoadAccount]])
  fix acc
  show "spec (Idle env V)
     (if 0 \<le> i64 (Balance acc - Fee tx) then
        let acc1 = acc\<lparr>Balance := i64 (Balance acc - Fee tx)\<rparr>;
            set = map (\<lambda>(k, v). (k, Some v)) (GetKVSet (en_acc env) (coinsAccount env) acc1)
        in bind_ex (state_set_all set) (\<lambda>_. ret (cutFeeReceipt env set (MReceiptAccountTransfer acc acc1)))
      else fail ErrNoBalance)
     (\<lambda>r s. Idle env (apply_kvs (rc_KV r) V) s \<and> fee_keys env (rc_KV r)) (\<lambda>_. Idle env V)"
    unfolding Let_def
    by (intro spec_if spec_bind [OF set_all_idle] spec_ret spec_fail)
      (auto simp: cutFeeReceipt_def fee_keys_def fee_key_def GetKVSet_def)
qed

lemma loads_Idle:
  "spec (Idle env V) (loadDriver env tx ref i) (\<lambda>d s. Idle env V s \<and> d < length (e_objs s)) (\<lambda>_. Idle env V)"
proof (rule spec_state)
  fix s assume i: "Idle env V s"
  then have k: "Kept env (e_state s) s" by (simp add: Kept_def Idle_def)
  show "spec (\<lambda>x. x = s) (loadDriver env tx ref i) (\<lambda>d s. Idle env V s \<and> d < length (e_objs s)) (\<lambda>_. Idle env V)"
    by (rule spec_conseq [OF loadDriver_loads])
      (use i k in \<open>auto simp: loaded_def Kept_def Idle_def same_state_def\<close>)
qed

text \<open>The call of \<^verbatim>\<open>CheckTx\<close> on a loaded driver, in a state where only reads are allowed.\<close>

lemma CheckTx_Idle:
  assumes "registry_ok env"
  shows "spec (\<lambda>s. Idle env V s \<and> d < length (e_objs s)) (call_CheckTx env d tx i) (\<lambda>_. Idle env V) (\<lambda>_. Idle env V)"
proof (rule spec_state)
  fix s assume i: "Idle env V s \<and> d < length (e_objs s)"
  have "spec (loaded env (e_state s) d) (call_CheckTx env d tx i)
     (\<lambda>_. Kept env (e_state s)) (\<lambda>_. Kept env (e_state s))"
    unfolding call_CheckTx_def
    by (rule with_loaded [OF assms]) (auto intro!: call_driver_reads simp: driver_ok_def)
  then show "spec (\<lambda>x. x = s) (call_CheckTx env d tx i) (\<lambda>_. Idle env V) (\<lambda>_. Idle env V)"
    by (rule spec_conseq) (use i in \<open>auto simp: loaded_def Kept_def Idle_def same_state_def\<close>)
qed

lemma execFee_spec:
  assumes "registry_ok env"
  shows "spec (Idle env V) (execFee env tx ref i) (\<lambda>r s. Idle env (apply_kvs (rc_KV r) V) s \<and> fee_keys env (rc_KV r)) (\<lambda>_. Idle env V)"
proof -
  let ?I = "Idle env V"
  have pack: "spec ?I (ret pack_receipt) (\<lambda>r s. Idle env (apply_kvs (rc_KV r) V) s \<and> fee_keys env (rc_KV r)) (\<lambda>_. ?I)"
    by (rule spec_ret) (simp add: pack_receipt_def fee_keys_def)
  have lift: "spec (\<lambda>s. ?I s \<and> d < length (e_objs s)) (lift_ex r) (\<lambda>_ s. ?I s \<and> d < length (e_objs s)) (\<lambda>_. ?I)"
    for d and r :: "go_error + bytes" by (rule spec_lift) simp_all
  have chk: "spec (\<lambda>s. ?I s \<and> d < length (e_objs s)) (if b then call_CheckTx env d tx i else ret ())
      (\<lambda>_. ?I) (\<lambda>_. ?I)" for b d by (intro spec_if CheckTx_Idle [OF assms] spec_ret) simp
  have fee: "spec ?I (with_driver d (\<lambda>ob. if b ob then processFee env tx else ret pack_receipt))
      (\<lambda>r s. Idle env (apply_kvs (rc_KV r) V) s \<and> fee_keys env (rc_KV r)) (\<lambda>_. ?I)" for b d
    by (intro spec_with spec_if; rule spec_pre, rule processFee_spec pack, simp)
  show ?thesis
    unfolding execFee_def
    by (intro spec_if pack spec_bind [OF loads_Idle] spec_bind [OF lift] spec_bind [OF chk] fee)
qed

section \<open>The call of the contract\<close>

lemma spec_if_state:
  "spec P m Q E \<Longrightarrow> spec P n Q E \<Longrightarrow> spec P (\<lambda>s. if b s then m s else n s) Q E"
  by (simp add: spec_def)

lemma local_on_Opened:
  "(\<And>l. local_ok l \<Longrightarrow> local_ok (f l)) \<Longrightarrow> Opened env V U s \<Longrightarrow> Opened env V U (local_on f s)"
  by (auto simp: Opened_def local_on_def wf_executor_def)

lemma Exec_spec:
  assumes "registry_ok env"
  shows "spec (Open env V U) (ex_Exec env tx ref i) (\<lambda>_. Opened env V U) (\<lambda>_. Opened env V U)"
proof -
  let ?O = "Opened env V U"
  have chk: "spec ?O (call_CheckTx env d tx i) (\<lambda>_. ?O) (\<lambda>_. ?O)" for d
    unfolding call_CheckTx_def by (intro spec_with) (rule spec_pre, rule call_driver_opened, simp)
  have body: "spec (\<lambda>s. ?O s \<and> driver_at s d = ob)
      (bind_ex (call_CheckTx env d tx i) (\<lambda>_. call_driver env f)) (\<lambda>_. ?O) (\<lambda>_. ?O)"
    for d ob and f :: "kv_view \<Rightarrow> kv_view \<Rightarrow> exec_receipt option drv_out"
    by (rule spec_pre, rule spec_bind [OF chk call_driver_opened], simp)
  have flags: "local_ok l \<Longrightarrow> local_ok (let l1 = DisableWrite l in if b then DisableRead l1 else l1)"
    "local_ok l \<Longrightarrow> local_ok (let l1 = EnableWrite l in if b then EnableRead l1 else l1)" for l b
    by (simp_all add: Let_def)
  have deferred: "spec (\<lambda>s. ?O s \<and> driver_at s d = ob)
      (defer_ex (bind_ex (update_ex (local_on (\<lambda>l. let l1 = DisableWrite l in if b then DisableRead l1 else l1)))
         (\<lambda>_. bind_ex (call_CheckTx env d tx i) (\<lambda>_. call_driver env f)))
       (local_on (\<lambda>l. let l1 = EnableWrite l in if b then EnableRead l1 else l1))) (\<lambda>_. ?O) (\<lambda>_. ?O)"
    for b d ob and f :: "kv_view \<Rightarrow> kv_view \<Rightarrow> exec_receipt option drv_out"
  proof (rule spec_defer, rule spec_conseq)
    show "spec ?O (bind_ex (update_ex (local_on (\<lambda>l. let l1 = DisableWrite l in if b then DisableRead l1 else l1)))
         (\<lambda>_. bind_ex (call_CheckTx env d tx i) (\<lambda>_. call_driver env f))) (\<lambda>_. ?O) (\<lambda>_. ?O)"
      by (rule spec_bind [where R = "\<lambda>_. ?O", OF spec_update spec_bind [OF chk call_driver_opened]])
        (auto intro: local_on_Opened flags)
  qed (auto intro: local_on_Opened flags)
  have load: "spec (Open env V U) (loadDriver env tx ref i) (\<lambda>_. ?O) (\<lambda>_. ?O)"
    by (rule spec_conseq [OF keeps_Open [OF keeps_load]]) (auto intro: Open_Opened)
  have addr: "spec ?O (check_ex e) (\<lambda>_. ?O) (\<lambda>_. ?O)" for e by (rule spec_check)
  show ?thesis
    unfolding ex_Exec_def Let_def
  proof (rule spec_recover)
    let ?off = "\<lambda>ob l. if ExecutorOrder (obj_driver ob) (setEnv env ob) \<noteq> ExecLocalSameTime
        then DisableRead (DisableWrite l) else DisableWrite l"
    let ?on = "\<lambda>ob l. if ExecutorOrder (obj_driver ob) (setEnv env ob) \<noteq> ExecLocalSameTime
        then EnableRead (EnableWrite l) else EnableWrite l"
    let ?body = "\<lambda>exec ob. bind_ex (call_CheckTx env exec tx i)
        (\<lambda>_. call_driver env (drv_Exec (obj_driver ob) (setEnv env ob) tx i))"
    have "spec ?O (with_driver exec (\<lambda>ob s. if e_local s \<noteq> None \<and> en_fork env ''ForkLocalDBAccess''
        then defer_ex (bind_ex (update_ex (local_on (?off ob))) (\<lambda>_. ?body exec ob)) (local_on (?on ob)) s
        else ?body exec ob s)) (\<lambda>_. ?O) (\<lambda>_. ?O)" for exec
      by (intro spec_with spec_if_state deferred [unfolded Let_def] body)
    then show "spec (Open env V U)
       (bind_ex (loadDriver env tx ref i) (\<lambda>exec.
        bind_ex (check_ex (drv_CheckAddress env (en_GetRealToAddr env tx) (en_height env))) (\<lambda>_.
        with_driver exec (\<lambda>ob s. if e_local s \<noteq> None \<and> en_fork env ''ForkLocalDBAccess''
          then defer_ex (bind_ex (update_ex (local_on (?off ob))) (\<lambda>_. ?body exec ob)) (local_on (?on ob)) s
          else ?body exec ob s)))) (\<lambda>_. ?O) (\<lambda>_. ?O)"
      by (intro spec_bind [OF load] spec_bind [OF addr])
  qed simp_all
qed

section \<open>One transaction inside an open transaction of the databases\<close>

lemma panics_spec: "spec P m Q E \<Longrightarrow> panics_only m \<Longrightarrow> spec P m Q (\<lambda>e _. e = GoPanic)"
  by (rule specI) (blast dest: spec_ok, auto simp: panics_only_def)

lemma checkKV_covers: "checkKV ks kvs = None \<Longrightarrow> set ks \<subseteq> fst ` set kvs"
  by (auto simp: checkKV_def split: if_splits)

lemma finish_spec:
  assumes "rollback_env env" "apply_kvs (rc_KV feelog) V = V"
    "\<And>k. V' k \<noteq> V k \<Longrightarrow> k \<in> fst ` set (get_kv receipt)"
  shows "spec (Open env V' U) (finish_tx env feelog receipt)
    (\<lambda>(r, err) s. err = None \<and> Open env (apply_kvs (rc_KV r) V) U s \<and> rc_KV r = rc_KV feelog @ get_kv receipt) E"
proof -
  let ?r = "merge_receipt feelog receipt"
  have kv: "rc_KV ?r = rc_KV feelog @ get_kv receipt"
    by (simp add: merge_receipt_def get_kv_def split: option.splits)
  have "apply_kvs (rc_KV ?r) V' = apply_kvs (rc_KV ?r) V"
    using assms(3) by (intro apply_kvs_cover) (auto simp: kv)
  then show ?thesis
    using assms(1) unfolding finish_tx_def Let_def rollback_env_def
    by (auto intro!: spec_bind [OF set_all_open] spec_ret simp: kv)
qed

lemma execTxOne_spec:
  assumes env: "rollback_env env" and fee: "apply_kvs (rc_KV feelog) V = V"
  shows "spec (Open env V U) (execTxOne env feelog tx ref i)
    (\<lambda>(r, err) s. case err of
       None \<Rightarrow> Open env (apply_kvs (rc_KV r) V) U s \<and> (\<exists>new. rc_KV r = rc_KV feelog @ new \<and> may_write_all env tx new)
     | Some e \<Rightarrow> rc_KV r = rc_KV feelog \<and> (\<exists>V'. Opened env V' U s)) (\<lambda>e _. e = GoPanic)"
proof -
  have reg: "registry_ok env" using env by (simp add: rollback_env_def)
  let ?Q = "\<lambda>(r, err) s. case err of
       None \<Rightarrow> Open env (apply_kvs (rc_KV r) V) U s \<and> (\<exists>new. rc_KV r = rc_KV feelog @ new \<and> may_write_all env tx new)
     | Some e \<Rightarrow> rc_KV r = rc_KV feelog \<and> (\<exists>V'. Opened env V' U s)"
  let ?T = "\<lambda>(_::go_error) (_::executor). True"
  define P where "P ks s \<longleftrightarrow> Opened env V U s \<and> s_keys (e_state s) = ks" for ks s
  have keep: "spec (P ks) m (\<lambda>_. P ks) (\<lambda>_. P ks)" if "keeps env m" for ks and m :: "'b exec"
    using that by (rule keeps_pred) (auto simp: P_def Opened_def Kept_def same_state_def)
  have failed: "spec (P ks) (ret (add_errlog env f e, Some e')) ?Q ?T" if "rc_KV f = rc_KV feelog" for ks e e' f
    using that by (intro spec_ret) (auto simp: add_errlog_def P_def)
  have failed0: "spec (Opened env V U) (ret (add_errlog env feelog e, Some e)) ?Q ?T" for e
    by (intro spec_ret) (auto simp: add_errlog_def)
  have same: "spec (P ks) (checkKeyAllow env feelog tx ref i kvs)
      (\<lambda>fd s. rc_KV (fst fd) = rc_KV feelog \<and> (snd fd = None \<longrightarrow> fst fd = feelog \<and> may_write_all env tx kvs)) ?T"
    for ks kvs
  proof (rule spec_state)
    fix s assume "P ks s"
    then have "Kept env (e_state s) s" by (simp add: P_def Opened_def Kept_def)
    then show "spec (\<lambda>x. x = s) (checkKeyAllow env feelog tx ref i kvs)
      (\<lambda>fd s. rc_KV (fst fd) = rc_KV feelog \<and> (snd fd = None \<longrightarrow> fst fd = feelog \<and> may_write_all env tx kvs)) ?T"
      by (intro spec_conseq [OF checkKeyAllow_spec]) (auto simp: may_write_all_def)
  qed
  have keyed: "spec (P ks) (checkKeyAllow env feelog tx ref i kvs)
     (\<lambda>fd s. rc_KV (fst fd) = rc_KV feelog \<and> (snd fd = None \<longrightarrow> fst fd = feelog \<and> may_write_all env tx kvs) \<and> P ks s) ?T"
    for ks kvs
    by (rule spec_conseq [OF spec_conj [OF same keep [OF keeps_checkKeyAllow]]]) auto
  have finished: "spec (P ks) (finish_tx env feelog receipt) ?Q ?T"
    if "checkKV ks (get_kv receipt) = None" and may: "may_write_all env tx (get_kv receipt)" for ks receipt
  proof (rule spec_state)
    fix s assume p: "P ks s"
    let ?V = "StateDB_view (en_sdb env) (e_state s)"
    have "?V k \<noteq> V k \<Longrightarrow> k \<in> fst ` set (get_kv receipt)" for k
      using p checkKV_covers [OF that(1)] by (auto simp: P_def Opened_def)
    from finish_spec [OF env fee this] have "spec (Open env ?V U) (finish_tx env feelog receipt)
      (\<lambda>(r, err) s. err = None \<and> Open env (apply_kvs (rc_KV r) V) U s \<and> rc_KV r = rc_KV feelog @ get_kv receipt) ?T" .
    then show "spec (\<lambda>x. x = s) (finish_tx env feelog receipt) ?Q ?T"
      by (rule spec_conseq) (use p Opened_Open may in \<open>auto simp: P_def\<close>)
  qed
  have local: "spec (\<lambda>s. rc_KV f = rc_KV feelog \<and> (f = feelog \<and> may_write_all env tx (get_kv receipt)) \<and> P ks s)
      (try_ex (execLocalSameTime env tx receipt ref i) (\<lambda>res2.
         case res2 of Inl err \<Rightarrow> ret (add_errlog env f err, Some err) | Inr _ \<Rightarrow> finish_tx env f receipt)) ?Q ?T"
    if "checkKV ks (get_kv receipt) = None" for ks receipt f
  proof (cases "f = feelog \<and> may_write_all env tx (get_kv receipt)")
    case True
    then have may: "may_write_all env tx (get_kv receipt)" by simp
    have "spec (P ks) (try_ex (execLocalSameTime env tx receipt ref i) (\<lambda>res2.
         case res2 of Inl err \<Rightarrow> ret (add_errlog env feelog err, Some err) | Inr _ \<Rightarrow> finish_tx env feelog receipt)) ?Q ?T"
      by (rule spec_try [OF keep [OF keeps_execLocalSameTime [OF reg]]])
        (simp_all add: finished [OF that may] failed)
    with True show ?thesis by (simp add: spec_pre)
  qed (auto simp: spec_def)
  have checked: "spec (P ks)
      (case checkKV ks (get_kv receipt) of
         Some err \<Rightarrow> ret (add_errlog env feelog err, Some err)
       | None \<Rightarrow>
           bind_ex (checkKeyAllow env feelog tx ref i (get_kv receipt)) (\<lambda>(feelog1, denied).
             case denied of
               Some err \<Rightarrow> ret (feelog1, Some err)
             | None \<Rightarrow>
                 try_ex (execLocalSameTime env tx receipt ref i) (\<lambda>res2.
                   case res2 of
                     Inl err \<Rightarrow> ret (add_errlog env feelog1 err, Some err)
                   | Inr _ \<Rightarrow> finish_tx env feelog1 receipt))) ?Q ?T" for ks receipt
  proof (cases "checkKV ks (get_kv receipt)")
    case None
    have "spec (\<lambda>s. rc_KV (fst fd) = rc_KV feelog \<and>
        (snd fd = None \<longrightarrow> fst fd = feelog \<and> may_write_all env tx (get_kv receipt)) \<and> P ks s)
        (case fd of (feelog1, denied) \<Rightarrow>
             (case denied of
               Some err \<Rightarrow> ret (feelog1, Some err)
             | None \<Rightarrow>
                 try_ex (execLocalSameTime env tx receipt ref i) (\<lambda>res2.
                   case res2 of
                     Inl err \<Rightarrow> ret (add_errlog env feelog1 err, Some err)
                   | Inr _ \<Rightarrow> finish_tx env feelog1 receipt))) ?Q ?T" for fd
    proof (cases fd)
      case (Pair f d)
      show ?thesis
      proof (cases d)
        case None
        with Pair local [OF \<open>checkKV ks (get_kv receipt) = None\<close>, of f] show ?thesis by simp
      next
        case (Some e)
        with Pair show ?thesis by (auto intro!: spec_ret simp: P_def)
      qed
    qed
    from spec_bind [OF keyed this] None show ?thesis by simp
  next
    case (Some e)
    then show ?thesis by (simp add: failed)
  qed
  have read: "spec (Opened env V U) (read_ex (\<lambda>s. StateDB_GetSetKeys (e_state s))) (\<lambda>ks. P ks) ?T"
    by (rule spec_read) (simp add: P_def StateDB_GetSetKeys_def)
  have start: "spec (Open env V U) startTx (\<lambda>_. Open env V U) ?T"
    by (rule spec_post [OF startTx_spec]) simp
  have "spec (Open env V U) (execTxOne env feelog tx ref i) ?Q ?T"
    unfolding execTxOne_def
    by (rule spec_bind [OF start], rule spec_try [OF Exec_spec [OF reg]])
      (simp_all add: failed0 spec_bind [OF read checked])
  moreover have "panics_only (execTxOne env feelog tx ref i)" by (rule panics_intro)
  ultimately show ?thesis by (rule panics_spec)
qed

lemma execTxOne_spec':
  assumes "rollback_env env" "apply_kvs (rc_KV feelog) V = V"
  shows "spec (Open env V U) (execTxOne env feelog tx ref i)
    (\<lambda>re s. case snd re of
       None \<Rightarrow> Open env (apply_kvs (rc_KV (fst re)) V) U s \<and> (\<exists>new. rc_KV (fst re) = rc_KV feelog @ new \<and> may_write_all env tx new)
     | Some e \<Rightarrow> rc_KV (fst re) = rc_KV feelog \<and> (\<exists>V'. Opened env V' U s)) (\<lambda>e _. e = GoPanic)"
  by (rule spec_post [OF execTxOne_spec [OF assms]]) (auto split: option.splits)

section \<open>One transaction of a block\<close>

lemma keeps_checkTx [keeps_intro]: "keeps env (ex_checkTx env tx ref i)"
  unfolding ex_checkTx_def by (intro keeps_intro)

definition tx_result ::
  "exec_env \<Rightarrow> transaction set \<Rightarrow> (string \<Rightarrow> go_error + bytes) \<Rightarrow> go_error + exec_receipt \<Rightarrow> executor \<Rightarrow> bool" where
  "tx_result env T V res s \<longleftrightarrow>
     (case res of
        Inr r \<Rightarrow> Idle env (apply_kvs (rc_KV r) V) s \<and> allowed_keys env T (rc_KV r)
      | Inl e \<Rightarrow> IsAPIEnvError env e \<or> Idle env V s)"

lemma execTx_body_spec:
  assumes env: "rollback_env env" and tx: "p \<in> T" "stands_for env p tx"
  shows "spec (Idle env V) (execTx_body env tx ref i) (\<lambda>(fl, res). tx_result env T V res) (\<lambda>e _. e = GoPanic)"
proof -
  have reg: "registry_ok env" using env by (simp add: rollback_env_def)
  let ?Q = "\<lambda>(fl::exec_receipt option, res). tx_result env T V res"
  let ?E = "\<lambda>(e::go_error) (_::executor). e = GoPanic"
  have err: "spec (Idle env V) (ret (fl, Inl e)) ?Q ?E" for fl e
    by (rule spec_ret) (simp add: tx_result_def)
  have one: "spec (\<lambda>s. Idle env (apply_kvs (rc_KV feelog) V) s \<and> fee_keys env (rc_KV feelog))
      (bind_ex (ex_begin env) (\<lambda>_. bind_ex (execTxOne env feelog tx ref i) (\<lambda>(feelog1, err).
         case err of
           Some e \<Rightarrow> bind_ex (ex_rollback env) (\<lambda>_. ret (Some feelog1, if IsAPIEnvError env e then Inl e else Inr feelog1))
         | None \<Rightarrow> try_ex (ex_commit env) (\<lambda>c. ret (Some feelog1, case c of Inl e \<Rightarrow> Inl e | Inr _ \<Rightarrow> Inr feelog1))))) ?Q ?E"
    for feelog
  proof (cases "fee_keys env (rc_KV feelog)")
    case True
    then have fk: "allowed_keys env T (rc_KV feelog)" by (rule fee_keys_allowed)
    let ?V = "apply_kvs (rc_KV feelog) V"
    let ?ok = "\<lambda>r s. Open env (apply_kvs (rc_KV r) ?V) ?V s \<and> (\<exists>new. rc_KV r = rc_KV feelog @ new \<and> may_write_all env tx new)"
    let ?bad = "\<lambda>r s. rc_KV r = rc_KV feelog \<and> (\<exists>V'. Opened env V' ?V s)"
    have ok: "spec (?ok r) (try_ex (ex_commit env) (\<lambda>c. ret (Some r, case c of Inl e \<Rightarrow> Inl e | Inr _ \<Rightarrow> Inr r))) ?Q ?E" for r
    proof (rule spec_state)
      fix s assume "?ok r s"
      then have "Open env (apply_kvs (rc_KV r) V) ?V s" "allowed_keys env T (rc_KV r)"
        using fk may_write_allowed [OF _ tx] by (auto simp: apply_kvs_twice)
      then show "spec (\<lambda>x. x = s) (try_ex (ex_commit env) (\<lambda>c. ret (Some r, case c of Inl e \<Rightarrow> Inl e | Inr _ \<Rightarrow> Inr r))) ?Q ?E"
        by (intro spec_on [OF _ spec_try [OF commit_spec [OF env]]]) (auto intro!: spec_ret simp: tx_result_def)
    qed
    have bad: "spec (?bad r)
       (bind_ex (ex_rollback env) (\<lambda>_. ret (Some r, if IsAPIEnvError env e then Inl e else Inr r))) ?Q ?E" for r e
    proof (rule spec_state)
      fix s assume "?bad r s"
      then obtain V' where r: "rc_KV r = rc_KV feelog" and o: "Opened env V' ?V s" by blast
      have "spec (Opened env V' ?V) (ex_rollback env) (\<lambda>_. Idle env ?V) ?E"
        by (rule spec_conseq [OF rollback_spec [OF env]]) auto
      then have "spec (Opened env V' ?V)
         (bind_ex (ex_rollback env) (\<lambda>_. ret (Some r, if IsAPIEnvError env e then Inl e else Inr r))) ?Q ?E"
        by (rule spec_bind) (rule spec_ret, simp add: tx_result_def r fk)
      then show "spec (\<lambda>x. x = s)
         (bind_ex (ex_rollback env) (\<lambda>_. ret (Some r, if IsAPIEnvError env e then Inl e else Inr r))) ?Q ?E"
        by (rule spec_pre) (simp add: o)
    qed
    have rest: "spec (\<lambda>s. case snd re of None \<Rightarrow> ?ok (fst re) s | Some e \<Rightarrow> ?bad (fst re) s)
      (case re of (feelog1, err) \<Rightarrow> (case err of
           Some e \<Rightarrow> bind_ex (ex_rollback env) (\<lambda>_. ret (Some feelog1, if IsAPIEnvError env e then Inl e else Inr feelog1))
         | None \<Rightarrow> try_ex (ex_commit env) (\<lambda>c. ret (Some feelog1, case c of Inl e \<Rightarrow> Inl e | Inr _ \<Rightarrow> Inr feelog1)))) ?Q ?E" for re
      using ok bad by (cases re; cases "snd re") auto
    have "spec (Idle env ?V)
      (bind_ex (ex_begin env) (\<lambda>_. bind_ex (execTxOne env feelog tx ref i) (\<lambda>(feelog1, err).
         case err of
           Some e \<Rightarrow> bind_ex (ex_rollback env) (\<lambda>_. ret (Some feelog1, if IsAPIEnvError env e then Inl e else Inr feelog1))
         | None \<Rightarrow> try_ex (ex_commit env) (\<lambda>c. ret (Some feelog1, case c of Inl e \<Rightarrow> Inl e | Inr _ \<Rightarrow> Inr feelog1))))) ?Q ?E"
      by (intro spec_bind [OF begin_spec [OF env]]
          spec_bind [OF execTxOne_spec' [OF env apply_kvs_twice] rest])
    then show ?thesis by (rule spec_pre) simp
  qed (simp add: spec_def)
  have fee: "spec (Idle env V) (try_ex (execFee env tx ref i) (\<lambda>fee. case fee of
        Inl err \<Rightarrow> ret (None, Inl err)
      | Inr feelog \<Rightarrow>
        bind_ex (ex_begin env) (\<lambda>_. bind_ex (execTxOne env feelog tx ref i) (\<lambda>(feelog1, err).
         case err of
           Some e \<Rightarrow> bind_ex (ex_rollback env) (\<lambda>_. ret (Some feelog1, if IsAPIEnvError env e then Inl e else Inr feelog1))
         | None \<Rightarrow> try_ex (ex_commit env) (\<lambda>c. ret (Some feelog1, case c of Inl e \<Rightarrow> Inl e | Inr _ \<Rightarrow> Inr feelog1)))))) ?Q ?E"
    by (rule spec_try [OF execFee_spec [OF reg]]) (simp_all add: one err)
  show ?thesis
    unfolding execTx_body_def
    by (rule spec_try [OF keeps_Idle [OF keeps_checkTx]])
      (simp_all add: fee err spec_if [OF spec_fail])
qed

lemma keeps_getCurrentNonce [keeps_intro]: "keeps env (getCurrentNonce env addr)"
proof (rule keepsI)
  fix sd
  show "spec (Kept env sd) (getCurrentNonce env addr) (\<lambda>_. Kept env sd) (\<lambda>_. Kept env sd)"
  proof (rule spec_state)
    fix s assume k: "Kept env sd s"
    have "Kept env sd (s\<lparr>e_local := Some (snd (ExecLocalDB_Get l x))\<rparr>)" if "e_local s = Some l" for l x
      using k that local_ok_Get by (auto simp: Kept_def wf_executor_def)
    then show "spec (\<lambda>x. x = s) (getCurrentNonce env addr) (\<lambda>_. Kept env sd) (\<lambda>_. Kept env sd)"
      using k by (auto simp: spec_def getCurrentNonce_def split: option.splits prod.splits sum.splits)
         (metis snd_conv)+
  qed
qed

lemma keeps_checkProxy [keeps_intro]: "keeps env (checkProxyExecTx env tx)"
  unfolding checkProxyExecTx_def by (intro keeps_intro)

lemma keeps_result:
  assumes "keeps env m"
  shows "spec (tx_result env T V res) m (\<lambda>_. tx_result env T V res) (\<lambda>_. tx_result env T V res)"
proof (cases res)
  case (Inl e)
  show ?thesis
  proof (cases "IsAPIEnvError env e")
    case True
    with Inl show ?thesis by (auto simp: tx_result_def spec_def split: prod.splits sum.splits)
  next
    case False
    with Inl keeps_Idle [OF assms] show ?thesis by (simp add: tx_result_def [abs_def])
  qed
next
  case (Inr r)
  have "spec (\<lambda>s. Idle env W s \<and> b) m (\<lambda>_ s. Idle env W s \<and> b) (\<lambda>_ s. Idle env W s \<and> b)" for W b
    using keeps_Idle [OF assms, of W] by (cases b) (simp_all add: spec_def)
  with Inr show ?thesis by (simp add: tx_result_def [abs_def])
qed

definition tx_fails :: "exec_env \<Rightarrow> (string \<Rightarrow> go_error + bytes) \<Rightarrow> go_error \<Rightarrow> executor \<Rightarrow> bool" where
  "tx_fails env V e s \<longleftrightarrow> e = GoPanic \<or> IsAPIEnvError env e \<or> Idle env V s"

lemma execTx_spec:
  assumes env: "rollback_env env" and tx: "tx \<in> T"
  shows "spec (Idle env V) (execTx env tx pos i)
     (\<lambda>r s. Idle env (apply_kvs (rc_KV r) V) s \<and> allowed_keys env T (rc_KV r)) (tx_fails env V)"
proof -
  have reg: "registry_ok env" and h: "en_height env \<noteq> 0" using env by (simp_all add: rollback_env_def)
  let ?Q = "\<lambda>r s. Idle env (apply_kvs (rc_KV r) V) s \<and> allowed_keys env T (rc_KV r)"
  let ?R = "\<lambda>fr. tx_result env T V (snd fr)"
  have lift: "spec (tx_result env T V res) (lift_ex res) ?Q (tx_fails env V)" for res
    by (rule spec_lift) (auto simp: tx_result_def tx_fails_def)
  have body: "spec (Idle env V) (execTx_body env t ref i) ?R (tx_fails env V)"
    if "stands_for env tx t" for t ref
    by (rule spec_conseq [OF execTx_body_spec [OF env tx that]]) (auto simp: tx_fails_def)
  have err: "spec (Idle env V) (ret (None, Inl e)) ?R (tx_fails env V)" for e
    by (rule spec_ret) (simp add: tx_result_def)
  have inner: "spec (Idle env V) (if n \<noteq> Nonce tx then ret (None, Inl e0)
      else case proxyExecTx env tx of Inl e \<Rightarrow> ret (None, Inl e) | Inr realTx \<Rightarrow> execTx_body env realTx (ProxyTx pos) i)
      ?R (tx_fails env V)" for n e0
    by (intro spec_if err spec_sum body) (simp add: stands_for_def)
  have nonce: "spec (Idle env V) (getCurrentNonce env addr) (\<lambda>_. Idle env V) (tx_fails env V)" for addr
    by (rule spec_conseq [OF keeps_Idle [OF keeps_getCurrentNonce]]) (auto simp: tx_fails_def)
  have later: "spec (tx_result env T V res) m (\<lambda>_. tx_result env T V res) (tx_fails env V)" if "keeps env m" "panics_only m"
    for res and m :: "bool exec"
    using panics_spec [OF keeps_result [OF that(1)] that(2)] by (rule spec_conseq) (auto simp: tx_fails_def)
  have same: "panics_only (isExecLocalSameTime env t ref i)" for t ref
    unfolding isExecLocalSameTime_def by (intro panics_intro)
  have deferred: "spec (tx_result env T V res)
      (bind_ex (isExecLocalSameTime env tx (BlockTx pos) i) (\<lambda>_.
       try_ex (execLocalSameTime env (CloneTx tx) fl FreshTx i) (\<lambda>_. lift_ex res))) ?Q (tx_fails env V)" for res fl
    by (rule spec_bind [OF later [OF keeps_sameTime same]])
      (rule spec_try [where E' = "\<lambda>_. tx_result env T V res"],
       rule keeps_result [OF keeps_execLocalSameTime [OF reg]], simp_all add: lift tx_fails_def)
  have proxy: "spec (Idle env V)
      (bind_ex
        (bind_ex (getCurrentNonce env (From (en_tx env) tx)) (\<lambda>currentNonce.
           if currentNonce \<noteq> Nonce tx then ret (None, Inl (ErrOther ''proxyExec nonce missmatch''))
           else case proxyExecTx env tx of
             Inl e \<Rightarrow> ret (None, Inl e)
           | Inr realTx \<Rightarrow> execTx_body env realTx (ProxyTx pos) i))
        (\<lambda>(feelog, res).
          bind_ex (isExecLocalSameTime env tx (BlockTx pos) i) (\<lambda>_.
          try_ex (execLocalSameTime env (CloneTx tx) feelog FreshTx i) (\<lambda>_. lift_ex res))))
      ?Q (tx_fails env V)"
    by (rule spec_bind [OF spec_bind [OF nonce inner]]) (auto intro!: deferred split: prod.splits)
  have plain: "spec (Idle env V)
      (bind_ex (execTx_body env tx (BlockTx pos) i) (\<lambda>(feelog, res). lift_ex res)) ?Q (tx_fails env V)"
    by (rule spec_bind [OF body]) (auto intro!: lift split: prod.splits simp: stands_for_def)
  have check: "spec (Idle env V) (checkProxyExecTx env tx) (\<lambda>_. Idle env V) (tx_fails env V)"
    by (rule spec_conseq [OF keeps_Idle [OF keeps_checkProxy]]) (auto simp: tx_fails_def)
  show ?thesis
    unfolding execTx_def using h by (simp add: spec_bind [OF check spec_if [OF proxy plain]])
qed

section \<open>Groups\<close>

definition writes :: "exec_receipt list \<Rightarrow> (string \<times> gobytes) list" where
  "writes rs = concat (map rc_KV rs)"

lemma writes_simps [simp]:
  "writes [] = []" "writes (r # rs) = rc_KV r @ writes rs" "writes (rs @ rs') = writes rs @ writes rs'"
  "writes (replicate n pack_receipt) = []"
  by (simp_all add: writes_def pack_receipt_def)

lemma writes_update:
  assumes "i < length rs" "drop (Suc i) rs = replicate m pack_receipt" "rc_KV (rs ! i) = []"
  shows "writes (rs[i := r]) = writes rs @ rc_KV r"
proof -
  have rs: "rs = take i rs @ rs ! i # replicate m pack_receipt"
    using assms(1,2) by (metis id_take_nth_drop)
  have "rs[i := r] = take i rs @ r # replicate m pack_receipt"
    using assms(1,2) by (simp add: upd_conv_take_nth_drop)
  moreover have "writes rs = writes (take i rs @ rs ! i # replicate m pack_receipt)"
    using rs by simp
  ultimately show ?thesis using assms(3) by simp
qed

text \<open>The receipts of a group that failed at its \<^verbatim>\<open>i\<close>-th transaction: only the fee is written.\<close>

definition failed_group :: "exec_env \<Rightarrow> exec_receipt \<Rightarrow> nat \<Rightarrow> exec_receipt list \<Rightarrow> exec_receipt list" where
  "failed_group env rollbackLog i receipts1 =
     (let receipts2 = take 1 receipts1 @ replicate (i - 1) pack_receipt @ drop i receipts1
      in if en_fork env ''ForkResetTx0'' then receipts2[0 := rollbackLog] else receipts2)"

lemma failed_group_writes:
  assumes "en_fork env ''ForkResetTx0''" "1 \<le> i" "i < length rs"
    "drop (Suc i) rs = replicate m pack_receipt" "rc_KV r = []"
  shows "writes (failed_group env f i (rs[i := r])) = rc_KV f"
    "length (failed_group env f i (rs[i := r])) = length rs"
proof -
  have "drop i (rs[i := r]) = r # replicate m pack_receipt"
    using assms(3,4) by (metis Cons_nth_drop_Suc drop_update_cancel length_list_update lessI nth_list_update_eq)
  moreover have "\<exists>x. take 1 (rs[i := r]) = [x]" using assms(3) by (cases "rs[i := r]") auto
  moreover have "Suc (i + m) = length rs" using arg_cong [OF assms(4), of length] assms(3) by simp
  ultimately show "writes (failed_group env f i (rs[i := r])) = rc_KV f"
    "length (failed_group env f i (rs[i := r])) = length rs"
    using assms by (auto simp: failed_group_def Let_def)
qed

definition group_result ::
  "exec_env \<Rightarrow> transaction set \<Rightarrow> nat \<Rightarrow> (string \<Rightarrow> go_error + bytes) \<Rightarrow> exec_receipt list \<Rightarrow> executor \<Rightarrow> bool" where
  "group_result env T n V rs s \<longleftrightarrow>
     length rs = n \<and> Idle env (apply_kvs (writes rs) V) s \<and> allowed_keys env T (writes rs)"

lemma group_rest_spec:
  assumes env: "rollback_env env" and f: "fee_keys env (rc_KV f)"
  shows "1 \<le> i \<Longrightarrow> length receipts = i + length txs \<Longrightarrow> drop i receipts = replicate (length txs) pack_receipt \<Longrightarrow>
    allowed_keys env T (writes receipts) \<Longrightarrow> set txs \<subseteq> T \<Longrightarrow>
    spec (Open env (apply_kvs (writes receipts) V) (apply_kvs (rc_KV f) V)) (group_rest env f pos index i txs receipts)
      (group_result env T (length receipts) V) (tx_fails env V)"
proof (induction txs arbitrary: i receipts)
  case Nil
  have "spec (Open env (apply_kvs (writes receipts) V) (apply_kvs (rc_KV f) V)) (ex_commit env)
      (\<lambda>_. Idle env (apply_kvs (writes receipts) V)) (tx_fails env V)"
    by (rule spec_conseq [OF commit_spec [OF env]]) auto
  then show ?case using Nil by (auto intro!: spec_bind spec_ret simp: group_result_def)
next
  case (Cons tx txs)
  let ?V = "apply_kvs (writes receipts) V" and ?U = "apply_kvs (rc_KV f) V"
  let ?res = "\<lambda>re s. case snd re of
       None \<Rightarrow> Open env (apply_kvs (rc_KV (fst re)) ?V) ?U s \<and> may_write_all env tx (rc_KV (fst re))
     | Some e \<Rightarrow> rc_KV (fst re) = [] \<and> (\<exists>V'. Opened env V' ?U s)"
  have i: "i < length receipts" using Cons.prems(2) by simp
  have ri: "receipts ! i = pack_receipt" and dr: "drop (Suc i) receipts = replicate (length txs) pack_receipt"
    using Cons.prems(3) Cons_nth_drop_Suc [OF i] by auto
  have pack: "apply_kvs (rc_KV pack_receipt) W = W" for W by (simp add: pack_receipt_def)
  have one: "spec (Open env ?V ?U) (execTxOne env (receipts ! i) tx (BlockTx (pos + i)) (index + int i))
    ?res (tx_fails env V)"
    unfolding ri
    by (rule spec_conseq [OF execTxOne_spec' [OF env pack]])
      (auto simp: pack_receipt_def tx_fails_def split: option.splits)
  have ok: "spec (\<lambda>s. Open env (apply_kvs (rc_KV r) ?V) ?U s \<and> may_write_all env tx (rc_KV r))
      (group_rest env f pos index (i + 1) txs (receipts[i := r]))
      (group_result env T (length receipts) V) (tx_fails env V)" for r
  proof (cases "may_write_all env tx (rc_KV r)")
    case True
    then have al: "allowed_keys env T (rc_KV r)"
      using Cons.prems(5) by (intro may_write_allowed [where tx = tx]) (auto simp: stands_for_def)
    have w: "writes (receipts[i := r]) = writes receipts @ rc_KV r"
      using writes_update [OF i dr] by (simp add: ri pack_receipt_def)
    have d: "drop (i + 1) (receipts[i := r]) = replicate (length txs) pack_receipt"
      using dr by simp
    have "spec (Open env (apply_kvs (rc_KV r) ?V) ?U) (group_rest env f pos index (i + 1) txs (receipts[i := r]))
      (group_result env T (length receipts) V) (tx_fails env V)"
      using Cons.IH [of "i + 1" "receipts[i := r]"] Cons.prems d al by (simp add: w)
    then show ?thesis by (rule spec_pre) simp
  qed (simp add: spec_def)
  have bad: "spec (\<lambda>s. rc_KV r = [] \<and> (\<exists>V'. Opened env V' ?U s))
      (if IsAPIEnvError env e then fail e
       else bind_ex (ex_rollback env) (\<lambda>_. ret (failed_group env f i (receipts[i := r]))))
      (group_result env T (length receipts) V) (tx_fails env V)" for r e
  proof (cases "IsAPIEnvError env e")
    case True
    then show ?thesis by (auto intro!: spec_fail simp: tx_fails_def)
  next
    case False
    have "en_fork env ''ForkResetTx0''" using env by (simp add: rollback_env_def)
    note fg = failed_group_writes [OF this Cons.prems(1) i dr]
    have "spec (Opened env V' ?U) (ex_rollback env) (\<lambda>_. Idle env ?U) (tx_fails env V)" for V'
      by (rule spec_conseq [OF rollback_spec [OF env]]) auto
    then have "spec (\<lambda>s. Opened env V' ?U s) (bind_ex (ex_rollback env) (\<lambda>_. ret (failed_group env f i (receipts[i := r]))))
      (group_result env T (length receipts) V) (tx_fails env V)" if "rc_KV r = []" for V'
      using that fg fee_keys_allowed [OF f] by (auto intro!: spec_bind spec_ret simp: group_result_def)
    with False show ?thesis by (fastforce simp: spec_def)
  qed
  have rest: "spec (?res re)
     (case re of (r, err) \<Rightarrow>
       let receipts1 = receipts[i := r]
       in case err of
            None \<Rightarrow> group_rest env f pos index (i + 1) txs receipts1
          | Some e \<Rightarrow>
              if IsAPIEnvError env e then fail e
              else
                let receipts2 = take 1 receipts1 @ replicate (i - 1) pack_receipt @ drop i receipts1;
                    receipts3 = (if en_fork env ''ForkResetTx0'' then receipts2[0 := f] else receipts2)
                in bind_ex (ex_rollback env) (\<lambda>_. ret receipts3))
     (group_result env T (length receipts) V) (tx_fails env V)" for re
  proof (cases re)
    case (Pair r err)
    show ?thesis
    proof (cases err)
      case None
      with Pair ok [of r] show ?thesis by (simp add: Let_def)
    next
      case (Some e)
      with Pair bad [of r e] show ?thesis
        by (cases "IsAPIEnvError env e"; cases "en_fork env ''ForkResetTx0''")
          (simp_all add: failed_group_def Let_def)
    qed
  qed
  show ?case unfolding group_rest.simps by (rule spec_bind [OF one rest])
qed

lemma execTxGroup_spec:
  assumes env: "rollback_env env" and txs: "set txs \<subseteq> T" "txs \<noteq> []"
  shows "spec (Idle env V) (execTxGroup env txs pos index) (group_result env T (length txs) V) (tx_fails env V)"
proof -
  have reg: "registry_ok env" and fork: "ForkExecRollback (en_sdb env) (en_height env)"
    using env by (simp_all add: rollback_env_def)
  let ?Q = "group_result env T (length txs) V"
  let ?F = "tx_fails env V"
  have tx0: "txs ! 0 \<in> T" "stands_for env (txs ! 0) (txs ! 0)"
    using txs by (auto simp: stands_for_def)
  have fee: "spec (Idle env V) (execFee env (txs ! 0) (BlockTx pos) index)
     (\<lambda>r s. Idle env (apply_kvs (rc_KV r) V) s \<and> fee_keys env (rc_KV r)) ?F"
    by (rule spec_conseq [OF execFee_spec [OF reg]]) (auto simp: tx_fails_def)
  have check: "spec (Idle env V) (check_ex e) (\<lambda>_. Idle env V) ?F" for e
    by (rule spec_check) (simp_all add: tx_fails_def)
  let ?ok = "\<lambda>f r s. Open env (apply_kvs (rc_KV r) (apply_kvs (rc_KV f) V)) (apply_kvs (rc_KV f) V) s \<and>
         (\<exists>new. rc_KV r = rc_KV f @ new \<and> may_write_all env (txs ! 0) new)"
  let ?bad = "\<lambda>f r s. rc_KV r = rc_KV f \<and> (\<exists>V'. Opened env V' (apply_kvs (rc_KV f) V) s)"
  have rest: "spec (\<lambda>s. case snd re of None \<Rightarrow> ?ok f (fst re) s | Some e \<Rightarrow> ?bad f (fst re) s)
     (case re of (r0, err) \<Rightarrow>
       let receipts = r0 # replicate (length txs - 1) pack_receipt
       in case err of
            Some e \<Rightarrow>
              if IsAPIEnvError env e then fail e
              else bind_ex (if ForkExecRollback (en_sdb env) (en_height env) then ex_rollback env else ret ())
                     (\<lambda>_. ret receipts)
          | None \<Rightarrow> group_rest env f pos index 1 (tl txs) receipts) ?Q ?F"
    if f: "fee_keys env (rc_KV f)" for re f
  proof (cases re)
    case (Pair r err)
    let ?U = "apply_kvs (rc_KV f) V"
    let ?rs = "r # replicate (length txs - 1) pack_receipt"
    have len: "length ?rs = length txs" using txs(2) by simp
    show ?thesis
    proof (cases err)
      case None
      show ?thesis
      proof (cases "\<exists>new. rc_KV r = rc_KV f @ new \<and> may_write_all env (txs ! 0) new")
        case True
        then have al: "allowed_keys env T (writes ?rs)"
          using fee_keys_allowed [OF f] may_write_allowed [OF _ tx0] by auto
        have "spec (Open env (apply_kvs (writes ?rs) V) ?U) (group_rest env f pos index 1 (tl txs) ?rs)
            (group_result env T (length ?rs) V) ?F"
          using txs al by (intro group_rest_spec [OF env f]) (auto dest: list.set_sel(2))
        then have "spec (?ok f r) (group_rest env f pos index 1 (tl txs) ?rs) ?Q ?F"
          unfolding len by (rule spec_conseq) (auto simp: apply_kvs_twice)
        with Pair None show ?thesis by (simp add: Let_def)
      next
        case False
        with Pair None show ?thesis by (auto simp: spec_def)
      qed
    next
      case (Some e)
      have "spec (Opened env V' ?U) (ex_rollback env) (\<lambda>_. Idle env ?U) ?F" for V'
        by (rule spec_conseq [OF rollback_spec [OF env]]) auto
      then have "spec (Opened env V' ?U) (bind_ex (ex_rollback env) (\<lambda>_. ret ?rs)) ?Q ?F"
        if "rc_KV r = rc_KV f" for V'
        using that len fee_keys_allowed [OF f] by (auto intro!: spec_bind spec_ret simp: group_result_def)
      with Pair Some fork show ?thesis
        by (cases "IsAPIEnvError env e") (fastforce simp: spec_def fail_def tx_fails_def)+
    qed
  qed
  have one: "spec (Open env (apply_kvs (rc_KV f) V) (apply_kvs (rc_KV f) V)) (execTxOne env f (txs ! 0) ref i)
    (\<lambda>re s. case snd re of None \<Rightarrow> ?ok f (fst re) s | Some e \<Rightarrow> ?bad f (fst re) s) ?F" for f ref i
    by (rule spec_conseq [OF execTxOne_spec' [OF env apply_kvs_twice]]) (auto simp: tx_fails_def)
  have run: "spec (\<lambda>s. Idle env (apply_kvs (rc_KV f) V) s \<and> fee_keys env (rc_KV f))
     (bind_ex (ex_begin env) (\<lambda>_. bind_ex (execTxOne env f (txs ! 0) (BlockTx pos) index) (\<lambda>(r0, err).
       let receipts = r0 # replicate (length txs - 1) pack_receipt
       in case err of
            Some e \<Rightarrow>
              if IsAPIEnvError env e then fail e
              else bind_ex (if ForkExecRollback (en_sdb env) (en_height env) then ex_rollback env else ret ())
                     (\<lambda>_. ret receipts)
          | None \<Rightarrow> group_rest env f pos index 1 (tl txs) receipts))) ?Q ?F" for f
  proof (cases "fee_keys env (rc_KV f)")
    case True
    show ?thesis
      by (rule spec_pre, rule spec_bind [OF begin_spec [OF env] spec_bind [OF one rest [OF True]]], simp)
  qed (simp add: spec_def)
  show ?thesis
    unfolding execTxGroup_def by (intro spec_bind [OF check] spec_bind [OF fee run])
qed

section \<open>A block\<close>

lemma NewErrReceipt_KV [simp]: "rc_KV (NewErrReceipt env e) = []"
  by (simp add: NewErrReceipt_def)

lemma writes_errs [simp]: "writes (replicate n (NewErrReceipt env e)) = []"
  by (simp add: writes_def)

lemma exec_list_spec:
  assumes env: "rollback_env env"
  shows "set txs \<subseteq> T \<Longrightarrow> allowed_keys env T (writes receipts) \<Longrightarrow>
    spec (Idle env (apply_kvs (writes receipts) V)) (exec_list env pos index txs receipts)
    (group_result env T (length receipts + length txs) V) (\<lambda>_ _. True)"
proof (induction "length txs" arbitrary: pos index txs receipts rule: less_induct)
  case less
  let ?V = "apply_kvs (writes receipts) V"
  let ?T = "\<lambda>(_::go_error) (_::executor). True"
  show ?case
  proof (cases txs)
    case Nil
    then show ?thesis using less.prems by (auto intro!: spec_ret simp: group_result_def)
  next
    case (Cons tx rest)
    let ?Q = "group_result env T (length receipts + length txs) V"
    have step: "spec (Idle env (apply_kvs (writes rs) ?V)) (exec_list env pos' index' rest' (receipts @ rs)) ?Q ?T"
      if "length rs + length rest' = length txs" "rs \<noteq> []" "set rest' \<subseteq> T" "allowed_keys env T (writes rs)"
      for pos' index' rest' rs
    proof -
      have "length rest' < length txs" using that by (cases rs) auto
      from less.hyps [OF this, of "receipts @ rs" pos' index'] that(1,3,4) less.prems(2)
      show ?thesis by (simp add: add.assoc)
    qed
    have T: "tx \<in> T" "set rest \<subseteq> T" using less.prems(1) Cons by auto
    have err1: "spec (Idle env ?V) (exec_list env pos' index' rest (receipts @ [NewErrReceipt env e])) ?Q ?T" for pos' index' e
      using step [of "[NewErrReceipt env e]" rest] Cons T by simp
    have fails: "spec (tx_fails env ?V e) (if IsAPIEnvError env e then fail e else m) Q ?T"
      if "spec (Idle env ?V) m Q ?T" "e \<noteq> GoPanic" for e Q and m :: "exec_receipt list exec"
      using that by (cases "IsAPIEnvError env e") (auto intro: spec_fail spec_pre simp: tx_fails_def)
    have single: "spec (Idle env ?V) (try_ex (execTx env tx pos index) (\<lambda>res. case res of
          Inl err \<Rightarrow> if IsAPIEnvError env err then fail err
                     else exec_list env (pos + 1) index rest (receipts @ [NewErrReceipt env err])
        | Inr receipt \<Rightarrow> exec_list env (pos + 1) (index + 1) rest (receipts @ [receipt]))) ?Q ?T"
    proof (rule spec_try [OF execTx_spec [OF env T(1)]])
      fix r
      show "spec (\<lambda>s. Idle env (apply_kvs (rc_KV r) ?V) s \<and> allowed_keys env T (rc_KV r)) (case Inr r of
          Inl err \<Rightarrow> if IsAPIEnvError env err then fail err
                     else exec_list env (pos + 1) index rest (receipts @ [NewErrReceipt env err])
        | Inr receipt \<Rightarrow> exec_list env (pos + 1) (index + 1) rest (receipts @ [receipt])) ?Q ?T"
        using step [of "[r]" rest] Cons T by (cases "allowed_keys env T (rc_KV r)") (auto simp: spec_def)
    qed (simp_all add: fails err1)
    have group: "spec (Idle env ?V) (try_ex (execTxGroup env (take n (tx # rest)) pos index) (\<lambda>res. case res of
          Inl err \<Rightarrow> if IsAPIEnvError env err then fail err
              else exec_list env (pos + n) index (drop (n - 1) rest) (receipts @ replicate n (NewErrReceipt env err))
        | Inr rl \<Rightarrow> if length rl > 0 \<and> length rl \<noteq> n then fail GoPanic
              else exec_list env (pos + n) (index + GroupCount tx) (drop (n - 1) rest) (receipts @ rl))) ?Q ?T"
      if n: "1 \<le> n" "n \<le> length (tx # rest)" for n
    proof -
      obtain n' where n': "n = Suc n'" using n(1) by (cases n) auto
      have left: "n + length (drop (n - 1) rest) = length txs" using n n' Cons by simp
      have sub: "set (drop (n - 1) rest) \<subseteq> T" using T(2) by (auto dest: in_set_dropD)
      have "set (take n (tx # rest)) \<subseteq> T" "take n (tx # rest) \<noteq> []" "length (take n (tx # rest)) = n"
        using n n' T by (auto dest: in_set_takeD)
      note g = execTxGroup_spec [OF env this(1,2), of ?V pos index, unfolded this(3)]
      show ?thesis
      proof (rule spec_try [OF g])
        fix rl
        show "spec (group_result env T n ?V rl) (case Inr rl of
            Inl err \<Rightarrow> if IsAPIEnvError env err then fail err
              else exec_list env (pos + n) index (drop (n - 1) rest) (receipts @ replicate n (NewErrReceipt env err))
          | Inr rl \<Rightarrow> if length rl > 0 \<and> length rl \<noteq> n then fail GoPanic
              else exec_list env (pos + n) (index + GroupCount tx) (drop (n - 1) rest) (receipts @ rl)) ?Q ?T"
        proof (cases "length rl = n")
          case True
          with n(1) have "rl \<noteq> []" by auto
          with step [of rl "drop (n - 1) rest"] left sub True
          have "spec (Idle env (apply_kvs (writes rl) ?V))
             (exec_list env (pos + n) (index + GroupCount tx) (drop (n - 1) rest) (receipts @ rl)) ?Q ?T"
            if "allowed_keys env T (writes rl)" using that by simp
          then have "spec (group_result env T n ?V rl)
             (exec_list env (pos + n) (index + GroupCount tx) (drop (n - 1) rest) (receipts @ rl)) ?Q ?T"
            by (cases "allowed_keys env T (writes rl)") (auto simp: group_result_def spec_def)
          with True show ?thesis by simp
        next
          case False
          then show ?thesis by (simp add: group_result_def spec_def)
        qed
      next
        fix e assume e: "e \<noteq> GoPanic"
        have "replicate n (NewErrReceipt env e) \<noteq> []" using n(1) by simp
        with step [of "replicate n (NewErrReceipt env e)" "drop (n - 1) rest"] left sub
        have "spec (Idle env ?V)
           (exec_list env (pos + n) index (drop (n - 1) rest) (receipts @ replicate n (NewErrReceipt env e))) ?Q ?T"
          by simp
        from fails [OF this e] show "spec (tx_fails env ?V e) (case Inl e of
            Inl err \<Rightarrow> if IsAPIEnvError env err then fail err
              else exec_list env (pos + n) index (drop (n - 1) rest) (receipts @ replicate n (NewErrReceipt env err))
          | Inr rl \<Rightarrow> if length rl > 0 \<and> length rl \<noteq> n then fail GoPanic
              else exec_list env (pos + n) (index + GroupCount tx) (drop (n - 1) rest) (receipts @ rl)) ?Q ?T"
          by simp
      qed simp
    qed
    show ?thesis
      unfolding Cons exec_list.simps Let_def
      by (intro spec_if) (use err1 single group [of "nat (GroupCount tx)"] Cons in auto)
  qed
qed

section \<open>Properties\<close>

lemma newExecutor_Idle:
  assumes "rollback_env env" "\<And>l. localdb = Some l \<Longrightarrow> local_ok l"
  shows "Idle env (\<lambda>k. fst (StateDB_Get (en_sdb env) (NewStateDB True h (Some (mvcc, en_height env))) k))
    (newExecutor env h mvcc localdb)"
  using assms
  by (auto simp: Idle_def newExecutor_def wf_executor_def driver_cache_ok_def heap_ok_def NewStateDB_def StateDB_view_def fun_eq_iff)

lemma procExecTxList_result:
  assumes "rollback_env env" "\<And>l. localdb = Some l \<Longrightarrow> local_ok l"
    and "procExecTxList env (newExecutor env stateHash False localdb) = (Inr receipts, s)"
  shows "group_result env (set (en_txs env)) (length (en_txs env))
     (\<lambda>k. fst (StateDB_Get (en_sdb env) (NewStateDB True stateHash (Some (False, en_height env))) k)) receipts s"
proof -
  let ?s0 = "newExecutor env stateHash False localdb"
  let ?V = "\<lambda>k. fst (StateDB_Get (en_sdb env) (NewStateDB True stateHash (Some (False, en_height env))) k)"
  have "ex_enableMVCC env None ?s0 = (Inr (), ?s0)"
    by (simp add: ex_enableMVCC_def enableMVCC_def newExecutor_def NewStateDB_def)
  then have run: "exec_list env 0 0 (en_txs env) [] ?s0 = (Inr receipts, s)"
    using assms(3) by (auto simp: procExecTxList_def recover_ex_def bind_ex_def split: prod.splits if_splits)
  have "spec (Idle env ?V) (exec_list env 0 0 (en_txs env) [])
      (group_result env (set (en_txs env)) (length (en_txs env)) ?V) (\<lambda>_ _. True)"
    using exec_list_spec [OF assms(1), of "en_txs env" "set (en_txs env)" "[]" ?V 0 0] by simp
  from spec_ok [OF this newExecutor_Idle [OF assms(1,2)] run] show ?thesis .
qed

text \<open>
  C2. The state the executor holds after a block is the state before it with the writes of the
  receipts, in their order, and there is one receipt for each transaction. So the key-value pairs
  that \<^verbatim>\<open>PreExecBlock\<close> takes from the receipts and writes to the store are all that the
  execution changed: what a failed transaction or group did is gone, but for its fee.
\<close>

theorem procExecTxList_state_is_receipts:
  assumes "rollback_env env" "\<And>l. localdb = Some l \<Longrightarrow> local_ok l"
    and "procExecTxList env (newExecutor env stateHash False localdb) = (Inr receipts, s)"
  shows "length receipts = length (en_txs env) \<and>
    (\<forall>k. fst (StateDB_Get (en_sdb env) (e_state s) k) =
       apply_kvs (writes receipts)
         (\<lambda>k. fst (StateDB_Get (en_sdb env) (NewStateDB True stateHash (Some (False, en_height env))) k)) k)"
  using procExecTxList_result [OF assms] by (auto simp: group_result_def Idle_def StateDB_view_def fun_eq_iff)


text \<open>
  C14. Dispatch stays well typed: after a block every entry of the cache of drivers points to an
  object of the heap, whose contract is the one registered for the real name of the entry, or
  \<^verbatim>\<open>none\<close>; and the driver of the current transaction is such an object. So a name is never run
  by another contract's code, whatever names the transactions before it have used.
\<close>

theorem procExecTxList_dispatch_typed:
  assumes "rollback_env env" "\<And>l. localdb = Some l \<Longrightarrow> local_ok l"
    and "procExecTxList env (newExecutor env stateHash False localdb) = (Inr receipts, s)"
  shows "(\<forall>name d. driverCache s name = Some d \<longrightarrow> d < length (e_objs s) \<and>
      (\<exists>n \<in> {GetRealExecName name, GetRealExecName ''none''}. \<exists>h.
         en_registered env n = Some (obj_driver (driver_at s d), h))) \<and>
    (currExecTx s \<noteq> None \<longrightarrow> currDriver s < length (e_objs s) \<and>
      (\<exists>n h. en_registered env n = Some (obj_driver (driver_at s (currDriver s)), h)))"
proof -
  have "wf_executor env s" using procExecTxList_result [OF assms] by (simp add: group_result_def Idle_def)
  then show ?thesis
    by (auto simp: wf_executor_def driver_cache_ok_def heap_ok_def registered_as_def driver_at_def)
      (metis nth_mem)
qed

end
