(* ===== verification/Block_Exec.thy ===== *)
theory Block_Exec
  imports Exec_Theorems Merkle Blocks "HOL-Library.AList"
begin

text \<open>
  Executing a whole block, \<^verbatim>\<open>util/util.go\<close> and \<^verbatim>\<open>util/exec.go\<close>: the node that made the
  block drops the transactions that fail and fills in the hashes, every other node (\<open>errReturn\<close>)
  refuses a block that would change. The executor is the one of \<open>Exec_Block\<close>; the answers of the
  other modules (mempool, blockchain, store, consensus) are fields of \<open>pre_env\<close>.
\<close>

section \<open>Duplicates\<close>

text \<open>
  \<^verbatim>\<open>DelDupKey\<close> keeps a key where it first stands and gives it its last value. Its map
  \<^verbatim>\<open>dupindex\<close> holds where a key stands in the part already kept.
\<close>

definition DelDupKey :: "(string \<times> 'v) list \<Rightarrow> (string \<times> 'v) list" where
  "DelDupKey kvs = foldl (\<lambda>kept (k, v). AList.update k v kept) [] kvs"

text \<open>\<^verbatim>\<open>DelDupTx\<close>: of the transactions with one hash the last one stays.\<close>

fun last_of_hash :: "('a \<Rightarrow> bytes) \<Rightarrow> 'a list \<Rightarrow> 'a list" where
  "last_of_hash hash [] = []"
| "last_of_hash hash (tx # txs) =
     (if hash tx \<in> set (map hash txs) then last_of_hash hash txs else tx # last_of_hash hash txs)"

definition DelDupTx :: "('a \<Rightarrow> bytes) \<Rightarrow> 'a list \<Rightarrow> 'a list" where
  "DelDupTx hash txs = (if distinct (map hash txs) then txs else last_of_hash hash txs)"

section \<open>The modules a block is sent to\<close>

record block_detail =
  bd_Block :: "transaction block"
  bd_Receipts :: "receipt_data list"
  bd_KV :: "(string \<times> gobytes) list"
  bd_PrevStatusHash :: bytes

record pre_env =
  pe_exec :: exec_env
  pe_merkle :: merkle_env
  pe_localdb :: "ExecLocalDB option"
  pe_mvcc :: bool
  pe_DisableTxDupCheck :: bool
  CheckTxsExist :: "bytes list \<Rightarrow> go_error + (int \<times> bool list)"
  CheckBlockSign :: "transaction block \<Rightarrow> bool"
  TxHashList :: "bytes list \<Rightarrow> int list \<Rightarrow> int \<Rightarrow> go_error + bytes list"
  StoreMemSet :: "bytes \<Rightarrow> int \<Rightarrow> (string \<times> gobytes) list \<Rightarrow> bool \<Rightarrow> bool \<Rightarrow> go_error + bytes"
  StoreCommit :: "bytes \<Rightarrow> bool \<Rightarrow> go_error option"
  CheckBlock :: "block_detail \<Rightarrow> go_error option"

definition pre_fork :: "pre_env \<Rightarrow> int \<Rightarrow> string \<Rightarrow> bool" where
  "pre_fork pe height fork = IsFork (cfg_forks (en_cfg (pe_exec pe))) height fork"

text \<open>The message \<^verbatim>\<open>ExecTxList\<close> of a block, as the executor receives it.\<close>

definition exec_ctx :: "pre_env \<Rightarrow> transaction block \<Rightarrow> exec_env" where
  "exec_ctx pe block =
     (pe_exec pe)\<lparr>en_height := Height block, en_blocktime := BlockTime block, en_difficulty := unat (Difficulty block),
       en_parentHash := ParentHash block, en_mainHash := MainHash block, en_mainHeight := MainHeight block,
       en_txs := Txs block, en_receipts := []\<rparr>"

definition ExecTx :: "pre_env \<Rightarrow> bytes \<Rightarrow> transaction block \<Rightarrow> go_error + exec_receipt list" where
  "ExecTx pe prevStateRoot block =
     fst (procExecTxList (exec_ctx pe block) (newExecutor (exec_ctx pe block) prevStateRoot (pe_mvcc pe) (pe_localdb pe)))"

section \<open>Checks before the block is accepted\<close>

definition CheckTxDup :: "pre_env \<Rightarrow> transaction list \<Rightarrow> int \<Rightarrow> go_error + transaction list" where
  "CheckTxDup pe txs height =
     (if pe_DisableTxDupCheck pe then Inr txs
      else
        let hash = tx_Hash (en_tx (pe_exec pe));
            txs1 = (if pre_fork pe height ''ForkCheckTxDup'' then DelDupTx hash txs else txs)
        in case TxHashList pe (map hash txs1) (map Expire txs1) height of
             Inl e \<Rightarrow> Inl e
           | Inr dupTxs \<Rightarrow> Inr (filter (\<lambda>tx. hash tx \<notin> set dupTxs) txs1))"

text \<open>\<^verbatim>\<open>VerifySignature\<close>: the block's own signature, and those of the given transactions.\<close>

definition VerifySignature :: "pre_env \<Rightarrow> transaction block \<Rightarrow> transaction list \<Rightarrow> bool" where
  "VerifySignature pe block txs \<longleftrightarrow>
     (Signature block = None \<or> CheckBlockSign pe block) \<and>
     (\<forall>tx \<in> set txs. checkSign (en_tx (pe_exec pe)) tx (Height block))"

definition check_signs :: "pre_env \<Rightarrow> transaction block \<Rightarrow> go_error option" where
  "check_signs pe block =
     (case CheckTxsExist pe (map (tx_Hash (en_tx (pe_exec pe))) (Txs block)) of
        Inl e \<Rightarrow> Some e
      | Inr (ExistCount, ExistFlags) \<Rightarrow>
          if ExistCount > int (length (Txs block)) \<or>
             ExistCount > 0 \<and> (\<exists>exist \<in> set (drop (length (Txs block)) ExistFlags). \<not> exist) then Some GoPanic
          else
            let unverifiedTxs = (if ExistCount > 0
                  then map snd (filter (\<lambda>(exist, tx). \<not> exist) (zip ExistFlags (Txs block)))
                  else Txs block)
            in if VerifySignature pe block unverifiedTxs then None else Some ErrSign)"

section \<open>The result of the execution\<close>

text \<open>
  The loop over the receipts: the transactions that stay, those that are removed, the receipts
  and the pairs to write. A receipt beyond the transactions would be an index out of range.
\<close>

fun keep_txs ::
  "bool \<Rightarrow> transaction list \<Rightarrow> exec_receipt list \<Rightarrow>
   go_error + (transaction list \<times> transaction list \<times> receipt_data list \<times> (string \<times> gobytes) list)" where
  "keep_txs errReturn txs [] = Inr ([], [], [], [])"
| "keep_txs errReturn [] (r # rs) = Inl GoPanic"
| "keep_txs errReturn (tx # txs) (r # rs) =
     (if rc_Ty r = ExecErr then
        if errReturn then Inl ErrBlockExec
        else case keep_txs errReturn txs rs of
          Inl e \<Rightarrow> Inl e
        | Inr (kept, deltxs, rdata, kvset) \<Rightarrow> Inr (kept, tx # deltxs, rdata, kvset)
      else case keep_txs errReturn txs rs of
        Inl e \<Rightarrow> Inl e
      | Inr (kept, deltxs, rdata, kvset) \<Rightarrow>
          Inr (tx # kept, deltxs, \<lparr>rd_Ty = rc_Ty r, rd_Logs = rc_Logs r\<rparr> # rdata, rc_KV r @ kvset))"

definition calc_tx_hash :: "pre_env \<Rightarrow> transaction block \<Rightarrow> go_error + bytes" where
  "calc_tx_hash pe block =
     (let tenv = en_tx (pe_exec pe);
          height = (if isPara (en_cfg (pe_exec pe)) then MainHeight block else Height block)
      in if \<not> pre_fork pe height ''ForkRootHash''
         then calcMerkleRoot (pe_merkle pe) (tx_Hash tenv) (Txs block)
         else CalcMerkleRoot (pe_merkle pe) (pre_fork pe height ''ForkRootHash'') Execer (tx_Hash tenv) (FullHash tenv)
                (TransactionSort (Txs block)))"

text \<open>
  From the receipts to the block with its hashes. When the state hash differs the store is also
  told to drop the version it has prepared.
\<close>

definition finish_block ::
  "pre_env \<Rightarrow> bytes \<Rightarrow> transaction block \<Rightarrow> bool \<Rightarrow> bool \<Rightarrow> bool \<Rightarrow> exec_receipt list \<Rightarrow>
   go_error + (block_detail \<times> transaction list)" where
  "finish_block pe prevStateRoot block errReturn sync checkblock receipts =
     (case keep_txs errReturn (Txs block) receipts of
        Inl e \<Rightarrow> Inl e
      | Inr (kept, deltxs, rdata, kvs) \<Rightarrow>
          let block1 = block\<lparr>Txs := kept\<rparr>
          in case calc_tx_hash pe block1 of
            Inl e \<Rightarrow> Inl e
          | Inr txHash \<Rightarrow>
              if errReturn \<and> txHash \<noteq> TxHash block1 then Inl ErrCheckTxHash
              else
                let block2 = block1\<lparr>TxHash := txHash\<rparr>;
                    kvset = DelDupKey kvs
                in case StoreMemSet pe prevStateRoot (Height block2) kvset sync False of
                  Inl e \<Rightarrow> Inl e
                | Inr stateHash \<Rightarrow>
                    if errReturn \<and> StateHash block2 \<noteq> stateHash then Inl ErrCheckStateHash
                    else
                      let block3 = block2\<lparr>StateHash := stateHash\<rparr>;
                          detail = \<lparr>bd_Block = block3, bd_Receipts = rdata, bd_KV = [], bd_PrevStatusHash = []\<rparr>
                      in case (if Height block3 > 0 \<and> checkblock then CheckBlock pe detail else None) of
                        Some e \<Rightarrow> Inl e
                      | None \<Rightarrow> Inr (detail\<lparr>bd_KV := kvset, bd_PrevStatusHash := prevStateRoot\<rparr>, deltxs))"

text \<open>
  The search for duplicates runs beside a first execution of the block; when it finds some, a
  block of another node is refused, and one of our own is executed again without them.
\<close>

definition PreExecBlock ::
  "pre_env \<Rightarrow> bytes \<Rightarrow> transaction block \<Rightarrow> bool \<Rightarrow> bool \<Rightarrow> bool \<Rightarrow> go_error + (block_detail \<times> transaction list)" where
  "PreExecBlock pe prevStateRoot block errReturn sync checkblock =
     (case (if errReturn \<and> Height block > 0 then check_signs pe block else None) of
        Some e \<Rightarrow> Inl e
      | None \<Rightarrow>
          (case CheckTxDup pe (Txs block) (Height block) of
             Inl e \<Rightarrow> Inl e
           | Inr cacheTxs \<Rightarrow>
               if length (Txs block) \<noteq> length cacheTxs \<and> errReturn then Inl ErrTxDup
               else
                 let block1 = (if length (Txs block) \<noteq> length cacheTxs then block\<lparr>Txs := cacheTxs\<rparr> else block)
                 in case ExecTx pe prevStateRoot block1 of
                   Inl e \<Rightarrow> Inl e
                 | Inr receipts \<Rightarrow> finish_block pe prevStateRoot block1 errReturn sync checkblock receipts))"

definition ExecBlock ::
  "pre_env \<Rightarrow> bytes \<Rightarrow> transaction block \<Rightarrow> bool \<Rightarrow> bool \<Rightarrow> bool \<Rightarrow> go_error + (block_detail \<times> transaction list)" where
  "ExecBlock pe prevStateRoot block errReturn sync checkblock =
     (case PreExecBlock pe prevStateRoot block errReturn sync checkblock of
        Inl e \<Rightarrow> Inl e
      | Inr (detail, deltx) \<Rightarrow>
          (case StoreCommit pe (StateHash (bd_Block detail)) False of
             Some e \<Rightarrow> Inl e
           | None \<Rightarrow> Inr (detail, deltx)))"

text \<open>\<^verbatim>\<open>ExecBlockUpgrade\<close>, which executes an accepted block again for an upgraded store.\<close>

definition ExecBlockUpgrade :: "pre_env \<Rightarrow> bytes \<Rightarrow> transaction block \<Rightarrow> bool \<Rightarrow> go_error option" where
  "ExecBlockUpgrade pe prevStateRoot block sync =
     (case ExecTx pe prevStateRoot block of
        Inl e \<Rightarrow> Some e
      | Inr receipts \<Rightarrow>
          (case StoreMemSet pe prevStateRoot (Height block) (DelDupKey (writes receipts)) sync True of
             Inl e \<Rightarrow> Some e
           | Inr calcHash \<Rightarrow>
               if StateHash block \<noteq> calcHash then Some ErrCheckStateHash else StoreCommit pe calcHash True))"

section \<open>The pairs that are written\<close>

lemma DelDupKey_snoc: "DelDupKey (kvs @ [(k, v)]) = AList.update k v (DelDupKey kvs)"
  by (simp add: DelDupKey_def)

lemma DelDupKey_distinct: "distinct (map fst (DelDupKey kvs))"
proof (induction kvs rule: rev_induct)
  case (snoc kv kvs)
  then show ?case by (cases kv) (simp add: DelDupKey_snoc distinct_update)
qed (simp add: DelDupKey_def)

lemma apply_kvs_distinct:
  "distinct (map fst kvs) \<Longrightarrow> apply_kvs kvs V k = (case map_of kvs k of None \<Rightarrow> V k | Some v \<Rightarrow> stored v)"
proof (induction kvs arbitrary: V)
  case (Cons kv kvs)
  obtain j v where kv: "kv = (j, v)" by (cases kv)
  have "map_of kvs j = None" using Cons.prems kv by (simp add: map_of_eq_None_iff)
  with Cons kv show ?case by (cases "k = j") (auto split: option.splits)
qed simp

lemma DelDupKey_apply: "apply_kvs (DelDupKey kvs) V = apply_kvs kvs V"
proof
  fix k show "apply_kvs (DelDupKey kvs) V k = apply_kvs kvs V k"
  proof (induction kvs rule: rev_induct)
    case (snoc kv kvs)
    obtain j v where kv: "kv = (j, v)" by (cases kv)
    have "apply_kvs (DelDupKey (kvs @ [kv])) V k = (case map_of (DelDupKey (kvs @ [kv])) k of None \<Rightarrow> V k | Some v \<Rightarrow> stored v)"
      by (rule apply_kvs_distinct [OF DelDupKey_distinct])
    also have "\<dots> = ((\<lambda>x. case map_of (DelDupKey kvs) x of None \<Rightarrow> V x | Some v \<Rightarrow> stored v)(j := stored v)) k"
      by (simp add: kv DelDupKey_snoc update_conv')
    also have "\<dots> = apply_kvs (kvs @ [kv]) V k"
      using snoc by (simp add: kv apply_kvs_distinct [OF DelDupKey_distinct])
    finally show ?case .
  qed (simp add: DelDupKey_def)
qed

lemma last_of_hash_set: "hash ` set (last_of_hash hash txs) = hash ` set txs"
  by (induction txs) auto

lemma last_of_hash_distinct: "distinct (map hash (last_of_hash hash txs))"
proof (induction txs)
  case (Cons tx txs)
  then show ?case using last_of_hash_set [of hash txs] by auto
qed simp

lemma DelDupTx_spec:
  "distinct (map hash (DelDupTx hash txs))" "hash ` set (DelDupTx hash txs) = hash ` set txs"
  by (auto simp: DelDupTx_def last_of_hash_distinct last_of_hash_set)

section \<open>What is kept\<close>

lemma keep_txs_own:
  "keep_txs True txs rs = Inr (kept, deltxs, rdata, kvs) \<Longrightarrow> length txs = length rs \<Longrightarrow>
   kept = txs \<and> deltxs = [] \<and> rdata = map (\<lambda>r. \<lparr>rd_Ty = rc_Ty r, rd_Logs = rc_Logs r\<rparr>) rs \<and> kvs = writes rs \<and>
   (\<forall>r \<in> set rs. rc_Ty r \<noteq> ExecErr)"
  by (induction "True" txs rs arbitrary: kept deltxs rdata kvs rule: keep_txs.induct)
    (auto split: if_splits sum.splits)

lemma keep_txs_none:
  "keep_txs False txs rs = Inr (kept, [], rdata, kvs) \<Longrightarrow> length txs = length rs \<Longrightarrow>
   kept = txs \<and> keep_txs True txs rs = Inr (kept, [], rdata, kvs)"
  by (induction "False" txs rs arbitrary: kept rdata kvs rule: keep_txs.induct)
    (auto split: if_splits sum.splits)

lemma keep_txs_length: "keep_txs b txs rs = Inr x \<Longrightarrow> length rs \<le> length txs"
  by (induction b txs rs arbitrary: x rule: keep_txs.induct) (auto split: if_splits sum.splits)

section \<open>Properties\<close>

lemma PreExecBlock_cases:
  assumes "PreExecBlock pe prev block errReturn sync checkblock = Inr (detail, deltxs)"
  obtains cacheTxs receipts block1 where "CheckTxDup pe (Txs block) (Height block) = Inr cacheTxs"
    "errReturn \<longrightarrow> length (Txs block) = length cacheTxs"
    "block1 = (if length (Txs block) \<noteq> length cacheTxs then block\<lparr>Txs := cacheTxs\<rparr> else block)"
    "ExecTx pe prev block1 = Inr receipts"
    "finish_block pe prev block1 errReturn sync checkblock receipts = Inr (detail, deltxs)"
  using assms by (auto simp: PreExecBlock_def Let_def split: option.splits sum.splits if_splits)

lemma finish_block_cases:
  assumes "finish_block pe prev block errReturn sync checkblock receipts = Inr (detail, deltxs)"
  obtains kept rdata kvs txHash stateHash where
    "keep_txs errReturn (Txs block) receipts = Inr (kept, deltxs, rdata, kvs)"
    "calc_tx_hash pe (block\<lparr>Txs := kept\<rparr>) = Inr txHash" "errReturn \<longrightarrow> txHash = TxHash block"
    "StoreMemSet pe prev (Height block) (DelDupKey kvs) sync False = Inr stateHash"
    "errReturn \<longrightarrow> stateHash = StateHash block"
    "Height block > 0 \<and> checkblock \<longrightarrow> CheckBlock pe \<lparr>bd_Block = block\<lparr>Txs := kept, TxHash := txHash, StateHash := stateHash\<rparr>,
       bd_Receipts = rdata, bd_KV = [], bd_PrevStatusHash = []\<rparr> = None"
    "detail = \<lparr>bd_Block = block\<lparr>Txs := kept, TxHash := txHash, StateHash := stateHash\<rparr>, bd_Receipts = rdata,
       bd_KV = DelDupKey kvs, bd_PrevStatusHash = prev\<rparr>"
  using assms by (auto simp: finish_block_def Let_def split: option.splits sum.splits if_splits prod.splits)

lemma ExecTx_receipts:
  assumes "rollback_env (exec_ctx pe block)" "\<And>l. pe_localdb pe = Some l \<Longrightarrow> local_ok l" "\<not> pe_mvcc pe"
    and "ExecTx pe prev block = Inr receipts"
  shows "length receipts = length (Txs block) \<and>
    (\<exists>s. procExecTxList (exec_ctx pe block) (newExecutor (exec_ctx pe block) prev False (pe_localdb pe)) = (Inr receipts, s) \<and>
       (\<forall>k. fst (StateDB_Get (en_sdb (pe_exec pe)) (e_state s) k) = apply_kvs (writes receipts)
         (\<lambda>k. fst (StateDB_Get (en_sdb (pe_exec pe)) (NewStateDB True prev (Some (False, Height block))) k)) k))"
proof -
  obtain s where s: "procExecTxList (exec_ctx pe block) (newExecutor (exec_ctx pe block) prev False (pe_localdb pe)) = (Inr receipts, s)"
    using assms(3,4) by (cases "procExecTxList (exec_ctx pe block) (newExecutor (exec_ctx pe block) prev False (pe_localdb pe))")
      (simp add: ExecTx_def)
  have "group_result (exec_ctx pe block) (set (en_txs (exec_ctx pe block))) (length (en_txs (exec_ctx pe block)))
     (\<lambda>k. fst (StateDB_Get (en_sdb (exec_ctx pe block)) (NewStateDB True prev (Some (False, en_height (exec_ctx pe block)))) k)) receipts s"
    by (rule procExecTxList_result [OF assms(1,2) s])
  then have "length receipts = length (Txs block)"
    "StateDB_view (en_sdb (pe_exec pe)) (e_state s) = apply_kvs (writes receipts)
         (\<lambda>k. fst (StateDB_Get (en_sdb (pe_exec pe)) (NewStateDB True prev (Some (False, Height block))) k))"
    by (simp_all add: group_result_def Idle_def exec_ctx_def)
  with s show ?thesis by (metis StateDB_view_def)
qed

lemma accepted_block:
  assumes "rollback_env (exec_ctx pe block)" "\<And>l. pe_localdb pe = Some l \<Longrightarrow> local_ok l" "\<not> pe_mvcc pe"
    and "PreExecBlock pe prev block True sync checkblock = Inr (detail, deltxs)"
  shows "deltxs = [] \<and> bd_Block detail = block \<and> length (bd_Receipts detail) = length (Txs block) \<and>
    (\<forall>r \<in> set (bd_Receipts detail). rd_Ty r \<noteq> ExecErr) \<and> distinct (map fst (bd_KV detail)) \<and>
    StoreMemSet pe prev (Height block) (bd_KV detail) sync False = Inr (StateHash block) \<and>
    (\<exists>receipts s. procExecTxList (exec_ctx pe block) (newExecutor (exec_ctx pe block) prev False (pe_localdb pe)) = (Inr receipts, s) \<and>
       (\<forall>k. fst (StateDB_Get (en_sdb (pe_exec pe)) (e_state s) k) = apply_kvs (bd_KV detail)
         (\<lambda>k. fst (StateDB_Get (en_sdb (pe_exec pe)) (NewStateDB True prev (Some (False, Height block))) k)) k))"
proof -
  obtain receipts where run: "ExecTx pe prev block = Inr receipts"
    and fin: "finish_block pe prev block True sync checkblock receipts = Inr (detail, deltxs)"
    using PreExecBlock_cases [OF assms(4)] by (metis (no_types, lifting))
  obtain kept rdata kvs where k: "keep_txs True (Txs block) receipts = Inr (kept, deltxs, rdata, kvs)"
    and mem: "StoreMemSet pe prev (Height block) (DelDupKey kvs) sync False = Inr (StateHash block)"
    and d: "detail = \<lparr>bd_Block = block\<lparr>Txs := kept, TxHash := TxHash block, StateHash := StateHash block\<rparr>, bd_Receipts = rdata,
       bd_KV = DelDupKey kvs, bd_PrevStatusHash = prev\<rparr>"
    by (rule finish_block_cases [OF fin]) simp
  note ex = ExecTx_receipts [OF assms(1-3) run]
  from keep_txs_own [OF k] ex have "kept = Txs block" "deltxs = []" "kvs = writes receipts"
    "rdata = map (\<lambda>r. \<lparr>rd_Ty = rc_Ty r, rd_Logs = rc_Logs r\<rparr>) receipts" "\<forall>r \<in> set receipts. rc_Ty r \<noteq> ExecErr"
    by auto
  with ex mem d show ?thesis by (auto simp: DelDupKey_distinct DelDupKey_apply)
qed

text \<open>
  C12. A node that checks a block of another node accepts it only as it is: no transaction is
  dropped, every one was executed, and the block is returned unchanged. What it hands to the store
  has every key once and is exactly what the execution changed in the state, and the store
  answered it with the state hash of the block.
\<close>

theorem PreExecBlock_accepts_unchanged:
  assumes "rollback_env (exec_ctx pe block)" "\<And>l. pe_localdb pe = Some l \<Longrightarrow> local_ok l" "\<not> pe_mvcc pe"
    and "PreExecBlock pe prev block True sync checkblock = Inr (detail, deltxs)"
  shows "deltxs = [] \<and> bd_Block detail = block \<and> length (bd_Receipts detail) = length (Txs block) \<and>
    (\<forall>r \<in> set (bd_Receipts detail). rd_Ty r \<noteq> ExecErr) \<and> distinct (map fst (bd_KV detail)) \<and>
    StoreMemSet pe prev (Height block) (bd_KV detail) sync False = Inr (StateHash block) \<and>
    (\<exists>receipts s. procExecTxList (exec_ctx pe block) (newExecutor (exec_ctx pe block) prev False (pe_localdb pe)) = (Inr receipts, s) \<and>
       (\<forall>k. fst (StateDB_Get (en_sdb (pe_exec pe)) (e_state s) k) = apply_kvs (bd_KV detail)
         (\<lambda>k. fst (StateDB_Get (en_sdb (pe_exec pe)) (NewStateDB True prev (Some (False, Height block))) k)) k))"
  by (rule accepted_block [OF assms])

text \<open>
  C13. An honest block is accepted: when a node made a block and no transaction had to be dropped,
  another node whose modules answer alike executes it to the same receipts, pairs and hashes.
\<close>

theorem own_block_is_accepted:
  assumes "rollback_env (exec_ctx pe block)" "\<And>l. pe_localdb pe = Some l \<Longrightarrow> local_ok l" "\<not> pe_mvcc pe"
    and "PreExecBlock pe prev block False sync checkblock = Inr (detail, [])"
    and "length (Txs (bd_Block detail)) = length (Txs block)"
    and "check_signs pe (bd_Block detail) = None"
  shows "PreExecBlock pe prev (bd_Block detail) True sync checkblock = Inr (detail, [])"
proof -
  obtain cacheTxs receipts block1 where dup: "CheckTxDup pe (Txs block) (Height block) = Inr cacheTxs"
    and b1: "block1 = (if length (Txs block) \<noteq> length cacheTxs then block\<lparr>Txs := cacheTxs\<rparr> else block)"
    and run: "ExecTx pe prev block1 = Inr receipts"
    and fin: "finish_block pe prev block1 False sync checkblock receipts = Inr (detail, [])"
    by (rule PreExecBlock_cases [OF assms(4)])
  obtain kept rdata kvs txHash stateHash where k: "keep_txs False (Txs block1) receipts = Inr (kept, [], rdata, kvs)"
    and h: "calc_tx_hash pe (block1\<lparr>Txs := kept\<rparr>) = Inr txHash"
    and mem: "StoreMemSet pe prev (Height block1) (DelDupKey kvs) sync False = Inr stateHash"
    and chk: "Height block1 > 0 \<and> checkblock \<longrightarrow> CheckBlock pe \<lparr>bd_Block = block1\<lparr>Txs := kept, TxHash := txHash, StateHash := stateHash\<rparr>,
       bd_Receipts = rdata, bd_KV = [], bd_PrevStatusHash = []\<rparr> = None"
    and d: "detail = \<lparr>bd_Block = block1\<lparr>Txs := kept, TxHash := txHash, StateHash := stateHash\<rparr>, bd_Receipts = rdata,
       bd_KV = DelDupKey kvs, bd_PrevStatusHash = prev\<rparr>"
    by (rule finish_block_cases [OF fin])
  have "rollback_env (exec_ctx pe block1)"
    using assms(1) by (simp add: b1 rollback_env_def registry_ok_def en_fork_def exec_ctx_def)
  from ExecTx_receipts [OF this assms(2,3) run] keep_txs_none [OF k]
  have kept: "kept = Txs block1" and k': "keep_txs True (Txs block1) receipts = Inr (kept, [], rdata, kvs)" by auto
  have len: "length cacheTxs = length (Txs block)" and same: "block1 = block"
    using assms(5) d kept by (auto simp: b1 split: if_splits)
  let ?b = "block\<lparr>TxHash := txHash, StateHash := stateHash\<rparr>"
  have b: "bd_Block detail = ?b" using d kept same by simp
  have "ExecTx pe prev ?b = Inr receipts" using run same by (simp add: ExecTx_def exec_ctx_def)
  moreover have "calc_tx_hash pe ?b = calc_tx_hash pe (block\<lparr>Txs := Txs block\<rparr>)"
    by (simp add: calc_tx_hash_def Let_def)
  then have "calc_tx_hash pe ?b = Inr txHash" using h kept same by simp
  ultimately show ?thesis
    using dup len k' kept mem chk d same assms(6)
    by (simp add: b PreExecBlock_def finish_block_def Let_def)
qed

section \<open>A refused transaction shifts the index\<close>

text \<open>
  C22. A driver finds the group of its transaction in the list of the block by the index the
  executor gives it, but the executor counts only the transactions it did not refuse. When the
  first transaction of a new block is refused, the group behind it runs with index 0, where the
  list still holds the refused one, and \<^verbatim>\<open>GetTxGroup\<close> fails; a node that checks the block,
  from which the refused transaction was dropped, runs the same group with the same index and finds it.
\<close>

theorem refused_tx_shifts_index:
  assumes "GroupCount bad = 0" "execTx env bad 0 0 s = (Inl e, s1)" "e \<noteq> GoPanic" "\<not> IsAPIEnvError env e"
    and "grp \<noteq> []" "length grp \<le> 20" "GroupCount (hd grp) = int (length grp)"
    and "TxHeader (hd grp) = Some (tx_Hash (en_tx env) (hd grp))"
    and "group_Check (en_tx env) (en_cfg env) (en_height env) (en_MinTxFeeRate env) (en_MaxTxFee env (en_height env))
      (map Some grp) = None"
  shows "exec_list env 0 0 (bad # grp) [] s = exec_list env 1 0 grp [NewErrReceipt env e] s1 \<and>
    drv_GetTxGroup env (setEnv (env\<lparr>en_txs := bad # grp\<rparr>) ob) 0 = Inl ErrTxGroupCount \<and>
    drv_GetTxGroup env (setEnv (env\<lparr>en_txs := grp\<rparr>) ob) 0 = Inr grp"
proof (intro conjI)
  show "exec_list env 0 0 (bad # grp) [] s = exec_list env 1 0 grp [NewErrReceipt env e] s1"
    using assms(1-4) by (simp add: try_ex_def)
  show "drv_GetTxGroup env (setEnv (env\<lparr>en_txs := bad # grp\<rparr>) ob) 0 = Inl ErrTxGroupCount"
    using assms(1) by (simp add: drv_GetTxGroup_def setEnv_def)
  obtain tx rest where g: "grp = tx # rest" using assms(5) by (cases grp) auto
  have "GroupCount tx = 1 + int (length rest)" "length rest < 20" "nat (1 + int (length rest)) = Suc (length rest)"
    using assms(6,7) g by auto
  with assms(8,9) show "drv_GetTxGroup env (setEnv (env\<lparr>en_txs := grp\<rparr>) ob) 0 = Inr grp"
    by (simp add: drv_GetTxGroup_def setEnv_def g MaxTxGroupSize_def bytes_equal_def Let_def)
qed

end
