(* ===== verification/Block_State.thy ===== *)
theory Block_State
  imports Block_Exec Mavl_Versions
begin

text \<open>
  The executor of \<open>Exec_Block\<close>, the block execution of \<open>Block_Exec\<close> and the state store of
  \<open>Mavl_Store\<close> put together: what the executor reads and what \<^verbatim>\<open>ExecKVMemSet\<close> writes are
  messages to the store, so the state hash of an accepted block names the state its execution
  ended with.
\<close>

text \<open>A key of the executor is a string, one of the store a list of bytes.\<close>

definition key_bytes :: "string \<Rightarrow> bytes" where
  "key_bytes k = map (\<lambda>c. of_nat (of_char c)) k"

definition store_pairs :: "(string \<times> gobytes) list \<Rightarrow> (bytes \<times> bytes) list" where
  "store_pairs kvs = map (\<lambda>(k, v). (key_bytes k, go_bytes v)) kvs"

text \<open>The message \<^verbatim>\<open>EventStoreGet\<close> of \<^verbatim>\<open>StateDB.get\<close>, and the value of its reply.\<close>

definition store_read :: "mavl_env \<Rightarrow> mavl_store \<Rightarrow> bytes \<Rightarrow> string \<Rightarrow> store_reply" where
  "store_read menv st root k =
     (case processMessage menv st (EventStoreGet (Some root) [key_bytes k]) of
        Some (ReplyValues (v # vs), _) \<Rightarrow> StoreValue v
      | Some (ReplyValues [], _) \<Rightarrow> NoValues
      | _ \<Rightarrow> WaitFailed)"

definition ExecKVMemSet ::
  "mavl_env \<Rightarrow> mavl_store \<Rightarrow> bytes \<Rightarrow> int \<Rightarrow> (string \<times> gobytes) list \<Rightarrow> bool \<Rightarrow> bool \<Rightarrow> go_error + bytes" where
  "ExecKVMemSet menv st prevStateRoot height kvset sync upgrade =
     (case processMessage menv st (EventStoreMemSet (Some prevStateRoot) height (store_pairs kvset) upgrade) of
        Some (ReplyHash h, _) \<Rightarrow> Inr (go_bytes h)
      | Some (ReplyErr e, _) \<Rightarrow> Inl e
      | _ \<Rightarrow> Inl GoPanic)"

text \<open>The modules of \<open>pre_env\<close> use the store \<open>st\<close> and read the state \<open>root\<close>.\<close>

definition on_store :: "pre_env \<Rightarrow> mavl_env \<Rightarrow> mavl_store \<Rightarrow> bytes \<Rightarrow> bool" where
  "on_store pe menv st root \<longleftrightarrow>
     StoreGet (en_sdb (pe_exec pe)) = store_read menv st root \<and> StoreMemSet pe = ExecKVMemSet menv st"

section \<open>States as maps\<close>

lemma of_char_inj: "(of_nat (of_char c) :: 8 word) = of_nat (of_char d) \<Longrightarrow> c = d"
proof -
  assume "(of_nat (of_char c) :: 8 word) = of_nat (of_char d)"
  then have "of_char c mod (256 :: nat) = of_char d mod 256" by (simp add: word_of_nat_eq_iff take_bit_eq_mod)
  moreover have "of_char x < (256 :: nat)" for x by simp
  ultimately show "c = d" by simp
qed

lemma key_bytes_inj [simp]: "key_bytes a = key_bytes b \<longleftrightarrow> a = b"
proof -
  have "inj (\<lambda>c. of_nat (of_char c) :: 8 word)" by (rule injI) (rule of_char_inj)
  then show ?thesis by (auto simp: key_bytes_def dest: map_injective)
qed

lemma store_pairs_simps [simp]:
  "store_pairs [] = []" "store_pairs ((k, v) # kvs) = (key_bytes k, go_bytes v) # store_pairs kvs"
  "length (store_pairs kvs) = length kvs" "store_pairs kvs = [] \<longleftrightarrow> kvs = []"
  by (simp_all add: store_pairs_def)

text \<open>Writing the pairs to the tree is writing them to the state.\<close>

lemma apply_kvs_pairs:
  "sorted_wrt (<) (map fst xs) \<Longrightarrow> None \<notin> snd ` set kvs \<Longrightarrow>
   apply_kvs kvs (\<lambda>k. stored (map_of xs (key_bytes k))) k = stored (map_of (kv_sets (store_pairs kvs) xs) (key_bytes k))"
proof (induction kvs arbitrary: xs)
  case (Cons kv kvs)
  obtain j v where kv: "kv = (j, Some v)" using Cons.prems(2) by (cases kv; cases "snd kv") auto
  have "(\<lambda>k. stored (map_of xs (key_bytes k)))(j := stored (Some v)) = (\<lambda>k. stored (map_of (kv_set (key_bytes j) v xs) (key_bytes k)))"
    by (auto simp: map_of_kv_set [OF Cons.prems(1)])
  moreover have "apply_kvs kvs (\<lambda>k. stored (map_of (kv_set (key_bytes j) v xs) (key_bytes k))) k =
      stored (map_of (kv_sets (store_pairs kvs) (kv_set (key_bytes j) v xs)) (key_bytes k))"
    using Cons.IH [OF sorted_kv_set [OF Cons.prems(1)]] Cons.prems(2) by simp
  ultimately show ?case by (simp add: kv kv_sets_def go_bytes_def)
qed (simp add: kv_sets_def)

lemma store_read_shows:
  assumes "shows_state menv st root xs" "length xs < 2 ^ 31"
  shows "store_read menv st root k = StoreValue (map_of xs (key_bytes k))"
  by (simp add: store_read_def processMessage_def Store_Get_shows [OF assms])

lemma StateDB_Get_new:
  assumes "StoreGet sdb = (\<lambda>k. StoreValue (f k))"
  shows "fst (StateDB_Get sdb (NewStateDB True root (Some (False, h))) k) = stored (f k)"
  by (auto simp: StateDB_Get_def NewStateDB_def cacheDB_Get_def stored_def assms split: option.splits)

section \<open>The state hash of a block\<close>

text \<open>
  C4. The state hash in the header of an accepted block names the state that executing the block
  ended with: the store answered the pairs of the block with that hash, and after the commit it
  answers every lookup under the hash with what the executor would read, whatever was in the tree
  before and wherever its nodes were.
\<close>

theorem accepted_block_names_state:
  assumes "rollback_env (exec_ctx pe block)" "\<And>l. pe_localdb pe = Some l \<Longrightarrow> local_ok l" "\<not> pe_mvcc pe"
    and "on_store pe menv st prev" "version_tree menv (ms_db st) (Some prev) t" "ms_trees st prev = None"
    and "PreExecBlock pe prev block True sync checkblock = Inr (detail, deltxs)"
    and "bd_KV detail \<noteq> []" "None \<notin> snd ` set (bd_KV detail)" "length (oinorder t) + length (bd_KV detail) < 2 ^ 31"
    and "plain_config menv" "oset_all (store_pairs (bd_KV detail)) t = Some t'" "no_clash menv (ms_db st) t'"
      "ahash menv t' \<noteq> emptyRoot"
  shows "\<exists>st1 st2 receipts s.
    processMessage menv st (EventStoreMemSet (Some prev) (Height block) (store_pairs (bd_KV detail)) False) =
      Some (ReplyHash (Some (StateHash block)), st1) \<and>
    processMessage menv st1 (EventStoreCommit (Some (StateHash block)) False) = Some (ReplyHash (Some (StateHash block)), st2) \<and>
    procExecTxList (exec_ctx pe block) (newExecutor (exec_ctx pe block) prev False (pe_localdb pe)) = (Inr receipts, s) \<and>
    (\<forall>k. \<exists>v. processMessage menv st2 (EventStoreGet (Some (StateHash block)) [key_bytes k]) = Some (ReplyValues [v], st2) \<and>
      fst (StateDB_Get (en_sdb (pe_exec pe)) (e_state s) k) = stored v)"
proof -
  let ?kvs = "store_pairs (bd_KV detail)" and ?xs = "oinorder t"
  obtain receipts s where run: "procExecTxList (exec_ctx pe block) (newExecutor (exec_ctx pe block) prev False (pe_localdb pe)) = (Inr receipts, s)"
    and mem: "StoreMemSet pe prev (Height block) (bd_KV detail) sync False = Inr (StateHash block)"
    and view: "\<And>k. fst (StateDB_Get (en_sdb (pe_exec pe)) (e_state s) k) = apply_kvs (bd_KV detail)
         (\<lambda>k. fst (StateDB_Get (en_sdb (pe_exec pe)) (NewStateDB True prev (Some (False, Height block))) k)) k"
    using accepted_block [OF assms(1-3,7)] by blast
  have np: "\<not> EnableMavlPrefix menv" using assms(11) by (simp add: plain_config_def)
  obtain T where T: "Store_MemSet menv st (Some prev) (Height block) ?kvs =
      Some (Inr (Some (ahash menv t')), keep_tree (Some (ahash menv t')) (Some T) st)"
    "pending_tree menv (keep_tree (Some (ahash menv t')) (Some T) st) t'" "inorder t' = kv_sets ?kvs ?xs"
    using Store_MemSet_ok [OF assms(5) _ _ np assms(12)] assms(8,10) by auto
  let ?st1 = "keep_tree (Some (ahash menv t')) (Some T) st"
  have h: "StateHash block = ahash menv t'"
    using mem assms(4) T(1) by (simp add: on_store_def ExecKVMemSet_def processMessage_def hash_reply_def)
  obtain db' where c: "Store_Commit menv ?st1 (Some (ahash menv t')) =
      Some (Inr (Some (ahash menv t')), drop_tree (Some (ahash menv t')) (?st1\<lparr>ms_db := db'\<rparr>))"
    "version_tree menv db' (Some (ahash menv t')) (Some t')"
    using Store_Commit_ok [OF T(2) assms(11) _ assms(14)] assms(13) by (auto simp: keep_tree_def)
  let ?st2 = "drop_tree (Some (ahash menv t')) (?st1\<lparr>ms_db := db'\<rparr>)"
  have len: "length (kv_sets ?kvs ?xs) < 2 ^ 31" using length_kv_sets [of ?kvs ?xs] assms(10) by simp
  have "shows_state menv ?st2 (ahash menv t') (kv_sets ?kvs ?xs)"
    unfolding shows_state_def version_def using c(2) T(3) by (auto simp: drop_tree_def intro: exI [of _ "Some t'"])
  from Store_Get_shows [OF this len]
  have get: "processMessage menv ?st2 (EventStoreGet (Some (StateHash block)) [key_bytes k]) =
      Some (ReplyValues [map_of (kv_sets ?kvs ?xs) (key_bytes k)], ?st2)" for k
    by (simp add: processMessage_def h)
  have "shows_state menv st prev ?xs" using assms(5,6) by (auto simp: shows_state_def version_def)
  then have "StoreGet (en_sdb (pe_exec pe)) = (\<lambda>k. StoreValue (map_of ?xs (key_bytes k)))"
    using store_read_shows [of menv st prev ?xs] assms(4,10) by (auto simp: on_store_def)
  from StateDB_Get_new [OF this]
  have "fst (StateDB_Get (en_sdb (pe_exec pe)) (e_state s) k) = stored (map_of (kv_sets ?kvs ?xs) (key_bytes k))" for k
    using view [of k] apply_kvs_pairs [of ?xs "bd_KV detail" k] assms(5,9) sorted_oinorder by (simp add: version_tree_def)
  then show ?thesis
    using run T(1) c(1) get
    by (intro exI [of _ ?st1] exI [of _ ?st2] exI [of _ receipts] exI [of _ s])
      (auto simp: processMessage_def hash_reply_def h)
qed

end
