(* ===== verification/Coins_Driver.thy ===== *)
theory Coins_Driver
  imports Exec_Logic
begin

text \<open>
  The contract of the native coin, \<^verbatim>\<open>system/dapp/coins\<close>, as a \<open>driver\<close> of the executor: its
  actions run the operations of \<open>Account\<close> on the state, and its local data counts what every
  address has received. The methods it takes from \<^verbatim>\<open>DriverBase\<close>
  (\<^verbatim>\<open>system/dapp/driver.go\<close>) call an action by its name and recover from a panic.
\<close>

section \<open>Messages\<close>

text \<open>
  The message \<^verbatim>\<open>CoinsAction\<close>: a type and one of the four values, or none. The getter of a
  value the message does not hold returns a nil pointer.
\<close>

record assets_to_exec =
  ax_ExecName :: string
  ax_Amount :: int

record assets_genesis =
  ag_Amount :: int
  ag_ReturnAddress :: string

datatype coins_value =
    ValTransfer int
  | ValTransferToExec assets_to_exec
  | ValWithdraw assets_to_exec
  | ValGenesis assets_genesis

record coins_msg =
  cm_Ty :: int
  cm_Value :: "coins_value option"

definition CoinsActionTransfer :: int where "CoinsActionTransfer = 1"
definition CoinsActionGenesis :: int where "CoinsActionGenesis = 2"
definition CoinsActionWithdraw :: int where "CoinsActionWithdraw = 3"
definition CoinsActionTransferToExec :: int where "CoinsActionTransferToExec = 10"

definition GetTransfer :: "coins_msg \<Rightarrow> int option" where
  "GetTransfer m = (case cm_Value m of Some (ValTransfer a) \<Rightarrow> Some a | _ \<Rightarrow> None)"

definition GetTransferToExec :: "coins_msg \<Rightarrow> assets_to_exec option" where
  "GetTransferToExec m = (case cm_Value m of Some (ValTransferToExec v) \<Rightarrow> Some v | _ \<Rightarrow> None)"

definition GetWithdraw :: "coins_msg \<Rightarrow> assets_to_exec option" where
  "GetWithdraw m = (case cm_Value m of Some (ValWithdraw v) \<Rightarrow> Some v | _ \<Rightarrow> None)"

definition GetGenesis :: "coins_msg \<Rightarrow> assets_genesis option" where
  "GetGenesis m = (case cm_Value m of Some (ValGenesis v) \<Rightarrow> Some v | _ \<Rightarrow> None)"

record coins_sub =
  DisableAddrReceiver :: bool
  DisableCheckTxAmount :: bool
  FriendExecer :: "string list"

text \<open>The codec of protobuf messages, beside the environment of the executor.\<close>

record coins_env =
  co_env :: exec_env
  co_sub :: coins_sub
  co_Decode :: "bytes \<Rightarrow> go_error + coins_msg"
  co_DecodeInt64 :: "bytes \<Rightarrow> go_error + int"
  co_EncodeInt64 :: "int \<Rightarrow> bytes"

text \<open>
  \<^verbatim>\<open>DecodePayloadValue\<close>: the name of the action and its value. Its test for a nil value
  compares an interface that holds a typed pointer, so only an unknown type fails it.
\<close>

datatype coins_call =
    CallTransfer "int option"
  | CallTransferToExec "assets_to_exec option"
  | CallWithdraw "assets_to_exec option"
  | CallGenesis "assets_genesis option"

definition coins_decode :: "coins_env \<Rightarrow> transaction \<Rightarrow> go_error + coins_call" where
  "coins_decode ce tx =
     (if Payload tx = [] then Inl ErrActionNotSupport
      else case co_Decode ce (Payload tx) of
        Inl e \<Rightarrow> Inl e
      | Inr m \<Rightarrow>
          if cm_Ty m = CoinsActionTransfer then Inr (CallTransfer (GetTransfer m))
          else if cm_Ty m = CoinsActionTransferToExec then Inr (CallTransferToExec (GetTransferToExec m))
          else if cm_Ty m = CoinsActionWithdraw then Inr (CallWithdraw (GetWithdraw m))
          else if cm_Ty m = CoinsActionGenesis then Inr (CallGenesis (GetGenesis m))
          else Inl ErrActionNotSupport)"

text \<open>The getter \<^verbatim>\<open>GetAmount\<close> of a nil message returns 0.\<close>

definition call_amount :: "coins_call \<Rightarrow> int" where
  "call_amount c =
     (case c of
        CallTransfer v \<Rightarrow> (case v of None \<Rightarrow> 0 | Some a \<Rightarrow> a)
      | CallTransferToExec v \<Rightarrow> (case v of None \<Rightarrow> 0 | Some x \<Rightarrow> ax_Amount x)
      | CallWithdraw v \<Rightarrow> (case v of None \<Rightarrow> 0 | Some x \<Rightarrow> ax_Amount x)
      | CallGenesis v \<Rightarrow> (case v of None \<Rightarrow> 0 | Some g \<Rightarrow> ag_Amount g))"

definition Amount :: "coins_env \<Rightarrow> transaction \<Rightarrow> go_error + int" where
  "Amount ce tx = (case coins_decode ce tx of Inl e \<Rightarrow> Inl e | Inr c \<Rightarrow> Inr (call_amount c))"

section \<open>Permissions and checks\<close>

definition AllowIsSame :: "exec_env \<Rightarrow> string \<Rightarrow> string \<Rightarrow> bool" where
  "AllowIsSame env driverName execer1 \<longleftrightarrow> driverName = GetParaExec (en_cfg env) execer1"

definition base_Allow :: "exec_env \<Rightarrow> string \<Rightarrow> int \<Rightarrow> transaction \<Rightarrow> int \<Rightarrow> go_error option" where
  "base_Allow env driverName height tx index =
     (if AllowIsSame env driverName (Execer tx) then None else Some ErrNotAllow)"

definition coins_CheckTx :: "coins_env \<Rightarrow> transaction \<Rightarrow> go_error + unit" where
  "coins_CheckTx ce tx =
     (if \<not> DisableCheckTxAmount (co_sub ce) then
        case Amount ce tx of
          Inl e \<Rightarrow> Inl e
        | Inr amount \<Rightarrow> if amount < 0 then Inl ErrAmount else Inr ()
      else Inr ())"

definition coins_IsFriend :: "coins_env \<Rightarrow> drv_ctx \<Rightarrow> string \<Rightarrow> string \<Rightarrow> transaction \<Rightarrow> bool" where
  "coins_IsFriend ce ctx myexec writekey othertx =
     (let env = co_env ce
      in if \<not> AllowIsSame env ''coins'' myexec then False
         else if en_ActionName env othertx = ''miner'' \<and>
           (\<exists>exec \<in> set (MinerExecs (en_acc env)). ExecName (en_acc env) exec = Execer othertx) then True
         else if \<not> IsDappFork (cfg_forks (en_cfg env)) (c_height ctx) ''coins'' ''ForkFriendExecer'' then False
         else
           IsEthSignID (defaultAddressID (en_tx env)) (case TxSignature othertx of None \<Rightarrow> 0 | Some sg \<Rightarrow> tx_signature.Ty sg) \<and>
           (\<exists>friendExec \<in> set (FriendExecer (co_sub ce)). ExecName (en_acc env) friendExec = Execer othertx \<and>
              take 11 writekey = ''mavl-coins-''))"

section \<open>Operations of the ledger on the state\<close>

text \<open>
  An operation of \<open>Account\<close> on the state a driver sees: \<open>keys\<close> are the accounts it loads. A read
  the store does not answer panics before anything is written; what a failed operation wrote are
  the keys it left changed.
\<close>

definition state_account :: "coins_env \<Rightarrow> kv_view \<Rightarrow> bytes acc_db" where
  "state_account ce sv =
     SetDB (NewCoinsAccount (en_acc (co_env ce))) (\<lambda>k. case kv_get sv k of Inl e \<Rightarrow> None | Inr v \<Rightarrow> Some v)"

definition to_receipt :: "bytes receipt \<Rightarrow> exec_receipt" where
  "to_receipt r =
     \<lparr>rc_Ty = int (receipt.Ty r), rc_KV = map (\<lambda>(k, v). (k, Some v)) (KV r),
      rc_Logs = map (\<lambda>l. \<lparr>log_Ty = int (LogTy l), log_Log = LogData l\<rparr>) (Logs r)\<rparr>"

definition ledger_run ::
  "coins_env \<Rightarrow> kv_view \<Rightarrow> string list \<Rightarrow> (bytes acc_db \<Rightarrow> bytes acc_result) \<Rightarrow>
   (go_error + exec_receipt option) \<times> tx_op list" where
  "ledger_run ce sv keys f =
     (let reads = map Read keys; acc = state_account ce sv
      in if \<exists>k \<in> set keys. kv_get sv k = Inl GoPanic then (Inl GoPanic, reads)
         else case f acc of
           (Inr r, acc1) \<Rightarrow> (Inr (Some (to_receipt r)), reads @ map (\<lambda>(k, v). Write k (Some v)) (KV r))
         | (Inl e, acc1) \<Rightarrow> (Inl e, reads @ map (\<lambda>k. Write k (db acc1 k)) (filter (\<lambda>k. db acc1 k \<noteq> db acc k) keys)))"

definition main_key :: "coins_env \<Rightarrow> string \<Rightarrow> string" where
  "main_key ce addr = AccountKey (en_acc (co_env ce)) (NewCoinsAccount (en_acc (co_env ce))) addr"

definition exec_key :: "coins_env \<Rightarrow> string \<Rightarrow> string \<Rightarrow> string" where
  "exec_key ce addr execaddr = execAccountKey (en_acc (co_env ce)) (NewCoinsAccount (en_acc (co_env ce))) addr execaddr"

section \<open>Actions\<close>

text \<open>The value of an action may be a nil pointer, whose field is read when the action runs.\<close>

definition Exec_Transfer :: "coins_env \<Rightarrow> drv_ctx \<Rightarrow> int option \<Rightarrow> transaction \<Rightarrow> kv_view \<Rightarrow>
    (go_error + exec_receipt option) \<times> tx_op list" where
  "Exec_Transfer ce ctx transfer tx sv =
     (let env = co_env ce; frm = From (en_tx env) tx; dest = en_GetRealToAddr env tx
      in case transfer of
           None \<Rightarrow> (Inl GoPanic, [])
         | Some amount \<Rightarrow>
             if IsDriverAddress env dest (c_height ctx)
             then ledger_run ce sv [main_key ce frm, main_key ce dest, exec_key ce frm dest]
                    (\<lambda>acc. TransferToExec (en_acc env) acc frm dest amount)
             else ledger_run ce sv [main_key ce frm, main_key ce dest]
                    (\<lambda>acc. Transfer (en_acc env) acc frm dest amount))"

text \<open>\<^verbatim>\<open>isExecAddrMatch\<close>; the address of a name that is too long panics.\<close>

definition isExecAddrMatch :: "coins_env \<Rightarrow> string \<Rightarrow> string \<Rightarrow> go_error + bool" where
  "isExecAddrMatch ce name dest =
     (case ExecPubKey (co_env ce) name of
        Inl e \<Rightarrow> Inl e
      | Inr pubKey \<Rightarrow> Inr (en_PubKeyToExecAddr (co_env ce) pubKey = dest))"

definition Exec_TransferToExec :: "coins_env \<Rightarrow> drv_ctx \<Rightarrow> assets_to_exec option \<Rightarrow> transaction \<Rightarrow> kv_view \<Rightarrow>
    (go_error + exec_receipt option) \<times> tx_op list" where
  "Exec_TransferToExec ce ctx transfer tx sv =
     (let env = co_env ce; frm = From (en_tx env) tx; dest = en_GetRealToAddr env tx
      in if \<not> IsFork (cfg_forks (en_cfg env)) (c_height ctx) ''ForkTransferExec'' then (Inl ErrActionNotSupport, [])
         else case transfer of
           None \<Rightarrow> (Inl GoPanic, [])
         | Some v \<Rightarrow>
             (case isExecAddrMatch ce (ax_ExecName v) dest of
                Inl e \<Rightarrow> (Inl e, [])
              | Inr b \<Rightarrow>
                  if \<not> b then (Inl ErrToAddrNotSameToExecAddr, [])
                  else ledger_run ce sv [main_key ce frm, main_key ce dest, exec_key ce frm dest]
                         (\<lambda>acc. TransferToExec (en_acc env) acc frm dest (ax_Amount v))))"

definition Exec_Withdraw :: "coins_env \<Rightarrow> drv_ctx \<Rightarrow> assets_to_exec option \<Rightarrow> transaction \<Rightarrow> kv_view \<Rightarrow>
    (go_error + exec_receipt option) \<times> tx_op list" where
  "Exec_Withdraw ce ctx withdraw tx sv =
     (let env = co_env ce; frm = From (en_tx env) tx; dest = en_GetRealToAddr env tx;
          fork = IsFork (cfg_forks (en_cfg env)) (c_height ctx) ''ForkWithdraw''
      in case withdraw of
           None \<Rightarrow> (Inl GoPanic, [])
         | Some v \<Rightarrow>
             let name = (if fork then ax_ExecName v else []);
                 own = (if IsDriverAddress env dest (c_height ctx) then Inr True else isExecAddrMatch ce name dest)
             in (case own of
                   Inl e \<Rightarrow> (Inl e, [])
                 | Inr b \<Rightarrow>
                     if b then ledger_run ce sv [main_key ce dest, exec_key ce frm dest, main_key ce frm]
                                 (\<lambda>acc. TransferWithdraw (en_acc env) acc frm dest (ax_Amount v))
                     else (Inl ErrActionNotSupport, [])))"

definition Exec_Genesis :: "coins_env \<Rightarrow> drv_ctx \<Rightarrow> assets_genesis option \<Rightarrow> transaction \<Rightarrow> kv_view \<Rightarrow>
    (go_error + exec_receipt option) \<times> tx_op list" where
  "Exec_Genesis ce ctx genesis tx sv =
     (let env = co_env ce; dest = en_GetRealToAddr env tx
      in if c_height ctx = 0 then
           case genesis of
             None \<Rightarrow> (Inl GoPanic, [])
           | Some g \<Rightarrow>
               if IsDriverAddress env dest (c_height ctx)
               then ledger_run ce sv [main_key ce dest, exec_key ce (ag_ReturnAddress g) dest]
                      (\<lambda>acc. GenesisInitExec (en_acc env) acc (ag_ReturnAddress g) (ag_Amount g) dest)
               else ledger_run ce sv [main_key ce dest]
                      (\<lambda>acc. GenesisInit (en_acc env) acc dest (ag_Amount g))
         else (Inl ErrReRunGenesis, []))"

text \<open>\<^verbatim>\<open>DriverBase.Exec\<close>: it calls the action and answers a panic with an error.\<close>

definition coins_Exec :: "coins_env \<Rightarrow> drv_ctx \<Rightarrow> transaction \<Rightarrow> int \<Rightarrow> kv_view \<Rightarrow> exec_receipt option drv_out" where
  "coins_Exec ce ctx tx index sv =
     (case (case coins_decode ce tx of
              Inl e \<Rightarrow> (Inl e, [])
            | Inr c \<Rightarrow>
                (case c of
                   CallTransfer v \<Rightarrow> Exec_Transfer ce ctx v tx sv
                 | CallTransferToExec v \<Rightarrow> Exec_TransferToExec ce ctx v tx sv
                 | CallWithdraw v \<Rightarrow> Exec_Withdraw ce ctx v tx sv
                 | CallGenesis v \<Rightarrow> Exec_Genesis ce ctx v tx sv)) of
        (res, ops) \<Rightarrow>
          \<lparr>out_res = (if res = Inl GoPanic then Inl ErrActionNotSupport else res), out_state = ops, out_local = []\<rparr>)"

section \<open>Local data: what an address has received\<close>

definition calcAddrKey :: "coins_env \<Rightarrow> string \<Rightarrow> string" where
  "calcAddrKey ce addr = ''LODB-coins-Addr:'' @ FormatAddrKey (en_acc (co_env ce)) addr"

definition geAddrReciverKV :: "coins_env \<Rightarrow> string \<Rightarrow> int \<Rightarrow> string \<times> gobytes" where
  "geAddrReciverKV ce addr reciverAmount = (calcAddrKey ce addr, Some (co_EncodeInt64 ce reciverAmount))"

definition getAddrReciver :: "coins_env \<Rightarrow> kv_view \<Rightarrow> string \<Rightarrow> go_error + int" where
  "getAddrReciver ce lv addr =
     (case kv_get lv (calcAddrKey ce addr) of
        Inl e \<Rightarrow> if e \<noteq> ErrNotFound then Inl e else Inr 0
      | Inr v \<Rightarrow> if length v = 0 then Inr 0 else co_DecodeInt64 ce v)"

definition updateAddrReciver ::
  "coins_env \<Rightarrow> kv_view \<Rightarrow> string \<Rightarrow> int \<Rightarrow> bool \<Rightarrow> (go_error + string \<times> gobytes) \<times> tx_op list" where
  "updateAddrReciver ce lv addr amount isadd =
     (if DisableAddrReceiver (co_sub ce) then (Inl ErrActionNotSupport, [])
      else
        let key = calcAddrKey ce addr;
            update = (\<lambda>recv0.
              let recv = (if isadd then i64 (recv0 + amount) else i64 (recv0 - amount));
                  kv = geAddrReciverKV ce addr recv;
                  ops = [Read key, Write (fst kv) (snd kv)]
              in (case kv_set_err lv of Some e \<Rightarrow> (Inl e, ops) | None \<Rightarrow> (Inr kv, ops)))
        in case getAddrReciver ce lv addr of
             Inl e \<Rightarrow> if e \<noteq> ErrNotFound then (Inl e, [Read key]) else update 0
           | Inr recv \<Rightarrow> update recv)"

text \<open>The four \<^verbatim>\<open>ExecLocal_\<close> functions differ in the address and the value they take.\<close>

definition local_action ::
  "coins_env \<Rightarrow> kv_view \<Rightarrow> string \<Rightarrow> int option \<Rightarrow> bool \<Rightarrow> (go_error + local_set option) \<times> tx_op list" where
  "local_action ce lv addr amount isadd =
     (case amount of
        None \<Rightarrow> (Inl GoPanic, [])
      | Some a \<Rightarrow>
          (case updateAddrReciver ce lv addr a isadd of
             (Inl e, ops) \<Rightarrow> (Inl e, ops)
           | (Inr kv, ops) \<Rightarrow> (Inr (Some (Some [kv])), ops)))"

definition local_call :: "coins_env \<Rightarrow> transaction \<Rightarrow> kv_view \<Rightarrow> bool \<Rightarrow> coins_call \<Rightarrow>
    (go_error + local_set option) \<times> tx_op list" where
  "local_call ce tx lv isadd c =
     (let env = co_env ce; dest = en_GetRealToAddr env tx
      in case c of
           CallTransfer v \<Rightarrow> local_action ce lv dest v isadd
         | CallTransferToExec v \<Rightarrow> local_action ce lv dest (map_option ax_Amount v) isadd
         | CallWithdraw v \<Rightarrow> local_action ce lv (From (en_tx env) tx) (map_option ax_Amount v) isadd
         | CallGenesis v \<Rightarrow> local_action ce lv dest (map_option ag_Amount v) isadd)"

definition coins_execLocal ::
  "coins_env \<Rightarrow> transaction \<Rightarrow> receipt_data \<Rightarrow> int \<Rightarrow> kv_view \<Rightarrow> (go_error + local_set option) \<times> tx_op list" where
  "coins_execLocal ce tx receipt index lv =
     (case co_Decode ce (Payload tx) of
        Inl e \<Rightarrow> (Inl e, [])
      | Inr m \<Rightarrow>
          if cm_Ty m = CoinsActionTransfer then local_call ce tx lv True (CallTransfer (GetTransfer m))
          else if cm_Ty m = CoinsActionTransferToExec then local_call ce tx lv True (CallTransferToExec (GetTransferToExec m))
          else if cm_Ty m = CoinsActionWithdraw then local_call ce tx lv True (CallWithdraw (GetWithdraw m))
          else if cm_Ty m = CoinsActionGenesis then local_call ce tx lv True (CallGenesis (GetGenesis m))
          else (Inl ErrActionNotSupport, []))"

text \<open>An error becomes an empty set; a panic stays one.\<close>

definition no_error :: "(go_error + local_set option) \<times> tx_op list \<Rightarrow> local_set option drv_out" where
  "no_error out =
     (case out of (res, ops) \<Rightarrow>
        \<lparr>out_res = (case res of
            Inl e \<Rightarrow> if e = GoPanic then Inl GoPanic else Inr (Some None)
          | Inr None \<Rightarrow> Inr (Some None)
          | Inr (Some kvs) \<Rightarrow> Inr (Some kvs)),
         out_state = [], out_local = ops\<rparr>)"

definition coins_ExecLocal ::
  "coins_env \<Rightarrow> transaction \<Rightarrow> receipt_data \<Rightarrow> int \<Rightarrow> kv_view \<Rightarrow> local_set option drv_out" where
  "coins_ExecLocal ce tx receipt index lv = no_error (coins_execLocal ce tx receipt index lv)"

text \<open>\<^verbatim>\<open>DriverBase.ExecDelLocal\<close> with \<^verbatim>\<open>callLocal\<close>: there is no function for a genesis.\<close>

definition coins_callDelLocal ::
  "coins_env \<Rightarrow> transaction \<Rightarrow> receipt_data \<Rightarrow> int \<Rightarrow> kv_view \<Rightarrow> (go_error + local_set option) \<times> tx_op list" where
  "coins_callDelLocal ce tx receipt index lv =
     (if rd_Ty receipt \<noteq> ExecOkTy then (Inr (Some None), [])
      else case coins_decode ce tx of
        Inl e \<Rightarrow> (Inl e, [])
      | Inr c \<Rightarrow>
          (case (case c of CallGenesis v \<Rightarrow> (Inl ErrActionNotSupport, []) | _ \<Rightarrow> local_call ce tx lv False c) of
             (res, ops) \<Rightarrow> (if res = Inl GoPanic then Inl ErrActionNotSupport else res, ops)))"

definition coins_ExecDelLocal ::
  "coins_env \<Rightarrow> transaction \<Rightarrow> receipt_data \<Rightarrow> int \<Rightarrow> kv_view \<Rightarrow> local_set option drv_out" where
  "coins_ExecDelLocal ce tx receipt index lv = no_error (coins_callDelLocal ce tx receipt index lv)"

section \<open>The driver\<close>

definition coins_driver :: "coins_env \<Rightarrow> driver" where
  "coins_driver ce =
     \<lparr>GetDriverName = ''coins'', ExecutorOrder = (\<lambda>ctx. 0), IsFree = (\<lambda>ctx. False),
      Allow = base_Allow (co_env ce) ''coins'', IsFriend = coins_IsFriend ce,
      drv_CheckTx = (\<lambda>ctx tx index sv lv. \<lparr>out_res = coins_CheckTx ce tx, out_state = [], out_local = []\<rparr>),
      drv_Exec = (\<lambda>ctx tx index sv lv. coins_Exec ce ctx tx index sv),
      drv_ExecLocal = (\<lambda>ctx tx receipt index sv lv. coins_ExecLocal ce tx receipt index lv),
      drv_ExecDelLocal = (\<lambda>ctx tx receipt index sv lv. coins_ExecDelLocal ce tx receipt index lv)\<rparr>"

lemma coins_driver_ok: "driver_ok (coins_driver ce)"
  by (auto simp: driver_ok_def coins_driver_def reads_only_def coins_ExecLocal_def no_error_def split: prod.splits)

end
