(* ===== verification/Coins_Theorems.thy ===== *)
theory Coins_Theorems
  imports Coins_Driver
begin

text \<open>
  Properties of the coins contract inside the executor: what its local data counts, that removing a
  block takes back what adding it counted, and two ways in which the missing checks of
  \<^verbatim>\<open>ExecLocal\<close> show: a failed transfer is counted, and an empty action stops a block.
\<close>

section \<open>The counter of received coins\<close>

text \<open>The local data a driver sees after the executor has written a set.\<close>

definition view_after :: "kv_view \<Rightarrow> local_set option \<Rightarrow> kv_view" where
  "view_after lv kvs = lv\<lparr>kv_get := foldl (\<lambda>f (k, v). f(k := stored v)) (kv_get lv) (set_kv kvs)\<rparr>"

text \<open>The codec of \<^verbatim>\<open>Int64\<close>: zero has no bytes, any other value decodes to itself.\<close>

definition int64_codec :: "coins_env \<Rightarrow> bool" where
  "int64_codec ce \<longleftrightarrow>
     (\<forall>n. i64 n = n \<longrightarrow> (if n = 0 then co_EncodeInt64 ce n = []
        else co_EncodeInt64 ce n \<noteq> [] \<and> co_DecodeInt64 ce (co_EncodeInt64 ce n) = Inr n))"

lemma getAddrReciver_after:
  assumes "int64_codec ce" "i64 n = n"
  shows "getAddrReciver ce (view_after lv (Some (Some [geAddrReciverKV ce addr n]))) a =
     (if calcAddrKey ce a = calcAddrKey ce addr then Inr n else getAddrReciver ce lv a)"
  using assms
  by (cases "n = 0") (auto simp: getAddrReciver_def view_after_def set_kv_def geAddrReciverKV_def stored_def int64_codec_def)

text \<open>The address and the amount an action counts.\<close>

definition counted :: "coins_env \<Rightarrow> transaction \<Rightarrow> coins_call \<Rightarrow> (string \<times> int option)" where
  "counted ce tx c =
     (let env = co_env ce; dest = en_GetRealToAddr env tx
      in case c of
           CallTransfer v \<Rightarrow> (dest, v)
         | CallTransferToExec v \<Rightarrow> (dest, map_option ax_Amount v)
         | CallWithdraw v \<Rightarrow> (From (en_tx env) tx, map_option ax_Amount v)
         | CallGenesis v \<Rightarrow> (dest, map_option ag_Amount v))"

lemma local_call_counted: "local_call ce tx lv isadd c = (case counted ce tx c of (addr, v) \<Rightarrow> local_action ce lv addr v isadd)"
  by (cases c) (simp_all add: local_call_def counted_def Let_def)

lemma coins_execLocal_call:
  "coins_decode ce tx = Inr c \<Longrightarrow> coins_execLocal ce tx r i lv = local_call ce tx lv True c"
  by (auto simp: coins_decode_def coins_execLocal_def CoinsActionTransfer_def CoinsActionTransferToExec_def
      CoinsActionWithdraw_def CoinsActionGenesis_def split: if_splits sum.splits)

lemma local_action_update:
  assumes "\<not> DisableAddrReceiver (co_sub ce)" "kv_set_err lv = None" "getAddrReciver ce lv addr = Inr n"
  shows "local_action ce lv addr (Some a) isadd =
     (let kv = geAddrReciverKV ce addr (if isadd then i64 (n + a) else i64 (n - a))
      in (Inr (Some (Some [kv])), [Read (calcAddrKey ce addr), Write (fst kv) (snd kv)]))"
  using assms by (simp add: local_action_def updateAddrReciver_def Let_def)

lemma ExecLocal_adds:
  assumes "\<not> DisableAddrReceiver (co_sub ce)" "kv_set_err lv = None"
    and "coins_decode ce tx = Inr c" "counted ce tx c = (addr, Some a)" "getAddrReciver ce lv addr = Inr n"
  shows "out_res (drv_ExecLocal (coins_driver ce) ctx tx r i sv lv) =
    Inr (Some (Some [geAddrReciverKV ce addr (i64 (n + a))]))"
  using local_action_update [OF assms(1,2,5), of a True] coins_execLocal_call [OF assms(3)] assms(4)
  by (simp add: coins_driver_def coins_ExecLocal_def no_error_def local_call_counted Let_def)

lemma ExecDelLocal_subtracts:
  assumes "\<not> DisableAddrReceiver (co_sub ce)" "kv_set_err lv = None" "rd_Ty r = ExecOkTy"
    and "coins_decode ce tx = Inr c" "counted ce tx c = (addr, Some a)" "getAddrReciver ce lv addr = Inr n"
    and "\<And>v. c \<noteq> CallGenesis v"
  shows "out_res (drv_ExecDelLocal (coins_driver ce) ctx tx r i sv lv) =
    Inr (Some (Some [geAddrReciverKV ce addr (i64 (n - a))]))"
proof -
  have "(case c of CallGenesis v \<Rightarrow> (Inl ErrActionNotSupport, []) | _ \<Rightarrow> local_call ce tx lv False c) =
      local_call ce tx lv False c"
    using assms(7) by (cases c) auto
  then show ?thesis
    using local_action_update [OF assms(1,2,6), of a False] assms(3-5)
    by (simp add: coins_driver_def coins_ExecDelLocal_def coins_callDelLocal_def no_error_def local_call_counted Let_def)
qed

lemma i64_roundtrip: "in_i64 n \<Longrightarrow> i64 (i64 (n + a) - a) = n"
  using i64_add_left [of "n + a" "- a"] by (simp add: i64_id)

lemma ExecLocal_nil:
  assumes "coins_decode ce tx = Inr c" "counted ce tx c = (addr, None)"
  shows "out_res (drv_ExecLocal (coins_driver ce) ctx tx r i sv lv) = Inl GoPanic"
  using coins_execLocal_call [OF assms(1)] assms(2)
  by (simp add: coins_driver_def coins_ExecLocal_def no_error_def local_call_counted local_action_def)


text \<open>
  C23. \<^verbatim>\<open>ExecLocal\<close> of the coins contract does not look at the receipt, while
  \<^verbatim>\<open>ExecDelLocal\<close>, which it takes from \<^verbatim>\<open>DriverBase\<close>, skips a transaction that was not
  executed: a failed transfer is counted as received, and removing the block leaves it counted.
\<close>

theorem failed_transfer_is_counted:
  assumes "int64_codec ce" "\<not> DisableAddrReceiver (co_sub ce)" "kv_set_err lv = None"
    and "coins_decode ce tx = Inr (CallTransfer (Some a))" "rd_Ty r = ExecPack"
    and "getAddrReciver ce lv (en_GetRealToAddr (co_env ce) tx) = Inr n"
  shows "\<exists>kvs. out_res (drv_ExecLocal (coins_driver ce) ctx tx r i sv lv) = Inr kvs \<and>
    getAddrReciver ce (view_after lv kvs) (en_GetRealToAddr (co_env ce) tx) = Inr (i64 (n + a)) \<and>
    out_res (drv_ExecDelLocal (coins_driver ce) ctx tx r i sv (view_after lv kvs)) = Inr (Some None)"
proof -
  let ?dest = "en_GetRealToAddr (co_env ce) tx"
  have c: "counted ce tx (CallTransfer (Some a)) = (?dest, Some a)" by (simp add: counted_def Let_def)
  have "out_res (drv_ExecDelLocal (coins_driver ce) ctx tx r i sv l) = Inr (Some None)" for l
    using assms(5) by (simp add: coins_driver_def coins_ExecDelLocal_def coins_callDelLocal_def no_error_def
        ExecPack_def ExecOkTy_def)
  then show ?thesis
    using ExecLocal_adds [OF assms(2-4) c assms(6)] getAddrReciver_after [OF assms(1), of "i64 (n + a)" lv ?dest ?dest]
    by simp
qed

section \<open>What the contract writes\<close>

definition ledger_key :: "'v acc_env \<Rightarrow> 'v acc_db \<Rightarrow> string \<Rightarrow> bool" where
  "ledger_key env acc k \<longleftrightarrow> (\<exists>a. k = AccountKey env acc a) \<or> (\<exists>a x. k = execAccountKey env acc a x)"

definition ledger_receipt :: "'v acc_env \<Rightarrow> 'v acc_db \<Rightarrow> 'v acc_result \<Rightarrow> bool" where
  "ledger_receipt env acc out \<longleftrightarrow>
     accountKeyPerfix (snd out) = accountKeyPerfix acc \<and> execAccountKeyPerfix (snd out) = execAccountKeyPerfix acc \<and>
     (\<forall>r. fst out = Inr r \<longrightarrow> (\<forall>k \<in> fst ` set (KV r). ledger_key env acc k))"

lemma SaveKVSet_prefix [simp]:
  "accountKeyPerfix (SaveKVSet acc kvs) = accountKeyPerfix acc"
  "execAccountKeyPerfix (SaveKVSet acc kvs) = execAccountKeyPerfix acc"
  by (induction acc kvs rule: SaveKVSet.induct) simp_all

lemma ledger_key_same:
  "accountKeyPerfix acc1 = accountKeyPerfix acc \<Longrightarrow> execAccountKeyPerfix acc1 = execAccountKeyPerfix acc \<Longrightarrow>
   ledger_key env acc1 k = ledger_key env acc k"
  by (simp add: ledger_key_def AccountKey_def execAccountKey_def)

lemma ledger_key_of [simp]:
  "ledger_key env acc (AccountKey env acc a)" "ledger_key env acc (execAccountKey env acc a x)"
  by (auto simp: ledger_key_def)

lemmas ledger_receipt_simps = ledger_receipt_def GetKVSet_def GetExecKVSet_def ok_receipt_def Let_def

lemma Transfer_receipt: "ledger_receipt env acc (Transfer env acc frm dest amount)"
  by (auto simp: Transfer_def ledger_receipt_simps transferReceipt_def split: sum.splits)

lemma exec_update_receipt: "ledger_receipt env acc (exec_update env acc addr x amount ty short upd)"
  by (auto simp: exec_update_def ledger_receipt_simps execReceipt_def SaveExecAccount_def split: sum.splits)

lemma ledger_receipt_trans:
  assumes "ledger_receipt env acc (Inr r, acc1)" "ledger_receipt env acc1 (Inr r2, acc2)" "KV r3 = KV r @ KV r2"
  shows "ledger_receipt env acc (Inr r3, acc2)"
proof -
  have same: "accountKeyPerfix acc1 = accountKeyPerfix acc" "execAccountKeyPerfix acc1 = execAccountKeyPerfix acc"
    using assms(1) by (simp_all add: ledger_receipt_def)
  have "ledger_key env acc k" if "k \<in> fst ` set (KV r3)" for k
    using that assms ledger_key_same [OF same, of env k] by (auto simp: ledger_receipt_def)
  then show ?thesis using same assms(2) by (simp add: ledger_receipt_def)
qed

lemma ledger_receipt_error:
  "ledger_receipt env acc (x, acc1) \<Longrightarrow> ledger_receipt env acc1 (y, acc2) \<Longrightarrow> ledger_receipt env acc (Inl e, acc2)"
  by (simp add: ledger_receipt_def)

lemma ledger_receipt_Inl: "ledger_receipt env acc (x, acc1) \<Longrightarrow> ledger_receipt env acc (Inl e, acc1)"
  by (simp add: ledger_receipt_def)

lemma then_receipt:
  assumes "ledger_receipt env acc out" "\<And>acc1. ledger_receipt env acc1 (g acc1)"
    and "\<And>r r2. KV (merge r r2) = KV r @ KV r2"
  shows "ledger_receipt env acc (case out of (Inl e, acc') \<Rightarrow> (Inl e, acc')
      | (Inr r, acc') \<Rightarrow> (case g acc' of (Inl e, acc'') \<Rightarrow> (Inl (h e), acc'') | (Inr r2, acc'') \<Rightarrow> (Inr (merge r r2), acc'')))"
proof -
  obtain x acc1 where o: "out = (x, acc1)" by (cases out)
  show ?thesis
  proof (cases x)
    case (Inl e)
    with o assms(1) show ?thesis by simp
  next
    case (Inr r)
    obtain y acc2 where g: "g acc1 = (y, acc2)" by (cases "g acc1")
    show ?thesis
    proof (cases y)
      case (Inl e)
      with o Inr g assms(1) assms(2) [of acc1] show ?thesis by (auto intro: ledger_receipt_error)
    next
      case (Inr r2)
      with o \<open>x = Inr r\<close> g assms(1) assms(2) [of acc1] assms(3) show ?thesis
        by (auto intro: ledger_receipt_trans)
    qed
  qed
qed

lemma TransferToExec_receipt: "ledger_receipt env acc (TransferToExec env acc frm dest amount)"
  unfolding TransferToExec_def
  by (rule then_receipt [OF Transfer_receipt]) (simp_all add: ExecDeposit_def exec_update_receipt mergeReceipt_def)

lemma TransferWithdraw_receipt: "ledger_receipt env acc (TransferWithdraw env acc frm dest amount)"
proof (cases "CheckTransfer env acc dest frm amount")
  case None
  then show ?thesis unfolding TransferWithdraw_def
    by (simp, intro then_receipt) (simp_all add: ExecWithdraw_def exec_update_receipt Transfer_receipt mergeReceipt_def)
next
  case (Some e)
  then show ?thesis by (simp add: TransferWithdraw_def ledger_receipt_def)
qed

lemma GenesisInit_receipt: "ledger_receipt env acc (GenesisInit env acc addr amount)"
  by (auto simp: GenesisInit_def ledger_receipt_simps genesisReceipt_def SaveAccount_def AccountKey_def split: sum.splits)
    (metis AccountKey_def ledger_key_of(1))+

lemma GenesisInitExec_receipt: "ledger_receipt env acc (GenesisInitExec env acc addr amount x)"
proof (cases "LoadAccount env acc x")
  case (Inr a)
  show ?thesis
  proof (cases "safeAdd (Balance a) amount")
    case (Inr b)
    let ?acc = "SaveAccount env acc (a\<lparr>Balance := b\<rparr>)"
    let ?r = "genesisReceipt env ?acc (a\<lparr>Balance := b\<rparr>) (MReceiptAccountTransfer a (a\<lparr>Balance := b\<rparr>))"
    have g: "ledger_receipt env acc (Inr ?r, ?acc)"
      using GenesisInit_receipt [of env acc x amount] Inr \<open>LoadAccount env acc x = Inr a\<close>
      by (simp add: GenesisInit_def Let_def)
    have "ledger_receipt env acc (case (Inr ?r, ?acc) of (Inl e, acc') \<Rightarrow> (Inl e, acc')
      | (Inr r, acc') \<Rightarrow> (case ExecDeposit env acc' addr x amount of (Inl e, acc'') \<Rightarrow> (Inl GoPanic, acc'')
          | (Inr r2, acc'') \<Rightarrow> (Inr (mergeReceipt r (r2\<lparr>receipt.Ty := 12\<rparr>)), acc'')))"
      by (rule then_receipt [OF g, where h = "\<lambda>_. GoPanic"])
        (simp_all add: ExecDeposit_def exec_update_receipt mergeReceipt_def)
    with Inr \<open>LoadAccount env acc x = Inr a\<close> show ?thesis by (simp add: GenesisInitExec_def Let_def)
  qed (simp add: GenesisInitExec_def ledger_receipt_def Inr)
qed (simp add: GenesisInitExec_def ledger_receipt_def)

text \<open>A successful run writes exactly the pairs of its receipt, under keys of the coins ledger.\<close>

definition good_run :: "coins_env \<Rightarrow> (go_error + exec_receipt option) \<times> tx_op list \<Rightarrow> bool" where
  "good_run ce out \<longleftrightarrow>
     (\<forall>r. fst out = Inr r \<longrightarrow>
        (\<forall>k v. Write k v \<in> set (snd out) \<longrightarrow> (k, v) \<in> set (get_kv r)) \<and>
        (\<forall>k \<in> fst ` set (get_kv r). ledger_key (en_acc (co_env ce)) (NewCoinsAccount (en_acc (co_env ce))) k))"

lemma ledger_run_good:
  assumes "\<And>acc. ledger_receipt (en_acc (co_env ce)) acc (f acc)"
  shows "good_run ce (ledger_run ce sv keys f)"
proof -
  let ?env = "en_acc (co_env ce)"
  have same: "ledger_key ?env (state_account ce sv) k = ledger_key ?env (NewCoinsAccount ?env) k" for k
    by (rule ledger_key_same) (simp_all add: state_account_def SetDB_def)
  obtain x acc1 where f: "f (state_account ce sv) = (x, acc1)" by (cases "f (state_account ce sv)")
  then have "\<forall>r. x = Inr r \<longrightarrow> (\<forall>k \<in> fst ` set (KV r). ledger_key ?env (NewCoinsAccount ?env) k)"
    using assms [of "state_account ce sv"] by (simp add: ledger_receipt_def same)
  then show ?thesis using f
    by (cases x) (force simp: good_run_def ledger_run_def Let_def get_kv_def to_receipt_def image_iff)+
qed

lemma actions_good:
  "good_run ce (Exec_Transfer ce ctx v tx sv)" "good_run ce (Exec_TransferToExec ce ctx w tx sv)"
  "good_run ce (Exec_Withdraw ce ctx w tx sv)" "good_run ce (Exec_Genesis ce ctx g tx sv)"
proof -
  have err: "good_run ce (Inl e, ops)" for e ops by (simp add: good_run_def)
  show "good_run ce (Exec_Transfer ce ctx v tx sv)"
    by (auto simp: Exec_Transfer_def Let_def err split: option.splits intro!: ledger_run_good TransferToExec_receipt Transfer_receipt)
  show "good_run ce (Exec_TransferToExec ce ctx w tx sv)"
    by (auto simp: Exec_TransferToExec_def Let_def err split: option.splits sum.splits
        intro!: ledger_run_good TransferToExec_receipt)
  show "good_run ce (Exec_Withdraw ce ctx w tx sv)"
    by (auto simp: Exec_Withdraw_def Let_def err split: option.splits sum.splits
        intro!: ledger_run_good TransferWithdraw_receipt)
  show "good_run ce (Exec_Genesis ce ctx g tx sv)"
    by (auto simp: Exec_Genesis_def Let_def err split: option.splits
        intro!: ledger_run_good GenesisInit_receipt GenesisInitExec_receipt)
qed


section \<open>An action without a value\<close>

lemma load_first_coins:
  assumes "Execer tx = ''coins''" "LoadDriver env ''coins'' (en_height env) = Inr (coins_driver ce)"
    and "\<not> isPara (en_cfg (co_env ce))" "e_objs s = []" "driverCache s = Map.empty" "currExecTx s = None"
  shows "\<exists>s1. loadDriver env tx ref i s = (Inr 0, s1) \<and> obj_driver (driver_at s1 0) = coins_driver ce \<and>
    e_local s1 = e_local s"
proof -
  have "Allow (coins_driver ce) h tx i = None" for h
    using assms(1,3) by (simp add: coins_driver_def base_Allow_def AllowIsSame_def GetParaExec_def)
  then show ?thesis
    using assms by (simp add: loadDriver_def same_tx_def cached_driver_def bind_ex_def new_driver_obj_def cache_driver_def
        update_ex_def ret_def read_ex_def SetNames_def driver_at_def Let_def)
qed

lemma empty_action_decodes:
  assumes "Payload tx \<noteq> []" "co_Decode ce (Payload tx) = Inr m" "cm_Ty m = CoinsActionTransfer" "GetTransfer m = None"
  shows "coins_decode ce tx = Inr (CallTransfer None)"
  using assms by (simp add: coins_decode_def)

lemma state_set_all_frame:
  "\<exists>s1. state_set_all kvs s = (Inr (), s1) \<and> e_local s1 = e_local s \<and> e_objs s1 = e_objs s \<and>
     driverCache s1 = driverCache s \<and> currExecTx s1 = currExecTx s"
  by (induction kvs arbitrary: s) (force simp: ret_def bind_ex_def state_set_def update_ex_def)+

lemma empty_action_panics:
  assumes "coins_decode ce tx = Inr (CallTransfer None)"
    and "Execer tx = ''coins''" "LoadDriver env ''coins'' (en_height env) = Inr (coins_driver ce)"
    and "\<not> isPara (en_cfg (co_env ce))" "e_objs s = []" "driverCache s = Map.empty" "currExecTx s = None"
  shows "\<exists>s1. execLocalTx env tx r ref i s = (Inl GoPanic, s1)"
proof -
  obtain s1 where l: "loadDriver env tx ref i s = (Inr 0, s1)" and d: "obj_driver (driver_at s1 0) = coins_driver ce"
    using load_first_coins [OF assms(2-7), of ref i] by blast
  have "out_res (drv_ExecLocal (coins_driver ce) ctx tx r i sv lv) = Inl GoPanic" for ctx sv lv
    by (rule ExecLocal_nil [OF assms(1), of "en_GetRealToAddr (co_env ce) tx"]) (simp add: counted_def Let_def)
  then show ?thesis
    by (simp add: execLocalTx_def try_ex_def execLocal_def bind_ex_def l with_driver_def d call_driver_def Let_def)
qed

text \<open>
  C20. An action of type transfer that holds no transfer passes the check of the coins contract and
  fails in \<^verbatim>\<open>Exec\<close>, which recovers from the nil pointer, so it is packed for its fee. But
  \<^verbatim>\<open>ExecLocal\<close> reads through the nil pointer as well and does not recover: whatever the receipt,
  the executor answers \<^verbatim>\<open>ErrExecPanic\<close> when a block that starts with it is added, and the
  block is never connected.
\<close>

theorem empty_transfer_stops_block:
  assumes "Payload tx \<noteq> []" "co_Decode ce (Payload tx) = Inr m" "cm_Ty m = CoinsActionTransfer" "GetTransfer m = None"
    and "Execer tx = ''coins''" "LoadDriver env ''coins'' (en_height env) = Inr (coins_driver ce)"
    and "\<not> isPara (en_cfg (co_env ce))" "\<not> en_fork env ''ForkProxyExec''"
    and "en_txs env = tx # rest" "en_receipts env = r # rs"
  shows "out_res (drv_CheckTx (coins_driver ce) ctx tx i sv lv) = Inr () \<and>
    out_res (drv_Exec (coins_driver ce) ctx tx i sv lv) = Inl ErrActionNotSupport \<and>
    fst (procExecAddBlock env [] False None kvs (newExecutor env stateHash False (Some l))) = Inl ErrExecPanic"
proof (intro conjI)
  note dec = empty_action_decodes [OF assms(1-4)]
  show "out_res (drv_CheckTx (coins_driver ce) ctx tx i sv lv) = Inr ()"
    by (simp add: coins_driver_def coins_CheckTx_def Amount_def dec call_amount_def)
  show "out_res (drv_Exec (coins_driver ce) ctx tx i sv lv) = Inl ErrActionNotSupport"
    by (simp add: coins_driver_def coins_Exec_def dec Exec_Transfer_def Let_def)
  let ?s0 = "newExecutor env stateHash False (Some l)"
  have mvcc: "ex_enableMVCC env None ?s0 = (Inr (), ?s0)"
    by (simp add: ex_enableMVCC_def enableMVCC_def newExecutor_def NewStateDB_def)
  obtain s1 where s1: "state_set_all kvs ?s0 = (Inr (), s1)" "e_local s1 = Some l" "e_objs s1 = []"
      "driverCache s1 = Map.empty" "currExecTx s1 = None"
    using state_set_all_frame [of kvs ?s0] by (auto simp: newExecutor_def)
  let ?s2 = "s1\<lparr>e_local := Some (ExecLocalDB_StartTx l)\<rparr>"
  obtain s3 where "execLocalTx env tx r (BlockTx 0) 0 ?s2 = (Inl GoPanic, s3)"
    using empty_action_panics [OF dec assms(5-7), of ?s2 r "BlockTx 0" 0] s1 by auto
  then have "add_txs env (r # rs) 0 (tx # rest) s1 = (Inl GoPanic, s3)"
    using s1(2) assms(8)
    by (simp add: bind_ex_def local_StartTx_def proxy_local_def checkProxyExecTx_def ret_def)
  then show "fst (procExecAddBlock env [] False None kvs ?s0) = Inl ErrExecPanic"
    by (simp add: procExecAddBlock_def recover_ex_def bind_ex_def mvcc s1(1) ret_def assms(9,10))
qed

end
