(* ===== verification/Exec_Demo.thy ===== *)
theory Exec_Demo
  imports Coins_Theorems Exec_Theorems
begin

text \<open>
  A small chain on which the witnesses run: one contract, coins, in an executor whose forks are all
  active but the one for proxy transactions; \<^verbatim>\<open>alice\<close> has ten coins. Accounts are encoded
  as a byte for the balance and the name. A payload is one byte: the amount of a transfer, or zero
  for the type of a transfer without the value.
\<close>

definition demo_forks :: Forks where
  "demo_forks = \<lparr>fork_map = Some (map (\<lambda>f. (f, 0)) [''ForkStateDBSet'', ''ForkResetTx0'', ''ForkCacheDriver'',
     ''ForkLocalDBAccess'', ''ForkTxGroup'', ''ForkMultiSignAddress'', ''ForkBase58AddressCheck'', ''ForkExecKey'',
     ''ForkTransferExec'', ''ForkWithdraw'', ''ForkBlockCheck'', ''coins.ForkFriendExecer''])\<rparr>"

definition demo_omnilink :: OmnilinkConfig where
  "demo_omnilink = \<lparr>title = ''local'', cfg_forks = demo_forks, flags = [], chainID = 0, mcfg = None,
     disableCheckFork = False, AllowUserExec = [''coins'']\<rparr>"

definition name_bytes :: "string \<Rightarrow> bytes" where
  "name_bytes s = map (\<lambda>c. of_nat (of_char c)) s"

definition demo_acc :: "bytes acc_env" where
  "demo_acc = \<lparr>CoinPrecision = 100, CoinExec = ''coins'', CoinSymbol = ''bty'', MinerExecs = [], ExecName = (\<lambda>e. e),
     ExecAddr = (\<lambda>e. e), IsHexAddress = (\<lambda>a. False), FormatKeyFork = True,
     Encode = (\<lambda>m. case m of MAccount a \<Rightarrow> word_of_int (Balance a) # name_bytes (Addr a) | _ \<Rightarrow> []),
     DecodeAccount = (\<lambda>b. case b of [] \<Rightarrow> None
       | w # n \<Rightarrow> Some \<lparr>Currency = 0, Balance = uint w, Frozen = 0, Addr = map (\<lambda>x. char_of (unat x)) n\<rparr>)\<rparr>"

definition demo_txs :: tx_env where
  "demo_txs = \<lparr>EncodeTx = (\<lambda>tx. [word_of_int (Nonce tx)]), EncodeTxs = (\<lambda>txs. []), DecodeTxs = (\<lambda>d. Inl ErrInvalidParam),
     SizeTx = (\<lambda>tx. 200), TxSha256 = (\<lambda>d. d), CheckSignature = (\<lambda>d e s h. True), PubKeyToAddr = (\<lambda>i k. ''alice''),
     defaultAddressID = 0, LowAllowPackHeight = 200, HighAllowPackHeight = 600\<rparr>"

text \<open>The root hash of the state before, see \<open>Block_State_Demo\<close>.\<close>

definition demo_prev :: bytes where
  "demo_prev = [0, 1, 20] @ name_bytes ''mavl-coins-bty-alice'' @ [10] @ name_bytes ''alice'' @ [0, 0, 0]"

definition demo_states :: state_env where
  "demo_states = \<lparr>StoreGet = (\<lambda>k. StoreValue (if k = ''mavl-coins-bty-alice'' then Some (10 # name_bytes ''alice'') else None)),
     GetVersion = (\<lambda>h. Inr 0), GetV = (\<lambda>k v. Inl ErrNotFound), ForkExecRollback = (\<lambda>h. True)\<rparr>"

definition base_env :: exec_env where
  "base_env = \<lparr>en_cfg = demo_omnilink, en_tx = demo_txs, en_sdb = demo_states, en_acc = demo_acc, en_MinTxFeeRate = 1,
     en_MaxTxFee = (\<lambda>h. 100), en_MinBalanceTransfer = 1, en_ForwardExecs = [], en_ForwardActionNames = [],
     en_ProxyExecAddress = ''proxy'', en_registered = Map.empty, en_execDrivers = Map.empty, en_addressNames = Map.empty,
     en_PubKeyHash = name_bytes, en_PubKeyToExecAddr = (\<lambda>b. ''exec''), en_CheckAddress = (\<lambda>a h. None),
     en_GetRealToAddr = To, en_ActionName = (\<lambda>tx. ''transfer''), en_GrpcCoded = (\<lambda>e. False), en_ErrText = (\<lambda>e. []),
     en_DecodeEvmAction = (\<lambda>b. Inl ErrInvalidParam), en_DecodeTx = (\<lambda>b. Inl ErrInvalidParam), en_DecodeNonce = (\<lambda>b. 0),
     en_height = 5, en_blocktime = 7, en_difficulty = 0, en_parentHash = [], en_mainHash = [], en_mainHeight = 0,
     en_txs = [], en_receipts = []\<rparr>"

definition demo_coins :: coins_env where
  "demo_coins = \<lparr>co_env = base_env, co_sub = \<lparr>DisableAddrReceiver = False, DisableCheckTxAmount = False, FriendExecer = []\<rparr>,
     co_Decode = (\<lambda>b. case b of [] \<Rightarrow> Inl ErrInvalidParam
       | w # _ \<Rightarrow> Inr \<lparr>cm_Ty = 1, cm_Value = (if w = 0 then None else Some (ValTransfer (uint w)))\<rparr>),
     co_DecodeInt64 = (\<lambda>b. case b of [] \<Rightarrow> Inl ErrInvalidParam | w # _ \<Rightarrow> Inr (uint w)),
     co_EncodeInt64 = (\<lambda>n. if n = 0 then [] else [word_of_int n])\<rparr>"

definition demo_transfer :: "int \<Rightarrow> 8 word \<Rightarrow> transaction" where
  "demo_transfer n amount = \<lparr>Execer = ''coins'', Payload = [amount], TxSignature = None, Fee = 1, Expire = 0, Nonce = n,
     To = ''bob'', GroupCount = 0, TxHeader = None, Next = None, ChainID = 0\<rparr>"

definition demo_exec_env :: "transaction list \<Rightarrow> exec_env" where
  "demo_exec_env txs = base_env\<lparr>en_registered := [''coins'' \<mapsto> (coins_driver demo_coins, 0)], en_txs := txs\<rparr>"

definition demo_block_txs :: "transaction list" where
  "demo_block_txs = [demo_transfer 1 3, demo_transfer 2 90]"

lemma demo_env_fields [simp]:
  "en_cfg (demo_exec_env txs) = demo_omnilink"
  "en_tx (demo_exec_env txs) = demo_txs"
  "en_sdb (demo_exec_env txs) = demo_states"
  "en_acc (demo_exec_env txs) = demo_acc"
  "en_MinTxFeeRate (demo_exec_env txs) = 1"
  "en_MaxTxFee (demo_exec_env txs) = (\<lambda>h. 100)"
  "en_MinBalanceTransfer (demo_exec_env txs) = 1"
  "en_ForwardExecs (demo_exec_env txs) = []"
  "en_ForwardActionNames (demo_exec_env txs) = []"
  "en_ProxyExecAddress (demo_exec_env txs) = ''proxy''"
  "en_registered (demo_exec_env txs) = [''coins'' \<mapsto> (coins_driver demo_coins, 0)]"
  "en_execDrivers (demo_exec_env txs) = Map.empty"
  "en_addressNames (demo_exec_env txs) = Map.empty"
  "en_PubKeyHash (demo_exec_env txs) = name_bytes"
  "en_PubKeyToExecAddr (demo_exec_env txs) = (\<lambda>b. ''exec'')"
  "en_CheckAddress (demo_exec_env txs) = (\<lambda>a h. None)"
  "en_GetRealToAddr (demo_exec_env txs) = To"
  "en_ActionName (demo_exec_env txs) = (\<lambda>tx. ''transfer'')"
  "en_GrpcCoded (demo_exec_env txs) = (\<lambda>e. False)"
  "en_ErrText (demo_exec_env txs) = (\<lambda>e. [])"
  "en_DecodeEvmAction (demo_exec_env txs) = (\<lambda>b. Inl ErrInvalidParam)"
  "en_DecodeTx (demo_exec_env txs) = (\<lambda>b. Inl ErrInvalidParam)"
  "en_DecodeNonce (demo_exec_env txs) = (\<lambda>b. 0)"
  "en_height (demo_exec_env txs) = 5"
  "en_blocktime (demo_exec_env txs) = 7"
  "en_difficulty (demo_exec_env txs) = 0"
  "en_parentHash (demo_exec_env txs) = []"
  "en_mainHash (demo_exec_env txs) = []"
  "en_mainHeight (demo_exec_env txs) = 0"
  "en_txs (demo_exec_env txs) = txs"
  "en_receipts (demo_exec_env txs) = []"
  by (simp_all add: demo_exec_env_def base_env_def)

lemma base_env_fields [simp]:
  "en_cfg base_env = demo_omnilink"
  "en_tx base_env = demo_txs"
  "en_sdb base_env = demo_states"
  "en_acc base_env = demo_acc"
  "en_MinTxFeeRate base_env = 1"
  "en_MaxTxFee base_env = (\<lambda>h. 100)"
  "en_MinBalanceTransfer base_env = 1"
  "en_ForwardExecs base_env = []"
  "en_ForwardActionNames base_env = []"
  "en_ProxyExecAddress base_env = ''proxy''"
  "en_registered base_env = Map.empty"
  "en_execDrivers base_env = Map.empty"
  "en_addressNames base_env = Map.empty"
  "en_PubKeyHash base_env = name_bytes"
  "en_PubKeyToExecAddr base_env = (\<lambda>b. ''exec'')"
  "en_CheckAddress base_env = (\<lambda>a h. None)"
  "en_GetRealToAddr base_env = To"
  "en_ActionName base_env = (\<lambda>tx. ''transfer'')"
  "en_GrpcCoded base_env = (\<lambda>e. False)"
  "en_ErrText base_env = (\<lambda>e. [])"
  "en_DecodeEvmAction base_env = (\<lambda>b. Inl ErrInvalidParam)"
  "en_DecodeTx base_env = (\<lambda>b. Inl ErrInvalidParam)"
  "en_DecodeNonce base_env = (\<lambda>b. 0)"
  "en_height base_env = 5"
  "en_blocktime base_env = 7"
  "en_difficulty base_env = 0"
  "en_parentHash base_env = []"
  "en_mainHash base_env = []"
  "en_mainHeight base_env = 0"
  "en_txs base_env = []"
  "en_receipts base_env = []"
  by (simp_all add: base_env_def)

lemma demo_omnilink_fields [simp]:
  "title demo_omnilink = ''local''"
  "cfg_forks demo_omnilink = demo_forks"
  "flags demo_omnilink = []"
  "chainID demo_omnilink = 0"
  "mcfg demo_omnilink = None"
  "disableCheckFork demo_omnilink = False"
  "AllowUserExec demo_omnilink = [''coins'']"
  by (simp_all add: demo_omnilink_def)

lemma demo_acc_fields [simp]:
  "CoinPrecision demo_acc = 100"
  "CoinExec demo_acc = ''coins''"
  "CoinSymbol demo_acc = ''bty''"
  "MinerExecs demo_acc = []"
  "ExecName demo_acc = (\<lambda>e. e)"
  "ExecAddr demo_acc = (\<lambda>e. e)"
  "IsHexAddress demo_acc = (\<lambda>a. False)"
  "FormatKeyFork demo_acc = True"
  "Encode demo_acc = (\<lambda>m. case m of MAccount a \<Rightarrow> word_of_int (Balance a) # name_bytes (Addr a) | _ \<Rightarrow> [])"
  "DecodeAccount demo_acc = (\<lambda>b. case b of [] \<Rightarrow> None | w # n \<Rightarrow> Some \<lparr>Currency = 0, Balance = uint w, Frozen = 0, Addr = map (\<lambda>x. char_of (unat x)) n\<rparr>)"
  by (simp_all add: demo_acc_def)

lemma demo_txs_fields [simp]:
  "EncodeTx demo_txs = (\<lambda>tx. [word_of_int (Nonce tx)])"
  "EncodeTxs demo_txs = (\<lambda>txs. [])"
  "DecodeTxs demo_txs = (\<lambda>d. Inl ErrInvalidParam)"
  "SizeTx demo_txs = (\<lambda>tx. 200)"
  "TxSha256 demo_txs = (\<lambda>d. d)"
  "CheckSignature demo_txs = (\<lambda>d e s h. True)"
  "PubKeyToAddr demo_txs = (\<lambda>i k. ''alice'')"
  "defaultAddressID demo_txs = 0"
  "LowAllowPackHeight demo_txs = 200"
  "HighAllowPackHeight demo_txs = 600"
  by (simp_all add: demo_txs_def)

lemma demo_states_fields [simp]:
  "StoreGet demo_states = (\<lambda>k. StoreValue (if k = ''mavl-coins-bty-alice'' then Some (10 # name_bytes ''alice'') else None))"
  "GetVersion demo_states = (\<lambda>h. Inr 0)"
  "GetV demo_states = (\<lambda>k v. Inl ErrNotFound)"
  "ForkExecRollback demo_states = (\<lambda>h. True)"
  by (simp_all add: demo_states_def)

lemma demo_coins_fields [simp]:
  "co_env demo_coins = base_env"
  "co_sub demo_coins = \<lparr>DisableAddrReceiver = False, DisableCheckTxAmount = False, FriendExecer = []\<rparr>"
  "co_Decode demo_coins = (\<lambda>b. case b of [] \<Rightarrow> Inl ErrInvalidParam | w # _ \<Rightarrow> Inr \<lparr>cm_Ty = 1, cm_Value = (if w = 0 then None else Some (ValTransfer (uint w)))\<rparr>)"
  "co_DecodeInt64 demo_coins = (\<lambda>b. case b of [] \<Rightarrow> Inl ErrInvalidParam | w # _ \<Rightarrow> Inr (uint w))"
  "co_EncodeInt64 demo_coins = (\<lambda>n. if n = 0 then [] else [word_of_int n])"
  by (simp_all add: demo_coins_def)

lemma demo_transfer_fields [simp]:
  "Execer (demo_transfer n amount) = ''coins''"
  "Payload (demo_transfer n amount) = [amount]"
  "TxSignature (demo_transfer n amount) = None"
  "Fee (demo_transfer n amount) = 1"
  "Expire (demo_transfer n amount) = 0"
  "Nonce (demo_transfer n amount) = n"
  "To (demo_transfer n amount) = ''bob''"
  "GroupCount (demo_transfer n amount) = 0"
  "TxHeader (demo_transfer n amount) = None"
  "Next (demo_transfer n amount) = None"
  "ChainID (demo_transfer n amount) = 0"
  by (simp_all add: demo_transfer_def)

lemma coins_driver_fields [simp]:
  "GetDriverName (coins_driver ce) = ''coins''" "ExecutorOrder (coins_driver ce) ctx = 0" "IsFree (coins_driver ce) ctx = False"
  "Allow (coins_driver ce) = base_Allow (co_env ce) ''coins''"
  "drv_CheckTx (coins_driver ce) ctx tx i sv lv = \<lparr>out_res = coins_CheckTx ce tx, out_state = [], out_local = []\<rparr>"
  "drv_Exec (coins_driver ce) ctx tx i sv lv = coins_Exec ce ctx tx i sv"
  by (simp_all add: coins_driver_def)

lemma demo_fork_at: "IsFork demo_forks 5 f \<longleftrightarrow> map_of (fork_list demo_forks) f = Some 0"
  by (auto simp: IsFork_def GetFork_def MaxHeight_def demo_forks_def fork_list_def split: option.splits dest!: map_of_SomeD)

lemma demo_forks_on [simp]:
  "IsFork demo_forks 5 ''ForkStateDBSet''" "IsFork demo_forks 5 ''ForkCacheDriver''" "\<not> IsFork demo_forks 5 ''ForkProxyExec''"
  "IsFork demo_forks 5 ''ForkBlockCheck''" "IsFork demo_forks 5 ''ForkLocalDBAccess''"
  by (simp_all add: demo_fork_at) (simp_all add: demo_forks_def fork_list_def)

lemma demo_en_fork [simp]: "en_fork (demo_exec_env txs) f = IsFork demo_forks 5 f"
  by (simp add: en_fork_def)

section \<open>A run\<close>

text \<open>One transfer of three coins, followed step by step.\<close>

definition demo_loaded :: executor where
  "demo_loaded = \<lparr>e_state = NewStateDB True demo_prev (Some (False, 5)), e_local = None,
     e_objs = [\<lparr>obj_driver = coins_driver demo_coins, obj_name = ''coins'', obj_curname = ''coins''\<rparr>],
     driverCache = [''coins'' \<mapsto> 0], currTxIdx = 0, currExecTx = Some (BlockTx 0), currDriver = 0\<rparr>"

definition with_state :: "StateDB \<Rightarrow> executor" where
  "with_state sd = demo_loaded\<lparr>e_state := sd\<rparr>"

definition demo_fee_kv :: "(string \<times> gobytes) list" where
  "demo_fee_kv = [(''mavl-coins-bty-alice'', Some [9, 97, 108, 105, 99, 101])]"

definition demo_pay_kv :: "(string \<times> gobytes) list" where
  "demo_pay_kv = [(''mavl-coins-bty-alice'', Some [6, 97, 108, 105, 99, 101]), (''mavl-coins-bty-bob'', Some [3, 98, 111, 98])]"

lemma names_simps [simp]:
  "GetRealExecName ''coins'' = ''coins''" "GetParaExec demo_omnilink ''coins'' = ''coins''"
  "isPara demo_omnilink = False" "isPara demo_omnilink \<longleftrightarrow> False"
  by (simp_all add: GetRealExecName_def GetParaExecName_def ParaKeyX_def UserKey_def GetParaExec_def isPara_def
      IsParaExecName_def)

lemma demo_load_first:
  "loadDriver (demo_exec_env txs) (demo_transfer n a) (BlockTx 0) 0 (newExecutor (demo_exec_env txs) demo_prev False None) =
   (Inr 0, demo_loaded)"
  by (simp add: loadDriver_def same_tx_def newExecutor_def cached_driver_def LoadDriver_def bind_ex_def ret_def
      new_driver_obj_def cache_driver_def update_ex_def read_ex_def driver_at_def base_Allow_def AllowIsSame_def SetNames_def
      demo_loaded_def Let_def)

lemma demo_load [simp]:
  "loadDriver (demo_exec_env txs) (demo_transfer n a) (BlockTx 0) 0 (with_state sd) = (Inr 0, with_state sd)"
  by (simp add: loadDriver_def same_tx_def with_state_def demo_loaded_def)

lemma demo_driver_at [simp]:
  "driver_at (with_state sd) 0 = \<lparr>obj_driver = coins_driver demo_coins, obj_name = ''coins'', obj_curname = ''coins''\<rparr>"
  "driver_at demo_loaded 0 = \<lparr>obj_driver = coins_driver demo_coins, obj_name = ''coins'', obj_curname = ''coins''\<rparr>"
  by (simp_all add: driver_at_def with_state_def demo_loaded_def)

lemma with_state_simps [simp]:
  "e_state (with_state sd) = sd" "e_local (with_state sd) = None" "(with_state sd)\<lparr>e_state := sd'\<rparr> = with_state sd'"
  by (simp_all add: with_state_def demo_loaded_def)

lemma demo_check:
  "ex_checkTx (demo_exec_env txs) (demo_transfer n a) (BlockTx 0) 0 (newExecutor (demo_exec_env txs) demo_prev False None) =
   (Inr (), with_state (NewStateDB True demo_prev (Some (False, 5))))"
proof -
  have "tx_Check demo_txs demo_omnilink 5 1 100 (demo_transfer n a) = None" "\<not> IsExpire demo_txs demo_omnilink 5 7 (demo_transfer n a)"
    by (simp_all add: tx_Check_def GetTxGroup_def check_def GetRealFee_def MaxTxSize_def i64_def IsExpire_def isExpire_def)
  then show ?thesis
    by (simp add: ex_checkTx_def getRealExecName_def bind_ex_def demo_load_first with_driver_def ret_def
        IsAllowExecName_def MaxExecNameLength_def UserKey_def Let_def with_state_def)
      (simp add: demo_loaded_def)
qed

lemma demo_codec [simp]:
  "name_bytes ''alice'' = [97, 108, 105, 99, 101]" "name_bytes ''bob'' = [98, 111, 98]"
  "map (\<lambda>x. char_of (unat x)) [97 :: 8 word, 108, 105, 99, 101] = ''alice''"
  "map (\<lambda>x. char_of (unat x)) [98 :: 8 word, 111, 98] = ''bob''"
  by (simp_all add: name_bytes_def) code_simp+

definition sd0 :: StateDB where
  "sd0 = NewStateDB True demo_prev (Some (False, 5))"

definition demo_account :: "int \<Rightarrow> string \<Rightarrow> account" where
  "demo_account b name = \<lparr>Currency = 0, Balance = b, Frozen = 0, Addr = name\<rparr>"

lemma demo_keys [simp]:
  "accountReadKey demo_acc (coinsAccount (demo_exec_env txs)) a = ''mavl-coins-bty-'' @ a"
  "AccountKey demo_acc (coinsAccount (demo_exec_env txs)) a = ''mavl-coins-bty-'' @ a"
  "From demo_txs tx = ''alice''"
  by (simp_all add: accountReadKey_def coinsAccount_def NewCoinsAccount_def newAccountDB_def FormatAddrKey_def AccountKey_def From_def)

definition sd_read :: StateDB where
  "sd_read = sd0\<lparr>s_cache := cacheDB_Set (s_cache sd0) ''mavl-coins-bty-alice'' (Some [10, 97, 108, 105, 99, 101])\<rparr>"

definition sd_fee :: StateDB where
  "sd_fee = StateDB_Set sd_read ''mavl-coins-bty-alice'' (Some [9, 97, 108, 105, 99, 101])"

lemma demo_get: "StateDB_Get demo_states sd0 ''mavl-coins-bty-alice'' = (Inr [10, 97, 108, 105, 99, 101], sd_read)"
  by (simp add: StateDB_Get_def sd0_def NewStateDB_def sd_read_def cacheDB_Get_def)

lemma demo_fee:
  "execFee (demo_exec_env txs) (demo_transfer n a) (BlockTx 0) 0 (with_state sd0) =
   (Inr \<lparr>rc_Ty = 1, rc_KV = demo_fee_kv, rc_Logs = [\<lparr>log_Ty = 2, log_Log = []\<rparr>]\<rparr>, with_state sd_fee)"
proof -
  have pub: "ExecPubKey (demo_exec_env txs) ''coins'' = Inr (name_bytes ''coins'')" "name_bytes ''coins'' \<noteq> []"
    by (simp_all add: ExecPubKey_def MaxExecNameLength_def name_bytes_def)
  have dec: "DecodeAccount demo_acc [10, 97, 108, 105, 99, 101] = Some (demo_account 10 ''alice'')"
    by (simp add: demo_account_def del: list.map)
  have enc: "GetKVSet demo_acc (coinsAccount (demo_exec_env txs)) (demo_account 9 ''alice'') =
      [(''mavl-coins-bty-alice'', [9, 97, 108, 105, 99, 101])]"
    by (simp add: GetKVSet_def demo_account_def)
  have "processFee (demo_exec_env txs) (demo_transfer n a) (with_state sd0) =
   (Inr \<lparr>rc_Ty = 1, rc_KV = demo_fee_kv, rc_Logs = [\<lparr>log_Ty = 2, log_Log = []\<rparr>]\<rparr>, with_state sd_fee)"
    using enc
    by (simp add: processFee_def coins_LoadAccount_def state_get_def demo_get bind_ex_def dec ret_def
        demo_account_def i64_def Let_def state_set_def update_ex_def sd_fee_def cutFeeReceipt_def ExecPack_def TyLogFee_def demo_fee_kv_def
        del: demo_acc_fields(10))
  then show ?thesis
    by (simp add: execFee_def bind_ex_def lift_ex_def pub ret_def with_driver_def)
qed

definition sd_begin :: StateDB where
  "sd_begin = StateDB_StartTx (StateDB_Begin demo_states sd_fee)"

definition sd_paid :: StateDB where
  "sd_paid = StateDB_Set (StateDB_Set sd_begin ''mavl-coins-bty-alice'' (Some [6, 97, 108, 105, 99, 101]))
     ''mavl-coins-bty-bob'' (Some [3, 98, 111, 98])"

lemma sd_begin_get:
  "StateDB_Get demo_states sd_begin ''mavl-coins-bty-alice'' = (Inr [9, 97, 108, 105, 99, 101], sd_begin)"
  "StateDB_Get demo_states sd_begin ''mavl-coins-bty-bob'' = (Inl ErrNotFound, sd_begin)"
  by (simp_all add: sd_begin_def sd_fee_def sd_read_def sd0_def NewStateDB_def StateDB_Get_def StateDB_Set_def
      StateDB_StartTx_def StateDB_Begin_def StateDB_resetTx_def cacheDB_Reset_def cacheDB_Get_def cacheDB_Set_def stored_def)

lemma demo_call:
  "call_driver env f (with_state sd) =
   (let out = f (state_view env (with_state sd)) (local_view (with_state sd))
    in (out_res out, with_state (run_state (en_sdb env) sd (out_state out))))"
  by (simp add: call_driver_def Let_def with_state_def demo_loaded_def)

lemma demo_transfer_run:
  "fst (Transfer demo_acc (state_account demo_coins (state_view (demo_exec_env txs) (with_state sd_begin))) ''alice'' ''bob'' 3) =
   Inr \<lparr>receipt.Ty = 2, KV = [(''mavl-coins-bty-alice'', [6, 97, 108, 105, 99, 101]), (''mavl-coins-bty-bob'', [3, 98, 111, 98])],
      Logs = [\<lparr>LogTy = 3, LogData = []\<rparr>, \<lparr>LogTy = 3, LogData = []\<rparr>]\<rparr>"
proof -
  have dec: "DecodeAccount demo_acc [9, 97, 108, 105, 99, 101] = Some (demo_account 9 ''alice'')"
    by (simp add: demo_account_def del: list.map)
  let ?acc = "state_account demo_coins (state_view (demo_exec_env txs) (with_state sd_begin))"
  have load: "LoadAccount demo_acc ?acc ''alice'' = Inr (demo_account 9 ''alice'')"
    "LoadAccount demo_acc ?acc ''bob'' = Inr (demo_account 0 ''bob'')"
    by (simp_all add: LoadAccount_def state_account_def SetDB_def state_view_def sd_begin_get dec accountReadKey_def
        NewCoinsAccount_def newAccountDB_def FormatAddrKey_def new_account_def demo_account_def del: demo_acc_fields(10))
  have enc: "GetKVSet demo_acc ?acc (demo_account 6 ''alice'') = [(''mavl-coins-bty-alice'', [6, 97, 108, 105, 99, 101])]"
    "GetKVSet demo_acc ?acc (demo_account 3 ''bob'') = [(''mavl-coins-bty-bob'', [3, 98, 111, 98])]"
    by (simp_all add: GetKVSet_def AccountKey_def state_account_def SetDB_def NewCoinsAccount_def newAccountDB_def
      FormatAddrKey_def demo_account_def)
  show ?thesis
    using enc by (simp add: Transfer_def CheckAmount_def MaxCoin_def load Let_def demo_account_def i64_def transferReceipt_def
        ok_receipt_def ExecOk_def)
qed

definition demo_pay_receipt :: exec_receipt where
  "demo_pay_receipt = \<lparr>rc_Ty = 2, rc_KV = demo_pay_kv, rc_Logs = [\<lparr>log_Ty = 3, log_Log = []\<rparr>, \<lparr>log_Ty = 3, log_Log = []\<rparr>]\<rparr>"

lemma demo_decode: "coins_decode demo_coins (demo_transfer n 3) = Inr (CallTransfer (Some 3))"
  by (simp add: coins_decode_def CoinsActionTransfer_def GetTransfer_def)

lemma demo_coins_Exec:
  "coins_Exec demo_coins ctx (demo_transfer n 3) 0 (state_view (demo_exec_env txs) (with_state sd_begin)) =
     \<lparr>out_res = Inr (Some demo_pay_receipt),
      out_state = [Read ''mavl-coins-bty-alice'', Read ''mavl-coins-bty-bob'',
        Write ''mavl-coins-bty-alice'' (Some [6, 97, 108, 105, 99, 101]), Write ''mavl-coins-bty-bob'' (Some [3, 98, 111, 98])],
      out_local = []\<rparr>"
proof -
  let ?env = "demo_exec_env txs"
  have keys: "main_key demo_coins a = ''mavl-coins-bty-'' @ a" for a
    by (simp add: main_key_def NewCoinsAccount_def newAccountDB_def FormatAddrKey_def AccountKey_def)
  obtain acc where tr: "Transfer demo_acc (state_account demo_coins (state_view ?env (with_state sd_begin))) ''alice'' ''bob'' 3 =
     (Inr \<lparr>receipt.Ty = 2, KV = [(''mavl-coins-bty-alice'', [6, 97, 108, 105, 99, 101]), (''mavl-coins-bty-bob'', [3, 98, 111, 98])],
      Logs = [\<lparr>LogTy = 3, LogData = []\<rparr>, \<lparr>LogTy = 3, LogData = []\<rparr>]\<rparr>, acc)"
    using demo_transfer_run [of txs] by (metis prod.collapse)
  show ?thesis
    by (simp add: coins_Exec_def demo_decode Exec_Transfer_def IsDriverAddress_def ledger_run_def keys state_view_def sd_begin_get Let_def
        tr [unfolded state_view_def with_state_simps demo_env_fields] to_receipt_def demo_pay_receipt_def demo_pay_kv_def)
qed

lemma demo_exec:
  "ex_Exec (demo_exec_env txs) (demo_transfer n 3) (BlockTx 0) 0 (with_state sd_begin) =
   (Inr (Some demo_pay_receipt), with_state sd_paid)"
proof -
  let ?env = "demo_exec_env txs"
  let ?tx = "demo_transfer n 3"
  have chk: "call_CheckTx ?env 0 ?tx 0 (with_state sd_begin) = (Inr (), with_state sd_begin)"
    by (simp add: call_CheckTx_def with_driver_def demo_call coins_CheckTx_def Amount_def demo_decode call_amount_def
        run_state_def Let_def)
  have "snd (StateDB_Get demo_states sd_begin k) = sd_begin" if "k \<in> {''mavl-coins-bty-alice'', ''mavl-coins-bty-bob''}" for k
    using that sd_begin_get by auto
  then have run: "call_driver ?env (drv_Exec (coins_driver demo_coins) ctx ?tx 0) (with_state sd_begin) =
      (Inr (Some demo_pay_receipt), with_state sd_paid)" for ctx
    by (simp add: demo_call demo_coins_Exec run_state_def sd_paid_def Let_def)
  show ?thesis
    by (simp add: ex_Exec_def recover_ex_def bind_ex_def drv_CheckAddress_def IsDriverAddress_def check_ex_def ret_def
        with_driver_def chk Let_def run)
qed

definition demo_all_receipt :: exec_receipt where
  "demo_all_receipt = \<lparr>rc_Ty = 2, rc_KV = demo_fee_kv @ demo_pay_kv,
     rc_Logs = [\<lparr>log_Ty = 2, log_Log = []\<rparr>, \<lparr>log_Ty = 3, log_Log = []\<rparr>, \<lparr>log_Ty = 3, log_Log = []\<rparr>]\<rparr>"

lemma demo_allow:
  "isAllowExec (demo_exec_env txs) (''mavl-coins-bty-'' @ a) (demo_transfer n b) (BlockTx 0) 0 (with_state sd) =
   (Inr True, with_state sd)"
proof -
  have "FindExecer (''mavl-'' @ ''coins'' @ ''-'' @ ''bty-'' @ a) = Inr ''coins''"
    by (rule FindExecer_key) simp
  then have "FindExecer (''mavl-coins-bty-'' @ a) = Inr ''coins''" by simp
  then show ?thesis
    by (simp add: isAllowExec_def getRealExecName_def bind_ex_def with_driver_def ret_def isAllowKeyWrite_def Let_def)
qed

lemma demo_one:
  "execTxOne (demo_exec_env txs) \<lparr>rc_Ty = 1, rc_KV = demo_fee_kv, rc_Logs = [\<lparr>log_Ty = 2, log_Log = []\<rparr>]\<rparr>
     (demo_transfer n 3) (BlockTx 0) 0 (with_state (StateDB_Begin demo_states sd_fee)) =
   (Inr (demo_all_receipt, None), with_state (foldl (\<lambda>sd (k, v). StateDB_Set sd k v) sd_paid (demo_fee_kv @ demo_pay_kv)))"
proof -
  have start: "startTx (with_state (StateDB_Begin demo_states sd_fee)) = (Inr (), with_state sd_begin)"
    by (simp add: startTx_def update_ex_def sd_begin_def with_state_def demo_loaded_def)
  have keys: "StateDB_GetSetKeys sd_paid = [''mavl-coins-bty-alice'', ''mavl-coins-bty-bob'']"
    by (simp add: StateDB_GetSetKeys_def sd_paid_def sd_begin_def StateDB_Set_def StateDB_StartTx_def StateDB_Begin_def
        demo_states_fields StateDB_resetTx_def sd_fee_def sd_read_def sd0_def NewStateDB_def)
  have kv: "checkKV [''mavl-coins-bty-alice'', ''mavl-coins-bty-bob''] demo_pay_kv = None"
    by (simp add: checkKV_def demo_pay_kv_def)
  have allow: "checkKeyAllow (demo_exec_env txs) f (demo_transfer n 3) (BlockTx 0) 0 demo_pay_kv (with_state sd) =
      (Inr (f, None), with_state sd)" for f sd
    using demo_allow [of txs "''alice''" n 3 sd] demo_allow [of txs "''bob''" n 3 sd]
    by (simp add: demo_pay_kv_def bind_ex_def ret_def)
  have same: "execLocalSameTime (demo_exec_env txs) (demo_transfer n 3) r (BlockTx 0) 0 (with_state sd) = (Inr (), with_state sd)" for r sd
    by (simp add: execLocalSameTime_def isExecLocalSameTime_def bind_ex_def with_driver_def ret_def ExecLocalSameTime_def)
  have set: "state_set_all kvs (with_state sd) = (Inr (), with_state (foldl (\<lambda>sd (k, v). StateDB_Set sd k v) sd kvs))" for kvs sd
    by (induction kvs arbitrary: sd) (auto simp: ret_def bind_ex_def state_set_def update_ex_def)
  show ?thesis
    unfolding execTxOne_def
    by (simp add: bind_ex_def [of startTx] start)
      (simp add: try_ex_def demo_exec bind_ex_def read_ex_def keys get_kv_def demo_pay_receipt_def kv allow same finish_tx_def merge_receipt_def set ret_def demo_all_receipt_def Let_def)
qed

text \<open>The state after the transfer: its writes, on those of the fee.\<close>

definition demo_end :: StateDB where
  "demo_end = StateDB_Commit demo_states (foldl (\<lambda>sd (k, v). StateDB_Set sd k v) sd_paid (demo_fee_kv @ demo_pay_kv))"

lemma demo_run:
  "procExecTxList (demo_exec_env [demo_transfer n 3]) (newExecutor (demo_exec_env [demo_transfer n 3]) demo_prev False None) =
   (Inr [demo_all_receipt], with_state demo_end)"
proof -
  let ?tx = "demo_transfer n 3"
  let ?env = "demo_exec_env [?tx]"
  have beg: "ex_begin ?env (with_state sd_fee) = (Inr (), with_state (StateDB_Begin demo_states sd_fee))"
    by (simp add: ex_begin_def update_ex_def with_state_def demo_loaded_def)
  have commit: "ex_commit ?env (with_state sd) = (Inr (), with_state (StateDB_Commit demo_states sd))" for sd
    by (simp add: ex_commit_def Let_def)
  have body: "execTx_body ?env ?tx (BlockTx 0) 0 (newExecutor ?env demo_prev False None) =
      (Inr (Some demo_all_receipt, Inr demo_all_receipt), with_state demo_end)"
    unfolding execTx_body_def
    by (simp add: try_ex_def demo_check sd0_def [symmetric] demo_fee bind_ex_def beg demo_one commit ret_def demo_end_def)
  have "execTx ?env ?tx 0 0 (newExecutor ?env demo_prev False None) = (Inr demo_all_receipt, with_state demo_end)"
    by (simp add: execTx_def bind_ex_def checkProxyExecTx_def ret_def body lift_ex_def)
  moreover have "ex_enableMVCC ?env None (newExecutor ?env demo_prev False None) = (Inr (), newExecutor ?env demo_prev False None)"
    by (simp add: ex_enableMVCC_def enableMVCC_def newExecutor_def NewStateDB_def)
  ultimately show ?thesis
    by (simp add: procExecTxList_def recover_ex_def bind_ex_def try_ex_def ret_def)
qed

lemma demo_rollback_env: "rollback_env (demo_exec_env txs)"
  by (auto simp: rollback_env_def registry_ok_def demo_fork_at coins_driver_ok split: if_splits)
    (simp_all add: demo_forks_def fork_list_def)

lemma demo_changes:
  "fst (StateDB_Get demo_states demo_end ''mavl-coins-bty-bob'') = Inr [3, 98, 111, 98]"
  "fst (StateDB_Get demo_states (NewStateDB True demo_prev (Some (False, 5))) ''mavl-coins-bty-bob'') = Inl ErrNotFound"
  by (simp_all add: demo_end_def demo_fee_kv_def demo_pay_kv_def StateDB_Commit_def StateDB_Set_def StateDB_Get_def sd_paid_def
      sd_begin_def StateDB_StartTx_def StateDB_Begin_def StateDB_resetTx_def sd_fee_def sd_read_def sd0_def NewStateDB_def
      cacheDB_Get_def cacheDB_Set_def cacheDB_Merge_def cacheDB_Reset_def stored_def)

section \<open>Witnesses\<close>

theorem procExecTxList_state_is_receipts_witness:
  "\<exists>receipts s. procExecTxList (demo_exec_env [demo_transfer 1 3]) (newExecutor (demo_exec_env [demo_transfer 1 3]) demo_prev False None) =
       (Inr receipts, s) \<and> length receipts = 1 \<and>
     apply_kvs (writes receipts)
       (\<lambda>k. fst (StateDB_Get demo_states (NewStateDB True demo_prev (Some (False, 5))) k)) ''mavl-coins-bty-bob'' = Inr [3, 98, 111, 98]"
  using procExecTxList_state_is_receipts [OF demo_rollback_env _ demo_run [of 1]] demo_run [of 1] demo_changes(1) by simp


theorem procExecTxList_dispatch_typed_witness:
  "driverCache (with_state demo_end) ''coins'' = Some 0 \<and> currDriver (with_state demo_end) < length (e_objs (with_state demo_end)) \<and>
   (\<exists>n h. en_registered (demo_exec_env [demo_transfer 1 3]) n = Some (obj_driver (driver_at (with_state demo_end) 0), h))"
  using procExecTxList_dispatch_typed [OF demo_rollback_env _ demo_run [of 1]]
  by (auto simp: with_state_def demo_loaded_def)

definition demo_local :: kv_view where
  "demo_local = \<lparr>kv_get = (\<lambda>k. Inl ErrNotFound), kv_set_err = None\<rparr>"

text \<open>One byte does not hold every \<^verbatim>\<open>Int64\<close>, so the codec of the witnesses keeps eight.\<close>

definition wide_coins :: coins_env where
  "wide_coins = demo_coins\<lparr>
     co_EncodeInt64 := (\<lambda>n. if n = 0 then [] else map (\<lambda>i. word_of_int (n div 256 ^ i)) [0..<8]),
     co_DecodeInt64 := (\<lambda>b. Inr (i64 (\<Sum>i<8. uint (b ! i) * 256 ^ i)))\<rparr>"

lemma digits_sum: "(\<Sum>i<m. (n div 256 ^ i mod 256) * 256 ^ i) = n mod 256 ^ m" for n :: int
proof (induction m)
  case (Suc m)
  have "n mod (256 ^ m * 256) = 256 ^ m * (n div 256 ^ m mod 256) + n mod 256 ^ m"
    by (rule zmod_zmult2_eq) simp
  with Suc show ?case by (simp add: mult.commute)
qed simp

lemma wide_codec: "int64_codec wide_coins"
proof -
  have "i64 (\<Sum>i<8. uint (map (\<lambda>i. word_of_int (n div 256 ^ i) :: 8 word) [0..<8] ! i) * 256 ^ i) = n" if "i64 n = n" for n
  proof -
    have "(\<Sum>i<8. uint (map (\<lambda>i. word_of_int (n div 256 ^ i) :: 8 word) [0..<8] ! i) * 256 ^ i) = (\<Sum>i<8. (n div 256 ^ i mod 256) * 256 ^ i)"
      by (rule sum.cong) (simp_all add: uint_word_of_int)
    also have "\<dots> = n mod 256 ^ 8" by (rule digits_sum)
    finally show ?thesis using that by (simp add: i64_def mod_simps)
  qed
  then show ?thesis by (auto simp: int64_codec_def wide_coins_def)
qed

lemma wide_fields [simp]:
  "co_env wide_coins = base_env" "DisableAddrReceiver (co_sub wide_coins) = False" "co_Decode wide_coins = co_Decode demo_coins"
  "coins_decode wide_coins (demo_transfer n 3) = Inr (CallTransfer (Some 3))"
  "getAddrReciver wide_coins demo_local a = Inr 0" "kv_set_err demo_local = None"
  by (simp_all add: wide_coins_def coins_decode_def CoinsActionTransfer_def GetTransfer_def getAddrReciver_def demo_local_def)

lemma counted_demo: "counted wide_coins (demo_transfer n 3) (CallTransfer (Some 3)) = (''bob'', Some 3)"
  by (simp add: counted_def)


theorem failed_transfer_is_counted_witness:
  "\<forall>ctx sv. \<exists>kvs. out_res (drv_ExecLocal (coins_driver wide_coins) ctx (demo_transfer 1 3) \<lparr>rd_Ty = 1, rd_Logs = []\<rparr> 0 sv demo_local) = Inr kvs \<and>
     getAddrReciver wide_coins (view_after demo_local kvs) ''bob'' = Inr 3"
proof (intro allI)
  fix ctx :: drv_ctx and sv :: kv_view
  show "\<exists>kvs. out_res (drv_ExecLocal (coins_driver wide_coins) ctx (demo_transfer 1 3) \<lparr>rd_Ty = 1, rd_Logs = []\<rparr> 0 sv demo_local) = Inr kvs \<and>
     getAddrReciver wide_coins (view_after demo_local kvs) ''bob'' = Inr 3"
    using failed_transfer_is_counted [of wide_coins demo_local "demo_transfer 1 3" 3 "\<lparr>rd_Ty = 1, rd_Logs = []\<rparr>" 0 ctx 0 sv] wide_codec
    by (simp add: ExecPack_def i64_def) blast
qed

theorem empty_transfer_stops_block_witness:
  "fst (procExecAddBlock ((demo_exec_env [demo_transfer 1 0])\<lparr>en_receipts := [\<lparr>rd_Ty = 1, rd_Logs = []\<rparr>]\<rparr>) [] False None []
      (newExecutor ((demo_exec_env [demo_transfer 1 0])\<lparr>en_receipts := [\<lparr>rd_Ty = 1, rd_Logs = []\<rparr>]\<rparr>) [] False
        (Some (NewExecLocalDB Map.empty False)))) = Inl ErrExecPanic"
  using empty_transfer_stops_block [of "demo_transfer 1 0" demo_coins "\<lparr>cm_Ty = 1, cm_Value = None\<rparr>"
      "(demo_exec_env [demo_transfer 1 0])\<lparr>en_receipts := [\<lparr>rd_Ty = 1, rd_Logs = []\<rparr>]\<rparr>" "[]" "\<lparr>rd_Ty = 1, rd_Logs = []\<rparr>" "[]"]
  by (simp add: CoinsActionTransfer_def GetTransfer_def LoadDriver_def en_fork_def)


end
