(* ===== verification/Block_Exec_Demo.thy ===== *)
theory Block_Exec_Demo
  imports Block_State Exec_Demo Transactions_Theorems
begin

text \<open>
  The chain of \<open>Exec_Demo\<close> on a store that holds the account of \<open>alice\<close>, with modules around
  the executor that find nothing to object: a block with one transfer is made by a node and then
  checked by another. For the shifted index,
  a group of two behind a transaction without a fee.
\<close>

definition demo_merkle :: merkle_env where
  "demo_merkle = \<lparr>Sha2Sum = (\<lambda>d. take 32 (d @ replicate 32 0)), NumCPU = 1, arrivals = (\<lambda>n. [0..<n])\<rparr>"

definition demo_before :: atree where
  "demo_before = Tip (key_bytes ''mavl-coins-bty-alice'') [10, 97, 108, 105, 99, 101]"

definition demo_after :: atree where
  "demo_after = Bin (key_bytes ''mavl-coins-bty-bob'') (Tip (key_bytes ''mavl-coins-bty-alice'') [6, 97, 108, 105, 99, 101])
     (Tip (key_bytes ''mavl-coins-bty-bob'') [3, 98, 111, 98])"

definition demo_mstore :: mavl_store where
  "demo_mstore = \<lparr>ms_db = [demo_prev \<mapsto> store_of demo_menv demo_before], ms_trees = Map.empty\<rparr>"

lemma demo_trees:
  "ahash demo_menv demo_before = demo_prev" "demo_prev \<noteq> emptyRoot" "tree_ok demo_before"
  "no_clash demo_menv (ms_db demo_mstore) demo_after" "ahash demo_menv demo_after \<noteq> emptyRoot"
  "oset_all (store_pairs demo_pay_kv) (Some demo_before) = Some demo_after"
  by code_simp+

lemma demo_version_tree: "version_tree demo_menv (ms_db demo_mstore) (Some demo_prev) (Some demo_before)"
proof -
  have "in_store demo_menv (ms_db demo_mstore) demo_before"
    using demo_trees(1) by (simp add: in_store_def demo_mstore_def demo_before_def)
  from in_store_version [OF this demo_trees(3)] show ?thesis using demo_trees(1,2) by simp
qed

lemma demo_set: "ExecKVMemSet demo_menv demo_mstore demo_prev 5 demo_pay_kv sync False = Inr (ahash demo_menv demo_after)"
proof -
  have "store_pairs demo_pay_kv \<noteq> []" "length (oinorder (Some demo_before)) + length (store_pairs demo_pay_kv) < 2 ^ 31"
    by (simp_all add: demo_pay_kv_def demo_before_def)
  with Store_MemSet_ok [OF demo_version_tree this _ demo_trees(6), of 5] demo_plain
  obtain T where "Store_MemSet demo_menv demo_mstore (Some demo_prev) 5 (store_pairs demo_pay_kv) =
      Some (Inr (Some (ahash demo_menv demo_after)), keep_tree (Some (ahash demo_menv demo_after)) (Some T) demo_mstore)"
    by (auto simp: plain_config_def)
  then show ?thesis by (simp add: ExecKVMemSet_def processMessage_def hash_reply_def)
qed

definition demo_modules :: pre_env where
  "demo_modules = \<lparr>pe_exec = demo_exec_env [], pe_merkle = demo_merkle, pe_localdb = None, pe_mvcc = False,
     pe_DisableTxDupCheck = False, CheckTxsExist = (\<lambda>hashes. Inr (int (length hashes), map (\<lambda>h. True) hashes)),
     CheckBlockSign = (\<lambda>b. True), TxHashList = (\<lambda>hashes expire height. Inr []),
     StoreMemSet = ExecKVMemSet demo_menv demo_mstore, StoreCommit = (\<lambda>hash upgrade. None),
     CheckBlock = (\<lambda>d. None)\<rparr>"

definition demo_new_block :: "transaction block" where
  "demo_new_block = \<lparr>Version = 0, ParentHash = [], TxHash = [], StateHash = [], Height = 5, BlockTime = 7, Difficulty = 0,
     MainHash = [], MainHeight = 0, Signature = None, Txs = [demo_transfer 1 3]\<rparr>"

definition demo_made_block :: "transaction block" where
  "demo_made_block = demo_new_block\<lparr>TxHash := [1], StateHash := ahash demo_menv demo_after\<rparr>"

lemma demo_ctx: "exec_ctx demo_modules demo_new_block = demo_exec_env [demo_transfer 1 3]"
  "exec_ctx demo_modules demo_made_block = demo_exec_env [demo_transfer 1 3]"
  by (simp_all add: exec_ctx_def demo_modules_def demo_new_block_def demo_made_block_def demo_exec_env_def base_env_def)

lemma demo_modules_fields [simp]:
  "pe_exec demo_modules = demo_exec_env []" "pe_merkle demo_modules = demo_merkle" "pe_localdb demo_modules = None"
  "pe_mvcc demo_modules = False" "pe_DisableTxDupCheck demo_modules = False"
  "CheckTxsExist demo_modules hashes = Inr (int (length hashes), map (\<lambda>h. True) hashes)"
  "CheckBlockSign demo_modules b = True" "TxHashList demo_modules hashes expire height = Inr []"
  "StoreMemSet demo_modules = ExecKVMemSet demo_menv demo_mstore"
  "StoreCommit demo_modules hash upgrade = None" "CheckBlock demo_modules d = None"
  by (simp_all add: demo_modules_def)

lemma demo_block_fields [simp]:
  "Height demo_new_block = 5" "MainHeight demo_new_block = 0" "Txs demo_new_block = [demo_transfer 1 3]"
  "Signature demo_new_block = None"
  by (simp_all add: demo_new_block_def)

lemma demo_tx_Hash: "tx_Hash demo_txs (demo_transfer 1 3) = [1]"
  by (simp add: tx_Hash_def CloneTx_def)

lemma demo_no_fork: "pre_fork demo_modules 5 ''ForkRootHash'' \<longleftrightarrow> False" "pre_fork demo_modules 5 ''ForkCheckTxDup'' \<longleftrightarrow> False"
  by (simp_all add: pre_fork_def demo_fork_at) (simp_all add: demo_forks_def fork_list_def)

lemma demo_tx_root: "calc_tx_hash demo_modules (demo_new_block\<lparr>TxHash := t, StateHash := h\<rparr>) = Inr [1]"
proof -
  have "merkle_root demo_merkle [Some [1]] = Some [1]" by code_simp
  then have "calcMerkleRoot demo_merkle (tx_Hash demo_txs) [demo_transfer 1 3] = Inr [1]"
    by (simp add: calcMerkleRoot_def demo_tx_Hash)
  then show ?thesis by (simp add: calc_tx_hash_def demo_no_fork)
qed

lemma demo_ExecTx: "ExecTx demo_modules demo_prev demo_new_block = Inr [demo_all_receipt]"
  "ExecTx demo_modules demo_prev demo_made_block = Inr [demo_all_receipt]"
  by (simp_all add: ExecTx_def demo_ctx demo_run)

lemma demo_detail_kv: "DelDupKey (demo_fee_kv @ demo_pay_kv) = demo_pay_kv"
  by (simp add: DelDupKey_def demo_fee_kv_def demo_pay_kv_def)

definition demo_detail :: block_detail where
  "demo_detail = \<lparr>bd_Block = demo_made_block, bd_Receipts = [\<lparr>rd_Ty = 2, rd_Logs = rc_Logs demo_all_receipt\<rparr>],
     bd_KV = demo_pay_kv, bd_PrevStatusHash = demo_prev\<rparr>"

lemma demo_made: "PreExecBlock demo_modules demo_prev demo_new_block False False True = Inr (demo_detail, [])"
proof -
  have b: "demo_new_block\<lparr>Txs := [demo_transfer 1 3]\<rparr> = demo_new_block" "length demo_pay_kv = 2"
    by (simp_all add: demo_new_block_def demo_pay_kv_def)
  have "calc_tx_hash demo_modules demo_new_block = Inr [1]"
    using demo_tx_root [of "[]" "[]"] by (simp add: demo_new_block_def)
  then show ?thesis
    by (simp add: PreExecBlock_def CheckTxDup_def demo_no_fork demo_ExecTx finish_block_def demo_set demo_all_receipt_def ExecErr_def
        demo_detail_kv demo_detail_def demo_made_block_def b Let_def)
qed

lemma demo_checked: "PreExecBlock demo_modules demo_prev demo_made_block True False True = Inr (demo_detail, [])"
proof -
  have b: "demo_made_block\<lparr>Txs := [demo_transfer 1 3]\<rparr> = demo_made_block"
    "Txs demo_made_block = [demo_transfer 1 3]" "Height demo_made_block = 5" "TxHash demo_made_block = [1]"
    "StateHash demo_made_block = ahash demo_menv demo_after" "demo_made_block\<lparr>TxHash := [1]\<rparr> = demo_made_block"
    "demo_made_block\<lparr>StateHash := ahash demo_menv demo_after\<rparr> = demo_made_block"
    by (simp_all add: demo_made_block_def demo_new_block_def)
  have "check_signs demo_modules demo_made_block = None"
    by (simp add: check_signs_def demo_made_block_def VerifySignature_def)
  moreover have "calc_tx_hash demo_modules demo_made_block = Inr [1]"
    using demo_tx_root [where t = "[1]" and h = "ahash demo_menv demo_after"] by (simp add: demo_made_block_def)
  moreover have "length demo_pay_kv = 2" by (simp add: demo_pay_kv_def)
  ultimately show ?thesis
    by (simp add: PreExecBlock_def CheckTxDup_def demo_no_fork demo_ExecTx finish_block_def demo_set demo_all_receipt_def ExecErr_def
        demo_detail_kv demo_detail_def b Let_def)
qed

theorem own_block_is_accepted_witness:
  "PreExecBlock demo_modules demo_prev demo_made_block True False True = Inr (demo_detail, [])"
proof -
  have b: "bd_Block demo_detail = demo_made_block" "length (Txs demo_made_block) = length (Txs demo_new_block)"
    by (simp_all add: demo_detail_def demo_made_block_def)
  have "check_signs demo_modules demo_made_block = None"
    by (simp add: check_signs_def demo_made_block_def VerifySignature_def)
  then show ?thesis
    using own_block_is_accepted [OF _ _ _ demo_made] demo_rollback_env b by (simp add: demo_ctx)
qed

theorem PreExecBlock_accepts_unchanged_witness:
  "StoreMemSet demo_modules demo_prev 5 demo_pay_kv False False = Inr (StateHash demo_made_block) \<and> distinct (map fst demo_pay_kv)"
proof -
  have b: "bd_Block demo_detail = demo_made_block" "bd_KV demo_detail = demo_pay_kv" "Height demo_made_block = 5"
    "Txs demo_made_block = Txs demo_new_block"
    by (simp_all add: demo_detail_def demo_made_block_def)
  show ?thesis
    using demo_checked PreExecBlock_accepts_unchanged [of demo_modules demo_made_block demo_prev False True demo_detail "[]"] demo_rollback_env b
    by (simp add: demo_ctx)
qed

theorem accepted_block_names_state_witness:
  "\<exists>st2. processMessage demo_menv st2 (EventStoreGet (Some (ahash demo_menv demo_after)) [key_bytes ''mavl-coins-bty-bob'']) =
     Some (ReplyValues [Some [3, 98, 111, 98]], st2)"
proof -
  have same: "(key_bytes k = key_bytes ''mavl-coins-bty-alice'') = (k = ''mavl-coins-bty-alice'')" for k by simp
  have "shows_state demo_menv demo_mstore demo_prev (oinorder (Some demo_before))"
    unfolding shows_state_def version_def using demo_version_tree
    by (auto simp: demo_mstore_def intro: exI [of _ "Some demo_before"])
  then have "store_read demo_menv demo_mstore demo_prev k = StoreGet demo_states k" for k
    using store_read_shows [of demo_menv demo_mstore demo_prev "oinorder (Some demo_before)" k]
    by (auto simp: demo_before_def same)
  then have on: "on_store demo_modules demo_menv demo_mstore demo_prev" by (simp add: on_store_def fun_eq_iff del: demo_states_fields)
  have b: "bd_KV demo_detail = demo_pay_kv" "Height demo_made_block = 5" "StateHash demo_made_block = ahash demo_menv demo_after"
    "demo_pay_kv \<noteq> []" "None \<notin> snd ` set demo_pay_kv" "length (oinorder (Some demo_before)) + length demo_pay_kv < 2 ^ 31"
    "ms_trees demo_mstore demo_prev = None"
    by (simp_all add: demo_detail_def demo_made_block_def demo_new_block_def demo_pay_kv_def demo_before_def demo_mstore_def)
  obtain st2 receipts s where
    run: "procExecTxList (demo_exec_env [demo_transfer 1 3]) (newExecutor (demo_exec_env [demo_transfer 1 3]) demo_prev False None) = (Inr receipts, s)"
    and get: "\<And>k. \<exists>v. processMessage demo_menv st2 (EventStoreGet (Some (ahash demo_menv demo_after)) [key_bytes k]) = Some (ReplyValues [v], st2) \<and>
      fst (StateDB_Get demo_states (e_state s) k) = stored v"
    using accepted_block_names_state [OF _ _ _ on demo_version_tree _ demo_checked, of demo_after] demo_rollback_env demo_trees demo_plain b
    by (auto simp: demo_ctx)
  have "s = with_state demo_end" using run demo_run [of 1] by simp
  with get [of "''mavl-coins-bty-bob''"] demo_changes(1) show ?thesis
    by (auto simp: stored_def split: option.splits)
qed

section \<open>A group behind a refused transaction\<close>

definition demo_unpaid :: transaction where
  "demo_unpaid = (demo_transfer 1 3)\<lparr>Fee := 0\<rparr>"

definition demo_group_env :: exec_env where
  "demo_group_env = (demo_exec_env (demo_unpaid # demo_grp))\<lparr>en_tx := demo_tx_env\<rparr>"

theorem refused_tx_shifts_index_witness:
  "\<forall>ob. drv_GetTxGroup demo_group_env (setEnv demo_group_env ob) 0 = Inl ErrTxGroupCount \<and>
   drv_GetTxGroup demo_group_env (setEnv (demo_group_env\<lparr>en_txs := demo_grp\<rparr>) ob) 0 = Inr demo_grp"
proof
  fix ob :: driver_obj
  let ?s = "newExecutor demo_group_env [] False None"
  have "tx_Check demo_tx_env demo_omnilink 5 1 100 demo_unpaid = Some ErrTxFeeTooLow" by code_simp
  moreover have "IsExpire demo_tx_env demo_omnilink 5 7 demo_unpaid \<longleftrightarrow> False" by code_simp
  ultimately have "ex_checkTx demo_group_env demo_unpaid (BlockTx 0) 0 s = (Inl ErrTxFeeTooLow, s)" for s
    by (simp add: ex_checkTx_def demo_group_env_def fail_def)
  then have "execTx demo_group_env demo_unpaid 0 0 ?s = (Inl ErrTxFeeTooLow, ?s)"
    by (simp add: execTx_def execTx_body_def demo_group_env_def bind_ex_def try_ex_def checkProxyExecTx_def ret_def lift_ex_def
       en_fork_def fail_def)
  moreover have "group_Check demo_tx_env demo_omnilink 5 1 100 (map Some demo_grp) = None" by code_simp
  moreover have "GroupCount (hd demo_grp) = int (length demo_grp) \<and> length demo_grp \<le> 20 \<and> demo_grp \<noteq> [] \<and>
      TxHeader (hd demo_grp) = Some (tx_Hash demo_tx_env (hd demo_grp))"
    by code_simp
  moreover have "demo_group_env\<lparr>en_txs := demo_unpaid # demo_grp\<rparr> = demo_group_env"
    "en_tx demo_group_env = demo_tx_env" "en_cfg demo_group_env = demo_omnilink" "en_height demo_group_env = 5"
    "en_MinTxFeeRate demo_group_env = 1" "en_MaxTxFee demo_group_env 5 = 100" "\<not> IsAPIEnvError demo_group_env ErrTxFeeTooLow"
    "GroupCount demo_unpaid = 0"
    by (simp_all add: demo_group_env_def IsAPIEnvError_def demo_unpaid_def demo_exec_env_def)
  ultimately show "drv_GetTxGroup demo_group_env (setEnv demo_group_env ob) 0 = Inl ErrTxGroupCount \<and>
      drv_GetTxGroup demo_group_env (setEnv (demo_group_env\<lparr>en_txs := demo_grp\<rparr>) ob) 0 = Inr demo_grp"
    using refused_tx_shifts_index [of demo_unpaid demo_group_env ?s ErrTxFeeTooLow ?s demo_grp ob]
    by (simp del: exec_list.simps)
qed

end
