(* ===== verification/Spec2Isabelle.thy ===== *)
theory Spec2Isabelle
  imports Difficulty Ledger_Theorems KVStore_Theorems Pow Merkle_Theorems Merkle_Branch Chain_Theorems
    Transactions_Theorems Mempool_Machine Block_Sections Mavl_Versions Store_List_Theorems
    Block_Exec_Demo
begin

text \<open>
  A model of the blockchain node under \<^verbatim>\<open>src/omnilink/omnilink-base\<close>, the base of the DPKI
  prototype. File names below are relative to that directory.

  \<^bold>\<open>The program.\<close> A transaction enters the mempool, which checks, indexes and expires it. A
  consensus driver takes transactions from the pool into a block, and the blockchain module adds
  the block to a tree of blocks, keeps orphans until their parent arrives, and moves the best
  chain to the branch with the most work. The executor runs the transactions of a block: it takes
  the fee, hands each to the contract its name stands for, checks that the contract wrote only keys
  it may, and undoes what fails, on key-value stores with transactions. The contract of the native
  coin moves balances through the account package. The writes of a block become a new version of
  a Merkle AVL tree, named by its root hash, which the block carries beside the Merkle root of its
  transactions. Forks switch rules on at configured heights. Commands query a state through range
  scans of the tree.

  \<^bold>\<open>The model.\<close> Definitions follow the code: a Go struct is a record, an integer of fixed width an
  \<open>int\<close> whose results pass through \<open>i64\<close> or \<open>i32\<close> (or a word), an error is the left side of a
  sum, a panic is \<open>GoPanic\<close> or an outer \<open>None\<close>, a map is a partial function or an association list
  where its order is seen. Code that is not in the directory (hash functions, the protobuf codec,
  address and crypto drivers, the message queue) is a field of an environment record or an
  argument. \<open>Omni_Prelude\<close> holds the integers, the errors and the shared lemmas.

  \<^item> Ledger. \<open>Account\<close> models \<^verbatim>\<open>account/{account,execaccount,genesis}.go\<close>: accounts and the
    sub-accounts of contracts, with keys and receipts. \<open>Ledger\<close> states the accounting contract
    and proves every operation an instance of it, by an invariant over the reachable ledgers;
    \<open>Ledger_Theorems\<close> has solvency, conservation and the refinement of the specification.
  \<^item> Databases. \<open>KVStores\<close> models \<^verbatim>\<open>executor/{statedb,localdb}.go\<close>,
    \<^verbatim>\<open>common/db/localdb.go\<close> and \<^verbatim>\<open>blockchain/localdb.go\<close>. \<open>KVStore_Theorems\<close>
    states the transactional store as the locale \<open>tx_store\<close> and interprets it on both stores.
  \<^item> Executor. \<open>Exec_Names\<close> models the names of contracts and the keys they own
    (\<^verbatim>\<open>types/types.go\<close>, \<^verbatim>\<open>executor/allow.go\<close>), \<open>Exec_Env\<close> and \<open>Exec_Tx\<close> model
    \<^verbatim>\<open>executor/execenv.go\<close> with the registry and the base driver of \<^verbatim>\<open>system/dapp\<close>, and
    \<open>Exec_Block\<close> models the messages of \<^verbatim>\<open>executor/executor.go\<close>. A contract is a value of
    \<open>driver\<close>, a function of what it reads; driver objects live in a heap, since the cache shares
    them. An operation is a function from the executor to a result and the executor after it.
    \<open>Exec_Logic\<close> is a program logic for such operations (triples \<open>spec P m Q E\<close>, one
    postcondition for results and one for errors) with the invariant \<open>wf_executor\<close>; \<open>Exec_Frame\<close>
    shows which operations leave the state alone, \<open>Exec_Runs\<close> what a transaction does between
    begin and commit, \<open>Exec_Permission\<close> who may write a key. \<open>Exec_Theorems\<close> has the properties
    of a block: its receipts are all it changed, every change is allowed, dispatch stays typed.
    \<open>Exec_Demo\<close> follows one block step by step, for the witnesses.
  \<^item> Coins. \<open>Coins_Driver\<close> models \<^verbatim>\<open>system/dapp/coins\<close> as such a driver over \<open>Account\<close>;
    \<open>Coins_Theorems\<close> shows that what it writes passes the executor's checks, that its local data
    can be taken back, and where it fails.
  \<^item> Block execution. \<open>Block_Exec\<close> models \<^verbatim>\<open>util/{util,exec}.go\<close>: duplicates, signatures,
    execution, hashes and the pairs for the store, on the node that makes a block and on those that
    check it. \<open>Block_State\<close> joins it with the state store: the state hash of an accepted block names
    the state its execution ended with. \<open>Block_Exec_Demo\<close> holds the witnesses.
  \<^item> State store. \<open>Mavl_Tree\<close> is the specification, a balanced tree with the data in its leaves.
    \<open>Mavl\<close> models \<^verbatim>\<open>system/store/mavl/db/{node,proof,tree}.go\<close>: nodes in memory or in the
    database under their hashes, insertion, removal, rotation, hashing, saving, proofs and scans;
    \<open>Mavl_Store\<close> models \<^verbatim>\<open>system/store/mavl/mavl.go\<close> and the messages of
    \<^verbatim>\<open>system/store/base.go\<close>. \<open>Mavl_Theorems\<close> relates a node to the tree it stands for by
    \<open>rep\<close>, and with \<open>Mavl_Update\<close>, \<open>Mavl_Save\<close> and \<open>Mavl_Proof\<close> shows that each operation
    commutes with it and does not panic. \<open>Mavl_Store_Theorems\<close> states what the store relies on as
    the locale \<open>kv_object\<close>; \<open>Mavl_Properties\<close> and \<open>Mavl_Versions\<close> state the properties: the tree
    is a sorted map, balanced, saved versions stay readable, and what proofs show.
  \<^item> Queries. \<open>Store_List\<close> models the paged listings of a state in \<^verbatim>\<open>system/store/base.go\<close>,
    \<^verbatim>\<open>types/types.go\<close> and \<^verbatim>\<open>account/account.go\<close> and the loops of
    \<^verbatim>\<open>system/dapp/commands/stat.go\<close> over the pages; in \<open>Store_List_Theorems\<close> the callbacks
    share the locale \<open>page_scan\<close>.
  \<^item> Blocks and work. \<open>Blocks\<close> models \<^verbatim>\<open>types/block.go\<close>, \<open>Difficulty\<close> the compact targets of
    \<^verbatim>\<open>common/difficulty\<close>, \<open>Pow\<close> the driver \<^verbatim>\<open>system/consensus/pow/pow.go\<close>: the mining
    round, the search for a nonce, and the checks of a block.
  \<^item> Merkle roots. \<open>Merkle\<close> and \<open>Merkle_Branch\<close> model \<^verbatim>\<open>common/merkle/merkle.go\<close>: the
    sequential, the parallel and the multi-layer root, the constant-space computation, branches
    and their verification. \<open>Merkle_Theorems\<close> and \<open>Merkle_Branch\<close> relate them to one plain
    recursion over levels. \<open>Block_Sections\<close> joins the sort of \<^verbatim>\<open>types/tx.go\<close> with the
    multi-layer root.
  \<^item> Chain. \<open>Block_Index\<close> models \<^verbatim>\<open>blockchain/{blockindex,chainview}.go\<close> with nodes in a heap,
    \<open>Orphan_Pool\<close> models \<^verbatim>\<open>blockchain/orphanpool.go\<close>, and \<open>Chain\<close> models
    \<^verbatim>\<open>blockchain/process.go\<close> with the parts of \<^verbatim>\<open>blockstore.go\<close> it writes: connecting,
    disconnecting, reorganising. \<open>Chain_Theorems\<close> follows the best chain.
  \<^item> Rules. \<open>Forks\<close> models \<^verbatim>\<open>types/fork.go\<close> and its configuration.
  \<^item> Transactions. \<open>Transactions\<close> models \<^verbatim>\<open>types/{tx,sign}.go\<close>: hashes, fees, expiry and groups;
    \<open>Transactions_Theorems\<close> has the properties.
  \<^item> Mempool. \<open>List_Map\<close> models \<^verbatim>\<open>common/listmap\<close> (locale \<open>keyed_list\<close>). \<open>Mempool\<close> models the
    queue and the indexes of \<^verbatim>\<open>system/mempool\<close>, \<open>Mempool_Pool\<close> the checks and the pool,
    \<open>Mempool_Theorems\<close> proves that the indexes agree in every reachable cache, \<open>Mempool_Events\<close>
    models the events of \<^verbatim>\<open>eventprocess.go\<close>, and \<open>Mempool_Machine\<close> the message loop as a step
    relation with its invariant.

  \<^bold>\<open>Loops.\<close> Recursion that follows a measure is a \<open>fun\<close> or a \<open>function\<close> with its termination
  proof; the walk up a branch has the address of the node plus one as fuel, since a parent has a
  smaller address, and the run of nonces the number of entries of its map. Loops whose end depends
  on their data are \<open>partial_function (option)\<close>, so that not returning is \<open>None\<close>: the search for a
  nonce, the walk to the root of an orphan, the processing of orphans, the last part of the
  Merkle computation, every recursion through the state tree, and the loops over pages. That they
  return is part of the properties, except for the orphan loops; that one of the page loops may
  not return is one too.

  \<^bold>\<open>Bounds.\<close> The theorems on trees assume fewer than \<open>2 ^ 31\<close> keys, the range of the \<open>int32\<close>
  that holds the size; the ones on Merkle branches assume what the code says, at most \<open>2 ^ 32\<close>
  leaves. Where a hash must separate values, the hypothesis speaks of the finitely many values at
  hand, and a witness shows that it can hold.

  \<^bold>\<open>Parameters of the executor.\<close> \<open>exec_env\<close> holds what is fixed while a block runs: the
  configuration, the registered drivers, the context of the block, and codecs, address drivers and
  error texts; \<open>pre_env\<close> adds the answers of the other modules to the one that executes a block.
  The properties of a block assume the forks that make failed transactions roll back
  (\<open>rollback_env\<close>) to be active, and of a contract only that its check and
  its local execution do not write to the state (\<open>driver_ok\<close>), which \<open>coins_driver_ok\<close> proves of
  the coins contract. The versions kept by the option \<^verbatim>\<open>mvcc\<close> are modelled and excluded there.

  \<^bold>\<open>Not modelled.\<close> The message queue, RPC, p2p and wallet modules are input and output around the
  core. Of the executor the queries and the upgrade messages are left out, and its plugins are
  arguments. A deferred function that runs while a panic passes is left out where the panic
  discards what it would change. Of the databases the prefix listings are left out, of the state
  store pruning, which deletes old versions in the background, and the memory tree and node cache,
  which hold copies of what the database holds. The delays of the miner are drawn from an
  exponential distribution in floating point and left out. Of the contracts in
  \<^verbatim>\<open>system/dapp\<close> only coins is modelled; those under \<^verbatim>\<open>omnilink-plugin\<close> are independent
  of the chain, most of them generated bindings. That the loops over orphans end is not proved.
\<close>

end
